(* ===== verification/Prelude.thy ===== *)
theory Prelude
  imports Complex_Main "HOL-Library.Char_ord"
begin

text \<open>
  What every component shares: the collections of rewrite rules the proofs draw on, the
  result type that stands for ``returns or raises'', and the part of Python's \<open>str\<close> and
  list interface the engine uses.

  A Python string is a \<^typ>\<open>string\<close> of ASCII code points.  The characters outside
  ASCII that the engine writes into its messages are the em dash and the middle dot; they are
  named \<open>em_dash\<close> and \<open>middle_dot\<close> and sit at the positions Windows-1252 gives them, so that a
  message keeps the length Python's \<open>len\<close> reports.  A UUID is carried as the text it renders to.
\<close>

named_theorems py_str_simps \<open>evaluation of the string operations\<close>
named_theorems res_simps \<open>inversion of computations that may raise\<close>

type_synonym uuid = string

section \<open>Computations that may raise\<close>

text \<open>\<open>and_then r f\<close> is the statement sequence \<open>x = r; f x\<close>: an exception in \<open>r\<close> skips \<open>f\<close>.\<close>

fun and_then :: "'e + 'a \<Rightarrow> ('a \<Rightarrow> 'e + 'b) \<Rightarrow> 'e + 'b" where
  "and_then (Inl e) f = Inl e"
| "and_then (Inr x) f = f x"

text \<open>\<open>guard c e k\<close> is \<open>if c: raise e\<close> followed by \<open>k\<close>.\<close>

definition raise_if :: "bool \<Rightarrow> 'e \<Rightarrow> 'e + 'a \<Rightarrow> 'e + 'a" where
  "raise_if c e k = (if c then Inl e else k)"

lemma and_then_Inr [res_simps]:
  "and_then r f = Inr y \<longleftrightarrow> (\<exists>x. r = Inr x \<and> f x = Inr y)"
  by (cases r) auto

lemma and_then_Inl [res_simps]:
  "and_then r f = Inl e \<longleftrightarrow> r = Inl e \<or> (\<exists>x. r = Inr x \<and> f x = Inl e)"
  by (cases r) auto

lemma raise_if_Inr [res_simps]: "raise_if c e k = Inr y \<longleftrightarrow> \<not> c \<and> k = Inr y"
  by (simp add: raise_if_def)

lemma raise_if_Inl [res_simps]:
  "raise_if c e k = Inl e' \<longleftrightarrow> (c \<and> e' = e) \<or> (\<not> c \<and> k = Inl e')"
  by (auto simp: raise_if_def)

section \<open>Lists\<close>

fun py_last :: "'a list \<Rightarrow> 'a option" where
  "py_last [] = None"
| "py_last [x] = Some x"
| "py_last (x # y # ys) = py_last (y # ys)"

lemma py_last_append [simp]: "py_last (xs @ [x]) = Some x"
  by (induction xs rule: py_last.induct) auto

lemma py_last_None [simp]: "py_last xs = None \<longleftrightarrow> xs = []"
  by (induction xs rule: py_last.induct) auto

text \<open>Stable insertion sort on a key: Python's \<open>sorted(xs, key=f)\<close>.\<close>

fun insert_by :: "('a \<Rightarrow> 'k::linorder) \<Rightarrow> 'a \<Rightarrow> 'a list \<Rightarrow> 'a list" where
  "insert_by f x [] = [x]"
| "insert_by f x (y # ys) = (if f x \<le> f y then x # y # ys else y # insert_by f x ys)"

fun sorted_by :: "('a \<Rightarrow> 'k::linorder) \<Rightarrow> 'a list \<Rightarrow> 'a list" where
  "sorted_by f [] = []"
| "sorted_by f (x # xs) = insert_by f x (sorted_by f xs)"

lemma set_insert_by [simp]: "set (insert_by f x xs) = insert x (set xs)"
  by (induction xs) auto

lemma set_sorted_by [simp]: "set (sorted_by f xs) = set xs"
  by (induction xs) auto

lemma length_insert_by [simp]: "length (insert_by f x xs) = Suc (length xs)"
  by (induction xs) auto

lemma length_sorted_by [simp]: "length (sorted_by f xs) = length xs"
  by (induction xs) auto

section \<open>Strings\<close>

abbreviation em_dash :: char where
  "em_dash \<equiv> CHR 0x97"

abbreviation middle_dot :: char where
  "middle_dot \<equiv> CHR 0xB7"

definition nl :: string where
  "nl = [CHR 0x0A]"

fun digit_char :: "nat \<Rightarrow> char" where
  "digit_char d = (char_of (48 + d) :: char)"

fun string_of_nat :: "nat \<Rightarrow> string" where
  "string_of_nat n =
     (if n < 10 then [digit_char n] else string_of_nat (n div 10) @ [digit_char (n mod 10)])"

declare string_of_nat.simps [simp del]

definition string_of_int :: "int \<Rightarrow> string" where
  "string_of_int i = (if i < 0 then ''-'' @ string_of_nat (nat (- i)) else string_of_nat (nat i))"

lemma string_of_nat_nonempty [simp]: "string_of_nat n \<noteq> []"
  by (subst string_of_nat.simps) simp

fun py_join :: "string \<Rightarrow> string list \<Rightarrow> string" where
  "py_join sep [] = []"
| "py_join sep [x] = x"
| "py_join sep (x # y # ys) = x @ sep @ py_join sep (y # ys)"

text \<open>\<open>str.startswith(prefix)\<close> and \<open>sub in s\<close>.\<close>

text \<open>\<open>text.split(c)\<close> for one character; the pieces are never an empty list.\<close>

fun split_on :: "char \<Rightarrow> string \<Rightarrow> string list" where
  "split_on d [] = [[]]"
| "split_on d (c # cs) =
    (if c = d then [] # split_on d cs
     else (case split_on d cs of p # ps \<Rightarrow> (c # p) # ps | [] \<Rightarrow> [[c]]))"

lemma split_on_nonempty [simp]: "split_on d s \<noteq> []"
  by (induction s) (auto split: list.split)

lemma split_on_plain: "d \<notin> set s \<Longrightarrow> split_on d s = [s]"
  by (induction s) auto

lemma split_on_cons: "d \<notin> set s \<Longrightarrow> split_on d (s @ d # t) = s # split_on d t"
  by (induction s) auto

lemma split_on_join: "list_all (\<lambda>p. d \<notin> set p) ps \<Longrightarrow> ps \<noteq> [] \<Longrightarrow> split_on d (py_join [d] ps) = ps"
proof (induction "[d]" ps rule: py_join.induct)
  case (3 x y ys)
  then show ?case by (simp add: split_on_cons)
qed (simp_all add: split_on_plain)

lemma split_on_parts: "p \<in> set (split_on d s) \<Longrightarrow> d \<notin> set p"
  by (induction s arbitrary: p) (auto split: list.splits if_splits)

fun starts_with :: "string \<Rightarrow> string \<Rightarrow> bool" where
  "starts_with [] s = True"
| "starts_with (p # ps) [] = False"
| "starts_with (p # ps) (c # cs) = (p = c \<and> starts_with ps cs)"

fun contains :: "string \<Rightarrow> string \<Rightarrow> bool" where
  "contains p [] = (p = [])"
| "contains p (c # cs) = (starts_with p (c # cs) \<or> contains p cs)"

lemma starts_with_iff: "starts_with p s \<longleftrightarrow> (\<exists>t. s = p @ t)"
  by (induction p s rule: starts_with.induct) auto

lemma contains_iff: "contains p s \<longleftrightarrow> (\<exists>u v. s = u @ p @ v)"
proof (induction s)
  case Nil
  then show ?case by auto
next
  case (Cons c cs)
  have "contains p (c # cs) \<longleftrightarrow> (\<exists>t. c # cs = p @ t) \<or> (\<exists>u v. cs = u @ p @ v)"
    by (simp add: starts_with_iff Cons.IH)
  also have "\<dots> \<longleftrightarrow> (\<exists>u v. c # cs = u @ p @ v)"
    by (metis append_Cons append_Nil neq_Nil_conv list.inject)
  finally show ?case .
qed

text \<open>ASCII whitespace as \<open>str.isspace\<close> sees it, \<open>str.strip\<close>, \<open>str.lower\<close>/\<open>casefold\<close>.\<close>

definition is_space :: "char \<Rightarrow> bool" where
  "is_space c = (let n = (of_char c :: nat) in n = 32 \<or> (9 \<le> n \<and> n \<le> 13) \<or> (28 \<le> n \<and> n \<le> 31))"

definition py_strip :: "string \<Rightarrow> string" where
  "py_strip s = rev (dropWhile is_space (rev (dropWhile is_space s)))"

definition lower_char :: "char \<Rightarrow> char" where
  "lower_char c = (let n = (of_char c :: nat) in if 65 \<le> n \<and> n \<le> 90 then char_of (n + 32) else c)"

definition casefold :: "string \<Rightarrow> string" where
  "casefold s = map lower_char s"

lemma lower_char_idem [simp]: "lower_char (lower_char c) = lower_char c"
  by (auto simp: lower_char_def Let_def)

lemma casefold_idem [simp]: "casefold (casefold s) = casefold s"
  by (simp add: casefold_def)

text \<open>\<open>str.replace(a, b)\<close> for a one-character pattern, \<open>str.removeprefix\<close>.\<close>

definition replace_char :: "char \<Rightarrow> char \<Rightarrow> string \<Rightarrow> string" where
  "replace_char a b s = map (\<lambda>c. if c = a then b else c) s"

definition remove_prefix :: "string \<Rightarrow> string \<Rightarrow> string" where
  "remove_prefix p s = (if starts_with p s then drop (length p) s else s)"

text \<open>\<open>str.splitlines()\<close> on ASCII: the breaks are LF, VT, FF, CR, CR LF and the separators 28--30.\<close>

definition is_line_break :: "char \<Rightarrow> bool" where
  "is_line_break c = (let n = (of_char c :: nat) in (10 \<le> n \<and> n \<le> 13) \<or> (28 \<le> n \<and> n \<le> 30))"

fun splitlines_from :: "string \<Rightarrow> string \<Rightarrow> string list" where
  "splitlines_from acc [] = (if acc = [] then [] else [rev acc])"
| "splitlines_from acc (c # cs) =
     (if c = CHR 0x0D then
        (case cs of
           d # ds \<Rightarrow> if d = CHR 0x0A then rev acc # splitlines_from [] ds
                     else rev acc # splitlines_from [] (d # ds)
         | [] \<Rightarrow> [rev acc])
      else if is_line_break c then rev acc # splitlines_from [] cs
      else splitlines_from (c # acc) cs)"

definition splitlines :: "string \<Rightarrow> string list" where
  "splitlines s = splitlines_from [] s"

text \<open>\<open>repr\<close> of an ASCII string, as the \<open>!r\<close> conversion of an f-string prints it.\<close>

definition hex_digit :: "nat \<Rightarrow> char" where
  "hex_digit n = (if n < 10 then char_of (48 + n) else char_of (87 + n))"

definition repr_char :: "char \<Rightarrow> char \<Rightarrow> string" where
  "repr_char q c =
     (if c = q then [CHR 0x5C, c]
      else if c = CHR 0x5C then [CHR 0x5C, CHR 0x5C]
      else if c = CHR 0x0A then [CHR 0x5C, CHR ''n'']
      else if c = CHR 0x0D then [CHR 0x5C, CHR ''r'']
      else if c = CHR 0x09 then [CHR 0x5C, CHR ''t'']
      else let n = (of_char c :: nat) in
        if n < 32 \<or> n = 127 then [CHR 0x5C, CHR ''x'', hex_digit (n div 16), hex_digit (n mod 16)]
        else [c])"

definition repr_str :: "string \<Rightarrow> string" where
  "repr_str s =
     (let q = (if CHR 0x27 \<in> set s \<and> CHR 0x22 \<notin> set s then CHR 0x22 else CHR 0x27)
      in [q] @ concat (map (repr_char q) s) @ [q])"

text \<open>The truth value of \<open>str | None\<close>: both \<open>None\<close> and the empty string are false.\<close>

fun truthy :: "string option \<Rightarrow> bool" where
  "truthy None = False"
| "truthy (Some s) = (s \<noteq> [])"

fun or_else :: "string option \<Rightarrow> string \<Rightarrow> string" where
  "or_else None d = d"
| "or_else (Some s) d = (if s = [] then d else s)"

lemma truthy_iff: "truthy x \<longleftrightarrow> (\<exists>s. x = Some s \<and> s \<noteq> [])"
  by (cases x) auto

text \<open>
  Dictionaries in insertion order: \<open>d.pop(key, None)\<close>, \<open>d[key] = value\<close>, and the display
  \<open>{k: v for ...}\<close>, in which a later value for a key replaces the earlier one in its place.
\<close>

definition dict_pop :: "string \<Rightarrow> (string \<times> 'a) list \<Rightarrow> (string \<times> 'a) list" where
  "dict_pop k d = filter (\<lambda>(k', v). k' \<noteq> k) d"

fun dict_put :: "string \<Rightarrow> 'a \<Rightarrow> (string \<times> 'a) list \<Rightarrow> (string \<times> 'a) list" where
  "dict_put k v [] = [(k, v)]"
| "dict_put k v ((k', v') # d) = (if k' = k then (k, v) # d else (k', v') # dict_put k v d)"

definition dict_of :: "(string \<times> 'a) list \<Rightarrow> (string \<times> 'a) list" where
  "dict_of kvs = fold (\<lambda>(k, v). dict_put k v) kvs []"

lemma map_of_dict_pop: "map_of (dict_pop k d) = (map_of d)(k := None)"
  by (induction d) (auto simp: dict_pop_def)

lemma map_of_dict_put: "map_of (dict_put k v d) = (map_of d)(k \<mapsto> v)"
  by (induction k v d rule: dict_put.induct) auto

lemma fst_dict_put: "fst ` set (dict_put k v d) = insert k (fst ` set d)"
  by (induction k v d rule: dict_put.induct) auto

lemma distinct_dict_put: "distinct (map fst d) \<Longrightarrow> distinct (map fst (dict_put k v d))"
proof (induction k v d rule: dict_put.induct)
  case (2 k v k' v' d)
  then show ?case using fst_dict_put[of k v d] by (auto simp flip: set_map)
qed simp

lemma map_of_dict_of: "map_of (dict_of kvs) = map_of (rev kvs)"
proof -
  have "map_of (fold (\<lambda>(k, v). dict_put k v) kvs d) = map_of d ++ map_of (rev kvs)" for d :: "(string \<times> 'a) list"
    by (induction kvs arbitrary: d) (auto simp: map_of_dict_put map_add_def split: option.splits)
  from this[of "[]"] show ?thesis by (simp add: dict_of_def)
qed

text \<open>The order of strings: their code points, compared lexicographically.\<close>

fun code_le :: "string \<Rightarrow> string \<Rightarrow> bool" where
  "code_le [] ys = True"
| "code_le (x # xs) [] = False"
| "code_le (x # xs) (y # ys) =
     ((of_char x :: nat) < of_char y \<or> (x = y \<and> code_le xs ys))"

lemma code_le_refl [simp]: "code_le xs xs"
  by (induction xs) auto

lemma code_le_total: "code_le xs ys \<or> code_le ys xs"
proof (induction xs ys rule: code_le.induct)
  case (3 x xs y ys)
  have "(of_char x :: nat) = of_char y \<Longrightarrow> x = y" by simp
  then show ?case using 3 by (auto simp: neq_iff)
qed auto

lemma code_le_antisym: "code_le xs ys \<Longrightarrow> code_le ys xs \<Longrightarrow> xs = ys"
proof (induction xs ys rule: code_le.induct)
  case (2 x xs)
  then show ?case by simp
qed (case_tac ys, auto)

lemma code_le_trans: "code_le xs ys \<Longrightarrow> code_le ys zs \<Longrightarrow> code_le xs zs"
proof (induction xs ys arbitrary: zs rule: code_le.induct)
  case (3 x xs y ys)
  then show ?case by (cases zs) auto
qed auto

section \<open>Decimal numerals are read back\<close>

definition digits_value :: "string \<Rightarrow> nat" where
  "digits_value s = foldl (\<lambda>a c. a * 10 + (of_char c - 48)) 0 s"

lemma digit_char_value: "d < 10 \<Longrightarrow> (of_char (digit_char d) :: nat) - 48 = d"
  by simp

lemma digits_value_string_of_nat: "digits_value (string_of_nat n) = n"
proof (induction n rule: string_of_nat.induct)
  case (1 n)
  show ?case
  proof (cases "n < 10")
    case True
    then show ?thesis
      by (subst string_of_nat.simps) (simp add: digits_value_def digit_char_value del: digit_char.simps)
  next
    case False
    with 1 show ?thesis
      by (subst string_of_nat.simps)
        (simp add: digits_value_def digit_char_value del: digit_char.simps)
  qed
qed

lemma string_of_nat_eq: "string_of_nat m = string_of_nat n \<longleftrightarrow> m = n"
  by (metis digits_value_string_of_nat)

lemma hd_string_of_nat: "hd (string_of_nat n) \<noteq> CHR ''-''"
proof (induction n rule: string_of_nat.induct)
  case (1 n)
  have "digit_char d \<noteq> CHR ''-''" if "d < 10" for d
  proof
    assume e: "digit_char d = CHR ''-''"
    have "(of_char (digit_char d) :: nat) = 48 + d" using that by simp
    then show False unfolding e by simp
  qed
  with 1 show ?case
    by (subst string_of_nat.simps) (simp add: hd_append del: digit_char.simps)
qed

lemma string_of_int_eq: "string_of_int i = string_of_int j \<longleftrightarrow> i = j"
proof -
  have "''-'' @ string_of_nat m \<noteq> string_of_nat n" for m n
    using hd_string_of_nat[of n] by (metis append_Cons list.sel(1))
  then show ?thesis
    by (auto simp: string_of_int_def string_of_nat_eq) (metis append_Cons append_Nil)+
qed

section \<open>Numbers\<close>

text \<open>Python's \<open>round\<close>: to the nearest integer, ties to even.\<close>

definition py_round :: "rat \<Rightarrow> int" where
  "py_round x =
    (let f = \<lfloor>x\<rfloor>; d = x - of_int f
     in if d < 1/2 then f else if d > 1/2 then f + 1 else if even f then f else f + 1)"

text \<open>
  \<open>f"{x:.df}"\<close> for a non-negative quotient.  The exact quotient is formatted; binary64 differs
  from it far below the last digit printed, so the two can only disagree on an exact tie.
\<close>

definition pad_left :: "nat \<Rightarrow> string \<Rightarrow> string" where
  "pad_left n s = replicate (n - length s) (CHR ''0'') @ s"

definition format_fixed :: "nat \<Rightarrow> rat \<Rightarrow> string" where
  "format_fixed d x =
    (let m = nat (py_round (x * 10 ^ d))
     in string_of_nat (m div 10 ^ d) @ (if d = 0 then [] else ''.'' @ pad_left d (string_of_nat (m mod 10 ^ d))))"

lemmas py_str_defs = nl_def string_of_int_def is_space_def py_strip_def lower_char_def
  casefold_def replace_char_def remove_prefix_def is_line_break_def splitlines_def
  hex_digit_def repr_char_def repr_str_def

declare py_str_defs [py_str_simps]

end
