(* ===== verification/Flow_Types.thy ===== *)
theory Flow_Types
  imports Prelude
begin

text \<open>
  The data that crosses the workflow/activity boundary (engine/state.py) and the typed
  errors (engine/errors.py, with the two adapter-side families the retry policy names).
  Field prefixes keep the record selectors apart; constructor names are the source's.
\<close>

section \<open>Errors\<close>

text \<open>
  One constructor per exception class, carrying \<open>str(exc)\<close>.  \<open>OtherError\<close> is any exception
  the engine did not raise deliberately, with its class name.
\<close>

datatype error =
    InvariantViolation string
  | RiskTierLowered string
  | ProtectedPathWritten string
  | PolicyDenied string
  | GateRejected string
  | SandboxInfrastructureError string
  | AdapterError string
  | PermissionDenied string
  | NotFound string
  | ConfigError string
  | LLMError string
  | LLMAuthError string
  | LLMOutputTruncated string
  | LLMRequestRejected string
  | ModelRefusal "string option" string
  | OtherError string string

fun err_type :: "error \<Rightarrow> string" where
  "err_type (InvariantViolation m) = ''InvariantViolation''"
| "err_type (RiskTierLowered m) = ''RiskTierLowered''"
| "err_type (ProtectedPathWritten m) = ''ProtectedPathWritten''"
| "err_type (PolicyDenied m) = ''PolicyDenied''"
| "err_type (GateRejected m) = ''GateRejected''"
| "err_type (SandboxInfrastructureError m) = ''SandboxInfrastructureError''"
| "err_type (AdapterError m) = ''AdapterError''"
| "err_type (PermissionDenied m) = ''PermissionDenied''"
| "err_type (NotFound m) = ''NotFound''"
| "err_type (ConfigError m) = ''ConfigError''"
| "err_type (LLMError m) = ''LLMError''"
| "err_type (LLMAuthError m) = ''LLMAuthError''"
| "err_type (LLMOutputTruncated m) = ''LLMOutputTruncated''"
| "err_type (LLMRequestRejected m) = ''LLMRequestRejected''"
| "err_type (ModelRefusal category detail) = ''ModelRefusal''"
| "err_type (OtherError t m) = t"

fun err_msg :: "error \<Rightarrow> string" where
  "err_msg (InvariantViolation m) = m"
| "err_msg (RiskTierLowered m) = m"
| "err_msg (ProtectedPathWritten m) = m"
| "err_msg (PolicyDenied m) = m"
| "err_msg (GateRejected m) = m"
| "err_msg (SandboxInfrastructureError m) = m"
| "err_msg (AdapterError m) = m"
| "err_msg (PermissionDenied m) = m"
| "err_msg (NotFound m) = m"
| "err_msg (ConfigError m) = m"
| "err_msg (LLMError m) = m"
| "err_msg (LLMAuthError m) = m"
| "err_msg (LLMOutputTruncated m) = m"
| "err_msg (LLMRequestRejected m) = m"
| "err_msg (ModelRefusal category detail) =
     ''model declined the request (category='' @ or_else category ''unspecified'' @ '')''"
| "err_msg (OtherError t m) = m"

type_synonym 'a res = "error + 'a"

section \<open>JSON values\<close>

text \<open>The \<open>dict[str, Any]\<close> payloads: objects keep insertion order, as Python dictionaries do.\<close>

datatype json =
    JNull
  | JBool bool
  | JInt int
  | JStr string
  | JList "json list"
  | JObj "(string \<times> json) list"

section \<open>Risk tiers\<close>

datatype risk_tier = Low | Medium | High

text \<open>\<open>RISK_TIER_ORDER\<close>.\<close>

fun RISK_TIER_ORDER :: "risk_tier \<Rightarrow> nat" where
  "RISK_TIER_ORDER Low = 0"
| "RISK_TIER_ORDER Medium = 1"
| "RISK_TIER_ORDER High = 2"

lemma RISK_TIER_ORDER_inj [simp]: "RISK_TIER_ORDER a = RISK_TIER_ORDER b \<longleftrightarrow> a = b"
  by (cases a; cases b) simp_all

instantiation risk_tier :: linorder
begin

definition less_eq_risk_tier :: "risk_tier \<Rightarrow> risk_tier \<Rightarrow> bool" where
  "less_eq_risk_tier a b \<longleftrightarrow> RISK_TIER_ORDER a \<le> RISK_TIER_ORDER b"

definition less_risk_tier :: "risk_tier \<Rightarrow> risk_tier \<Rightarrow> bool" where
  "less_risk_tier a b \<longleftrightarrow> RISK_TIER_ORDER a < RISK_TIER_ORDER b"

instance
  by standard (auto simp: less_eq_risk_tier_def less_risk_tier_def)

end

lemmas tier_order = less_eq_risk_tier_def less_risk_tier_def

lemma Low_least [simp]: "Low \<le> t"
  by (simp add: tier_order)

lemma le_Low_iff [simp]: "t \<le> Low \<longleftrightarrow> t = Low"
  by (cases t) (simp_all add: tier_order)

lemma High_greatest [simp]: "t \<le> High"
  by (cases t) (simp_all add: tier_order)

lemma High_le_iff [simp]: "High \<le> t \<longleftrightarrow> t = High"
  by (cases t) (simp_all add: tier_order)

fun tier_str :: "risk_tier \<Rightarrow> string" where
  "tier_str Low = ''low''"
| "tier_str Medium = ''medium''"
| "tier_str High = ''high''"

section \<open>Nodes\<close>

datatype node_class = DETERMINISTIC | ADVISORY | GENERATIVE | VERIFIER

section \<open>What flows along the edges\<close>

record ticket =
  tk_id :: string
  tk_system :: string
  tk_title :: string
  tk_body :: string
  tk_state :: "string option"
  tk_acceptance_criteria :: "string list"
  tk_labels :: "string list"
  tk_story_points :: "int option"

record repo_pin =
  rp_name :: string
  rp_path :: string
  rp_commit :: string

record workspace =
  ws_repos :: "repo_pin list"

record change_plan =
  cp_summary :: string
  cp_steps :: "string list"

record file_change =
  fc_path :: string
  fc_added :: int
  fc_removed :: int

record proposed_edit =
  pe_path :: string
  pe_content :: string
  pe_deleted :: bool

record risk_rules =
  rr_high_paths :: "string list"
  rr_medium_paths :: "string list"
  rr_medium_changed_files :: "int option"
  rr_high_changed_files :: "int option"

record diff =
  df_files :: "file_change list"

definition diff_paths :: "diff \<Rightarrow> string list" where
  "diff_paths d = map fc_path (df_files d)"

datatype verdict_source = SourceSandbox | SourceCI

fun source_str :: "verdict_source \<Rightarrow> string" where
  "source_str SourceSandbox = ''sandbox''"
| "source_str SourceCI = ''ci''"

record ci_result =
  cr_exit_code :: int
  cr_source :: verdict_source
  cr_url :: "string option"
  cr_duration_ms :: int

definition is_external_anchor :: "ci_result \<Rightarrow> bool" where
  "is_external_anchor r \<longleftrightarrow> cr_source r = SourceCI"

record sast_result =
  sr_high :: int
  sr_medium :: int
  sr_low :: int
  sr_report_url :: "string option"

text \<open>A graded finding is the dictionary \<open>{detail, severity}\<close>.\<close>

record graded_finding =
  gf_detail :: string
  gf_severity :: string

record verification =
  vf_verifier :: string
  vf_passed :: bool
  vf_findings :: "string list"
  vf_graded :: "graded_finding list"

record approval =
  ap_principal :: string
  ap_approved :: bool
  ap_risk_tier :: risk_tier
  ap_evidence_digest :: string
  ap_comment :: string

record artifact =
  ar_kind :: string
  ar_uri :: string
  ar_digest :: string

datatype isolation = Enforced | Degraded

fun isolation_str :: "isolation \<Rightarrow> string" where
  "isolation_str Enforced = ''enforced''"
| "isolation_str Degraded = ''degraded''"

text \<open>
  The notes of a node (engine/nodes/notes.py writes them): a summary and rendered sections.
  The empty dictionary \<open>{}\<close> is \<open>None\<close> in \<open>fs_notes\<close>.
\<close>

record check_row =
  ck_label :: string
  ck_required :: string
  ck_found :: string
  ck_ok :: bool

datatype note_section =
    FieldsSection string "(string \<times> string) list"
  | ChecksSection string "check_row list"
  | TextSection (sec_title: string) (sec_body: string) (sec_untrusted: bool)
      (sec_truncated: bool) (sec_kept: string) (sec_full_length: nat)

record node_notes =
  nt_summary :: string
  nt_sections :: "note_section list"

definition SCHEMA_VERSION :: int where
  "SCHEMA_VERSION = 1"

record flow_state =
  fs_run_id :: uuid
  fs_root_run_id :: uuid
  fs_ticket :: ticket
  fs_policy_commit :: string
  fs_policy_bundle :: json
  fs_schema_version :: int
  fs_parent_run_id :: "uuid option"
  fs_app_name :: string
  fs_risk_tier :: risk_tier
  fs_provisional_risk_tier :: "risk_tier option"
  fs_workspace :: "workspace option"
  fs_plan :: "change_plan option"
  fs_branch :: "string option"
  fs_base_branch :: "string option"
  fs_base_commit :: "string option"
  fs_head_commit :: "string option"
  fs_diff :: "diff option"
  fs_proposed_edits :: "proposed_edit list"
  fs_sandbox_isolation :: "isolation option"
  fs_sandbox_gaps :: "string list"
  fs_ci_result :: "ci_result option"
  fs_sandbox_result :: "ci_result option"
  fs_ci_detail :: "string option"
  fs_sast_result :: "sast_result option"
  fs_coverage :: "rat option"
  fs_verifications :: "verification list"
  fs_risk_tier_reason :: string
  fs_advisory_objections :: "string list"
  fs_rejected_by :: "string list"
  fs_approvals :: "approval list"
  fs_budget_cents_allowed :: int
  fs_spend_micro_cents :: "int option"
  fs_retry_count :: int
  fs_push_attempt :: int
  fs_merged_commit :: "string option"
  fs_cleanup :: "string option"
  fs_artifacts :: "artifact list"
  fs_notes :: "node_notes option"

text \<open>
  \<open>FlowState(run_id, root_run_id, ticket, policy_commit, policy_bundle)\<close>: the five required
  arguments, and the declared default everywhere else.
\<close>

definition new_flow_state :: "uuid \<Rightarrow> uuid \<Rightarrow> ticket \<Rightarrow> string \<Rightarrow> json \<Rightarrow> flow_state" where
  "new_flow_state run_id root_run_id tk policy_commit policy_bundle =
    \<lparr> fs_run_id = run_id, fs_root_run_id = root_run_id, fs_ticket = tk,
      fs_policy_commit = policy_commit, fs_policy_bundle = policy_bundle,
      fs_schema_version = SCHEMA_VERSION, fs_parent_run_id = None, fs_app_name = [],
      fs_risk_tier = Low, fs_provisional_risk_tier = None, fs_workspace = None,
      fs_plan = None, fs_branch = None, fs_base_branch = None, fs_base_commit = None,
      fs_head_commit = None, fs_diff = None, fs_proposed_edits = [],
      fs_sandbox_isolation = None, fs_sandbox_gaps = [], fs_ci_result = None,
      fs_sandbox_result = None, fs_ci_detail = None, fs_sast_result = None,
      fs_coverage = None, fs_verifications = [], fs_risk_tier_reason = [],
      fs_advisory_objections = [], fs_rejected_by = [], fs_approvals = [],
      fs_budget_cents_allowed = 0, fs_spend_micro_cents = Some 0, fs_retry_count = 0,
      fs_push_attempt = 0, fs_merged_commit = None, fs_cleanup = None,
      fs_artifacts = [], fs_notes = None \<rparr>"

end
