(* ===== verification/PyRegex.thy ===== *)
theory PyRegex
  imports Prelude
begin

text \<open>
  The part of Python's \<open>re\<close> the policy modules use, as a backtracking matcher.  A pattern is
  matched at a position given by the reversed text already passed and the text to come, and
  yields every end position in the order the engine tries them: the first element is the
  match Python reports.  Repetition is only ever applied to a character class in the
  modelled patterns, so \<open>StarC\<close> takes a class.

  \<open>lang_re\<close> is the declarative reading of the anchor-free fragment; \<open>ends_lang\<close> says that
  the matcher explores exactly the ways of splitting the text that the language allows.
\<close>

datatype re =
    Eps
  | Cls "char \<Rightarrow> bool"
  | StarC "char \<Rightarrow> bool"
  | Seq re re
  | Alt re re
  | Bol
  | Eol
  | WordB

type_synonym position = "string \<times> string"

definition is_word :: "char \<Rightarrow> bool" where
  "is_word c = (let n = (of_char c :: nat) in
     (48 \<le> n \<and> n \<le> 57) \<or> (65 \<le> n \<and> n \<le> 90) \<or> (97 \<le> n \<and> n \<le> 122) \<or> n = 95)"

fun word_at :: "string \<Rightarrow> bool" where
  "word_at [] = False"
| "word_at (c # cs) = is_word c"

fun star_ends :: "(char \<Rightarrow> bool) \<Rightarrow> string \<Rightarrow> string \<Rightarrow> position list" where
  "star_ends p pre [] = [(pre, [])]"
| "star_ends p pre (c # cs) =
     (if p c then star_ends p (c # pre) cs @ [(pre, c # cs)] else [(pre, c # cs)])"

fun ends :: "re \<Rightarrow> string \<Rightarrow> string \<Rightarrow> position list" where
  "ends Eps pre s = [(pre, s)]"
| "ends (Cls p) pre s = (case s of [] \<Rightarrow> [] | c # cs \<Rightarrow> if p c then [(c # pre, cs)] else [])"
| "ends (StarC p) pre s = star_ends p pre s"
| "ends (Seq a b) pre s = concat (map (\<lambda>(pre', s'). ends b pre' s') (ends a pre s))"
| "ends (Alt a b) pre s = ends a pre s @ ends b pre s"
| "ends Bol pre s = (if pre = [] then [(pre, s)] else [])"
| "ends Eol pre s = (if s = [] \<or> s = [CHR 0x0A] then [(pre, s)] else [])"
| "ends WordB pre s = (if word_at pre \<noteq> word_at s then [(pre, s)] else [])"

text \<open>\<open>pattern.match\<close>, \<open>pattern.search\<close> and \<open>len(pattern.findall(...))\<close>.\<close>

definition re_match :: "re \<Rightarrow> string \<Rightarrow> bool" where
  "re_match r s \<longleftrightarrow> ends r [] s \<noteq> []"

fun search_from :: "re \<Rightarrow> string \<Rightarrow> string \<Rightarrow> bool" where
  "search_from r pre [] = (ends r pre [] \<noteq> [])"
| "search_from r pre (c # cs) = (ends r pre (c # cs) \<noteq> [] \<or> search_from r (c # pre) cs)"

definition re_search :: "re \<Rightarrow> string \<Rightarrow> bool" where
  "re_search r s = search_from r [] s"

function count_from :: "re \<Rightarrow> string \<Rightarrow> string \<Rightarrow> nat" where
  "count_from r pre s =
     (case ends r pre s of
        [] \<Rightarrow> (case s of [] \<Rightarrow> 0 | c # cs \<Rightarrow> count_from r (c # pre) cs)
      | (pre', s') # _ \<Rightarrow>
          if length s' < length s then Suc (count_from r pre' s')
          else (case s of [] \<Rightarrow> 1 | c # cs \<Rightarrow> Suc (count_from r (c # pre) cs)))"
  by pat_completeness auto
termination
  by (relation "measure (\<lambda>(r, pre, s). length s)") auto

declare count_from.simps [simp del]

definition count_matches :: "re \<Rightarrow> string \<Rightarrow> nat" where
  "count_matches r s = count_from r [] s"

section \<open>Building patterns\<close>

definition Lit :: "char \<Rightarrow> re" where
  "Lit c = Cls (\<lambda>x. x = c)"

definition LitI :: "char \<Rightarrow> re" where
  "LitI c = Cls (\<lambda>x. lower_char x = lower_char c)"

fun seqs :: "re list \<Rightarrow> re" where
  "seqs [] = Eps"
| "seqs (r # rs) = Seq r (seqs rs)"

fun alts :: "re list \<Rightarrow> re" where
  "alts [] = Cls (\<lambda>_. False)"
| "alts [r] = r"
| "alts (r # r' # rs) = Alt r (alts (r' # rs))"

definition Word :: "string \<Rightarrow> re" where
  "Word w = seqs (map Lit w)"

definition WordI :: "string \<Rightarrow> re" where
  "WordI w = seqs (map LitI w)"

definition Opt :: "re \<Rightarrow> re" where
  "Opt r = Alt r Eps"

definition PlusC :: "(char \<Rightarrow> bool) \<Rightarrow> re" where
  "PlusC p = Seq (Cls p) (StarC p)"

text \<open>\<open>.\<close> matches everything but a newline; \<open>[^/]\<close> matches a newline too.\<close>

definition dot :: "char \<Rightarrow> bool" where
  "dot c \<longleftrightarrow> c \<noteq> CHR 0x0A"

definition not_slash :: "char \<Rightarrow> bool" where
  "not_slash c \<longleftrightarrow> c \<noteq> CHR ''/''"

lemmas re_build = Lit_def LitI_def Word_def WordI_def Opt_def PlusC_def dot_def not_slash_def

section \<open>The language of an anchor-free pattern\<close>

fun lang_re :: "re \<Rightarrow> string \<Rightarrow> bool" where
  "lang_re Eps u = (u = [])"
| "lang_re (Cls p) u = (\<exists>c. u = [c] \<and> p c)"
| "lang_re (StarC p) u = list_all p u"
| "lang_re (Seq a b) u = (\<exists>v w. u = v @ w \<and> lang_re a v \<and> lang_re b w)"
| "lang_re (Alt a b) u = (lang_re a u \<or> lang_re b u)"
| "lang_re Bol u = False"
| "lang_re Eol u = False"
| "lang_re WordB u = False"

fun anchor_free :: "re \<Rightarrow> bool" where
  "anchor_free (Seq a b) = (anchor_free a \<and> anchor_free b)"
| "anchor_free (Alt a b) = (anchor_free a \<and> anchor_free b)"
| "anchor_free Bol = False"
| "anchor_free Eol = False"
| "anchor_free WordB = False"
| "anchor_free r = True"

lemma star_ends_iff:
  "(pre', s') \<in> set (star_ends p pre s) \<longleftrightarrow>
   (\<exists>u. s = u @ s' \<and> pre' = rev u @ pre \<and> list_all p u)"
proof (induction p pre s rule: star_ends.induct)
  case (1 p pre)
  then show ?case by auto
next
  case (2 p pre c cs)
  show ?case
  proof (cases "p c")
    case True
    have "(pre', s') \<in> set (star_ends p pre (c # cs)) \<longleftrightarrow>
      (\<exists>u. cs = u @ s' \<and> pre' = rev u @ c # pre \<and> list_all p u) \<or> (pre' = pre \<and> s' = c # cs)"
      using "2.IH"[OF True] True by auto
    also have "\<dots> \<longleftrightarrow> (\<exists>u. c # cs = u @ s' \<and> pre' = rev u @ pre \<and> list_all p u)"
    proof (intro iffI; elim disjE exE conjE)
      fix u assume "cs = u @ s'" "pre' = rev u @ c # pre" "list_all p u"
      with True show "\<exists>u. c # cs = u @ s' \<and> pre' = rev u @ pre \<and> list_all p u"
        by (intro exI[of _ "c # u"]) simp
    next
      assume "pre' = pre" "s' = c # cs"
      then show "\<exists>u. c # cs = u @ s' \<and> pre' = rev u @ pre \<and> list_all p u"
        by (intro exI[of _ "[]"]) simp
    next
      fix u assume "c # cs = u @ s'" "pre' = rev u @ pre" "list_all p u"
      then show "(\<exists>u. cs = u @ s' \<and> pre' = rev u @ c # pre \<and> list_all p u) \<or>
                 (pre' = pre \<and> s' = c # cs)"
        by (cases u) auto
    qed
    finally show ?thesis .
  next
    case False
    then show ?thesis by (auto simp: Cons_eq_append_conv)
  qed
qed

theorem ends_lang:
  "anchor_free r \<Longrightarrow>
   (pre', s') \<in> set (ends r pre s) \<longleftrightarrow> (\<exists>u. s = u @ s' \<and> pre' = rev u @ pre \<and> lang_re r u)"
proof (induction r arbitrary: pre s pre' s')
  case (Cls p)
  then show ?case by (cases s) auto
next
  case (StarC p)
  then show ?case by (simp add: star_ends_iff)
next
  case (Seq a b)
  have "(pre', s') \<in> set (ends (Seq a b) pre s) \<longleftrightarrow>
    (\<exists>p1 s1. (p1, s1) \<in> set (ends a pre s) \<and> (pre', s') \<in> set (ends b p1 s1))"
    by auto
  also have "\<dots> \<longleftrightarrow> (\<exists>v w. s = v @ w @ s' \<and> pre' = rev w @ rev v @ pre \<and> lang_re a v \<and> lang_re b w)"
    using Seq by (simp, blast)
  also have "\<dots> \<longleftrightarrow> (\<exists>u. s = u @ s' \<and> pre' = rev u @ pre \<and> lang_re (Seq a b) u)"
  proof (intro iffI; elim exE conjE)
    fix v w assume "s = v @ w @ s'" "pre' = rev w @ rev v @ pre" "lang_re a v" "lang_re b w"
    then show "\<exists>u. s = u @ s' \<and> pre' = rev u @ pre \<and> lang_re (Seq a b) u"
      by (intro exI[of _ "v @ w"]) auto
  next
    fix u assume u: "s = u @ s'" "pre' = rev u @ pre" "lang_re (Seq a b) u"
    then obtain v w where "u = v @ w" "lang_re a v" "lang_re b w"
      by auto
    with u show "\<exists>v w. s = v @ w @ s' \<and> pre' = rev w @ rev v @ pre \<and> lang_re a v \<and> lang_re b w"
      by (intro exI[of _ v] exI[of _ w]) simp
  qed
  finally show ?case .
next
  case (Alt a b)
  then show ?case by auto
qed auto

lemma anchor_free_seqs [simp]: "anchor_free (seqs rs) \<longleftrightarrow> list_all anchor_free rs"
  by (induction rs) auto

end
