(* ===== verification/Globs.thy ===== *)
theory Globs
  imports PyRegex
begin

text \<open>
  engine/policy/globs.py: the one glob implementation.  \<open>translate\<close> builds the regular
  expression piece by piece as the source's loop does; \<open>matches_any\<close> returns the first
  pattern that matches the normalised path.

  \<open>glob_accepts\<close> is the contract, stated without regular expressions: \<open>**/\<close> skips whole
  leading segments, \<open>**\<close> crosses separators, \<open>*\<close> and \<open>?\<close> do not.  \<open>translate_glob\<close>
  relates the two exactly, including what \<open>.\<close> and \<open>$\<close> do to a newline.
\<close>

section \<open>Model\<close>

definition LEAD :: re where
  "LEAD = Opt (Seq (StarC dot) (Lit (CHR ''/'')))"

fun translate_parts :: "string \<Rightarrow> re list" where
  "translate_parts [] = []"
| "translate_parts (c # cs) =
     (if starts_with ''**/'' (c # cs) then LEAD # translate_parts (drop 2 cs)
      else if starts_with ''**'' (c # cs) then StarC dot # translate_parts (drop 1 cs)
      else if c = CHR ''*'' then StarC not_slash # translate_parts cs
      else if c = CHR ''?'' then Cls not_slash # translate_parts cs
      else Lit c # translate_parts cs)"

definition translate :: "string \<Rightarrow> re" where
  "translate pattern = Seq Bol (Seq (seqs (translate_parts pattern)) Eol)"

definition normalise :: "string \<Rightarrow> string" where
  "normalise path = remove_prefix ''./'' (replace_char (CHR 0x5C) (CHR ''/'') path)"

fun matches_any :: "string list \<Rightarrow> string \<Rightarrow> string option" where
  "matches_any [] path = None"
| "matches_any (p # ps) path =
     (if re_match (translate p) (normalise path) then Some p else matches_any ps path)"

section \<open>The contract of a path rule\<close>

text \<open>
  What every caller relies on: the answer names a rule of the list, it is a rule that
  matches, and \<open>None\<close> means no rule does.  \<open>rule_hit\<close> is the notion of a single rule
  matching; the callers never look inside it.
\<close>

locale path_rules =
  fixes first_hit :: "'p list \<Rightarrow> string \<Rightarrow> 'p option"
    and rule_hit :: "'p \<Rightarrow> string \<Rightarrow> bool"
  assumes hit_Some: "first_hit ps path = Some p \<Longrightarrow> p \<in> set ps \<and> rule_hit p path"
    and hit_None: "first_hit ps path = None \<longleftrightarrow> (\<forall>p \<in> set ps. \<not> rule_hit p path)"
begin

lemma hit_iff: "first_hit ps path \<noteq> None \<longleftrightarrow> (\<exists>p \<in> set ps. rule_hit p path)"
  by (simp add: hit_None)

lemma hit_mono: "set ps \<subseteq> set qs \<Longrightarrow> first_hit ps path \<noteq> None \<Longrightarrow> first_hit qs path \<noteq> None"
  by (auto simp: hit_None)

lemma hit_cong: "set ps = set qs \<Longrightarrow> first_hit ps path = None \<longleftrightarrow> first_hit qs path = None"
  by (simp add: hit_None)

lemma no_path_hit:
  "(\<forall>path \<in> set paths. first_hit ps path = None) \<longleftrightarrow>
   (\<forall>path \<in> set paths. \<forall>p \<in> set ps. \<not> rule_hit p path)"
  by (simp add: hit_None)

end

definition glob_hit :: "string \<Rightarrow> string \<Rightarrow> bool" where
  "glob_hit p path \<longleftrightarrow> re_match (translate p) (normalise path)"

lemma matches_any_Some: "matches_any ps path = Some p \<Longrightarrow> p \<in> set ps \<and> glob_hit p path"
  by (induction ps) (auto simp: glob_hit_def split: if_splits)

lemma matches_any_None: "matches_any ps path = None \<longleftrightarrow> (\<forall>p \<in> set ps. \<not> glob_hit p path)"
  by (induction ps) (auto simp: glob_hit_def)

interpretation globs: path_rules matches_any glob_hit
  by unfold_locales (auto dest: matches_any_Some simp: matches_any_None)

section \<open>The glob contract\<close>

text \<open>
  \<open>glob_dot\<close> is the reading in which \<open>**\<close> stops at a newline (as \<open>.\<close> does);
  \<open>glob_accepts\<close> is the documented one, in which it crosses anything.
\<close>

function glob_upto :: "(char \<Rightarrow> bool) \<Rightarrow> string \<Rightarrow> string \<Rightarrow> bool" where
  "glob_upto any [] s = (s = [])"
| "glob_upto any (c # cs) s =
     (if starts_with ''**/'' (c # cs) then
        glob_upto any (drop 2 cs) s \<or>
        (\<exists>u v. s = u @ CHR ''/'' # v \<and> list_all any u \<and> glob_upto any (drop 2 cs) v)
      else if starts_with ''**'' (c # cs) then
        (\<exists>u v. s = u @ v \<and> list_all any u \<and> glob_upto any (drop 1 cs) v)
      else if c = CHR ''*'' then
        (\<exists>u v. s = u @ v \<and> list_all not_slash u \<and> glob_upto any cs v)
      else if c = CHR ''?'' then
        (\<exists>d v. s = d # v \<and> not_slash d \<and> glob_upto any cs v)
      else (\<exists>v. s = c # v \<and> glob_upto any cs v))"
  by pat_completeness auto
termination
  by (relation "measure (\<lambda>(any, p, s). length p)") auto

abbreviation glob_dot :: "string \<Rightarrow> string \<Rightarrow> bool" where
  "glob_dot \<equiv> glob_upto dot"

abbreviation glob_accepts :: "string \<Rightarrow> string \<Rightarrow> bool" where
  "glob_accepts \<equiv> glob_upto (\<lambda>_. True)"

lemma anchor_free_parts: "list_all anchor_free (translate_parts p)"
  by (induction p rule: translate_parts.induct) (auto simp: LEAD_def Opt_def Lit_def)

lemma lang_LEAD: "lang_re LEAD u \<longleftrightarrow> u = [] \<or> (\<exists>v. u = v @ [CHR ''/''] \<and> list_all dot v)"
  by (auto simp: LEAD_def Opt_def Lit_def)

lemma lang_Cls_Seq: "lang_re (Seq (Cls p) r) s \<longleftrightarrow> (\<exists>d v. s = d # v \<and> p d \<and> lang_re r v)"
  by (auto simp: append_eq_Cons_conv) (metis append_Cons append_Nil)

lemma lang_parts: "lang_re (seqs (translate_parts p)) s \<longleftrightarrow> glob_dot p s"
proof (induction p arbitrary: s rule: translate_parts.induct)
  case 1
  then show ?case by simp
next
  case (2 c cs)
  consider "starts_with ''**/'' (c # cs)"
    | "\<not> starts_with ''**/'' (c # cs)" "starts_with ''**'' (c # cs)"
    | "\<not> starts_with ''**'' (c # cs)" "\<not> starts_with ''**/'' (c # cs)" "c = CHR ''*''"
    | "\<not> starts_with ''**'' (c # cs)" "\<not> starts_with ''**/'' (c # cs)" "c = CHR ''?''"
    | "\<not> starts_with ''**'' (c # cs)" "\<not> starts_with ''**/'' (c # cs)"
      "c \<noteq> CHR ''*''" "c \<noteq> CHR ''?''"
    by blast
  then show ?case
  proof cases
    case 1
    have "lang_re (seqs (LEAD # translate_parts (drop 2 cs))) s \<longleftrightarrow>
      (\<exists>u v. s = u @ v \<and> lang_re LEAD u \<and> glob_dot (drop 2 cs) v)"
      using "2.IH"(1)[OF 1] by simp
    also have "\<dots> \<longleftrightarrow> glob_dot (drop 2 cs) s \<or>
      (\<exists>u v. s = u @ CHR ''/'' # v \<and> list_all dot u \<and> glob_dot (drop 2 cs) v)"
    proof (intro iffI; elim exE conjE disjE)
      fix u v assume "s = u @ CHR ''/'' # v" "list_all dot u" "glob_dot (drop 2 cs) v"
      then show "\<exists>u v. s = u @ v \<and> lang_re LEAD u \<and> glob_dot (drop 2 cs) v"
        unfolding lang_LEAD by (intro exI[of _ "u @ [CHR ''/'']"] exI[of _ v]) auto
    qed (auto simp: lang_LEAD)
    finally show ?thesis
      unfolding translate_parts.simps(2) glob_upto.simps(2) if_P[OF 1] .
  next
    case 2
    have "lang_re (seqs (StarC dot # translate_parts (drop 1 cs))) s \<longleftrightarrow>
      (\<exists>u v. s = u @ v \<and> list_all dot u \<and> glob_dot (drop 1 cs) v)"
      using "2.IH"(2)[OF 2] by simp
    then show ?thesis
      unfolding translate_parts.simps(2) glob_upto.simps(2) if_not_P[OF 2(1)] if_P[OF 2(2)] .
  next
    case 3
    have "lang_re (seqs (StarC not_slash # translate_parts cs)) s \<longleftrightarrow>
      (\<exists>u v. s = u @ v \<and> list_all not_slash u \<and> glob_dot cs v)"
      using "2.IH"(3)[OF 3(2,1,3)] by simp
    then show ?thesis
      unfolding translate_parts.simps(2) glob_upto.simps(2)
        if_not_P[OF 3(1)] if_not_P[OF 3(2)] if_P[OF 3(3)] .
  next
    case 4
    have "lang_re (seqs (Cls not_slash # translate_parts cs)) s \<longleftrightarrow>
      (\<exists>d v. s = d # v \<and> not_slash d \<and> glob_dot cs v)"
      using "2.IH"(4)[OF 4(2,1) _ 4(3)] 4(3) by (simp add: lang_Cls_Seq del: lang_re.simps)
    moreover have "c \<noteq> CHR ''*''" using 4(3) by simp
    ultimately show ?thesis
      unfolding translate_parts.simps(2) glob_upto.simps(2)
        if_not_P[OF 4(1)] if_not_P[OF 4(2)] by (simp add: 4(3))
  next
    case 5
    have "lang_re (seqs (Lit c # translate_parts cs)) s \<longleftrightarrow> (\<exists>v. s = c # v \<and> glob_dot cs v)"
      using "2.IH"(5)[OF 5(2,1,3,4)] by (simp add: Lit_def lang_Cls_Seq del: lang_re.simps)
    then show ?thesis
      unfolding translate_parts.simps(2) glob_upto.simps(2)
        if_not_P[OF 5(1)] if_not_P[OF 5(2)] if_not_P[OF 5(3)] if_not_P[OF 5(4)] .
  qed
qed

lemma re_match_anchored:
  assumes "anchor_free r"
  shows "re_match (Seq Bol (Seq r Eol)) s \<longleftrightarrow>
         lang_re r s \<or> (\<exists>s'. s = s' @ [CHR 0x0A] \<and> lang_re r s')"
proof -
  have eol: "ends Eol p t \<noteq> [] \<longleftrightarrow> t = [] \<or> t = [CHR 0x0A]" for p t
    by simp
  have "re_match (Seq Bol (Seq r Eol)) s \<longleftrightarrow>
    (\<exists>x \<in> set (ends r [] s). ends Eol (fst x) (snd x) \<noteq> [])"
    by (simp add: re_match_def case_prod_beta del: ends.simps(7))
  also have "\<dots> \<longleftrightarrow>
    (\<exists>pre' s'. (pre', s') \<in> set (ends r [] s) \<and> (s' = [] \<or> s' = [CHR 0x0A]))"
    unfolding eol by (metis fst_conv snd_conv surj_pair)
  also have "\<dots> \<longleftrightarrow> (\<exists>u s'. s = u @ s' \<and> lang_re r u \<and> (s' = [] \<or> s' = [CHR 0x0A]))"
    using ends_lang[OF assms] by blast
  also have "\<dots> \<longleftrightarrow> lang_re r s \<or> (\<exists>s'. s = s' @ [CHR 0x0A] \<and> lang_re r s')"
    by auto
  finally show ?thesis .
qed

lemma translate_glob_aux:
  "re_match (translate p) s \<longleftrightarrow> glob_dot p s \<or> (\<exists>s'. s = s' @ [CHR 0x0A] \<and> glob_dot p s')"
  unfolding translate_def
  by (subst re_match_anchored) (simp_all add: anchor_free_parts lang_parts)

lemma glob_upto_cong:
  "(\<And>c. c \<in> set s \<Longrightarrow> f c = g c) \<Longrightarrow> glob_upto f p s = glob_upto g p s"
proof (induction f p s rule: glob_upto.induct)
  case (1 any s)
  then show ?case by simp
next
  case (2 any c cs s)
  have all: "s = u @ w \<Longrightarrow> list_all any u = list_all g u" for u w
    using "2.prems" by (intro list.pred_cong) auto
  consider "starts_with ''**/'' (c # cs)"
    | "\<not> starts_with ''**/'' (c # cs)" "starts_with ''**'' (c # cs)"
    | "\<not> starts_with ''**/'' (c # cs)" "\<not> starts_with ''**'' (c # cs)" "c = CHR ''*''"
    | "\<not> starts_with ''**/'' (c # cs)" "\<not> starts_with ''**'' (c # cs)" "c \<noteq> CHR ''*''" "c = CHR ''?''"
    | "\<not> starts_with ''**/'' (c # cs)" "\<not> starts_with ''**'' (c # cs)"
      "c \<noteq> CHR ''*''" "c \<noteq> CHR ''?''"
    by blast
  then show ?case
  proof cases
    case 1
    have "glob_upto any (drop 2 cs) s = glob_upto g (drop 2 cs) s"
      by (rule "2.IH"(1)[OF 1]) (use "2.prems" in auto)
    moreover have "(s = u @ CHR ''/'' # v \<and> list_all any u \<and> glob_upto any (drop 2 cs) v) \<longleftrightarrow>
        (s = u @ CHR ''/'' # v \<and> list_all g u \<and> glob_upto g (drop 2 cs) v)" for u v
    proof (cases "s = u @ CHR ''/'' # v")
      case True
      with "2.prems" have "glob_upto any (drop 2 cs) v = glob_upto g (drop 2 cs) v"
        by (intro "2.IH"(2)[OF 1]) auto
      with all[OF True] show ?thesis by simp
    qed simp
    ultimately show ?thesis
      unfolding glob_upto.simps(2) if_P[OF 1] by simp
  next
    case 2
    have "(s = u @ v \<and> list_all any u \<and> glob_upto any (drop 1 cs) v) \<longleftrightarrow>
        (s = u @ v \<and> list_all g u \<and> glob_upto g (drop 1 cs) v)" for u v
    proof (cases "s = u @ v")
      case True
      with "2.prems" have "glob_upto any (drop 1 cs) v = glob_upto g (drop 1 cs) v"
        by (intro "2.IH"(3)[OF 2]) auto
      with all[OF True] show ?thesis by simp
    qed simp
    then show ?thesis
      unfolding glob_upto.simps(2) if_not_P[OF 2(1)] if_P[OF 2(2)] by simp
  next
    case 3
    have "(s = u @ v \<and> list_all not_slash u \<and> glob_upto any cs v) \<longleftrightarrow>
        (s = u @ v \<and> list_all not_slash u \<and> glob_upto g cs v)" for u v
      using "2.IH"(4)[OF 3, of v] "2.prems" by auto
    then show ?thesis
      unfolding glob_upto.simps(2) if_not_P[OF 3(1)] if_not_P[OF 3(2)] if_P[OF 3(3)] by simp
  next
    case 4
    have "(s = d # v \<and> not_slash d \<and> glob_upto any cs v) \<longleftrightarrow>
        (s = d # v \<and> not_slash d \<and> glob_upto g cs v)" for d v
      using "2.IH"(5)[OF 4, of v] "2.prems" by auto
    then show ?thesis
      unfolding glob_upto.simps(2) if_not_P[OF 4(1)] if_not_P[OF 4(2)] if_not_P[OF 4(3)]
        if_P[OF 4(4)] by simp
  next
    case 5
    have "(s = c # v \<and> glob_upto any cs v) \<longleftrightarrow> (s = c # v \<and> glob_upto g cs v)" for v
      using "2.IH"(6)[OF 5, of v] "2.prems" by auto
    then show ?thesis
      unfolding glob_upto.simps(2) if_not_P[OF 5(1)] if_not_P[OF 5(2)] if_not_P[OF 5(3)]
        if_not_P[OF 5(4)] by simp
  qed
qed

section \<open>Properties\<close>


text \<open>
  On a path without a newline the documented semantics is the implemented one: \<open>**\<close>
  crosses separators, \<open>*\<close> and \<open>?\<close> do not, \<open>**/\<close> also matches no directory at all.
\<close>

theorem translate_documented:
  assumes "CHR 0x0A \<notin> set s"
  shows "re_match (translate p) s \<longleftrightarrow> glob_accepts p s"
proof -
  have "glob_dot p s = glob_accepts p s"
    using assms by (intro glob_upto_cong) (auto simp: dot_def)
  moreover have "s \<noteq> s' @ [CHR 0x0A]" for s'
    using assms by auto
  ultimately show ?thesis unfolding translate_glob_aux by simp
qed

lemma translate_documented_witness:
  "re_match (translate ''charts/*'') ''charts/app.yaml'' \<and>
   glob_accepts ''charts/*'' ''charts/app.yaml''"
proof -
  have "re_match (translate ''charts/*'') ''charts/app.yaml''"
    by code_simp
  then show ?thesis
    using translate_documented[of "''charts/app.yaml''" "''charts/*''"] by simp
qed

lemma matches_any_first:
  "matches_any ps path = Some p \<longleftrightarrow>
   (\<exists>qs rs. ps = qs @ p # rs \<and> glob_hit p path \<and> (\<forall>q \<in> set qs. \<not> glob_hit q path))"
proof (induction ps)
  case Nil
  then show ?case by simp
next
  case (Cons a ps)
  show ?case
  proof (cases "glob_hit a path")
    case True
    then have "matches_any (a # ps) path = Some a" by (simp add: glob_hit_def)
    moreover have "(\<exists>qs rs. a # ps = qs @ p # rs \<and> glob_hit p path \<and>
        (\<forall>q \<in> set qs. \<not> glob_hit q path)) \<longleftrightarrow> a = p"
      using True by (auto simp: Cons_eq_append_conv)
    ultimately show ?thesis by auto
  next
    case False
    then have "matches_any (a # ps) path = matches_any ps path" by (simp add: glob_hit_def)
    moreover have "(\<exists>qs rs. a # ps = qs @ p # rs \<and> glob_hit p path \<and>
        (\<forall>q \<in> set qs. \<not> glob_hit q path)) \<longleftrightarrow>
      (\<exists>qs rs. ps = qs @ p # rs \<and> glob_hit p path \<and> (\<forall>q \<in> set qs. \<not> glob_hit q path))"
      using False by (auto simp: Cons_eq_append_conv) (metis append_Cons set_ConsD)+
    ultimately show ?thesis using Cons.IH by simp
  qed
qed

text \<open>
  \<open>matches_any\<close> answers with the first pattern of the list that matches the path as the
  matchers see it, and with \<open>None\<close> exactly when none does, so a denial can always name the
  rule that caused it.
\<close>

theorem matches_any_spec:
  "case matches_any ps path of
     Some p \<Rightarrow> \<exists>qs rs. ps = qs @ p # rs \<and> re_match (translate p) (normalise path)
                 \<and> (\<forall>q \<in> set qs. \<not> re_match (translate q) (normalise path))
   | None \<Rightarrow> \<forall>q \<in> set ps. \<not> re_match (translate q) (normalise path)"
  using matches_any_first[of ps path] globs.hit_None[of ps path]
  by (auto simp: glob_hit_def split: option.split)

lemma matches_any_spec_witness:
  "matches_any [''docs/*'', ''charts/**'', ''**''] ''charts/a/b'' = Some ''charts/**'' \<and>
   (\<exists>qs rs. [''docs/*'', ''charts/**'', ''**''] = qs @ ''charts/**'' # rs)"
proof -
  have "matches_any [''docs/*'', ''charts/**'', ''**''] ''charts/a/b'' = Some ''charts/**''"
    by code_simp
  then show ?thesis
    using matches_any_spec[of "[''docs/*'', ''charts/**'', ''**'']" "''charts/a/b''"] by auto
qed

end
