(* ===== verification/Risk_Policy.thy ===== *)
theory Risk_Policy
  imports Flow_Types Globs
begin

text \<open>
  The deterministic policy the flow consults: tier arithmetic and the second tiering stage
  (engine/policy/tiering.py), the paths no agent may write
  (engine/policy/protected_paths.py) and the check that a worker's configuration is for the
  run's application (engine/policy/application.py).
\<close>

section \<open>Tier arithmetic\<close>

definition raise_to :: "risk_tier \<Rightarrow> risk_tier \<Rightarrow> risk_tier" where
  "raise_to current proposed =
     (if RISK_TIER_ORDER proposed > RISK_TIER_ORDER current then proposed else current)"

definition assert_not_lowered :: "risk_tier \<Rightarrow> risk_tier \<Rightarrow> unit res" where
  "assert_not_lowered current proposed =
     (if RISK_TIER_ORDER proposed < RISK_TIER_ORDER current
      then Inl (RiskTierLowered (''attempted to lower risk_tier from '' @
        repr_str (tier_str current) @ '' to '' @ repr_str (tier_str proposed)))
      else Inr ())"

fun required_approvals :: "risk_tier \<Rightarrow> nat" where
  "required_approvals Low = 0"
| "required_approvals Medium = 1"
| "required_approvals High = 2"

section \<open>The second tiering stage\<close>

text \<open>\<open>for path in paths: if (pattern := matches_any(rules, path)) is not None: return ...\<close>\<close>

fun first_match :: "string list \<Rightarrow> string list \<Rightarrow> (string \<times> string) option" where
  "first_match rules [] = None"
| "first_match rules (path # paths) =
     (case matches_any rules path of
        Some pattern \<Rightarrow> Some (path, pattern)
      | None \<Rightarrow> first_match rules paths)"

definition above :: "nat \<Rightarrow> int option \<Rightarrow> bool" where
  "above n limit = (case limit of None \<Rightarrow> False | Some k \<Rightarrow> int n > k)"

definition tier_for_diff :: "risk_tier \<Rightarrow> diff option \<Rightarrow> risk_rules \<Rightarrow> risk_tier \<times> string" where
  "tier_for_diff current d rules =
    (let paths = (case d of None \<Rightarrow> [] | Some df \<Rightarrow> diff_paths df);
         n = length paths
     in case first_match (rr_high_paths rules) paths of
          Some (path, pattern) \<Rightarrow> (High, path @ '' matches high_paths '' @ repr_str pattern)
        | None \<Rightarrow>
      if above n (rr_high_changed_files rules) then
        (High, string_of_nat n @ '' files changed, above high_changed_files ('' @
               string_of_int (the (rr_high_changed_files rules)) @ '')'')
      else case first_match (rr_medium_paths rules) paths of
          Some (path, pattern) \<Rightarrow> (Medium, path @ '' matches medium_paths '' @ repr_str pattern)
        | None \<Rightarrow>
      if above n (rr_medium_changed_files rules) then
        (Medium, string_of_nat n @ '' files changed, above medium_changed_files ('' @
                 string_of_int (the (rr_medium_changed_files rules)) @ '')'')
      else (current, ''no rule escalated it''))"

section \<open>Protected paths\<close>

definition DEFAULT_PROTECTED_PATHS :: "string list" where
  "DEFAULT_PROTECTED_PATHS =
    [''.github/workflows/**'', ''.github/actions/**'', ''.gitlab-ci.yml'',
     ''azure-pipelines.yml'', ''Jenkinsfile'', ''charts/**'', ''terraform/**'',
     ''**/*.tfvars'', ''**/kuwarden.yaml'', ''policy.yaml'']"

fun violations :: "string list \<Rightarrow> string list \<Rightarrow> (string \<times> string) list" where
  "violations patterns [] = []"
| "violations patterns (p # ps) =
     (case matches_any patterns p of
        Some m \<Rightarrow> (p, m) # violations patterns ps
      | None \<Rightarrow> violations patterns ps)"

definition assert_not_protected :: "string list \<Rightarrow> unit res" where
  "assert_not_protected paths =
    (let vs = violations DEFAULT_PROTECTED_PATHS paths
     in if vs \<noteq> []
        then Inl (ProtectedPathWritten
               (py_join '', '' (map (\<lambda>(path, pattern). path @ '' ('' @ pattern @ '')'') vs)))
        else Inr ())"

section \<open>Does this worker serve this application?\<close>

definition assert_configured_for :: "string \<Rightarrow> string \<Rightarrow> unit res" where
  "assert_configured_for configured requested =
    (if requested = [] then
       Inl (PolicyDenied (
         ''this run does not name the application it is for, so it cannot be checked '' @
         ''against the loaded configuration for '' @ repr_str configured @ ''. Start it from the '' @
         ''Workbench, which records the application.''))
     else if casefold (py_strip configured) \<noteq> casefold (py_strip requested) then
       Inl (PolicyDenied (
         ''this worker is configured for '' @ repr_str configured @ '' but the run is for '' @
         repr_str requested @ ''. '' @
         ''One worker serves one application's kuwarden.yaml: start a second worker with '' @
         ''KUWARDEN_CONFIG pointing at that application's file, rather than letting this '' @
         ''run read the wrong repository, tiering rules and merge policy.''))
     else Inr ())"

section \<open>Lemmas\<close>

lemma raise_to_max: "raise_to a b = max a b"
  by (auto simp: raise_to_def max_def tier_order)

lemma raise_to_ge [simp]: "a \<le> raise_to a b" "b \<le> raise_to a b"
  by (simp_all add: raise_to_max)

lemma required_approvals_mono: "a \<le> b \<Longrightarrow> required_approvals a \<le> required_approvals b"
  by (cases a; cases b) (simp_all add: tier_order)

lemma required_approvals_zero [simp]: "required_approvals t = 0 \<longleftrightarrow> t = Low"
  by (cases t) simp_all

lemma first_match_None:
  "first_match rules paths = None \<longleftrightarrow> (\<forall>path \<in> set paths. matches_any rules path = None)"
  by (induction paths) (auto split: option.splits)

lemma first_match_Some:
  "first_match rules paths = Some (path, pattern) \<Longrightarrow>
   path \<in> set paths \<and> matches_any rules path = Some pattern"
  by (induction paths) (auto split: option.splits)

lemma first_match_hit:
  "first_match rules paths \<noteq> None \<longleftrightarrow>
   (\<exists>path \<in> set paths. \<exists>p \<in> set rules. glob_hit p path)"
  by (simp add: first_match_None globs.hit_None)

lemma violations_Nil:
  "violations ps paths = [] \<longleftrightarrow> (\<forall>path \<in> set paths. matches_any ps path = None)"
  by (induction paths) (auto split: option.splits)

lemma set_violations:
  "set (violations ps paths) =
   {(path, m). path \<in> set paths \<and> matches_any ps path = Some m}"
  by (induction paths) (auto split: option.splits)

lemma assert_not_protected_Inr:
  "assert_not_protected paths = Inr u \<longleftrightarrow>
   (\<forall>path \<in> set paths. matches_any DEFAULT_PROTECTED_PATHS path = None)"
  by (simp add: assert_not_protected_def Let_def violations_Nil)

lemma assert_not_protected_mono:
  "set paths \<subseteq> set paths' \<Longrightarrow> assert_not_protected paths' = Inr u \<Longrightarrow>
   assert_not_protected paths = Inr u"
  by (auto simp: assert_not_protected_Inr)

text \<open>
  The rules as a tier of their own, without order or reasons: what ADR 0002 asks the second
  stage to compute.
\<close>

definition rule_tier :: "risk_rules \<Rightarrow> string list \<Rightarrow> risk_tier" where
  "rule_tier rules paths =
    (if (\<exists>path \<in> set paths. \<exists>p \<in> set (rr_high_paths rules). glob_hit p path)
        \<or> above (length paths) (rr_high_changed_files rules) then High
     else if (\<exists>path \<in> set paths. \<exists>p \<in> set (rr_medium_paths rules). glob_hit p path)
        \<or> above (length paths) (rr_medium_changed_files rules) then Medium
     else Low)"

definition paths_of :: "diff option \<Rightarrow> string list" where
  "paths_of d = (case d of None \<Rightarrow> [] | Some df \<Rightarrow> diff_paths df)"

lemma tier_for_diff_cases:
  "fst (tier_for_diff current d rules) =
    (if rule_tier rules (paths_of d) = Low then current else rule_tier rules (paths_of d))"
proof -
  let ?ps = "paths_of d"
  have h: "first_match (rr_high_paths rules) ?ps = None \<longleftrightarrow>
     \<not> (\<exists>path \<in> set ?ps. \<exists>p \<in> set (rr_high_paths rules). glob_hit p path)"
    by (simp add: first_match_None globs.hit_None)
  have m: "first_match (rr_medium_paths rules) ?ps = None \<longleftrightarrow>
     \<not> (\<exists>path \<in> set ?ps. \<exists>p \<in> set (rr_medium_paths rules). glob_hit p path)"
    by (simp add: first_match_None globs.hit_None)
  show ?thesis
    unfolding tier_for_diff_def paths_of_def[symmetric] Let_def rule_tier_def
    using h m by (auto split: option.split)
qed

lemma final_tier_max:
  "raise_to current (fst (tier_for_diff current d rules)) =
   max current (rule_tier rules (paths_of d))"
  by (auto simp: raise_to_max tier_for_diff_cases max_def)

lemma above_mono: "n \<le> m \<Longrightarrow> above n k \<Longrightarrow> above m k"
  by (cases k) (auto simp: above_def)

lemma rule_tier_mono:
  assumes "set ps \<subseteq> set qs" and "length ps \<le> length qs"
  shows "rule_tier rules ps \<le> rule_tier rules qs"
  using assms above_mono[OF assms(2)]
  by (auto simp: rule_tier_def tier_order)

section \<open>Properties\<close>

text \<open>
  \<open>raise_to\<close> is the join of the tier order, and \<open>assert_not_lowered\<close> lets a proposal
  through exactly when raising to it changes nothing but the tier itself: neither can be
  used to lower a tier.
\<close>

theorem tier_arithmetic:
  "raise_to current proposed = max current proposed \<and>
   (assert_not_lowered current proposed = Inr () \<longleftrightarrow> raise_to current proposed = proposed) \<and>
   (\<forall>e. assert_not_lowered current proposed = Inl e \<longrightarrow> err_type e = ''RiskTierLowered'')"
  by (auto simp: raise_to_def max_def tier_order assert_not_lowered_def)

lemma tier_arithmetic_witness:
  "\<exists>e. assert_not_lowered High Low = Inl e \<and> err_type e = ''RiskTierLowered''"
proof -
  have "assert_not_lowered High Low \<noteq> Inr ()"
    by (simp add: assert_not_lowered_def)
  then obtain e where e: "assert_not_lowered High Low = Inl e"
    by (cases "assert_not_lowered High Low") auto
  with tier_arithmetic[of High Low] show ?thesis by blast
qed

text \<open>
  C30. The authoritative tier is the join of the provisional tier and the order-free reading
  of the rules, whatever order the code checks them in: a high path or an over-large
  change is never reported as less because a medium rule also matched.
\<close>

theorem final_tier_refines_rules:
  "raise_to current (fst (tier_for_diff current d rules)) =
   max current (rule_tier rules (paths_of d))"
  by (rule final_tier_max)

text \<open>
  A change that touches at least the same paths, and at least as many files, is gated at
  least as strictly: growing a diff can raise the number of human approvals, never lower it.
\<close>

theorem growing_diff_never_relaxes_gate:
  assumes "set (paths_of d) \<subseteq> set (paths_of d')" and "length (paths_of d) \<le> length (paths_of d')"
  shows "required_approvals (raise_to t (fst (tier_for_diff t d rules)))
       \<le> required_approvals (raise_to t (fst (tier_for_diff t d' rules)))"
proof -
  have "max t (rule_tier rules (paths_of d)) \<le> max t (rule_tier rules (paths_of d'))"
    using rule_tier_mono[OF assms] by (intro max.mono) auto
  then show ?thesis
    unfolding final_tier_max by (rule required_approvals_mono)
qed

definition sample_rules :: risk_rules where
  "sample_rules = \<lparr> rr_high_paths = [''**/auth/**''], rr_medium_paths = [''app/**''],
     rr_medium_changed_files = Some 5, rr_high_changed_files = Some 20 \<rparr>"

definition sample_diff :: "string list \<Rightarrow> diff option" where
  "sample_diff ps = Some \<lparr> df_files = map (\<lambda>p. \<lparr> fc_path = p, fc_added = 1, fc_removed = 0 \<rparr>) ps \<rparr>"

lemma growing_diff_never_relaxes_gate_witness:
  "required_approvals (raise_to Low (fst (tier_for_diff Low (sample_diff [''app/x'']) sample_rules)))
   \<le> required_approvals (raise_to Low
       (fst (tier_for_diff Low (sample_diff [''app/x'', ''src/auth/y'']) sample_rules)))"
  by (rule growing_diff_never_relaxes_gate) (simp_all add: paths_of_def sample_diff_def diff_paths_def)

text \<open>
  The reason reported beside the authoritative tier is not always the rule that settled
  it: a run that intake already tiered \<open>high\<close> and whose diff matches only a medium rule stays
  \<open>high\<close> and is explained by the medium rule.
\<close>

theorem tier_reason_can_name_a_weaker_rule:
  "\<exists>rules d reason. tier_for_diff High d rules = (Medium, reason) \<and>
     reason = ''app/x matches medium_paths '' @ repr_str ''app/**'' \<and>
     raise_to High (fst (tier_for_diff High d rules)) = High \<and> rule_tier rules (paths_of d) = Medium"
proof -
  have hi: "matches_any [''**/auth/**''] ''app/x'' = None"
    by code_simp
  have med: "matches_any [''app/**''] ''app/x'' = Some ''app/**''"
    by code_simp
  have t: "tier_for_diff High (sample_diff [''app/x'']) sample_rules =
      (Medium, ''app/x matches medium_paths '' @ repr_str ''app/**'')"
    by (simp add: tier_for_diff_def sample_diff_def sample_rules_def diff_paths_def above_def
        Let_def hi med del: matches_any.simps)
  have "rule_tier sample_rules (paths_of (sample_diff [''app/x''])) = Medium"
    using tier_for_diff_cases[of High "sample_diff [''app/x'']" sample_rules]
    unfolding t fst_conv by (auto split: if_splits)
  with t show ?thesis
    by (intro exI[of _ sample_rules] exI[of _ "sample_diff [''app/x'']"]) (simp add: raise_to_def)
qed

text \<open>
  The protected-path check passes exactly when no path of the diff matches a protected
  pattern, and otherwise fails the run with an error that lists every offending path with
  the pattern that denies it.
\<close>

theorem assert_not_protected_spec:
  "case assert_not_protected paths of
     Inr _ \<Rightarrow> \<forall>path \<in> set paths. \<forall>p \<in> set DEFAULT_PROTECTED_PATHS.
                \<not> re_match (translate p) (normalise path)
   | Inl e \<Rightarrow> err_type e = ''ProtectedPathWritten'' \<and>
       (\<exists>vs. vs \<noteq> [] \<and>
         err_msg e = py_join '', '' (map (\<lambda>(path, p). path @ '' ('' @ p @ '')'') vs) \<and>
         set vs = {(path, p). path \<in> set paths \<and> matches_any DEFAULT_PROTECTED_PATHS path = Some p})"
proof (cases "assert_not_protected paths")
  case (Inr u)
  then have "\<forall>path \<in> set paths. \<forall>p \<in> set DEFAULT_PROTECTED_PATHS.
      \<not> re_match (translate p) (normalise path)"
    by (simp add: assert_not_protected_Inr globs.hit_None glob_hit_def)
  then show ?thesis
    unfolding Inr sum.case .
next
  case (Inl e)
  let ?vs = "violations DEFAULT_PROTECTED_PATHS paths"
  from Inl have "?vs \<noteq> []" and "e = ProtectedPathWritten
      (py_join '', '' (map (\<lambda>(path, p). path @ '' ('' @ p @ '')'') ?vs))"
    by (auto simp: assert_not_protected_def Let_def split: if_splits)
  then show ?thesis
    unfolding Inl sum.case using set_violations[of DEFAULT_PROTECTED_PATHS paths]
    by (intro conjI exI[of _ ?vs]) simp_all
qed

lemma assert_not_protected_spec_witness:
  "\<exists>e. assert_not_protected [''src/a.py'', ''charts/x/y.yaml''] = Inl e \<and>
       err_type e = ''ProtectedPathWritten''"
proof -
  have "matches_any DEFAULT_PROTECTED_PATHS ''charts/x/y.yaml'' = Some ''charts/**''"
    by code_simp
  then have "assert_not_protected [''src/a.py'', ''charts/x/y.yaml''] \<noteq> Inr u" for u
    by (auto simp: assert_not_protected_Inr)
  then obtain e where e: "assert_not_protected [''src/a.py'', ''charts/x/y.yaml''] = Inl e"
    by (cases "assert_not_protected [''src/a.py'', ''charts/x/y.yaml'']") auto
  from assert_not_protected_spec[of "[''src/a.py'', ''charts/x/y.yaml'']", unfolded e sum.case]
  show ?thesis using e by blast
qed

text \<open>
  A newline inside a file name defeats the protected-path check: \<open>**\<close> is translated to
  \<open>.*\<close>, and \<open>.\<close> does not match a newline, so a path below \<open>charts/\<close> that the documented
  glob accepts is not denied.
\<close>

theorem protected_path_newline_escape:
  "glob_accepts ''charts/**'' (''charts/a'' @ nl @ ''b.yaml'') \<and>
   assert_not_protected [''charts/a'' @ nl @ ''b.yaml''] = Inr ()"
proof
  show "glob_accepts ''charts/**'' (''charts/a'' @ nl @ ''b.yaml'')"
    by (simp add: nl_def)
  have "matches_any DEFAULT_PROTECTED_PATHS (''charts/a'' @ nl @ ''b.yaml'') = None"
    by code_simp
  then show "assert_not_protected [''charts/a'' @ nl @ ''b.yaml''] = Inr ()"
    by (simp add: assert_not_protected_Inr)
qed

text \<open>
  A worker refuses a run, with \<open>PolicyDenied\<close>, unless the run names an application and
  that name is the configured one up to case and surrounding whitespace.
\<close>

theorem assert_configured_for_spec:
  "(assert_configured_for configured requested = Inr () \<longleftrightarrow>
     requested \<noteq> [] \<and> casefold (py_strip configured) = casefold (py_strip requested)) \<and>
   (\<forall>e. assert_configured_for configured requested = Inl e \<longrightarrow> err_type e = ''PolicyDenied'')"
  by (auto simp: assert_configured_for_def split: if_splits)

lemma assert_configured_for_spec_witness:
  "assert_configured_for ''Sasagayo'' '' sasagayo '' = Inr () \<and>
   (\<exists>e. assert_configured_for ''Sasagayo'' ''other'' = Inl e \<and> err_type e = ''PolicyDenied'')"
proof
  have "casefold (py_strip ''Sasagayo'') = casefold (py_strip '' sasagayo '')" by code_simp
  then show "assert_configured_for ''Sasagayo'' '' sasagayo '' = Inr ()"
    using assert_configured_for_spec[of "''Sasagayo''" "'' sasagayo ''"] by simp
  have "casefold (py_strip ''Sasagayo'') \<noteq> casefold (py_strip ''other'')" by code_simp
  then obtain e where "assert_configured_for ''Sasagayo'' ''other'' = Inl e"
    by (simp add: assert_configured_for_def)
  then show "\<exists>e. assert_configured_for ''Sasagayo'' ''other'' = Inl e \<and> err_type e = ''PolicyDenied''"
    using assert_configured_for_spec[of "''Sasagayo''" "''other''"] by blast
qed

end
