(* ===== verification/Pricing.thy ===== *)
theory Pricing
  imports Flow_Types
begin

text \<open>
  engine/policy/pricing.py: a run's cost in integer micro-cents, with \<open>None\<close> for ``some call
  used a model nobody has priced''.  The rate table is computed from dollar figures as the
  source does; every product in it is a small integer or within half a unit of one, so the
  rational arithmetic below rounds to the integers binary floating point does.
\<close>

definition MICRO_CENTS_PER_CENT :: int where
  "MICRO_CENTS_PER_CENT = 1000000"

definition LAST_REVIEWED :: string where
  "LAST_REVIEWED = ''2026-08-29''"

record rate =
  rt_input :: int
  rt_output :: int
  rt_cache_write :: int
  rt_cache_read :: int

definition per_million_dollars :: "rat \<Rightarrow> rat \<Rightarrow> rate" where
  "per_million_dollars dollars_in dollars_out =
    (let micro_in = py_round (dollars_in * 100 * of_int MICRO_CENTS_PER_CENT / 1000000);
         micro_out = py_round (dollars_out * 100 * of_int MICRO_CENTS_PER_CENT / 1000000)
     in \<lparr> rt_input = micro_in, rt_output = micro_out,
          rt_cache_write = py_round (of_int micro_in * (125 / 100)),
          rt_cache_read = py_round (of_int micro_in * (1 / 10)) \<rparr>)"

definition RATES :: "(string \<times> rate) list" where
  "RATES =
    [(''claude-fable-5'', per_million_dollars 10 50),
     (''claude-opus-5'', per_million_dollars 5 25),
     (''claude-opus-4-8'', per_million_dollars 5 25),
     (''claude-sonnet-5'', per_million_dollars 2 10),
     (''claude-sonnet-4-6'', per_million_dollars 3 15),
     (''claude-haiku-4-5'', per_million_dollars 1 5)]"

text \<open>The four token counts of a \<open>Completion\<close>.\<close>

record usage =
  us_input_tokens :: int
  us_output_tokens :: int
  us_cache_write_tokens :: int
  us_cache_read_tokens :: int

definition rate_cost :: "rate \<Rightarrow> usage \<Rightarrow> int" where
  "rate_cost r u = us_input_tokens u * rt_input r + us_output_tokens u * rt_output r
     + us_cache_write_tokens u * rt_cache_write r + us_cache_read_tokens u * rt_cache_read r"

definition micro_cents :: "string \<Rightarrow> usage \<Rightarrow> int option" where
  "micro_cents model u =
    (case map_of RATES model of None \<Rightarrow> None | Some r \<Rightarrow> Some (rate_cost r u))"

definition accrue :: "int option \<Rightarrow> string \<Rightarrow> usage \<Rightarrow> int option" where
  "accrue tot model u =
    (case (tot, micro_cents model u) of
       (Some t, Some c) \<Rightarrow> Some (t + c)
     | _ \<Rightarrow> None)"

definition combine :: "int option list \<Rightarrow> int option" where
  "combine totals =
    (if None \<in> set totals then None else Some (sum_list (map the totals)))"

definition as_text :: "int option \<Rightarrow> string" where
  "as_text tot =
    (case tot of
       None \<Rightarrow> ''unknown '' @ [em_dash] @ '' no rate recorded for this model''
     | Some t \<Rightarrow>
        if t = 0 then ''0''
        else let cents = (of_int t :: rat) / of_int MICRO_CENTS_PER_CENT in
          if cents < 1 then format_fixed 3 cents @ '' cents''
          else if cents < 100 then format_fixed 2 cents @ '' cents''
          else ''$'' @ format_fixed 2 (cents / 100))"

section \<open>Lemmas\<close>

lemma combine_Nil [simp]: "combine [] = Some 0"
  by (simp add: combine_def)

lemma combine_Cons [simp]:
  "combine (t # ts) = (case (t, combine ts) of (Some a, Some b) \<Rightarrow> Some (a + b) | _ \<Rightarrow> None)"
  by (cases t) (auto simp: combine_def)

lemma combine_None: "combine ts = None \<longleftrightarrow> None \<in> set ts"
  by (simp add: combine_def)

lemma combine_append:
  "combine (xs @ ys) = (case (combine xs, combine ys) of (Some a, Some b) \<Rightarrow> Some (a + b) | _ \<Rightarrow> None)"
  by (induction xs) (auto split: option.splits)

text \<open>A run's calls, accrued one after the other onto one counter.\<close>

fun accrue_all :: "int option \<Rightarrow> (string \<times> usage) list \<Rightarrow> int option" where
  "accrue_all tot [] = tot"
| "accrue_all tot ((m, u) # calls) = accrue_all (accrue tot m u) calls"

lemma accrue_all_None [simp]: "accrue_all None calls = None"
  by (induction calls) (auto simp: accrue_def)

lemma accrue_all_eq:
  "accrue_all tot calls = combine (tot # map (\<lambda>(m, u). micro_cents m u) calls)"
proof (induction calls arbitrary: tot)
  case Nil
  then show ?case by (cases tot) simp_all
next
  case (Cons c calls)
  obtain m u where c: "c = (m, u)" by (cases c)
  show ?case
  proof (cases "(tot, micro_cents m u)")
    case (Pair t k)
    then show ?thesis
      by (cases t; cases k)
        (simp_all add: c Cons.IH accrue_def add.assoc split: option.splits)
  qed
qed

lemma micro_cents_nonneg:
  "micro_cents m u = Some c \<Longrightarrow> 0 \<le> us_input_tokens u \<Longrightarrow> 0 \<le> us_output_tokens u \<Longrightarrow>
   0 \<le> us_cache_write_tokens u \<Longrightarrow> 0 \<le> us_cache_read_tokens u \<Longrightarrow> 0 \<le> c"
proof -
  assume c: "micro_cents m u = Some c" and nn: "0 \<le> us_input_tokens u" "0 \<le> us_output_tokens u"
    "0 \<le> us_cache_write_tokens u" "0 \<le> us_cache_read_tokens u"
  have "list_all (\<lambda>(m, r). 0 \<le> rt_input r \<and> 0 \<le> rt_output r \<and> 0 \<le> rt_cache_write r
      \<and> 0 \<le> rt_cache_read r) RATES"
    by code_simp
  then have "map_of RATES m = Some r \<Longrightarrow> 0 \<le> rt_input r \<and> 0 \<le> rt_output r
      \<and> 0 \<le> rt_cache_write r \<and> 0 \<le> rt_cache_read r" for r
    by (auto simp: list_all_iff dest!: map_of_SomeD)
  with c nn show "0 \<le> c"
    by (auto simp: micro_cents_def rate_cost_def split: option.splits)
qed

section \<open>Properties\<close>

text \<open>
  Splitting a run's calls over several counters and combining them afterwards, as the
  verifier fan-out does, gives the same total as one counter that saw every call; and an
  unpriced call anywhere makes the total unknown rather than smaller.
\<close>

theorem fan_out_spend_is_sequential_spend:
  "accrue_all tot (concat parts) = combine (tot # map (accrue_all (Some 0)) parts)"
proof (induction parts arbitrary: tot)
  case Nil
  then show ?case by (cases tot) simp_all
next
  case (Cons p ps)
  have "accrue_all tot (p @ concat ps) = accrue_all (accrue_all tot p) (concat ps)"
    by (induction p arbitrary: tot) auto
  moreover have "accrue_all (Some 0) p = combine (map (\<lambda>(m, u). micro_cents m u) p)"
    by (simp add: accrue_all_eq split: option.split)
  ultimately show ?case
    by (cases tot) (simp_all add: Cons.IH accrue_all_eq[of "Some _" p] add.assoc split: option.split)
qed

text \<open>
  The cost of a call is linear in its four token classes, a cached read is always cheaper
  than reading the same tokens uncached, and a cache write always dearer: the ordering of
  the four classes holds at every rate of the table.
\<close>

theorem cache_rates_ordered:
  assumes "map_of RATES model = Some r"
  shows "0 < rt_cache_read r \<and> rt_cache_read r < rt_input r \<and> rt_input r < rt_cache_write r
    \<and> rt_cache_write r < rt_output r \<and> 10 * rt_cache_read r = rt_input r"
proof -
  have "list_all (\<lambda>(m, r). 0 < rt_cache_read r \<and> rt_cache_read r < rt_input r \<and>
      rt_input r < rt_cache_write r \<and> rt_cache_write r < rt_output r \<and>
      10 * rt_cache_read r = rt_input r) RATES"
    by code_simp
  with map_of_SomeD[OF assms] show ?thesis
    by (auto simp: list_all_iff)
qed

lemma cache_rates_ordered_witness:
  "\<exists>r. map_of RATES ''claude-opus-5'' = Some r \<and> rt_cache_read r < rt_input r"
proof -
  have "map_of RATES ''claude-opus-5'' \<noteq> None" by code_simp
  then obtain r where "map_of RATES ''claude-opus-5'' = Some r" by auto
  with cache_rates_ordered[OF this] show ?thesis by blast
qed

text \<open>
  ``Unknown'' is absorbing and never reads as free: once any call of a run is unpriced the
  total is \<open>None\<close>, and the text shown for it is not the text shown for a zero spend.
\<close>

theorem unknown_spend_absorbs:
  assumes "\<exists>(m, u) \<in> set calls. micro_cents m u = None"
  shows "accrue_all tot calls = None \<and> as_text (accrue_all tot calls) \<noteq> as_text (Some 0)"
proof -
  from assms have "None \<in> set (map (\<lambda>(m, u). micro_cents m u) calls)"
    by force
  then have "combine (tot # map (\<lambda>(m, u). micro_cents m u) calls) = None"
    unfolding combine_None by simp
  then show ?thesis
    unfolding accrue_all_eq by (simp add: as_text_def)
qed

lemma unknown_spend_absorbs_witness:
  "accrue_all (Some 5)
     [(''unpriced'', \<lparr>us_input_tokens = 1, us_output_tokens = 1, us_cache_write_tokens = 0,
        us_cache_read_tokens = 0\<rparr>)] = None"
proof -
  have "map_of RATES ''unpriced'' = None" by code_simp
  then show ?thesis
    by (intro unknown_spend_absorbs[THEN conjunct1]) (simp add: micro_cents_def)
qed

end
