(* ===== verification/Notes.thy ===== *)
theory Notes
  imports Flow_Types
begin

text \<open>
  engine/nodes/notes.py: what a node read, decided and produced, in the three renderable
  kinds of the record.  \<open>pyval\<close> stands for the values the nodes hand to \<open>fields\<close> and
  \<open>checks\<close>; \<open>scalar\<close> renders each as the source's \<open>_scalar\<close> does.
\<close>

datatype pyval =
    VNone
  | VBool bool
  | VInt int
  | VStr string
  | VStrs "string list"

definition MAX_TEXT :: nat where
  "MAX_TEXT = 8000"

fun scalar :: "pyval \<Rightarrow> string" where
  "scalar VNone = [em_dash]"
| "scalar (VBool b) = (if b then ''yes'' else ''no'')"
| "scalar (VStrs xs) = (if xs = [] then [em_dash] else py_join '', '' xs)"
| "scalar (VInt i) = string_of_int i"
| "scalar (VStr s) = s"

definition compose :: "string \<Rightarrow> note_section option list \<Rightarrow> node_notes" where
  "compose summary sections = \<lparr> nt_summary = summary, nt_sections = List.map_filter id sections \<rparr>"

definition fields_note :: "string \<Rightarrow> (string \<times> pyval) list \<Rightarrow> note_section" where
  "fields_note title rows = FieldsSection title (map (\<lambda>(k, v). (k, scalar v)) rows)"

definition checks :: "string \<Rightarrow> (string \<times> pyval \<times> pyval \<times> bool) list \<Rightarrow> note_section" where
  "checks title rows = ChecksSection title
     (map (\<lambda>(label, required, found, ok).
        \<lparr> ck_label = label, ck_required = scalar required, ck_found = scalar found, ck_ok = ok \<rparr>) rows)"

text \<open>\<open>body[-MAX_TEXT:]\<close> keeps the last \<open>MAX_TEXT\<close> characters, or all of a shorter body.\<close>

definition text_note :: "string \<Rightarrow> string \<Rightarrow> bool \<Rightarrow> bool \<Rightarrow> note_section" where
  "text_note title body untrusted tail =
     TextSection title
       (if tail then drop (length body - MAX_TEXT) body else take MAX_TEXT body)
       untrusted (length body > MAX_TEXT)
       (if tail then ''end'' else ''start'') (length body)"

definition opt_str :: "string option \<Rightarrow> pyval" where
  "opt_str x = (case x of None \<Rightarrow> VNone | Some s \<Rightarrow> VStr s)"

text \<open>\<open>value or "text"\<close> for a list of strings and for an optional string.\<close>

definition strs_or :: "string list \<Rightarrow> string \<Rightarrow> pyval" where
  "strs_or xs d = (if xs = [] then VStr d else VStrs xs)"

definition str_or :: "string option \<Rightarrow> string \<Rightarrow> pyval" where
  "str_or x d = VStr (or_else x d)"

text \<open>The dictionaries these values are when they reach an event payload.\<close>

fun section_json :: "note_section \<Rightarrow> json" where
  "section_json (FieldsSection title rows) =
     JObj [(''title'', JStr title), (''kind'', JStr ''fields''),
           (''rows'', JList (map (\<lambda>(k, v). JList [JStr k, JStr v]) rows))]"
| "section_json (ChecksSection title rows) =
     JObj [(''title'', JStr title), (''kind'', JStr ''checks''),
           (''rows'', JList (map (\<lambda>r. JObj [(''label'', JStr (ck_label r)),
              (''required'', JStr (ck_required r)), (''found'', JStr (ck_found r)),
              (''ok'', JBool (ck_ok r))]) rows))]"
| "section_json (TextSection title body untrusted truncated kept n) =
     JObj [(''title'', JStr title), (''kind'', JStr ''text''), (''body'', JStr body),
           (''untrusted'', JBool untrusted), (''truncated'', JBool truncated),
           (''kept'', JStr kept), (''full_length'', JInt (int n))]"

definition notes_json :: "node_notes option \<Rightarrow> json" where
  "notes_json n = (case n of
     None \<Rightarrow> JObj []
   | Some ns \<Rightarrow> JObj [(''summary'', JStr (nt_summary ns)),
                      (''sections'', JList (map section_json (nt_sections ns)))])"

lemmas note_defs = compose_def fields_note_def checks_def text_note_def opt_str_def strs_or_def str_or_def

section \<open>Properties\<close>

text \<open>
  A clipped text block is bounded and honest: at most \<open>MAX_TEXT\<close> characters are kept, they
  are a prefix or a suffix of the original as \<open>kept\<close> says, and the note is marked truncated
  exactly when something was dropped.
\<close>

theorem text_note_bounded:
  "length (sec_body (text_note t body u keep_end)) \<le> MAX_TEXT \<and>
   (sec_truncated (text_note t body u keep_end) \<longleftrightarrow> sec_body (text_note t body u keep_end) \<noteq> body) \<and>
   (\<exists>cut. body = (if sec_kept (text_note t body u keep_end) = ''end''
                  then cut @ sec_body (text_note t body u keep_end)
                  else sec_body (text_note t body u keep_end) @ cut)) \<and>
   sec_full_length (text_note t body u keep_end) = length body"
proof (cases "length body > MAX_TEXT")
  case True
  then have "drop (length body - MAX_TEXT) body \<noteq> body" "take MAX_TEXT body \<noteq> body"
    by (metis MAX_TEXT_def diff_diff_cancel length_drop less_imp_le nat_neq_iff)
      (metis True length_take min.absorb2 nat_less_le)
  moreover have "\<exists>cut. body = cut @ drop (length body - MAX_TEXT) body"
    by (rule exI[of _ "take (length body - MAX_TEXT) body"]) simp
  moreover have "\<exists>cut. body = take MAX_TEXT body @ cut"
    by (rule exI[of _ "drop MAX_TEXT body"]) simp
  ultimately show ?thesis
    using True by (cases keep_end) (simp_all add: text_note_def)
next
  case False
  then show ?thesis by (cases keep_end) (simp_all add: text_note_def)
qed

end
