(* ===== verification/Test_Evidence.thy ===== *)
theory Test_Evidence
  imports Flow_Types PyRegex
begin

text \<open>
  engine/policy/test_evidence.py: arithmetic over the tests before and after a change.  The
  three regular expressions are transcribed alternative by alternative; \<open>before\<close> and \<open>after\<close>
  are the dictionaries from path to text, in insertion order.
\<close>

section \<open>The three patterns\<close>

definition upper :: "char \<Rightarrow> bool" where
  "upper c = (let n = (of_char c :: nat) in 65 \<le> n \<and> n \<le> 90)"

definition letter_i :: "char \<Rightarrow> bool" where
  "letter_i c = (let n = (of_char (lower_char c) :: nat) in 97 \<le> n \<and> n \<le> 122)"

definition SLASH :: re where
  "SLASH = Lit (CHR ''/'')"

definition DOT :: re where
  "DOT = Lit (CHR ''.'')"

definition SUFFIX :: re where
  "SUFFIX = seqs [Alt (WordI ''test'') (WordI ''spec''), DOT, PlusC letter_i, Eol]"

definition TEST_PATH :: re where
  "TEST_PATH = alts
    [seqs [Alt Bol SLASH,
       alts [Seq (WordI ''test'') (Opt (LitI (CHR ''s''))), WordI ''spec'', WordI ''__tests__''], SLASH],
     seqs [Alt Bol SLASH, WordI ''test_'', StarC not_slash, Eol],
     seqs [StarC not_slash, Lit (CHR ''_''), SUFFIX],
     seqs [StarC not_slash, DOT, SUFFIX]]"

definition ASSERTION :: re where
  "ASSERTION = alts
    [seqs [WordB, Word ''assert'', WordB],
     seqs [WordB, Word ''assertThat'', WordB],
     seqs [WordB, Word ''assert'', Cls upper, StarC is_word, Lit (CHR ''('')],
     seqs [WordB, Word ''expect'', StarC is_space, Lit (CHR ''('')],
     seqs [WordB, Word ''should'', WordB, DOT],
     seqs [WordB, Lit (CHR ''t''), DOT,
       alts [Word ''Error'', Word ''Fatal'', Word ''Errorf'', Word ''Fatalf''], WordB]]"

definition SKIP :: re where
  "SKIP = alts
    [Word ''@pytest.mark.skip'',
     Word ''@unittest.skip'',
     Word ''pytest.skip('',
     seqs [WordB, alts [Word ''it'', Word ''test'', Word ''describe''], Word ''.skip'', WordB],
     seqs [WordB, Word ''xit'', WordB],
     seqs [WordB, Word ''xdescribe'', WordB],
     seqs [Word ''@Ignore'', WordB],
     Word ''[Ignore]'',
     seqs [WordB, Word ''t.Skip('']]"

definition is_test_path :: "string \<Rightarrow> bool" where
  "is_test_path path = re_search TEST_PATH path"

section \<open>Counting\<close>

definition comment_line :: "string \<Rightarrow> bool" where
  "comment_line line = (let s = py_strip line in
     starts_with ''#'' s \<or> starts_with ''//'' s \<or> starts_with ''*'' s \<or> starts_with ''/*'' s)"

definition count_outside_comments :: "string \<Rightarrow> re \<Rightarrow> nat" where
  "count_outside_comments txt pattern =
     sum_list (map (count_matches pattern) (filter (\<lambda>l. \<not> comment_line l) (splitlines txt)))"

record test_evidence =
  te_assertions_before :: nat
  te_assertions_after :: nat
  te_skips_added :: nat
  te_test_lines_changed :: nat
  te_source_lines_changed :: nat
  te_findings :: "string list"

definition assertions_removed :: "test_evidence \<Rightarrow> nat" where
  "assertions_removed te = te_assertions_before te - te_assertions_after te"

definition te_passed :: "test_evidence \<Rightarrow> bool" where
  "te_passed te \<longleftrightarrow> te_findings te = []"

definition lookup_or_empty :: "(string \<times> string) list \<Rightarrow> string \<Rightarrow> string" where
  "lookup_or_empty before path = (case map_of before path of None \<Rightarrow> [] | Some t \<Rightarrow> t)"

definition line_churn :: "string \<Rightarrow> string \<Rightarrow> nat" where
  "line_churn old new =
     nat \<bar>int (length (splitlines new)) - int (length (splitlines old))\<bar>"

text \<open>One iteration of the loop over \<open>after.items()\<close>.\<close>

definition evidence_step :: "(string \<times> string) list \<Rightarrow> test_evidence \<Rightarrow> string \<times> string \<Rightarrow> test_evidence" where
  "evidence_step before te entry =
    (let path = fst entry; new_text = snd entry;
         old_text = lookup_or_empty before path;
         changed = line_churn old_text new_text
     in if is_test_path path then
          let te' = te\<lparr> te_test_lines_changed := te_test_lines_changed te + changed,
                        te_assertions_before := te_assertions_before te
                          + count_outside_comments old_text ASSERTION,
                        te_assertions_after := te_assertions_after te
                          + count_outside_comments new_text ASSERTION \<rparr>;
              added = int (count_outside_comments new_text SKIP)
                    - int (count_outside_comments old_text SKIP)
          in if added > 0 then
               te'\<lparr> te_skips_added := te_skips_added te' + nat added,
                    te_findings := te_findings te' @
                      [path @ '': '' @ string_of_int added @ '' test(s) newly skipped''] \<rparr>
             else te'
        else te\<lparr> te_source_lines_changed := te_source_lines_changed te + changed \<rparr>)"

definition no_evidence :: test_evidence where
  "no_evidence = \<lparr> te_assertions_before = 0, te_assertions_after = 0, te_skips_added = 0,
     te_test_lines_changed = 0, te_source_lines_changed = 0, te_findings = [] \<rparr>"

definition churn_suspicious :: "rat \<Rightarrow> test_evidence \<Rightarrow> bool" where
  "churn_suspicious churn_ratio te \<longleftrightarrow>
     te_source_lines_changed te \<noteq> 0 \<and>
     of_nat (te_test_lines_changed te) > of_nat (te_source_lines_changed te) * churn_ratio"

definition evaluate :: "(string \<times> string) list \<Rightarrow> (string \<times> string) list \<Rightarrow> rat \<Rightarrow> test_evidence" where
  "evaluate before after churn_ratio =
    (let te = foldl (evidence_step before) no_evidence after;
         removed = assertions_removed te;
         f1 = (if removed \<noteq> 0 then
                 [string_of_nat removed @ '' assertion(s) removed across the test files this change touched '' @
                  ''('' @ string_of_nat (te_assertions_before te) @ '' before, '' @
                  string_of_nat (te_assertions_after te) @ '' after)''] else []);
         f2 = (if churn_suspicious churn_ratio te then
                 [''test churn is '' @
                  format_fixed 1 (of_nat (te_test_lines_changed te) / of_nat (te_source_lines_changed te)) @
                  ''x source churn ('' @ string_of_nat (te_test_lines_changed te) @
                  '' test lines against '' @ string_of_nat (te_source_lines_changed te) @
                  '' source lines); a change that rewrites the measurement more than the thing measured is worth reading closely'']
               else [])
     in te\<lparr> te_findings := te_findings te @ f1 @ f2 \<rparr>)"

section \<open>Lemmas\<close>

text \<open>The counters of the loop, as sums over the changed files.\<close>

definition over_tests :: "(string \<times> string) list \<Rightarrow> (string \<Rightarrow> string \<Rightarrow> nat) \<Rightarrow> (string \<times> string) list \<Rightarrow> nat" where
  "over_tests before f after = sum_list (map (\<lambda>(path, new). f (lookup_or_empty before path) new)
     (filter (\<lambda>(path, new). is_test_path path) after))"

definition over_source :: "(string \<times> string) list \<Rightarrow> (string \<Rightarrow> string \<Rightarrow> nat) \<Rightarrow> (string \<times> string) list \<Rightarrow> nat" where
  "over_source before f after = sum_list (map (\<lambda>(path, new). f (lookup_or_empty before path) new)
     (filter (\<lambda>(path, new). \<not> is_test_path path) after))"

definition newly_skipped :: "(string \<times> string) list \<Rightarrow> string \<times> string \<Rightarrow> bool" where
  "newly_skipped before entry \<longleftrightarrow> is_test_path (fst entry) \<and>
     count_outside_comments (snd entry) SKIP
       > count_outside_comments (lookup_or_empty before (fst entry)) SKIP"

lemma loop_counters:
  "te_assertions_before (foldl (evidence_step before) te after)
     = te_assertions_before te + over_tests before (\<lambda>old new. count_outside_comments old ASSERTION) after"
  "te_assertions_after (foldl (evidence_step before) te after)
     = te_assertions_after te + over_tests before (\<lambda>old new. count_outside_comments new ASSERTION) after"
  "te_test_lines_changed (foldl (evidence_step before) te after)
     = te_test_lines_changed te + over_tests before line_churn after"
  "te_source_lines_changed (foldl (evidence_step before) te after)
     = te_source_lines_changed te + over_source before line_churn after"
  by (induction after arbitrary: te)
    (auto simp: evidence_step_def over_tests_def over_source_def Let_def)

lemma loop_skips:
  "te_skips_added (foldl (evidence_step before) te after) = te_skips_added te +
     over_tests before (\<lambda>old new. count_outside_comments new SKIP - count_outside_comments old SKIP) after"
  by (induction after arbitrary: te)
    (auto simp: evidence_step_def over_tests_def Let_def nat_diff_distrib')

lemma loop_findings:
  "te_findings (foldl (evidence_step before) te after) = [] \<longleftrightarrow>
   te_findings te = [] \<and> (\<forall>e \<in> set after. \<not> newly_skipped before e)"
  by (induction after arbitrary: te)
    (auto simp: evidence_step_def newly_skipped_def Let_def)

lemma evaluate_counters:
  "te_assertions_before (evaluate before after k)
     = over_tests before (\<lambda>old new. count_outside_comments old ASSERTION) after"
  "te_assertions_after (evaluate before after k)
     = over_tests before (\<lambda>old new. count_outside_comments new ASSERTION) after"
  "te_test_lines_changed (evaluate before after k) = over_tests before line_churn after"
  "te_source_lines_changed (evaluate before after k) = over_source before line_churn after"
  "te_skips_added (evaluate before after k) =
     over_tests before (\<lambda>old new. count_outside_comments new SKIP - count_outside_comments old SKIP) after"
  by (simp_all add: evaluate_def Let_def loop_counters loop_skips no_evidence_def)

section \<open>Properties\<close>

text \<open>
  A change is passed by the arithmetic exactly when no test file gained skips, the touched
  test files together lost no assertion, and test churn stays within \<open>churn_ratio\<close> times a
  non-zero source churn; a pure test change is never flagged for churn.
\<close>

theorem evaluate_verdict:
  "te_passed (evaluate before after k) \<longleftrightarrow>
     (\<forall>e \<in> set after. \<not> newly_skipped before e) \<and>
     over_tests before (\<lambda>old new. count_outside_comments old ASSERTION) after
       \<le> over_tests before (\<lambda>old new. count_outside_comments new ASSERTION) after \<and>
     (over_source before line_churn after = 0 \<or>
      of_nat (over_tests before line_churn after) \<le> of_nat (over_source before line_churn after) * k)"
  by (auto simp: evaluate_def te_passed_def Let_def loop_findings loop_counters no_evidence_def
      assertions_removed_def churn_suspicious_def)

lemma evaluate_verdict_witness:
  "\<not> te_passed (evaluate [(''tests/test_a.py'', ''assert x'')] [(''tests/test_a.py'', [])] 4)"
proof -
  have "te_findings (evaluate [(''tests/test_a.py'', ''assert x'')] [(''tests/test_a.py'', [])] 4) \<noteq> []"
    by code_simp
  then show ?thesis
    using evaluate_verdict[of "[(''tests/test_a.py'', ''assert x'')]" "[(''tests/test_a.py'', [])]" 4]
    by (simp add: te_passed_def)
qed

text \<open>
  Rewriting files with the content they already had is never reported: every count is
  zero change, nothing is newly skipped and the arithmetic passes, for any ratio.
\<close>

theorem unchanged_files_pass:
  assumes "\<forall>(path, new) \<in> set after. lookup_or_empty before path = new"
  shows "te_passed (evaluate before after k) \<and> te_skips_added (evaluate before after k) = 0 \<and>
         assertions_removed (evaluate before after k) = 0"
proof -
  have same: "over_tests before f after = over_tests before (\<lambda>old new. f old old) after" for f
    unfolding over_tests_def using assms
    by (intro arg_cong[where f = sum_list] map_cong) auto
  have churn: "over_source before line_churn after = 0"
    unfolding over_source_def using assms by (auto simp: line_churn_def)
  have skip: "\<forall>e \<in> set after. \<not> newly_skipped before e"
    using assms by (auto simp: newly_skipped_def)
  have "over_tests before (\<lambda>old new. count_outside_comments new ASSERTION) after
      = over_tests before (\<lambda>old new. count_outside_comments old ASSERTION) after"
    using same[of "\<lambda>old new. count_outside_comments new ASSERTION"] by simp
  moreover have "over_tests before
      (\<lambda>old new. count_outside_comments new SKIP - count_outside_comments old SKIP) after = 0"
    unfolding same[of "\<lambda>old new. count_outside_comments new SKIP - count_outside_comments old SKIP"]
    by (simp add: over_tests_def case_prod_beta)
  ultimately show ?thesis
    using churn skip
    by (simp add: te_passed_def evaluate_counters assertions_removed_def)
       (simp add: evaluate_def Let_def loop_findings loop_counters no_evidence_def
         assertions_removed_def churn_suspicious_def)
qed

lemma unchanged_files_pass_witness:
  "te_passed (evaluate [(''tests/test_a.py'', ''assert x'')] [(''tests/test_a.py'', ''assert x'')] 4)"
  by (intro unchanged_files_pass[THEN conjunct1]) (simp add: lookup_or_empty_def)

end
