(* ===== verification/Audit_Store.thy ===== *)
theory Audit_Store
  imports Flow_Types
begin

text \<open>
  engine/activities/audit.py over the three tables it writes.  \<open>flow_events\<close> is keyed by
  \<open>(run_id, seq)\<close> and inserted with \<open>ON CONFLICT DO NOTHING\<close>; \<open>flow_runs\<close> by run id;
  \<open>run_files\<close> by \<open>(run_id, path)\<close> with an upsert.  Activities are delivered at least once,
  so every operation has to be harmless when it is repeated.
\<close>

section \<open>Tables\<close>

record flow_event =
  ev_run_id :: uuid
  ev_seq :: nat
  ev_kind :: string
  ev_node_id :: "string option"
  ev_payload :: json
  ev_control_mode :: "string option"

record run_started =
  rs_run_id :: uuid
  rs_root_run_id :: uuid
  rs_parent_run_id :: "uuid option"
  rs_app_id :: uuid
  rs_workflow_id :: string
  rs_ticket_system :: string
  rs_ticket_id :: string
  rs_risk_tier :: risk_tier
  rs_schema_version :: int
  rs_policy_commit :: string
  rs_policy_bundle :: json

record run_row =
  rw_started :: run_started
  rw_status :: string
  rw_ended :: bool

record changed_file =
  cf_path :: string
  cf_added :: int
  cf_removed :: int

record run_files =
  rf_run_id :: uuid
  rf_attempt :: int
  rf_files :: "changed_file list"

record file_row =
  fr_added :: int
  fr_removed :: int
  fr_attempt :: int

record audit_db =
  db_events :: "flow_event list"
  db_runs :: "uuid \<rightharpoonup> run_row"
  db_files :: "uuid \<times> string \<rightharpoonup> file_row"

section \<open>Operations\<close>

definition record_run_started :: "run_started \<Rightarrow> audit_db \<Rightarrow> audit_db" where
  "record_run_started run db =
    (case db_runs db (rs_run_id run) of
       Some _ \<Rightarrow> db
     | None \<Rightarrow> db\<lparr> db_runs := (db_runs db)(rs_run_id run \<mapsto>
                 \<lparr> rw_started = run, rw_status = ''running'', rw_ended = False \<rparr>) \<rparr>)"

definition has_event :: "audit_db \<Rightarrow> uuid \<Rightarrow> nat \<Rightarrow> bool" where
  "has_event db run_id n \<longleftrightarrow>
     list_ex (\<lambda>e. ev_run_id e = run_id \<and> ev_seq e = n) (db_events db)"

definition record_event :: "flow_event \<Rightarrow> audit_db \<Rightarrow> audit_db" where
  "record_event event db =
    (if has_event db (ev_run_id event) (ev_seq event) then db
     else db\<lparr> db_events := db_events db @ [event] \<rparr>)"

definition record_run_status :: "uuid \<Rightarrow> string \<Rightarrow> audit_db \<Rightarrow> audit_db" where
  "record_run_status run_id status db =
    (case db_runs db run_id of
       Some row \<Rightarrow>
         if rw_status row = ''running'' \<or> rw_status row = ''suspended''
         then db\<lparr> db_runs := (db_runs db)(run_id \<mapsto> row\<lparr> rw_status := status \<rparr>) \<rparr>
         else db
     | None \<Rightarrow> db)"

fun upsert_files :: "uuid \<Rightarrow> int \<Rightarrow> changed_file list
    \<Rightarrow> (uuid \<times> string \<rightharpoonup> file_row) \<Rightarrow> (uuid \<times> string \<rightharpoonup> file_row)" where
  "upsert_files run_id attempt [] m = m"
| "upsert_files run_id attempt (f # fs) m =
     upsert_files run_id attempt fs
       (m((run_id, cf_path f) \<mapsto>
          \<lparr> fr_added = cf_added f, fr_removed = cf_removed f, fr_attempt = attempt \<rparr>))"

definition record_run_files :: "run_files \<Rightarrow> audit_db \<Rightarrow> audit_db" where
  "record_run_files run db =
    (if rf_files run = [] then db
     else db\<lparr> db_files := upsert_files (rf_run_id run) (rf_attempt run) (rf_files run) (db_files db) \<rparr>)"

definition record_run_ended :: "uuid \<Rightarrow> string \<Rightarrow> audit_db \<Rightarrow> audit_db" where
  "record_run_ended run_id status db =
    (case db_runs db run_id of
       Some row \<Rightarrow> db\<lparr> db_runs := (db_runs db)(run_id \<mapsto>
                     row\<lparr> rw_status := status, rw_ended := True \<rparr>) \<rparr>
     | None \<Rightarrow> db)"

section \<open>The trail as an interface\<close>

text \<open>
  What a workflow relies on when it records events: a fresh sequence number is appended after
  everything recorded before it, a repeated one changes nothing.
\<close>

definition run_events :: "audit_db \<Rightarrow> uuid \<Rightarrow> flow_event list" where
  "run_events db run_id = filter (\<lambda>e. ev_run_id e = run_id) (db_events db)"

locale event_trail =
  fixes put :: "flow_event \<Rightarrow> 'db \<Rightarrow> 'db"
    and trail :: "'db \<Rightarrow> uuid \<Rightarrow> flow_event list"
  assumes put_fresh: "ev_seq e \<notin> ev_seq ` set (trail db (ev_run_id e)) \<Longrightarrow>
      trail (put e db) r = (if r = ev_run_id e then trail db r @ [e] else trail db r)"
    and put_dup: "ev_seq e \<in> ev_seq ` set (trail db (ev_run_id e)) \<Longrightarrow> put e db = db"
begin

fun put_all :: "flow_event list \<Rightarrow> 'db \<Rightarrow> 'db" where
  "put_all [] db = db"
| "put_all (e # es) db = put_all es (put e db)"

lemma put_prefix: "\<exists>es. trail (put e db) r = trail db r @ es"
  by (cases "ev_seq e \<in> ev_seq ` set (trail db (ev_run_id e))")
    (auto simp: put_fresh put_dup)

lemma put_recorded: "ev_seq e \<in> ev_seq ` set (trail (put e db) (ev_run_id e))"
  by (cases "ev_seq e \<in> ev_seq ` set (trail db (ev_run_id e))")
    (auto simp: put_fresh put_dup)

lemma put_idem [simp]: "put e (put e db) = put e db"
  by (rule put_dup) (rule put_recorded)

lemma put_keeps: "x \<in> set (trail db r) \<Longrightarrow> x \<in> set (trail (put e db) r)"
  using put_prefix[of e db r] by auto

lemma put_all_prefix: "\<exists>es'. trail (put_all es db) r = trail db r @ es'"
proof (induction es arbitrary: db)
  case Nil
  then show ?case by simp
next
  case (Cons e es)
  from put_prefix[of e db r] Cons.IH[of "put e db"] show ?case by auto
qed

text \<open>At-least-once delivery: replaying an activity that already ran is invisible.\<close>

lemma replay_invisible:
  assumes "e \<in> set es"
  shows "put e (put_all es db) = put_all es db"
  using assms
proof (induction es arbitrary: db)
  case Nil
  then show ?case by simp
next
  case (Cons x es)
  show ?case
  proof (cases "e \<in> set es")
    case True
    then show ?thesis by (simp add: Cons.IH)
  next
    case False
    with Cons.prems have "x = e" by simp
    obtain y where y: "y \<in> set (trail (put e db) (ev_run_id e))" "ev_seq y = ev_seq e"
      using put_recorded[of e db] by (metis imageE)
    from put_all_prefix[of es "put e db" "ev_run_id e"] y(1)
    have "y \<in> set (trail (put_all es (put e db)) (ev_run_id e))" by auto
    with y(2) \<open>x = e\<close> show ?thesis by (auto intro!: put_dup image_eqI[of _ _ y])
  qed
qed

lemma put_all_in_order:
  assumes "\<forall>e \<in> set es. ev_run_id e = r"
    and "map ev_seq (trail db r) @ map ev_seq es = [a..<b]"
  shows "trail (put_all es db) r = trail db r @ es"
  using assms
proof (induction es arbitrary: db)
  case Nil
  then show ?case by simp
next
  case (Cons e es)
  have "distinct (map ev_seq (trail db r) @ map ev_seq (e # es))"
    unfolding Cons.prems(2) by simp
  then have fresh: "ev_seq e \<notin> ev_seq ` set (trail db r)" by auto
  have er: "ev_run_id e = r" using Cons.prems(1) by simp
  have step: "trail (put e db) r = trail db r @ [e]"
    using put_fresh[of e db r] fresh er by simp
  have "trail (put_all es (put e db)) r = trail (put e db) r @ es"
    using Cons.prems step by (intro Cons.IH) simp_all
  with step show ?case by simp
qed

end

lemma has_event_iff:
  "has_event db r n \<longleftrightarrow> n \<in> ev_seq ` set (run_events db r)"
  by (auto simp: has_event_def run_events_def list_ex_iff)

interpretation audit: event_trail record_event run_events
proof unfold_locales
  fix e :: flow_event and db :: audit_db and r :: uuid
  assume "ev_seq e \<notin> ev_seq ` set (run_events db (ev_run_id e))"
  then have "\<not> has_event db (ev_run_id e) (ev_seq e)" by (simp add: has_event_iff)
  then show "run_events (record_event e db) r =
      (if r = ev_run_id e then run_events db r @ [e] else run_events db r)"
    by (auto simp: record_event_def run_events_def)
next
  fix e :: flow_event and db :: audit_db
  assume "ev_seq e \<in> ev_seq ` set (run_events db (ev_run_id e))"
  then show "record_event e db = db" by (simp add: record_event_def has_event_iff)
qed

lemma run_events_frame [simp]:
  "run_events (record_run_started run db) r = run_events db r"
  "run_events (record_run_status r' st db) r = run_events db r"
  "run_events (record_run_files rf db) r = run_events db r"
  "run_events (record_run_ended r' st db) r = run_events db r"
  by (simp_all add: run_events_def record_run_started_def record_run_status_def
      record_run_files_def record_run_ended_def split: option.split)

lemma db_runs_frame [simp]:
  "db_runs (record_event e db) = db_runs db"
  "db_runs (record_run_files rf db) = db_runs db"
  by (simp_all add: record_event_def record_run_files_def)

lemma upsert_files_lookup:
  "upsert_files r a fs m (r', p) =
     (if r' = r then
        (case py_last (filter (\<lambda>f. cf_path f = p) fs) of
           Some f \<Rightarrow> Some \<lparr> fr_added = cf_added f, fr_removed = cf_removed f, fr_attempt = a \<rparr>
         | None \<Rightarrow> m (r', p))
      else m (r', p))"
proof (induction fs arbitrary: m)
  case Nil
  then show ?case by simp
next
  case (Cons f fs)
  show ?case
    by (cases "filter (\<lambda>f. cf_path f = p) fs") (auto simp: Cons.IH split: option.split)
qed

section \<open>Properties\<close>

text \<open>
  Recording events is idempotent under at-least-once delivery: once a batch of events has
  been recorded, delivering any of them again changes no table.
\<close>

theorem record_event_replay:
  assumes "e \<in> set es"
  shows "record_event e (fold record_event es db) = fold record_event es db"
proof -
  have "fold record_event es db = audit.put_all es db" for db
    by (induction es arbitrary: db) simp_all
  with audit.replay_invisible[OF assms] show ?thesis by simp
qed

definition sample_event :: "nat \<Rightarrow> flow_event" where
  "sample_event n = \<lparr> ev_run_id = ''r'', ev_seq = n, ev_kind = ''k'', ev_node_id = None,
     ev_payload = JObj [], ev_control_mode = None \<rparr>"

definition empty_db :: audit_db where
  "empty_db = \<lparr> db_events = [], db_runs = Map.empty, db_files = Map.empty \<rparr>"

lemma record_event_replay_witness:
  "record_event (sample_event 1) (fold record_event [sample_event 1, sample_event 2] empty_db)
   = fold record_event [sample_event 1, sample_event 2] empty_db"
  by (rule record_event_replay) simp

text \<open>
  The trail is append-only: no operation of the audit module removes, rewrites or reorders
  an event that was already recorded, for any run.
\<close>

theorem trail_append_only:
  "(\<exists>es. run_events (record_event e db) r = run_events db r @ es \<and> length es \<le> 1) \<and>
   run_events (record_run_started run db) r = run_events db r \<and>
   run_events (record_run_status r' st db) r = run_events db r \<and>
   run_events (record_run_files rf db) r = run_events db r \<and>
   run_events (record_run_ended r' st db) r = run_events db r"
proof -
  have "\<exists>es. run_events (record_event e db) r = run_events db r @ es \<and> length es \<le> 1"
    by (cases "has_event db (ev_run_id e) (ev_seq e)")
      (auto simp: record_event_def run_events_def)
  then show ?thesis by simp
qed

text \<open>
  A late or replayed status change cannot resurrect a run: once a run has ended with a
  status other than \<open>running\<close> or \<open>suspended\<close>, \<open>record_run_status\<close> leaves its row alone.
\<close>

theorem ended_run_stays_ended:
  assumes "db_runs db r = Some row" and "status \<notin> {''running'', ''suspended''}"
  shows "db_runs (record_run_status r s (record_run_ended r status db)) r
       = Some (row\<lparr> rw_status := status, rw_ended := True \<rparr>)"
  using assms by (simp add: record_run_status_def record_run_ended_def)

definition sample_row :: run_row where
  "sample_row = \<lparr> rw_started = \<lparr> rs_run_id = ''r'', rs_root_run_id = ''r'', rs_parent_run_id = None,
     rs_app_id = ''a'', rs_workflow_id = ''w'', rs_ticket_system = ''jira'', rs_ticket_id = ''T-1'',
     rs_risk_tier = Low, rs_schema_version = 1, rs_policy_commit = ''c'', rs_policy_bundle = JObj [] \<rparr>,
     rw_status = ''running'', rw_ended = False \<rparr>"

lemma ended_run_stays_ended_witness:
  "db_runs (record_run_status ''r'' ''suspended''
      (record_run_ended ''r'' ''failed'' (empty_db\<lparr> db_runs := [''r'' \<mapsto> sample_row] \<rparr>))) ''r''
   = Some (sample_row\<lparr> rw_status := ''failed'', rw_ended := True \<rparr>)"
  by (rule ended_run_stays_ended) simp_all

text \<open>
  After a push is indexed, each of its paths carries the last entry of that push and that
  attempt, and every path the push did not mention keeps what an earlier attempt recorded; an
  empty diff clears nothing.
\<close>

theorem record_run_files_lookup:
  "db_files (record_run_files rf db) (r, p) =
     (if r = rf_run_id rf \<and> (\<exists>f \<in> set (rf_files rf). cf_path f = p)
      then map_option (\<lambda>f. \<lparr> fr_added = cf_added f, fr_removed = cf_removed f,
                           fr_attempt = rf_attempt rf \<rparr>)
             (py_last (filter (\<lambda>f. cf_path f = p) (rf_files rf)))
      else db_files db (r, p))"
proof (cases "filter (\<lambda>f. cf_path f = p) (rf_files rf) = []")
  case True
  then show ?thesis
    by (auto simp: record_run_files_def upsert_files_lookup filter_empty_conv)
next
  case False
  then obtain f where f: "py_last (filter (\<lambda>f. cf_path f = p) (rf_files rf)) = Some f"
    using py_last_None by (cases "py_last (filter (\<lambda>f. cf_path f = p) (rf_files rf))") auto
  from False have "rf_files rf \<noteq> []" by auto
  with False f show ?thesis
    by (auto simp: record_run_files_def upsert_files_lookup filter_empty_conv)
qed

text \<open>
  The file index can describe a change that is no longer on the branch: every attempt's tree
  is the base plus that attempt's edits, but a path that only an earlier attempt touched stays
  in the index, with that attempt's line counts, after a later attempt has replaced it.
\<close>

theorem superseded_path_stays_indexed:
  assumes "f \<in> set fs1" and "cf_path f \<notin> cf_path ` set fs2"
  shows "db_files (record_run_files \<lparr> rf_run_id = r, rf_attempt = 1, rf_files = fs2 \<rparr>
           (record_run_files \<lparr> rf_run_id = r, rf_attempt = 0, rf_files = fs1 \<rparr> db)) (r, cf_path f) \<noteq> None"
proof -
  have "filter (\<lambda>g. cf_path g = cf_path f) fs2 = []" "filter (\<lambda>g. cf_path g = cf_path f) fs1 \<noteq> []"
    using assms by (auto simp: filter_empty_conv image_iff)
  moreover from this(2) have "fs1 \<noteq> []" by auto
  ultimately show ?thesis
    by (cases "py_last (filter (\<lambda>g. cf_path g = cf_path f) fs1)")
      (auto simp: record_run_files_def upsert_files_lookup)
qed

lemma superseded_path_stays_indexed_witness:
  "db_files (record_run_files \<lparr> rf_run_id = ''r'', rf_attempt = 1,
       rf_files = [\<lparr> cf_path = ''b.py'', cf_added = 1, cf_removed = 0 \<rparr>] \<rparr>
     (record_run_files \<lparr> rf_run_id = ''r'', rf_attempt = 0,
       rf_files = [\<lparr> cf_path = ''a.py'', cf_added = 9, cf_removed = 0 \<rparr>] \<rparr> empty_db)) (''r'', ''a.py'') \<noteq> None"
  using superseded_path_stays_indexed[of "\<lparr> cf_path = ''a.py'', cf_added = 9, cf_removed = 0 \<rparr>"
    "[\<lparr> cf_path = ''a.py'', cf_added = 9, cf_removed = 0 \<rparr>]"
    "[\<lparr> cf_path = ''b.py'', cf_added = 1, cf_removed = 0 \<rparr>]" "''r''" empty_db] by simp

end
