(* ===== verification/Delivery.thy ===== *)
theory Delivery
  imports Notes Audit_Store Risk_Policy Pricing
begin

text \<open>
  engine/flows/delivery.py: the deterministic delivery flow.  \<open>flow\<close> is the \<open>DeliveryFlow\<close>
  object together with the audit tables its activities write.  A workflow method takes and
  returns it; what it returns or how it stops is an \<open>'a step\<close>.

  Nodes, the preview lookup, the approvers and the order in which concurrent verifiers finish
  are the environment \<open>flow_env\<close>.  A node execution is identified by its activity id, that is
  by its node id and the sequence number at the time it is scheduled, plus the number of the
  attempt.  \<open>execute\<close> is Temporal's documented retry policy with the arguments the source
  passes.

  Python shares one object between \<open>state\<close> and \<open>self._latest\<close> from the moment a node step
  returns; wherever the source mutates \<open>state\<close> the model updates \<open>wf_latest\<close> with it
  (\<open>sync\<close>).
\<close>

section \<open>Interface types\<close>

record flow_input =
  fi_run_id :: uuid
  fi_app_id :: uuid
  fi_ticket :: ticket
  fi_policy_commit :: string
  fi_policy_bundle :: json
  fi_app_name :: string
  fi_provisional_risk_tier :: risk_tier
  fi_risk_rules :: risk_rules
  fi_blocking_verifiers :: "string list"
  fi_budget_cents_allowed :: int
  fi_max_coder_retries :: int
  fi_parent_run_id :: "uuid option"
  fi_root_run_id :: "uuid option"

record flow_result =
  fr_run_id :: uuid
  fr_status :: string
  fr_risk_tier :: risk_tier
  fr_events :: nat

record approval_signal =
  sg_principal :: string
  sg_approved :: bool
  sg_evidence_digest :: string
  sg_comment :: string

record gate_notice =
  gn_run_id :: uuid
  gn_app_id :: uuid
  gn_ticket_id :: string
  gn_risk_tier :: risk_tier
  gn_approvals_needed :: nat

record flow =
  wf_run_id :: uuid
  wf_app_id :: uuid
  wf_seq :: nat
  wf_approvals :: "approval_signal list"
  wf_status :: string
  wf_node :: "string option"
  wf_latest :: "flow_state option"
  wf_db :: audit_db
  wf_notices :: "gate_notice list"

text \<open>
  What the flow does not decide: one attempt of a node, the preview URL, the order in which the
  verifiers complete, the workflow id, and the decisions that arrive before the gate, while it
  waits, and while \<open>running\<close> is being written back.
\<close>

record flow_env =
  en_exec :: "string \<Rightarrow> nat \<Rightarrow> nat \<Rightarrow> flow_state \<Rightarrow> flow_state res"
  en_preview :: string
  en_fan_order :: "string list"
  en_workflow_id :: string
  en_early :: "approval_signal list"
  en_waiting :: "approval_signal list"
  en_window :: "approval_signal list"

datatype failure = Rejected string "string list" | Crashed error | Waiting

type_synonym 'a step = "(failure + 'a) \<times> flow"

definition bind_step :: "'a step \<Rightarrow> ('a \<Rightarrow> flow \<Rightarrow> 'b step) \<Rightarrow> 'b step" where
  "bind_step m k = (case m of (Inl e, f) \<Rightarrow> (Inl e, f) | (Inr x, f) \<Rightarrow> k x f)"

definition VERIFIERS :: "string list" where
  "VERIFIERS = [''verifier.correctness'', ''verifier.security'', ''verifier.test_evidence'',
     ''verifier.regression_risk'']"

definition ALL_VERIFIERS :: "string list" where
  "ALL_VERIFIERS = [''correctness'', ''security'', ''test_evidence'', ''regression_risk'']"

section \<open>Plumbing\<close>

definition jopt :: "string option \<Rightarrow> json" where
  "jopt x = (case x of None \<Rightarrow> JNull | Some s \<Rightarrow> JStr s)"

text \<open>\<open>_failure\<close>: the innermost cause's type name and the first 500 characters of its message.\<close>

definition failure_json :: "error \<Rightarrow> json" where
  "failure_json e = JObj [(''error'', JStr (err_type e)), (''message'', JStr (take 500 (err_msg e)))]"

definition emit :: "string \<Rightarrow> string option \<Rightarrow> json \<Rightarrow> string option \<Rightarrow> flow \<Rightarrow> flow" where
  "emit kind node_id payload control_mode f =
    f\<lparr> wf_seq := Suc (wf_seq f),
       wf_db := record_event
         \<lparr> ev_run_id = wf_run_id f, ev_seq = Suc (wf_seq f), ev_kind = kind, ev_node_id = node_id,
           ev_payload = payload, ev_control_mode = control_mode \<rparr> (wf_db f) \<rparr>"

definition set_status :: "string \<Rightarrow> flow \<Rightarrow> flow" where
  "set_status status f = f\<lparr> wf_db := record_run_status (wf_run_id f) status (wf_db f) \<rparr>"

definition sync :: "flow_state \<Rightarrow> flow \<Rightarrow> flow" where
  "sync st f = f\<lparr> wf_latest := Some st \<rparr>"

definition NON_RETRYABLE :: "string list" where
  "NON_RETRYABLE = [''PolicyDenied'', ''ProtectedPathWritten'', ''RiskTierLowered'',
     ''InvariantViolation'', ''ConfigError'', ''LLMAuthError'', ''LLMOutputTruncated'',
     ''LLMRequestRejected'']"

definition MAX_ATTEMPTS :: nat where
  "MAX_ATTEMPTS = 3"

text \<open>\<open>retry_from f r k\<close>: attempt number \<open>k\<close>, with \<open>r\<close> further attempts allowed; also how many ran.\<close>

fun retry_from :: "(nat \<Rightarrow> 'a res) \<Rightarrow> nat \<Rightarrow> nat \<Rightarrow> 'a res \<times> nat" where
  "retry_from f 0 k = (f k, k)"
| "retry_from f (Suc r) k =
     (case f k of
        Inr x \<Rightarrow> (Inr x, k)
      | Inl e \<Rightarrow> if err_type e \<in> set NON_RETRYABLE then (Inl e, k) else retry_from f r (Suc k))"

definition execute_counted :: "flow_env \<Rightarrow> string \<Rightarrow> nat \<Rightarrow> flow_state \<Rightarrow> flow_state res \<times> nat" where
  "execute_counted env node_id seq st =
     retry_from (\<lambda>k. en_exec env node_id seq k st) (MAX_ATTEMPTS - 1) 1"

definition execute :: "flow_env \<Rightarrow> string \<Rightarrow> nat \<Rightarrow> flow_state \<Rightarrow> flow_state res" where
  "execute env node_id seq st = fst (execute_counted env node_id seq st)"

text \<open>\<open>_node_step\<close> with \<open>record=True\<close>.\<close>

definition node_step :: "flow_env \<Rightarrow> string \<Rightarrow> flow_state \<Rightarrow> flow \<Rightarrow> flow_state step" where
  "node_step env node_id st f =
    (let f1 = emit ''node_started'' (Some node_id) (JObj []) None (f\<lparr> wf_node := Some node_id \<rparr>)
     in case execute env node_id (wf_seq f1) st of
          Inl e \<Rightarrow> (Inl (Crashed e), emit ''node_failed'' (Some node_id) (failure_json e) None f1)
        | Inr result \<Rightarrow>
            let f2 = emit ''node_completed'' (Some node_id) (notes_json (fs_notes result)) None
                       (sync result f1);
                drained = result\<lparr> fs_notes := None \<rparr>
            in (Inr drained, sync drained f2))"

section \<open>The verifier fan-out\<close>

definition VERIFIER_MAY_SEE :: "string list" where
  "VERIFIER_MAY_SEE =
    [''run_id'', ''root_run_id'', ''parent_run_id'', ''schema_version'', ''policy_commit'',
     ''policy_bundle'', ''ticket'', ''diff'', ''proposed_edits'', ''branch'', ''base_branch'',
     ''base_commit'', ''head_commit'', ''ci_result'', ''sandbox_result'', ''ci_detail'',
     ''sast_result'', ''coverage'', ''sandbox_isolation'', ''sandbox_gaps'', ''risk_tier'']"

text \<open>\<open>FlowState(**{name: getattr(state, name) for name in VERIFIER_MAY_SEE})\<close>.\<close>

definition verifier_brief :: "flow_state \<Rightarrow> flow_state" where
  "verifier_brief st =
    (new_flow_state (fs_run_id st) (fs_root_run_id st) (fs_ticket st) (fs_policy_commit st)
       (fs_policy_bundle st))
    \<lparr> fs_parent_run_id := fs_parent_run_id st, fs_schema_version := fs_schema_version st,
      fs_diff := fs_diff st, fs_proposed_edits := fs_proposed_edits st,
      fs_branch := fs_branch st, fs_base_branch := fs_base_branch st,
      fs_base_commit := fs_base_commit st, fs_head_commit := fs_head_commit st,
      fs_ci_result := fs_ci_result st, fs_sandbox_result := fs_sandbox_result st,
      fs_ci_detail := fs_ci_detail st, fs_sast_result := fs_sast_result st,
      fs_coverage := fs_coverage st, fs_sandbox_isolation := fs_sandbox_isolation st,
      fs_sandbox_gaps := fs_sandbox_gaps st, fs_risk_tier := fs_risk_tier st \<rparr>"

text \<open>
  The branches of \<open>asyncio.gather\<close>: all four are scheduled before any completes, so they share
  one sequence number; completions then arrive in \<open>order\<close>, each publishing its result to
  \<open>self._latest\<close> or recording its failure.  The first failure is the one \<open>gather\<close> raises.
\<close>

fun completions :: "flow_env \<Rightarrow> nat \<Rightarrow> flow_state \<Rightarrow> string list \<Rightarrow> error option \<Rightarrow> flow
    \<Rightarrow> error option \<times> flow" where
  "completions env seq brief [] failed f = (failed, f)"
| "completions env seq brief (v # vs) failed f =
     (case execute env v seq brief of
        Inr result \<Rightarrow> completions env seq brief vs failed (sync result f)
      | Inl e \<Rightarrow> completions env seq brief vs
          (case failed of None \<Rightarrow> Some e | Some e0 \<Rightarrow> Some e0)
          (emit ''node_failed'' (Some v) (failure_json e) None f))"

definition fan_results :: "flow_env \<Rightarrow> nat \<Rightarrow> flow_state \<Rightarrow> (string \<times> flow_state) list" where
  "fan_results env seq brief =
     List.map_filter (\<lambda>v. case execute env v seq brief of Inr r \<Rightarrow> Some (v, r) | Inl _ \<Rightarrow> None) VERIFIERS"

fun emit_verdicts :: "(string \<times> flow_state) list \<Rightarrow> flow \<Rightarrow> flow" where
  "emit_verdicts [] f = f"
| "emit_verdicts ((v, r) # rs) f =
     emit_verdicts rs
       (if fs_notes r \<noteq> None
        then emit ''verifier_verdict'' (Some v) (notes_json (fs_notes r)) None f else f)"

definition graded_json :: "graded_finding \<Rightarrow> json" where
  "graded_json g = JObj [(''detail'', JStr (gf_detail g)), (''severity'', JStr (gf_severity g))]"

definition verification_json :: "verification \<Rightarrow> json" where
  "verification_json v = JObj [(''verifier'', JStr (vf_verifier v)), (''blocks'', JBool (\<not> vf_passed v)),
     (''findings'', JList (map JStr (vf_findings v))), (''graded'', JList (map graded_json (vf_graded v)))]"

definition verify :: "flow_env \<Rightarrow> flow_state \<Rightarrow> flow \<Rightarrow> flow_state step" where
  "verify env st f =
    (let f1 = emit ''verifiers_started'' None (JObj [(''count'', JInt (int (length VERIFIERS)))]) None f;
         brief = verifier_brief st;
         seq = wf_seq f1;
         (failed, f2) = completions env seq brief (en_fan_order env) None
                          (f1\<lparr> wf_node := Some (last VERIFIERS) \<rparr>)
     in case failed of
          Some e \<Rightarrow> (Inl (Crashed e), f2)
        | None \<Rightarrow>
      if \<not> set VERIFIERS \<subseteq> set (en_fan_order env) then (Inl Waiting, f2)
      else
        let results = fan_results env seq brief;
            st' = st\<lparr> fs_spend_micro_cents :=
                       combine (fs_spend_micro_cents st # map (fs_spend_micro_cents \<circ> snd) results),
                     fs_verifications := fs_verifications st @ concat (map (fs_verifications \<circ> snd) results) \<rparr>;
            f3 = emit_verdicts results f2;
            falsified = map vf_verifier (filter (\<lambda>v. \<not> vf_passed v) (fs_verifications st'));
            f4 = emit ''verifiers_completed'' None
                  (JObj [(''passed'', JInt (int (length (filter vf_passed (fs_verifications st'))))),
                         (''of'', JInt (int (length VERIFIERS))),
                         (''falsified_by'', JList (map JStr falsified)),
                         (''verifications'', JList (map verification_json (fs_verifications st')))]) None f3
        in (Inr st', sync st' f4))"

section \<open>The approval gate\<close>

definition rejecting :: "approval_signal list \<Rightarrow> bool" where
  "rejecting sigs \<longleftrightarrow> list_ex (\<lambda>a. \<not> sg_approved a) sigs"

definition decided :: "nat \<Rightarrow> approval_signal list \<Rightarrow> bool" where
  "decided needed sigs \<longleftrightarrow> rejecting sigs \<or> needed \<le> length (filter sg_approved sigs)"

text \<open>\<open>wait_condition\<close>: decisions are appended one by one until the condition holds, if it ever does.\<close>

fun wait_decided :: "nat \<Rightarrow> approval_signal list \<Rightarrow> approval_signal list \<Rightarrow> approval_signal list option" where
  "wait_decided needed sigs arriving =
     (if decided needed sigs then Some sigs
      else case arriving of [] \<Rightarrow> None | a # as \<Rightarrow> wait_decided needed (sigs @ [a]) as)"

declare wait_decided.simps [simp del]

definition to_approval :: "risk_tier \<Rightarrow> approval_signal \<Rightarrow> approval" where
  "to_approval t a = \<lparr> ap_principal = sg_principal a, ap_approved = sg_approved a, ap_risk_tier = t,
     ap_evidence_digest = sg_evidence_digest a, ap_comment = sg_comment a \<rparr>"

definition emit_preview :: "flow_env \<Rightarrow> flow_state \<Rightarrow> flow \<Rightarrow> flow" where
  "emit_preview env st f =
    (if truthy (fs_head_commit st) \<and> en_preview env \<noteq> [] then
       emit ''preview_published'' None
         (JObj [(''url'', JStr (en_preview env)), (''commit'', jopt (fs_head_commit st))]) None f
     else f)"

definition gate_open :: "flow_env \<Rightarrow> flow_state \<Rightarrow> flow \<Rightarrow> flow" where
  "gate_open env st f =
     emit ''gate_reached'' None
       (JObj [(''tier'', JStr (tier_str (fs_risk_tier st))),
              (''needed'', JInt (int (required_approvals (fs_risk_tier st))))]) None
       (emit_preview env st (f\<lparr> wf_approvals := wf_approvals f @ en_early env \<rparr>))"

definition gate_suspend :: "flow_state \<Rightarrow> flow \<Rightarrow> flow" where
  "gate_suspend st f =
    (let f2 = set_status ''suspended'' (f\<lparr> wf_status := ''suspended'' \<rparr>)
     in f2\<lparr> wf_notices := wf_notices f2 @
          [\<lparr> gn_run_id = wf_run_id f2, gn_app_id = wf_app_id f2,
             gn_ticket_id = tk_id (fs_ticket st), gn_risk_tier = fs_risk_tier st,
             gn_approvals_needed = required_approvals (fs_risk_tier st) \<rparr>] \<rparr>)"

definition gate_decide :: "flow_state \<Rightarrow> approval_signal list \<Rightarrow> flow \<Rightarrow> flow_state step" where
  "gate_decide st decisions f =
    (let f4 = set_status ''running'' (f\<lparr> wf_status := ''running'', wf_approvals := decisions \<rparr>);
         st' = st\<lparr> fs_approvals := map (to_approval (fs_risk_tier st)) decisions \<rparr>;
         f5 = sync st' f4
     in if rejecting decisions
        then (Inl (Rejected ''rejected by an approver'' []), emit ''gate_rejected'' None (JObj []) None f5)
        else (Inr st', emit ''gate_passed'' None (JObj [(''auto'', JBool False)]) None f5))"

definition gate :: "flow_env \<Rightarrow> flow_state \<Rightarrow> flow \<Rightarrow> flow_state step" where
  "gate env st f =
    (let needed = required_approvals (fs_risk_tier st);
         f1 = gate_open env st f
     in if needed = 0 then (Inr st, emit ''gate_passed'' None (JObj [(''auto'', JBool True)]) None f1)
        else
          let f3 = gate_suspend st f1
          in case wait_decided needed (wf_approvals f3) (en_waiting env) of
               None \<Rightarrow> (Inl Waiting, f3\<lparr> wf_approvals := wf_approvals f3 @ en_waiting env \<rparr>)
             | Some sigs \<Rightarrow> gate_decide st (sigs @ en_window env) f3)"

section \<open>The Coder loop\<close>

definition file_change_json :: "file_change \<Rightarrow> json" where
  "file_change_json c = JObj [(''path'', JStr (fc_path c)), (''added'', JInt (fc_added c)),
     (''removed'', JInt (fc_removed c))]"

definition changed_files :: "flow_state \<Rightarrow> file_change list" where
  "changed_files st = (case fs_diff st of None \<Rightarrow> [] | Some d \<Rightarrow> df_files d)"

definition record_push :: "int \<Rightarrow> flow_state \<Rightarrow> flow \<Rightarrow> flow" where
  "record_push attempt st f =
    (let f1 = emit ''branch_pushed'' (Some ''push'')
           (JObj [(''branch'', jopt (fs_branch st)), (''commit'', jopt (fs_head_commit st)),
                  (''base'', jopt (fs_base_commit st)), (''attempt'', JInt attempt),
                  (''files'', JList (map file_change_json (changed_files st)))]) None f
     in f1\<lparr> wf_db := record_run_files
          \<lparr> rf_run_id = wf_run_id f1, rf_attempt = attempt,
            rf_files = map (\<lambda>c. \<lparr> cf_path = fc_path c, cf_added = fc_added c, cf_removed = fc_removed c \<rparr>)
                         (changed_files st) \<rparr> (wf_db f1) \<rparr>)"

definition emit_verdict :: "flow_state \<Rightarrow> flow \<Rightarrow> flow" where
  "emit_verdict st f =
    (case fs_ci_result st of
       None \<Rightarrow> f
     | Some r \<Rightarrow> emit ''build_test_verdict'' (Some ''build_test'')
         (JObj [(''exit_code'', JInt (cr_exit_code r)), (''source'', JStr (source_str (cr_source r))),
                (''duration_ms'', JInt (cr_duration_ms r)), (''url'', jopt (cr_url r)),
                (''independent_anchor'', JBool (is_external_anchor r)),
                (''sandbox_exit_code'', (case fs_sandbox_result st of None \<Rightarrow> JNull
                                          | Some s \<Rightarrow> JInt (cr_exit_code s))),
                (''ci_detail'', jopt (fs_ci_detail st))]) None f)"

definition tests_passed :: "flow_state \<Rightarrow> bool" where
  "tests_passed st = (case fs_ci_result st of None \<Rightarrow> False | Some r \<Rightarrow> cr_exit_code r = 0)"

text \<open>One pass of Coder, Push and Build \& Test.\<close>

definition coder_pass :: "flow_env \<Rightarrow> int \<Rightarrow> flow_state \<Rightarrow> flow \<Rightarrow> flow_state step" where
  "coder_pass env attempt st f =
    (let st0 = st\<lparr> fs_push_attempt := attempt \<rparr>
     in bind_step (node_step env ''coder'' st0 (sync st0 f)) (\<lambda>st1 f1.
        bind_step (node_step env ''push'' st1 f1) (\<lambda>st2 f2.
        bind_step (node_step env ''build_test'' st2 (record_push attempt st2 f2)) (\<lambda>st3 f3.
        (Inr st3, emit_verdict st3 f3)))))"

fun coder_loop :: "flow_env \<Rightarrow> int list \<Rightarrow> flow_state \<Rightarrow> flow \<Rightarrow> flow_state step" where
  "coder_loop env [] st f = (Inl (Rejected ''retry budget exhausted'' []), f)"
| "coder_loop env (attempt # attempts) st f =
     bind_step (coder_pass env attempt st f) (\<lambda>st' f'.
       if tests_passed st' then (Inr st', f') else coder_loop env attempts st' f')"

text \<open>\<open>range(max_coder_retries + 1)\<close>.\<close>

definition attempt_numbers :: "int \<Rightarrow> int list" where
  "attempt_numbers max_retries = map int [0..<nat (max_retries + 1)]"

section \<open>From intake to release\<close>

definition final_tier :: "flow_state \<Rightarrow> flow_input \<Rightarrow> risk_tier \<times> string" where
  "final_tier st params =
    (let (proposed, reason) = tier_for_diff (fs_risk_tier st) (fs_diff st) (fi_risk_rules params)
     in (raise_to (fs_risk_tier st) proposed, reason))"

definition emit_isolation :: "flow_state \<Rightarrow> flow \<Rightarrow> flow" where
  "emit_isolation st f =
    (case fs_sandbox_isolation st of
       None \<Rightarrow> f
     | Some i \<Rightarrow> emit ''sandbox_isolation'' None
         (JObj [(''state'', JStr (isolation_str i)), (''gaps'', JList (map JStr (fs_sandbox_gaps st)))]) None f)"

definition settle_tier :: "flow_input \<Rightarrow> flow_state \<Rightarrow> flow \<Rightarrow> flow_state \<times> flow" where
  "settle_tier params st f =
    (let provisional = fs_risk_tier st;
         (tier, reason) = final_tier st params;
         st' = st\<lparr> fs_risk_tier := tier, fs_risk_tier_reason := reason,
                  fs_provisional_risk_tier := Some provisional \<rparr>
     in (st', emit ''risk_tier_final'' None
          (JObj [(''tier'', JStr (tier_str tier)), (''provisional'', JStr (tier_str provisional)),
                 (''reason'', JStr reason),
                 (''files_changed'', JInt (int (length (changed_files st'))))]) None (sync st' f)))"

text \<open>\<open>set(params.blocking_verifiers) or set(_ALL_VERIFIER_NAMES)\<close>.\<close>

definition blocking_set :: "flow_input \<Rightarrow> string set" where
  "blocking_set params =
    (if fi_blocking_verifiers params = [] then set ALL_VERIFIERS else set (fi_blocking_verifiers params))"

definition falsified :: "flow_input \<Rightarrow> flow_state \<Rightarrow> string list" where
  "falsified params st = map vf_verifier
     (filter (\<lambda>v. \<not> vf_passed v \<and> vf_verifier v \<in> blocking_set params) (fs_verifications st))"

definition overridden :: "flow_input \<Rightarrow> flow_state \<Rightarrow> string list" where
  "overridden params st = map vf_verifier
     (filter (\<lambda>v. \<not> vf_passed v \<and> vf_verifier v \<notin> blocking_set params) (fs_verifications st))"

definition judge_verdicts :: "flow_input \<Rightarrow> flow_state \<Rightarrow> flow \<Rightarrow> flow_state step" where
  "judge_verdicts params st f =
    (let st' = st\<lparr> fs_advisory_objections := overridden params st \<rparr>;
         f1 = sync st' f;
         f2 = (if overridden params st \<noteq> [] then
                 emit ''verifier_overridden'' None
                   (JObj [(''advisory'', JList (map JStr (overridden params st))),
                          (''detail'', JStr (''these verifiers falsified the change and were not permitted to ''
                            @ ''block it, because this application declares them advisory''))]) None f1
               else f1)
     in if falsified params st \<noteq> []
        then (Inl (Rejected ''a verifier falsified the change'' (falsified params st)), f2)
        else (Inr st', f2))"

definition emit_merge :: "flow_state \<Rightarrow> flow \<Rightarrow> flow" where
  "emit_merge st f =
    (if truthy (fs_merged_commit st) then
       emit ''external_effect'' (Some ''release'')
         (JObj [(''effect'', JStr ''merge''), (''commit'', jopt (fs_merged_commit st)),
                (''branch'', jopt (fs_branch st)), (''target'', jopt (fs_base_branch st)),
                (''risk_tier'', JStr (tier_str (fs_risk_tier st))),
                (''anchor'', JStr (case fs_ci_result st of None \<Rightarrow> ''none''
                                   | Some r \<Rightarrow> source_str (cr_source r)))])
         (Some ''authorized'') f
     else f)"

definition deliver :: "flow_env \<Rightarrow> flow_input \<Rightarrow> flow_state \<Rightarrow> flow \<Rightarrow> flow_state step" where
  "deliver env params st f =
    bind_step (node_step env ''triage'' st f) (\<lambda>st1 f1.
    bind_step (node_step env ''planner'' st1 f1) (\<lambda>st2 f2.
    bind_step (coder_loop env (attempt_numbers (fi_max_coder_retries params)) st2 f2) (\<lambda>st3 f3.
    case settle_tier params st3 (emit_isolation st3 f3) of (st4, f4) \<Rightarrow>
    bind_step (verify env st4 f4) (\<lambda>st5 f5.
    bind_step (judge_verdicts params st5 f5) (\<lambda>st6 f6.
    bind_step (gate env st6 f6) (\<lambda>st7 f7.
    bind_step (node_step env ''release'' st7 f7) (\<lambda>st8 f8.
    (Inr st8, emit_merge st8 f8))))))))"

section \<open>The run\<close>

datatype outcome = Returned flow_result | Raised error | Suspended

definition new_flow :: "flow_input \<Rightarrow> audit_db \<Rightarrow> flow" where
  "new_flow params db = \<lparr> wf_run_id = fi_run_id params, wf_app_id = fi_app_id params, wf_seq = 0,
     wf_approvals = [], wf_status = ''running'', wf_node = None, wf_latest = None, wf_db = db,
     wf_notices = [] \<rparr>"

definition root_of :: "flow_input \<Rightarrow> uuid" where
  "root_of params = (case fi_root_run_id params of None \<Rightarrow> fi_run_id params | Some r \<Rightarrow> r)"

definition initial_state :: "flow_input \<Rightarrow> flow_state" where
  "initial_state params =
    (new_flow_state (fi_run_id params) (root_of params) (fi_ticket params)
       (fi_policy_commit params) (fi_policy_bundle params))
    \<lparr> fs_parent_run_id := fi_parent_run_id params, fs_app_name := fi_app_name params,
      fs_risk_tier := fi_provisional_risk_tier params,
      fs_budget_cents_allowed := fi_budget_cents_allowed params \<rparr>"

definition start_row :: "flow_env \<Rightarrow> flow_input \<Rightarrow> run_started" where
  "start_row env params =
    \<lparr> rs_run_id = fi_run_id params, rs_root_run_id = root_of params,
      rs_parent_run_id = fi_parent_run_id params, rs_app_id = fi_app_id params,
      rs_workflow_id = en_workflow_id env, rs_ticket_system = tk_system (fi_ticket params),
      rs_ticket_id = tk_id (fi_ticket params), rs_risk_tier = fi_provisional_risk_tier params,
      rs_schema_version = SCHEMA_VERSION, rs_policy_commit = fi_policy_commit params,
      rs_policy_bundle = fi_policy_bundle params \<rparr>"

definition emit_cleanup :: "flow_state \<Rightarrow> flow \<Rightarrow> flow" where
  "emit_cleanup st f =
    (if truthy (fs_cleanup st)
     then emit ''compensated'' (Some ''compensate'') (JObj [(''detail'', jopt (fs_cleanup st))]) None f
     else f)"

definition finish :: "flow \<Rightarrow> flow" where
  "finish f =
    (let spend = (case wf_latest f of None \<Rightarrow> Some 0 | Some st \<Rightarrow> fs_spend_micro_cents st);
         f1 = emit ''run_cost'' None
           (JObj [(''micro_cents'', (case spend of None \<Rightarrow> JNull | Some n \<Rightarrow> JInt n)),
                  (''readable'', JStr (as_text spend)),
                  (''rates_last_reviewed'', JStr LAST_REVIEWED)]) None f
     in f1\<lparr> wf_db := record_run_ended (wf_run_id f1) (wf_status f1) (wf_db f1) \<rparr>)"

definition latest_or :: "flow_state \<Rightarrow> flow \<Rightarrow> flow_state" where
  "latest_or st f = (case wf_latest f of None \<Rightarrow> st | Some l \<Rightarrow> l)"

text \<open>The tail shared by the paths that return: report, finish, answer.\<close>

definition report_and_finish :: "flow_env \<Rightarrow> flow_state \<Rightarrow> flow \<Rightarrow> outcome \<times> flow" where
  "report_and_finish env st f =
    (case node_step env ''reporter'' st f of
       (Inr st', f') \<Rightarrow>
         let f2 = finish f' in
         (Returned \<lparr> fr_run_id = wf_run_id f2, fr_status = wf_status f2,
                     fr_risk_tier = fs_risk_tier st', fr_events = wf_seq f2 \<rparr>, f2)
     | (Inl (Crashed e), f') \<Rightarrow> (Raised e, f')
     | (Inl _, f') \<Rightarrow> (Suspended, f'))"

definition handle_rejected :: "flow_env \<Rightarrow> flow_state \<Rightarrow> string \<Rightarrow> string list \<Rightarrow> flow \<Rightarrow> outcome \<times> flow" where
  "handle_rejected env st0 reason falsified_by f =
    (let f1 = emit ''aborting'' None
           (JObj [(''reason'', JStr reason), (''falsified_by'', JList (map JStr falsified_by))]) None f;
         doomed = (latest_or st0 f1)\<lparr> fs_rejected_by := falsified_by \<rparr>;
         f2 = (if wf_latest f1 = None then f1 else sync doomed f1)
     in case node_step env ''compensate'' doomed f2 of
          (Inr st', f3) \<Rightarrow>
            report_and_finish env st' ((emit_cleanup st' f3)\<lparr> wf_status := ''rejected'' \<rparr>)
        | (Inl (Crashed e), f3) \<Rightarrow> (Raised e, f3)
        | (Inl _, f3) \<Rightarrow> (Suspended, f3))"

definition handle_crash :: "flow_env \<Rightarrow> flow_state \<Rightarrow> error \<Rightarrow> flow \<Rightarrow> outcome \<times> flow" where
  "handle_crash env st0 e f =
    (let f1 = emit ''run_failed'' None (failure_json e) None f
     in case node_step env ''compensate'' (latest_or st0 f1) f1 of
          (Inr st', f2) \<Rightarrow>
            (case node_step env ''reporter'' st' ((emit_cleanup st' f2)\<lparr> wf_status := ''failed'' \<rparr>) of
               (Inr _, f3) \<Rightarrow> (Raised e, finish f3)
             | (Inl (Crashed e'), f3) \<Rightarrow> (Raised e', f3)
             | (Inl _, f3) \<Rightarrow> (Suspended, f3))
        | (Inl (Crashed e'), f2) \<Rightarrow> (Raised e', f2)
        | (Inl _, f2) \<Rightarrow> (Suspended, f2))"

definition run :: "flow_env \<Rightarrow> flow_input \<Rightarrow> audit_db \<Rightarrow> outcome \<times> flow" where
  "run env params db =
    (let st0 = initial_state params;
         f0 = new_flow params (record_run_started (start_row env params) db)
     in case deliver env params st0 f0 of
          (Inr st, f) \<Rightarrow> report_and_finish env st (f\<lparr> wf_status := ''succeeded'' \<rparr>)
        | (Inl (Rejected reason by_whom), f) \<Rightarrow> handle_rejected env st0 reason by_whom f
        | (Inl (Crashed e), f) \<Rightarrow> handle_crash env st0 e f
        | (Inl Waiting, f) \<Rightarrow> (Suspended, f))"

end
