(* ===== verification/Delivery_Trail.thy ===== *)
theory Delivery_Trail
  imports Delivery
begin

text \<open>
  The audit trail of the delivery flow.  \<open>wf_log\<close> says the trail of the run is gapless: its
  sequence numbers are exactly \<open>1, 2, \<dots>, wf_seq\<close>.  \<open>grows P f g\<close> says that getting from \<open>f\<close>
  to \<open>g\<close> only appended events that satisfy \<open>P\<close>, kept the trail gapless and did not lose the
  run's row.  The locale
  \<open>event_policy\<close> proves once, for every policy that allows plain events outside Release, that
  each step of the flow before Release respects it.
\<close>

section \<open>Trails\<close>

definition log_of :: "flow \<Rightarrow> flow_event list" where
  "log_of f = run_events (wf_db f) (wf_run_id f)"

definition wf_log :: "flow \<Rightarrow> bool" where
  "wf_log f \<longleftrightarrow> map ev_seq (log_of f) = [1..<Suc (wf_seq f)]"

type_synonym event_pred = "string \<Rightarrow> string option \<Rightarrow> string option \<Rightarrow> bool"

definition event_ok :: "event_pred \<Rightarrow> flow_event \<Rightarrow> bool" where
  "event_ok P e \<longleftrightarrow> P (ev_kind e) (ev_node_id e) (ev_control_mode e)"

definition tracked :: "flow \<Rightarrow> bool" where
  "tracked f \<longleftrightarrow> db_runs (wf_db f) (wf_run_id f) \<noteq> None"

definition grows :: "event_pred \<Rightarrow> flow \<Rightarrow> flow \<Rightarrow> bool" where
  "grows P f g \<longleftrightarrow> wf_run_id g = wf_run_id f \<and> (tracked f \<longrightarrow> tracked g) \<and>
     (wf_log f \<longrightarrow> wf_log g \<and> (\<exists>es. log_of g = log_of f @ es \<and> list_all (event_ok P) es))"

lemma growsI:
  "wf_run_id g = wf_run_id f \<Longrightarrow> wf_seq g = wf_seq f \<Longrightarrow> log_of g = log_of f \<Longrightarrow>
   (tracked f \<Longrightarrow> tracked g) \<Longrightarrow> grows P f g"
  by (simp add: grows_def wf_log_def)

lemma grows_refl [simp, intro]: "grows P f f"
  by (simp add: growsI)

lemma grows_trans: "grows P f g \<Longrightarrow> grows P g h \<Longrightarrow> grows P f h"
  unfolding grows_def by (metis (no_types, lifting) append.assoc list_all_append)

lemma grows_weaken: "grows P f g \<Longrightarrow> (\<And>k n c. P k n c \<Longrightarrow> Q k n c) \<Longrightarrow> grows Q f g"
  unfolding grows_def event_ok_def list_all_iff by blast

lemma emit_fields [simp]:
  "wf_run_id (emit k n p c f) = wf_run_id f" "wf_app_id (emit k n p c f) = wf_app_id f"
  "wf_seq (emit k n p c f) = Suc (wf_seq f)" "wf_approvals (emit k n p c f) = wf_approvals f"
  "wf_status (emit k n p c f) = wf_status f" "wf_latest (emit k n p c f) = wf_latest f"
  "wf_notices (emit k n p c f) = wf_notices f"
  "db_runs (wf_db (emit k n p c f)) = db_runs (wf_db f)"
  by (simp_all add: emit_def)

lemma sync_fields [simp]:
  "wf_run_id (sync st f) = wf_run_id f" "wf_seq (sync st f) = wf_seq f"
  "wf_db (sync st f) = wf_db f" "wf_latest (sync st f) = Some st"
  "wf_status (sync st f) = wf_status f" "wf_approvals (sync st f) = wf_approvals f"
  "log_of (sync st f) = log_of f"
  by (simp_all add: sync_def log_of_def)

lemma log_of_update [simp]:
  "log_of (f\<lparr> wf_node := x \<rparr>) = log_of f" "log_of (f\<lparr> wf_status := s \<rparr>) = log_of f"
  "log_of (f\<lparr> wf_approvals := a \<rparr>) = log_of f" "log_of (f\<lparr> wf_notices := ns \<rparr>) = log_of f"
  "log_of (set_status s f) = log_of f"
  by (simp_all add: log_of_def set_status_def)

lemma set_status_fields [simp]:
  "wf_run_id (set_status s f) = wf_run_id f" "wf_seq (set_status s f) = wf_seq f"
  "wf_latest (set_status s f) = wf_latest f" "wf_status (set_status s f) = wf_status f"
  "wf_approvals (set_status s f) = wf_approvals f"
  by (simp_all add: set_status_def)

lemma log_emit:
  assumes "wf_log f"
  shows "log_of (emit k n p c f) = log_of f @
    [\<lparr> ev_run_id = wf_run_id f, ev_seq = Suc (wf_seq f), ev_kind = k, ev_node_id = n,
       ev_payload = p, ev_control_mode = c \<rparr>]"
proof -
  have "set (map ev_seq (log_of f)) = {1..<Suc (wf_seq f)}"
    using assms unfolding wf_log_def by (simp del: upt_Suc)
  then have "Suc (wf_seq f) \<notin> ev_seq ` set (run_events (wf_db f) (wf_run_id f))"
    by (auto simp: log_of_def)
  then show ?thesis
    by (simp add: emit_def log_of_def audit.put_fresh)
qed

lemma wf_log_emit: "wf_log f \<Longrightarrow> wf_log (emit k n p c f)"
  using log_emit[of f k n p c] by (simp add: wf_log_def)

lemma db_runs_record_run_ended:
  "db_runs (record_run_ended r s db) r' =
     (if r' = r then map_option (\<lambda>row. row\<lparr> rw_status := s, rw_ended := True \<rparr>) (db_runs db r)
      else db_runs db r')"
  by (simp add: record_run_ended_def split: option.split)

lemma tracked_simps [simp]:
  "tracked (emit k n p c f) = tracked f" "tracked (sync st f) = tracked f"
  "tracked (f\<lparr> wf_node := x \<rparr>) = tracked f" "tracked (f\<lparr> wf_status := s \<rparr>) = tracked f"
  "tracked (f\<lparr> wf_approvals := a \<rparr>) = tracked f" "tracked (f\<lparr> wf_notices := ns \<rparr>) = tracked f"
  "tracked (set_status s f) = tracked f"
  by (simp_all add: tracked_def set_status_def record_run_status_def split: option.split)

lemma grows_emit: "P k n c \<Longrightarrow> grows P f (emit k n p c f)"
  by (auto simp: grows_def wf_log_emit log_emit event_ok_def)

lemma grows_sync: "grows P f g \<Longrightarrow> grows P f (sync st g)"
  by (auto simp: grows_def wf_log_def)

lemma grows_from_update:
  "grows P (f\<lparr> wf_node := x \<rparr>) g \<Longrightarrow> grows P f g"
  "grows P (f\<lparr> wf_status := s \<rparr>) g \<Longrightarrow> grows P f g"
  "grows P (sync st f) g \<Longrightarrow> grows P f g"
  by (auto simp: grows_def wf_log_def)

lemma grows_to_update:
  "grows P f g \<Longrightarrow> grows P f (g\<lparr> wf_node := x \<rparr>)"
  "grows P f g \<Longrightarrow> grows P f (g\<lparr> wf_status := s \<rparr>)"
  "grows P f g \<Longrightarrow> grows P f (g\<lparr> wf_approvals := a \<rparr>)"
  "grows P f g \<Longrightarrow> grows P f (g\<lparr> wf_notices := ns \<rparr>)"
  "grows P f g \<Longrightarrow> grows P f (set_status s g)"
  by (auto simp: grows_def wf_log_def simp del: upt_Suc)

lemma grows_bind:
  assumes "grows P f (snd m)" and "\<And>x g. m = (Inr x, g) \<Longrightarrow> grows P g (snd (k x g))"
  shows "grows P f (snd (bind_step m k))"
proof (cases m)
  case (Pair r g)
  then show ?thesis
  proof (cases r)
    case (Inl e)
    with Pair assms(1) show ?thesis by (simp add: bind_step_def)
  next
    case (Inr x)
    with Pair assms(2)[of x g] assms(1) show ?thesis
      by (auto simp: bind_step_def intro: grows_trans)
  qed
qed

lemma bind_step_Inr:
  "bind_step m k = (Inr y, h) \<longleftrightarrow> (\<exists>x g. m = (Inr x, g) \<and> k x g = (Inr y, h))"
  by (auto simp: bind_step_def split: prod.splits sum.splits)

lemma bind_step_assoc: "bind_step (bind_step m k) l = bind_step m (\<lambda>x f. bind_step (k x f) l)"
  by (auto simp: bind_step_def split: prod.split sum.split)

section \<open>Steps that any node may take\<close>

lemma grows_node_step:
  assumes "P ''node_started'' (Some n) None" "P ''node_failed'' (Some n) None"
    "P ''node_completed'' (Some n) None"
  shows "grows P f (snd (node_step env n st f))"
proof -
  have s: "grows P f (emit ''node_started'' (Some n) (JObj []) None (f\<lparr> wf_node := Some n \<rparr>))"
    by (rule grows_from_update(1)) (rule grows_emit, rule assms)
  show ?thesis
    unfolding node_step_def Let_def
    by (auto split: sum.split intro!: grows_sync grows_trans[OF s] grows_emit assms
        intro: grows_trans[OF grows_sync[OF grows_refl]])
qed

lemma node_step_Inr:
  assumes "node_step env n st f = (Inr st', f')"
  shows "\<exists>r. execute env n (Suc (wf_seq f)) st = Inr r \<and> st' = r\<lparr> fs_notes := None \<rparr> \<and>
    wf_latest f' = Some st' \<and> wf_seq f' = Suc (Suc (wf_seq f)) \<and> wf_status f' = wf_status f \<and>
    wf_approvals f' = wf_approvals f \<and> wf_run_id f' = wf_run_id f \<and>
    db_runs (wf_db f') = db_runs (wf_db f)"
  using assms by (auto simp: node_step_def Let_def split: sum.splits)

lemma node_step_Inl:
  assumes "node_step env n st f = (Inl e, f')"
  shows "\<exists>err. e = Crashed err \<and> execute env n (Suc (wf_seq f)) st = Inl err \<and>
    wf_latest f' = wf_latest f \<and> wf_status f' = wf_status f \<and>
    db_runs (wf_db f') = db_runs (wf_db f)"
  using assms by (auto simp: node_step_def Let_def split: sum.splits)

lemma grows_completions:
  assumes "\<And>v. v \<in> set vs \<Longrightarrow> P ''node_failed'' (Some v) None"
  shows "grows P f (snd (completions env seq brief vs failed f))"
  using assms
proof (induction vs arbitrary: failed f)
  case Nil
  then show ?case by simp
next
  case (Cons v vs)
  show ?case
  proof (cases "execute env v seq brief")
    case (Inl e)
    have "grows P f (emit ''node_failed'' (Some v) (failure_json e) None f)"
      by (rule grows_emit) (simp add: Cons.prems)
    then show ?thesis
      by (simp add: Inl) (rule grows_trans, assumption, rule Cons.IH, simp add: Cons.prems)
  next
    case (Inr r)
    then show ?thesis
      using Cons.IH[of "sync r f" failed] Cons.prems by (auto intro: grows_from_update(3))
  qed
qed

lemma grows_emit_verdicts:
  assumes "\<And>v r. (v, r) \<in> set rs \<Longrightarrow> P ''verifier_verdict'' (Some v) None"
  shows "grows P f (emit_verdicts rs f)"
  using assms
proof (induction rs arbitrary: f)
  case Nil
  then show ?case by simp
next
  case (Cons x rs)
  obtain v r where x: "x = (v, r)" by (cases x)
  have "P ''verifier_verdict'' (Some v) None" using Cons.prems[of v r] x by simp
  then have "grows P f (if fs_notes r \<noteq> None
      then emit ''verifier_verdict'' (Some v) (notes_json (fs_notes r)) None f else f)"
    by (auto intro: grows_emit)
  moreover have "grows P g (emit_verdicts rs g)" for g
    by (rule Cons.IH) (use Cons.prems in auto)
  ultimately show ?case
    unfolding x emit_verdicts.simps by (rule grows_trans)
qed

text \<open>What follows the Coder in one pass of its loop.\<close>

definition after_coder :: "flow_env \<Rightarrow> int \<Rightarrow> flow_state \<Rightarrow> flow \<Rightarrow> flow_state step" where
  "after_coder env attempt st f =
    bind_step (node_step env ''push'' st f) (\<lambda>st2 f2.
    bind_step (node_step env ''build_test'' st2 (record_push attempt st2 f2)) (\<lambda>st3 f3.
    (Inr st3, emit_verdict st3 f3)))"

lemma coder_pass_split:
  "coder_pass env attempt st f =
     bind_step (node_step env ''coder'' (st\<lparr> fs_push_attempt := attempt \<rparr>)
       (sync (st\<lparr> fs_push_attempt := attempt \<rparr>) f)) (after_coder env attempt)"
  by (simp add: coder_pass_def after_coder_def[abs_def] Let_def)

text \<open>The state \<open>run\<close> starts from.\<close>

definition start_flow :: "flow_env \<Rightarrow> flow_input \<Rightarrow> audit_db \<Rightarrow> flow" where
  "start_flow env params db = new_flow params (record_run_started (start_row env params) db)"

lemma start_flow_tracked: "tracked (start_flow env params db)"
  by (simp add: tracked_def start_flow_def new_flow_def record_run_started_def start_row_def
      split: option.split)

lemma start_flow_log:
  "log_of (start_flow env params db) = run_events db (fi_run_id params)"
  "wf_run_id (start_flow env params db) = fi_run_id params"
  "run_events db (fi_run_id params) = [] \<Longrightarrow> wf_log (start_flow env params db)"
  by (simp_all add: start_flow_def new_flow_def log_of_def wf_log_def)

section \<open>Policies on events\<close>

text \<open>
  A policy on events that allows every event without a control mode that is neither Release's nor
  the Coder's.  Everything the flow does outside those two nodes respects it.  The nodes that the
  environment lets finish in the fan-out are taken to be other nodes than those two.
\<close>

locale event_policy =
  fixes P :: event_pred
  assumes plain: "n \<noteq> Some ''release'' \<Longrightarrow> n \<noteq> Some ''coder'' \<Longrightarrow> P k n None"
begin

lemma plain_emit: "n \<noteq> Some ''release'' \<Longrightarrow> n \<noteq> Some ''coder'' \<Longrightarrow> grows P f (emit k n p None f)"
  by (rule grows_emit) (rule plain)

lemma plain_node:
  "n \<noteq> ''release'' \<Longrightarrow> n \<noteq> ''coder'' \<Longrightarrow> grows P f (snd (node_step env n st f))"
  by (rule grows_node_step) (auto intro: plain)

lemma plain_settle: "grows P f (snd (settle_tier params st (emit_isolation st f)))"
proof -
  have "grows P f (emit_isolation st f)"
    by (auto simp: emit_isolation_def split: option.split intro: plain_emit)
  moreover have "grows P g (snd (settle_tier params st g))" for g
    by (auto simp: settle_tier_def Let_def split: prod.split
        intro!: grows_from_update(3)[OF plain_emit])
  ultimately show ?thesis by (rule grows_trans)
qed

lemma plain_judge: "grows P f (snd (judge_verdicts params st f))"
  unfolding judge_verdicts_def Let_def
  by (auto intro!: grows_from_update(3)[OF plain_emit] grows_sync)

lemma plain_gate_open: "grows P f (gate_open env st f)"
proof -
  let ?f0 = "f\<lparr> wf_approvals := wf_approvals f @ en_early env \<rparr>"
  have "grows P f ?f0" by (rule grows_to_update(3)) simp
  moreover have "grows P ?f0 (emit_preview env st ?f0)"
    by (auto simp: emit_preview_def intro: plain_emit)
  moreover have "grows P (emit_preview env st ?f0) (gate_open env st f)"
    unfolding gate_open_def by (rule plain_emit) simp_all
  ultimately show ?thesis by (blast intro: grows_trans)
qed

lemma plain_gate_suspend: "grows P f g \<Longrightarrow> grows P f (gate_suspend st g)"
  unfolding gate_suspend_def Let_def by (intro grows_to_update)

lemma plain_gate_decide: "grows P f (snd (gate_decide st ds f))"
proof -
  let ?g = "sync (st\<lparr> fs_approvals := map (to_approval (fs_risk_tier st)) ds \<rparr>)
    (set_status ''running'' (f\<lparr> wf_status := ''running'', wf_approvals := ds \<rparr>))"
  have "grows P f ?g"
    by (rule growsI) simp_all
  then show ?thesis
    by (simp add: gate_decide_def Let_def grows_trans[OF _ plain_emit])
qed

lemma plain_gate: "grows P f (snd (gate env st f))"
proof -
  note o = plain_gate_open[of f env st]
  note s = plain_gate_suspend[OF o, of st]
  show ?thesis
    unfolding gate_def Let_def
    using grows_trans[OF o plain_emit] grows_trans[OF s plain_gate_decide] grows_to_update(3)[OF s]
    by (simp split: option.split)
qed

lemma plain_verify:
  assumes "''release'' \<notin> set (en_fan_order env)" and "''coder'' \<notin> set (en_fan_order env)"
  shows "grows P f (snd (verify env st f))"
proof -
  let ?f1 = "emit ''verifiers_started'' None (JObj [(''count'', JInt (int (length VERIFIERS)))]) None f"
  let ?f1' = "?f1\<lparr> wf_node := Some (last VERIFIERS) \<rparr>"
  let ?c = "completions env (wf_seq ?f1) (verifier_brief st) (en_fan_order env) None ?f1'"
  have "grows P f ?f1'" by (rule grows_to_update(1)) (rule plain_emit, simp_all)
  moreover have "grows P ?f1' (snd ?c)"
    by (rule grows_completions) (use assms in \<open>auto intro: plain\<close>)
  ultimately have c: "grows P f (snd ?c)" by (rule grows_trans)
  have v: "grows P g (emit_verdicts (fan_results env q b) g)" for q b g
    by (rule grows_emit_verdicts)
      (auto simp: fan_results_def map_filter_def VERIFIERS_def intro!: plain split: sum.splits)
  show ?thesis
    unfolding verify_def Let_def
    using c by (auto split: prod.split option.split
        intro!: grows_sync grows_trans[OF _ plain_emit] grows_trans[OF _ v])
qed

lemma plain_finish: "grows P f (finish f)"
proof -
  have "grows P f (emit ''run_cost'' None p None f)" for p
    by (rule plain_emit) simp_all
  moreover have "grows P (emit ''run_cost'' None p None f)
      ((emit ''run_cost'' None p None f)\<lparr> wf_db := record_run_ended r s (wf_db (emit ''run_cost'' None p None f)) \<rparr>)"
    for p r s
    by (rule growsI) (auto simp: log_of_def tracked_def db_runs_record_run_ended)
  ultimately show ?thesis
    unfolding finish_def Let_def by (blast intro: grows_trans)
qed

lemma plain_report: "grows P f (snd (report_and_finish env st f))"
  using plain_node[of "''reporter''" f env st] plain_finish
  by (auto simp: report_and_finish_def Let_def split: prod.split sum.split failure.split
      intro: grows_trans)

lemma plain_cleanup: "grows P f (emit_cleanup st f)"
  by (auto simp: emit_cleanup_def intro: plain_emit)

lemma plain_crash: "grows P f (snd (handle_crash env st0 e f))"
proof -
  let ?f1 = "emit ''run_failed'' None (failure_json e) None f"
  have f1: "grows P f ?f1" by (rule plain_emit) simp_all
  have c: "grows P ?f1 (snd (node_step env ''compensate'' (latest_or st0 ?f1) ?f1))"
    by (rule plain_node) simp_all
  obtain r g where ns: "node_step env ''compensate'' (latest_or st0 ?f1) ?f1 = (r, g)"
    by (cases "node_step env ''compensate'' (latest_or st0 ?f1) ?f1")
  have fg: "grows P f g" using grows_trans[OF f1 c] ns by simp
  show ?thesis
  proof (cases r)
    case (Inl x)
    with fg show ?thesis by (simp add: handle_crash_def ns split: failure.split)
  next
    case (Inr s)
    let ?g' = "(emit_cleanup s g)\<lparr> wf_status := ''failed'' \<rparr>"
    obtain r2 h where rs: "node_step env ''reporter'' s ?g' = (r2, h)"
      by (cases "node_step env ''reporter'' s ?g'")
    have "grows P ?g' h"
      using plain_node[of "''reporter''" ?g' env s] rs by simp
    with grows_to_update(2)[OF plain_cleanup] have "grows P g h" by (rule grows_trans)
    with fg have fh: "grows P f h" by (rule grows_trans)
    show ?thesis
      using fh grows_trans[OF fh plain_finish]
      by (cases r2) (simp_all add: handle_crash_def ns Inr rs split: failure.split)
  qed
qed

lemma plain_rejected: "grows P f (snd (handle_rejected env st0 reason by_whom f))"
proof -
  let ?f1 = "emit ''aborting'' None
    (JObj [(''reason'', JStr reason), (''falsified_by'', JList (map JStr by_whom))]) None f"
  let ?doomed = "(latest_or st0 ?f1)\<lparr> fs_rejected_by := by_whom \<rparr>"
  let ?f2 = "if wf_latest ?f1 = None then ?f1 else sync ?doomed ?f1"
  have f2: "grows P f ?f2" by (auto intro: grows_sync plain_emit)
  have c: "grows P ?f2 (snd (node_step env ''compensate'' ?doomed ?f2))"
    by (rule plain_node) simp_all
  obtain r g where ns: "node_step env ''compensate'' ?doomed ?f2 = (r, g)"
    by (cases "node_step env ''compensate'' ?doomed ?f2")
  have fg: "grows P f g" using grows_trans[OF f2 c] ns by simp
  show ?thesis
  proof (cases r)
    case (Inl x)
    then show ?thesis
      unfolding handle_rejected_def Let_def ns using fg by (simp split: failure.split)
  next
    case (Inr s)
    have "grows P g (snd (report_and_finish env s ((emit_cleanup s g)\<lparr> wf_status := ''rejected'' \<rparr>)))"
      by (rule grows_trans[OF grows_to_update(2)[OF plain_cleanup] plain_report])
    with fg Inr show ?thesis
      unfolding handle_rejected_def Let_def ns by (simp add: grows_trans)
  qed
qed

lemma plain_run_tail:
  assumes "deliver env params (initial_state params) (start_flow env params db) = (r, f)"
  shows "grows P f (snd (run env params db))"
proof -
  note d = assms[unfolded start_flow_def]
  show ?thesis
  proof (cases r)
    case (Inr st)
    have "grows P f (snd (report_and_finish env st (f\<lparr> wf_status := ''succeeded'' \<rparr>)))"
      by (rule grows_trans[OF grows_to_update(2)[OF grows_refl] plain_report])
    with Inr d show ?thesis by (simp add: run_def)
  next
    case (Inl x)
    with d show ?thesis
      using plain_rejected plain_crash by (cases x) (simp_all add: run_def)
  qed
qed

lemma plain_record_push: "grows P g (record_push a s g)"
proof -
  let ?e = "emit ''branch_pushed'' (Some ''push'')
    (JObj [(''branch'', jopt (fs_branch s)), (''commit'', jopt (fs_head_commit s)),
           (''base'', jopt (fs_base_commit s)), (''attempt'', JInt a),
           (''files'', JList (map file_change_json (changed_files s)))]) None g"
  have "grows P g ?e" by (rule plain_emit) simp_all
  moreover have "grows P ?e (record_push a s g)"
    by (rule growsI) (simp_all add: record_push_def Let_def log_of_def tracked_def)
  ultimately show ?thesis by (rule grows_trans)
qed

lemma plain_after_coder: "grows P f (snd (after_coder env a st f))"
proof -
  have verdict: "grows P g (emit_verdict s g)" for s g
    by (auto simp: emit_verdict_def split: option.split intro: plain_emit)
  show ?thesis
    unfolding after_coder_def
    by (intro grows_bind plain_node grows_trans[OF plain_record_push plain_node]) (simp_all add: verdict)
qed

end

text \<open>The policies that allow the Coder's events too hold of the Coder loop.\<close>

locale coder_policy = event_policy +
  assumes coder: "P k (Some ''coder'') None"
begin

lemma coder_node: "grows P f (snd (node_step env ''coder'' st f))"
  by (rule grows_node_step) (rule coder)+

lemma plain_coder_pass: "grows P f (snd (coder_pass env a st f))"
  unfolding coder_pass_split
  by (intro grows_bind grows_from_update(3)[OF coder_node] plain_after_coder)

lemma plain_coder_loop: "grows P f (snd (coder_loop env as st f))"
proof (induction as arbitrary: st f)
  case Nil
  then show ?case by simp
next
  case (Cons a as)
  show ?case
    unfolding coder_loop.simps
    by (intro grows_bind plain_coder_pass) (simp add: Cons.IH)
qed

end

end
