(* ===== verification/Delivery_Safety.thy ===== *)
theory Delivery_Safety
  imports Delivery_Trail
begin

text \<open>
  Properties of the delivery flow that hold whatever the nodes do: the trail is gapless, the
  release is guarded by tests, verifiers and approvals, the Coder loop is bounded, retries are
  bounded, and a verifier sees nothing of the author's reasoning.
\<close>

section \<open>The two event policies\<close>

definition not_release :: event_pred where
  "not_release k n c \<longleftrightarrow> n \<noteq> Some ''release'' \<and> c = None"

definition controlled :: event_pred where
  "controlled k n c \<longleftrightarrow> c = None \<or>
     (k = ''external_effect'' \<and> n = Some ''release'' \<and> c = Some ''authorized'')"

interpretation pre: coder_policy not_release
  by unfold_locales (simp_all add: not_release_def)

interpretation whole: coder_policy controlled
  by unfold_locales (simp_all add: controlled_def)

section \<open>The flow up to the gate\<close>

text \<open>The fan-out runs the four verifiers and nothing else, each of them at most once.\<close>

definition well_formed_env :: "flow_env \<Rightarrow> bool" where
  "well_formed_env env \<longleftrightarrow>
     distinct (en_fan_order env) \<and> set (en_fan_order env) \<subseteq> set VERIFIERS"

lemma fan_no_release: "well_formed_env env \<Longrightarrow> ''release'' \<notin> set (en_fan_order env)"
  by (auto simp: well_formed_env_def VERIFIERS_def)

lemma fan_no_coder: "well_formed_env env \<Longrightarrow> ''coder'' \<notin> set (en_fan_order env)"
  by (auto simp: well_formed_env_def VERIFIERS_def)

definition deliver_to_verdict :: "flow_env \<Rightarrow> flow_input \<Rightarrow> flow_state \<Rightarrow> flow \<Rightarrow> flow_state step" where
  "deliver_to_verdict env params st f =
    bind_step (node_step env ''triage'' st f) (\<lambda>st1 f1.
    bind_step (node_step env ''planner'' st1 f1) (\<lambda>st2 f2.
    bind_step (coder_loop env (attempt_numbers (fi_max_coder_retries params)) st2 f2) (\<lambda>st3 f3.
    case settle_tier params st3 (emit_isolation st3 f3) of (st4, f4) \<Rightarrow>
    bind_step (verify env st4 f4) (\<lambda>st5 f5. judge_verdicts params st5 f5))))"

definition deliver_to_gate :: "flow_env \<Rightarrow> flow_input \<Rightarrow> flow_state \<Rightarrow> flow \<Rightarrow> flow_state step" where
  "deliver_to_gate env params st f = bind_step (deliver_to_verdict env params st f) (gate env)"

definition release_step :: "flow_env \<Rightarrow> flow_state \<Rightarrow> flow \<Rightarrow> flow_state step" where
  "release_step env st f =
    bind_step (node_step env ''release'' st f) (\<lambda>st8 f8. (Inr st8, emit_merge st8 f8))"

lemma bind_step_case_prod:
  "bind_step (case p of (a, b) \<Rightarrow> m a b) k = (case p of (a, b) \<Rightarrow> bind_step (m a b) k)"
  by (cases p) simp

lemma deliver_split:
  "deliver env params st f = bind_step (deliver_to_gate env params st f) (release_step env)"
  unfolding deliver_def deliver_to_gate_def deliver_to_verdict_def release_step_def[abs_def]
  by (simp add: bind_step_assoc bind_step_case_prod)

lemma pre_deliver_to_verdict:
  assumes "well_formed_env env"
  shows "grows not_release f (snd (deliver_to_verdict env params st f))"
proof -
  have tail: "grows not_release g (snd (case settle_tier params s (emit_isolation s g) of (s', g') \<Rightarrow>
      bind_step (verify env s' g') (\<lambda>s'' g''. judge_verdicts params s'' g'')))" for s g
  proof -
    obtain s' g' where p: "settle_tier params s (emit_isolation s g) = (s', g')"
      by (cases "settle_tier params s (emit_isolation s g)")
    have "grows not_release g g'"
      using pre.plain_settle[of g params s] p by simp
    moreover have "grows not_release g' (snd (bind_step (verify env s' g')
        (\<lambda>s'' g''. judge_verdicts params s'' g'')))"
      by (intro grows_bind pre.plain_verify[OF fan_no_release[OF assms] fan_no_coder[OF assms]] pre.plain_judge)
    ultimately show ?thesis
      unfolding p prod.case by (rule grows_trans)
  qed
  show ?thesis
    unfolding deliver_to_verdict_def
    by (intro grows_bind pre.plain_node pre.plain_coder_loop tail) simp_all
qed

lemma pre_deliver_to_gate:
  assumes "well_formed_env env"
  shows "grows not_release f (snd (deliver_to_gate env params st f))"
  unfolding deliver_to_gate_def
  by (intro grows_bind pre_deliver_to_verdict[OF assms] pre.plain_gate)

lemma controlled_release_step: "grows controlled f (snd (release_step env st f))"
  unfolding release_step_def
  by (intro grows_bind grows_node_step)
    (auto simp: controlled_def emit_merge_def intro: grows_emit)

lemma not_release_controlled: "not_release k n c \<Longrightarrow> controlled k n c"
  by (simp add: not_release_def controlled_def)

lemma controlled_deliver:
  assumes "well_formed_env env"
  shows "grows controlled f (snd (deliver env params st f))"
  unfolding deliver_split
  by (intro grows_bind controlled_release_step)
    (rule grows_weaken[OF pre_deliver_to_gate[OF assms] not_release_controlled])

lemma run_grows:
  assumes "well_formed_env env"
  shows "grows controlled (start_flow env params db) (snd (run env params db))"
proof -
  obtain r f where d: "deliver env params (initial_state params) (start_flow env params db) = (r, f)"
    by (cases "deliver env params (initial_state params) (start_flow env params db)")
  have "grows controlled (start_flow env params db) f"
    using controlled_deliver[OF assms, of "start_flow env params db" params "initial_state params"] d
    by simp
  with whole.plain_run_tail[OF d] show ?thesis by (blast intro: grows_trans)
qed

section \<open>What each stage guarantees\<close>

lemma coder_loop_Inr:
  "coder_loop env as st f = (Inr st', f') \<Longrightarrow> tests_passed st'"
proof (induction as arbitrary: st f)
  case Nil
  then show ?case by simp
next
  case (Cons a as)
  then obtain s g where "coder_pass env a st f = (Inr s, g)"
    and "(if tests_passed s then (Inr s, g) else coder_loop env as s g) = (Inr st', f')"
    by (auto simp: bind_step_Inr)
  then show ?case using Cons.IH by (auto split: if_splits)
qed

lemma settle_tier_state:
  "settle_tier params st f = (st', f') \<Longrightarrow>
     fs_ci_result st' = fs_ci_result st \<and>
     fs_risk_tier st' = max (fs_risk_tier st) (rule_tier (fi_risk_rules params) (paths_of (fs_diff st))) \<and>
     fs_provisional_risk_tier st' = Some (fs_risk_tier st) \<and> fs_diff st' = fs_diff st"
  unfolding final_tier_max[symmetric]
  by (auto simp: settle_tier_def final_tier_def Let_def split: prod.splits)

lemma verify_Inr:
  "verify env st f = (Inr st', f') \<Longrightarrow>
     (\<exists>spend vs. st' = st\<lparr> fs_spend_micro_cents := spend, fs_verifications := vs \<rparr>) \<and>
     set VERIFIERS \<subseteq> set (en_fan_order env)"
  by (auto simp: verify_def Let_def split: prod.splits option.splits if_splits)

lemma judge_Inr:
  "judge_verdicts params st f = (Inr st', f') \<Longrightarrow>
     falsified params st = [] \<and> st' = st\<lparr> fs_advisory_objections := overridden params st \<rparr>"
  by (auto simp: judge_verdicts_def Let_def split: if_splits)

lemma wait_decided_Some:
  "wait_decided n sigs arriving = Some sigs' \<Longrightarrow>
     decided n sigs' \<and> (\<exists>k. sigs' = sigs @ take k arriving)"
proof (induction arriving arbitrary: sigs)
  case Nil
  then show ?case
    by (subst (asm) wait_decided.simps) (auto split: if_splits)
next
  case (Cons a as)
  show ?case
  proof (cases "decided n sigs")
    case True
    with Cons.prems have "sigs' = sigs"
      by (subst (asm) wait_decided.simps) simp
    with True show ?thesis by (auto intro: exI[of _ 0])
  next
    case False
    with Cons.prems have "wait_decided n (sigs @ [a]) as = Some sigs'"
      by (subst (asm) wait_decided.simps) simp
    from Cons.IH[OF this] obtain k where "decided n sigs'" "sigs' = (sigs @ [a]) @ take k as"
      by blast
    then show ?thesis by (auto intro: exI[of _ "Suc k"])
  qed
qed

lemma wait_decided_None:
  "wait_decided n sigs arriving = None \<Longrightarrow> \<not> decided n (sigs @ arriving)"
proof (induction arriving arbitrary: sigs)
  case Nil
  then show ?case
    by (subst (asm) wait_decided.simps) (auto split: if_splits)
next
  case (Cons a as)
  then have "wait_decided n (sigs @ [a]) as = None"
    by (subst (asm) wait_decided.simps) (auto split: if_splits)
  from Cons.IH[OF this] show ?case by simp
qed

text \<open>Every recorded approval approves, and there are as many as the tier requires.\<close>

definition approved_enough :: "flow_state \<Rightarrow> bool" where
  "approved_enough st \<longleftrightarrow> fs_risk_tier st = Low \<or>
     (list_all ap_approved (fs_approvals st) \<and>
      required_approvals (fs_risk_tier st) \<le> length (fs_approvals st))"

lemma not_rejecting: "\<not> rejecting sigs \<longleftrightarrow> list_all sg_approved sigs"
  by (auto simp: rejecting_def list_ex_iff list_all_iff)

lemma gate_Inr:
  assumes "gate env st f = (Inr st', f')"
  shows "approved_enough st' \<and> (\<exists>as. st' = st\<lparr> fs_approvals := as \<rparr>) \<and>
    (wf_log f \<longrightarrow> (\<exists>es e. log_of f' = es @ [e] \<and> ev_kind e = ''gate_passed''))"
proof (cases "required_approvals (fs_risk_tier st) = 0")
  case True
  have g: "st' = st" "f' = emit ''gate_passed'' None (JObj [(''auto'', JBool True)]) None (gate_open env st f)"
    using assms True unfolding gate_def Let_def by (auto simp del: required_approvals_zero)
  from pre.plain_gate_open[of f env st] have "wf_log f \<longrightarrow> wf_log (gate_open env st f)"
    by (simp add: grows_def)
  with g True show ?thesis
    by (auto simp: approved_enough_def log_emit intro: exI[of _ "fs_approvals st"])
next
  case False
  define f3 where "f3 = gate_suspend st (gate_open env st f)"
  have "\<exists>sigs. wait_decided (required_approvals (fs_risk_tier st)) (wf_approvals f3) (en_waiting env)
      = Some sigs \<and> gate_decide st (sigs @ en_window env) f3 = (Inr st', f')"
    using assms unfolding gate_def Let_def if_not_P[OF False] f3_def[symmetric]
    by (simp split: option.splits)
  then obtain sigs where w: "wait_decided (required_approvals (fs_risk_tier st)) (wf_approvals f3)
      (en_waiting env) = Some sigs"
    and d: "gate_decide st (sigs @ en_window env) f3 = (Inr st', f')"
    by blast
  define f5 where "f5 = sync st' (set_status ''running''
      (f3\<lparr> wf_status := ''running'', wf_approvals := sigs @ en_window env \<rparr>))"
  from d have ok: "\<not> rejecting (sigs @ en_window env)"
    and st': "st' = st\<lparr> fs_approvals := map (to_approval (fs_risk_tier st)) (sigs @ en_window env) \<rparr>"
    and f': "f' = emit ''gate_passed'' None (JObj [(''auto'', JBool False)]) None f5"
    unfolding gate_decide_def Let_def f5_def by (auto split: if_splits)
  have "\<not> rejecting sigs" using ok by (simp add: rejecting_def)
  then have "required_approvals (fs_risk_tier st) \<le> length (filter sg_approved sigs)"
    using wait_decided_Some[OF w] by (simp add: decided_def)
  also have "\<dots> \<le> length (sigs @ en_window env)"
    by (simp add: trans_le_add1)
  finally have "approved_enough st'"
    using ok by (auto simp: approved_enough_def st' to_approval_def not_rejecting list_all_iff)
  moreover have "grows not_release f f3"
    unfolding f3_def by (rule pre.plain_gate_suspend[OF pre.plain_gate_open])
  then have "grows not_release f f5"
    unfolding f5_def by (intro grows_sync grows_to_update)
  then have "wf_log f \<longrightarrow> wf_log f5"
    by (simp add: grows_def)
  ultimately show ?thesis
    using st' f' by (auto simp: log_emit)
qed

text \<open>What the state handed to Release is guaranteed to look like.\<close>

definition release_ready :: "flow_input \<Rightarrow> flow_state \<Rightarrow> bool" where
  "release_ready params st \<longleftrightarrow> tests_passed st \<and> falsified params st = [] \<and> approved_enough st \<and>
     fs_risk_tier st = max (the (fs_provisional_risk_tier st))
       (rule_tier (fi_risk_rules params) (paths_of (fs_diff st)))"

lemma deliver_to_gate_Inr:
  assumes "deliver_to_gate env params st f = (Inr st', f')"
  shows "release_ready params st'"
proof -
  obtain st3 f3 st4 f4 st5 f5 st6 f6 bs cs where
    loop: "coder_loop env bs cs f3 = (Inr st3, f4)"
    and settle: "settle_tier params st3 (emit_isolation st3 f4) = (st4, f5)"
    and ver: "verify env st4 f5 = (Inr st5, f6)"
    and judge: "\<exists>f7. judge_verdicts params st5 f6 = (Inr st6, f7) \<and> gate env st6 f7 = (Inr st', f')"
    using assms unfolding deliver_to_gate_def deliver_to_verdict_def bind_step_Inr
    by (elim exE conjE) (auto simp: bind_step_Inr case_prod_beta intro: that[OF _ surjective_pairing])
  have t3: "tests_passed st3" by (rule coder_loop_Inr[OF loop])
  note s4 = settle_tier_state[OF settle]
  obtain sp vs where s5: "st5 = st4\<lparr> fs_spend_micro_cents := sp, fs_verifications := vs \<rparr>"
    using verify_Inr[OF ver] by blast
  obtain f7 where j: "judge_verdicts params st5 f6 = (Inr st6, f7)"
    and g: "gate env st6 f7 = (Inr st', f')"
    using judge by blast
  note s6 = judge_Inr[OF j]
  obtain as where s7: "st' = st6\<lparr> fs_approvals := as \<rparr>" and ok: "approved_enough st'"
    using gate_Inr[OF g] by blast
  have "falsified params st' = falsified params st5"
    using s6 s7 by (simp add: falsified_def)
  with s6 have "falsified params st' = []" by simp
  moreover have "tests_passed st'"
    using t3 s4 s5 s6 s7 by (simp add: tests_passed_def)
  ultimately show ?thesis
    using ok s4 s5 s6 s7 by (simp add: release_ready_def)
qed

lemma deliver_to_gate_log:
  assumes "deliver_to_gate env params st f = (Inr st', f')"
    and "well_formed_env env" and "wf_log f"
  shows "wf_log f' \<and> (\<exists>es e. log_of f' = log_of f @ es \<and> list_all (event_ok not_release) es \<and>
    py_last (log_of f') = Some e \<and> ev_kind e = ''gate_passed'')"
proof -
  have "grows not_release f f'"
    using pre_deliver_to_gate[OF assms(2), of f params st] assms(1) by simp
  then obtain es where es: "wf_log f'" "log_of f' = log_of f @ es" "list_all (event_ok not_release) es"
    using assms(3) by (auto simp: grows_def)
  obtain st6 f6 where v: "deliver_to_verdict env params st f = (Inr st6, f6)"
    and g: "gate env st6 f6 = (Inr st', f')"
    using assms(1) by (auto simp: deliver_to_gate_def bind_step_Inr)
  have "grows not_release f f6"
    using pre_deliver_to_verdict[OF assms(2), of f params st] v by simp
  with assms(3) have "wf_log f6" by (simp add: grows_def)
  with gate_Inr[OF g] obtain gs e where "log_of f' = gs @ [e]" "ev_kind e = ''gate_passed''"
    by blast
  with es show ?thesis by (metis py_last_append)
qed

end
