(* ===== verification/Flow_Properties.thy ===== *)
theory Flow_Properties
  imports Delivery_Safety
begin

text \<open>
  The properties of a whole delivery run: its trail, what precedes a release, what the state
  handed to Release satisfies, how often the Coder runs, and how a run that returned is recorded.
\<close>

section \<open>Counting Coder starts\<close>

definition coder_started :: "flow_event \<Rightarrow> bool" where
  "coder_started e \<longleftrightarrow> ev_kind e = ''node_started'' \<and> ev_node_id e = Some ''coder''"

definition coder_starts :: "flow \<Rightarrow> nat" where
  "coder_starts f = length (filter coder_started (log_of f))"

definition no_coder_start :: event_pred where
  "no_coder_start k n c \<longleftrightarrow> \<not> (k = ''node_started'' \<and> n = Some ''coder'')"

interpretation nocs: event_policy no_coder_start
  by unfold_locales (simp add: no_coder_start_def)

text \<open>\<open>at_most k f g\<close>: from \<open>f\<close> to \<open>g\<close> the trail stays gapless and the Coder starts at most \<open>k\<close> times.\<close>

definition at_most :: "nat \<Rightarrow> flow \<Rightarrow> flow \<Rightarrow> bool" where
  "at_most k f g \<longleftrightarrow> (wf_log f \<longrightarrow> wf_log g \<and> coder_starts g \<le> coder_starts f + k)"

lemma at_most_trans: "at_most i f g \<Longrightarrow> at_most j g h \<Longrightarrow> at_most (i + j) f h"
  by (auto simp: at_most_def)

lemma at_most_bind:
  assumes "at_most i f (snd m)" and "\<And>x g. at_most j g (snd (k x g))"
  shows "at_most (i + j) f (snd (bind_step m k))"
proof (cases m)
  case (Pair r g)
  with assms(1) have g: "at_most i f g" by simp
  show ?thesis
  proof (cases r)
    case (Inl e)
    with Pair g show ?thesis by (auto simp: bind_step_def at_most_def)
  next
    case (Inr x)
    with Pair at_most_trans[OF g assms(2)[of g x]] show ?thesis by (simp add: bind_step_def)
  qed
qed

lemma grows_no_coder_starts:
  assumes "grows no_coder_start f g" and "wf_log f"
  shows "wf_log g \<and> coder_starts g = coder_starts f"
proof -
  obtain es where "wf_log g" "log_of g = log_of f @ es" "list_all (event_ok no_coder_start) es"
    using assms by (auto simp: grows_def)
  moreover from this(3) have "filter coder_started es = []"
    by (auto simp: list_all_iff event_ok_def no_coder_start_def coder_started_def filter_empty_conv)
  ultimately show ?thesis by (simp add: coder_starts_def)
qed

lemma at_most_0: "grows no_coder_start f g \<Longrightarrow> at_most 0 f g"
  using grows_no_coder_starts[of f g] by (simp add: at_most_def)

lemma coder_node_starts:
  assumes "wf_log f"
  shows "wf_log (snd (node_step env ''coder'' st f)) \<and>
    coder_starts (snd (node_step env ''coder'' st f)) = Suc (coder_starts f)"
proof -
  let ?f0 = "f\<lparr> wf_node := Some ''coder'' \<rparr>"
  let ?f1 = "emit ''node_started'' (Some ''coder'') (JObj []) None ?f0"
  have w: "wf_log ?f0" using assms by (simp add: wf_log_def del: upt_Suc)
  have "coder_starts ?f1 = Suc (coder_starts f)"
    using log_emit[OF w, of "''node_started''" "Some ''coder''"]
    by (simp add: coder_starts_def coder_started_def)
  moreover have "grows no_coder_start ?f1 (snd (node_step env ''coder'' st f))"
    unfolding node_step_def Let_def
    by (auto split: sum.split intro!: grows_emit grows_sync grows_from_update(3)[OF grows_emit]
        simp: no_coder_start_def)
  ultimately show ?thesis
    using grows_no_coder_starts wf_log_emit[OF w] by metis
qed

lemma coder_pass_starts:
  assumes "wf_log f"
  shows "wf_log (snd (coder_pass env a st f)) \<and>
    coder_starts (snd (coder_pass env a st f)) = Suc (coder_starts f)"
proof -
  let ?st = "st\<lparr> fs_push_attempt := a \<rparr>"
  obtain r g where ns: "node_step env ''coder'' ?st (sync ?st f) = (r, g)"
    by (cases "node_step env ''coder'' ?st (sync ?st f)")
  have "wf_log (sync ?st f)" "coder_starts (sync ?st f) = coder_starts f"
    using assms by (simp_all add: wf_log_def coder_starts_def del: upt_Suc)
  with coder_node_starts[of "sync ?st f" env ?st] ns
  have g: "wf_log g" "coder_starts g = Suc (coder_starts f)" by simp_all
  show ?thesis
  proof (cases r)
    case (Inl e)
    with ns g show ?thesis by (simp add: coder_pass_split bind_step_def)
  next
    case (Inr s)
    with ns have "snd (coder_pass env a st f) = snd (after_coder env a s g)"
      by (simp add: coder_pass_split bind_step_def)
    with grows_no_coder_starts[OF nocs.plain_after_coder g(1)] g show ?thesis by simp
  qed
qed

lemma coder_pass_no_rejection:
  "coder_pass env a st f \<noteq> (Inl (Rejected reason by_whom), f')"
  by (auto simp: coder_pass_def bind_step_def Let_def split: prod.splits sum.splits
      dest!: node_step_Inl)

lemma coder_loop_starts:
  assumes "wf_log f" and "coder_loop env as st f = (r, f')"
  shows "\<exists>k \<le> length as. wf_log f' \<and> coder_starts f' = coder_starts f + k \<and>
    (\<forall>reason by_whom. r = Inl (Rejected reason by_whom) \<longrightarrow>
       k = length as \<and> reason = ''retry budget exhausted'' \<and> by_whom = [])"
  using assms
proof (induction as arbitrary: st f)
  case Nil
  then show ?case by auto
next
  case (Cons a as)
  obtain q g where p: "coder_pass env a st f = (q, g)" by (cases "coder_pass env a st f")
  from coder_pass_starts[OF Cons.prems(1), of env a st] p
  have g: "wf_log g" "coder_starts g = Suc (coder_starts f)" by simp_all
  show ?case
  proof (cases "\<exists>s. q = Inr s \<and> \<not> tests_passed s")
    case True
    then obtain s where "coder_loop env as s g = (r, f')"
      using Cons.prems(2) p by (auto simp: bind_step_def)
    from Cons.IH[OF g(1) this] obtain k where "k \<le> length as" "wf_log f'"
      "coder_starts f' = coder_starts g + k"
      "\<forall>reason by_whom. r = Inl (Rejected reason by_whom) \<longrightarrow>
         k = length as \<and> reason = ''retry budget exhausted'' \<and> by_whom = []"
      by blast
    with g show ?thesis by (intro exI[of _ "Suc k"]) simp
  next
    case False
    have "f' = g \<and> (\<forall>reason by_whom. r \<noteq> Inl (Rejected reason by_whom))"
      using Cons.prems(2) p False coder_pass_no_rejection[of env a st f]
      by (cases q) (auto simp: bind_step_def)
    with g show ?thesis by (intro exI[of _ 1]) simp
  qed
qed

lemma at_most_coder_loop: "at_most (length as) f (snd (coder_loop env as st f))"
proof (cases "coder_loop env as st f")
  case (Pair r g)
  with coder_loop_starts[of f env as st r g] show ?thesis by (auto simp: at_most_def)
qed

lemma at_most_deliver:
  assumes "well_formed_env env"
  shows "at_most (nat (fi_max_coder_retries params + 1)) f (snd (deliver env params st f))"
proof -
  let ?n = "nat (fi_max_coder_retries params + 1)"
  let ?rest = "\<lambda>st3 f3. case settle_tier params st3 (emit_isolation st3 f3) of (st4, f4) \<Rightarrow>
    bind_step (verify env st4 f4) (\<lambda>st5 f5. bind_step (judge_verdicts params st5 f5) (\<lambda>st6 f6.
    bind_step (gate env st6 f6) (release_step env)))"
  have node: "grows no_coder_start g (snd (node_step env n s g))" if "n \<noteq> ''coder''" for n s g
    by (rule grows_node_step) (use that in \<open>auto simp: no_coder_start_def\<close>)
  have rel: "grows no_coder_start g (snd (release_step env s g))" for s g
    unfolding release_step_def
    by (intro grows_bind node) (auto simp: emit_merge_def no_coder_start_def intro: grows_emit)
  have rest: "at_most 0 g (snd (?rest s g))" for s g
  proof (rule at_most_0)
    obtain s' g' where p: "settle_tier params s (emit_isolation s g) = (s', g')"
      by (cases "settle_tier params s (emit_isolation s g)")
    have "grows no_coder_start g g'" using nocs.plain_settle[of g params s] p by simp
    moreover have "grows no_coder_start g' (snd (bind_step (verify env s' g') (\<lambda>st5 f5.
        bind_step (judge_verdicts params st5 f5) (\<lambda>st6 f6. bind_step (gate env st6 f6) (release_step env)))))"
      by (intro grows_bind nocs.plain_verify nocs.plain_judge nocs.plain_gate rel
          fan_no_release[OF assms] fan_no_coder[OF assms])
    ultimately show "grows no_coder_start g (snd (?rest s g))"
      unfolding p prod.case by (rule grows_trans)
  qed
  have "at_most (0 + (0 + (length (attempt_numbers (fi_max_coder_retries params)) + 0))) f
    (snd (bind_step (node_step env ''triage'' st f) (\<lambda>st1 f1.
       bind_step (node_step env ''planner'' st1 f1) (\<lambda>st2 f2.
       bind_step (coder_loop env (attempt_numbers (fi_max_coder_retries params)) st2 f2) ?rest))))"
    by (intro at_most_bind at_most_0[OF node] at_most_coder_loop rest) simp_all
  then show ?thesis
    by (simp add: deliver_def attempt_numbers_def release_step_def[abs_def])
qed


section \<open>What precedes Release\<close>

text \<open>
  The trail of a run splits at the end of the gate: what comes before belongs to no Release, and
  Release is only reached when what comes before ends with \<open>gate_passed\<close>.
\<close>

lemma run_split:
  assumes env: "well_formed_env env" and fresh: "run_events db (fi_run_id params) = []"
  shows "\<exists>A B. log_of (snd (run env params db)) = A @ B \<and> list_all (event_ok not_release) A \<and>
    (B = [] \<or> (\<exists>e. py_last A = Some e \<and> ev_kind e = ''gate_passed''))"
proof -
  let ?f0 = "start_flow env params db" and ?st0 = "initial_state params"
  obtain r g where dg: "deliver_to_gate env params ?st0 ?f0 = (r, g)"
    by (cases "deliver_to_gate env params ?st0 ?f0")
  obtain r' h where d: "deliver env params ?st0 ?f0 = (r', h)"
    by (cases "deliver env params ?st0 ?f0")
  have w: "wf_log ?f0" and l0: "log_of ?f0 = []"
    using fresh by (simp_all add: start_flow_log)
  show ?thesis
  proof (cases r)
    case (Inl e)
    with dg d have "h = g" by (simp add: deliver_split bind_step_def)
    with pre_deliver_to_gate[OF env, of ?f0 params ?st0] dg
    have "grows not_release ?f0 h" by simp
    from grows_trans[OF this pre.plain_run_tail[OF d]] w l0
    have "list_all (event_ok not_release) (log_of (snd (run env params db)))"
      by (simp add: grows_def)
    then show ?thesis by (intro exI[of _ "log_of (snd (run env params db))"] exI[of _ "[]"]) simp
  next
    case (Inr st')
    with dg have "deliver_to_gate env params ?st0 ?f0 = (Inr st', g)" by simp
    from deliver_to_gate_log[OF this env w] l0 obtain e where
      A: "wf_log g" "list_all (event_ok not_release) (log_of g)" "py_last (log_of g) = Some e"
        "ev_kind e = ''gate_passed''" by auto
    have "h = snd (release_step env st' g)"
      using d dg Inr by (simp add: deliver_split bind_step_def)
    then have "grows controlled g h" using controlled_release_step by simp
    from grows_trans[OF this whole.plain_run_tail[OF d]] A(1)
    obtain B where "log_of (snd (run env params db)) = log_of g @ B"
      by (auto simp: grows_def)
    with A show ?thesis by blast
  qed
qed

lemma controlled_events:
  assumes "well_formed_env env" and "run_events db (fi_run_id params) = []"
  shows "list_all (event_ok controlled) (log_of (snd (run env params db)))"
  using run_grows[OF assms(1), of params db] assms(2)
  by (auto simp: grows_def start_flow_log)

section \<open>A guarded Release\<close>

text \<open>
  The environment in which Release checks for itself that the state it is handed is ready, and
  otherwise fails.  Nothing the flow does can tell the two environments apart.
\<close>

definition guarded :: "flow_input \<Rightarrow> flow_env \<Rightarrow> flow_env" where
  "guarded params env = env\<lparr> en_exec := (\<lambda>n s k st.
     if n = ''release'' \<and> \<not> release_ready params st
     then Inl (InvariantViolation ''release of a state that is not ready'') else en_exec env n s k st) \<rparr>"

lemma guarded_fields [simp]:
  "en_preview (guarded params env) = en_preview env"
  "en_fan_order (guarded params env) = en_fan_order env"
  "en_workflow_id (guarded params env) = en_workflow_id env"
  "en_early (guarded params env) = en_early env"
  "en_waiting (guarded params env) = en_waiting env"
  "en_window (guarded params env) = en_window env"
  by (simp_all add: guarded_def)

lemma execute_guarded:
  "n \<noteq> ''release'' \<or> release_ready params st \<Longrightarrow>
   execute (guarded params env) n s st = execute env n s st"
  by (auto simp: execute_def execute_counted_def guarded_def)

lemma node_step_guarded:
  "n \<noteq> ''release'' \<or> release_ready params st \<Longrightarrow>
   node_step (guarded params env) n st f = node_step env n st f"
  by (simp add: node_step_def execute_guarded)

lemma coder_loop_guarded: "coder_loop (guarded params env) as st f = coder_loop env as st f"
  by (induction as arbitrary: st f)
    (simp_all add: coder_pass_def node_step_guarded cong: if_cong)

lemma completions_guarded:
  "''release'' \<notin> set vs \<Longrightarrow>
   completions (guarded params env) q b vs failed f = completions env q b vs failed f"
  by (induction vs arbitrary: failed f) (auto simp: execute_guarded split: sum.split)

lemma fan_results_guarded: "fan_results (guarded params env) q b = fan_results env q b"
proof -
  have eq: "List.map_filter g vs = List.map_filter h vs" if "\<forall>v \<in> set vs. g v = h v"
    for g h :: "string \<Rightarrow> (string \<times> flow_state) option" and vs
    using that by (induction vs) (simp_all add: map_filter_simps split: option.split)
  show ?thesis
    unfolding fan_results_def
    by (rule eq) (auto simp: VERIFIERS_def execute_guarded)
qed

lemma verify_guarded:
  "well_formed_env env \<Longrightarrow> verify (guarded params env) st f = verify env st f"
  unfolding verify_def Let_def
  by (simp add: completions_guarded fan_no_release fan_results_guarded cong: if_cong option.case_cong)

lemma gate_open_guarded: "gate_open (guarded params env) st f = gate_open env st f"
  by (simp add: gate_open_def emit_preview_def)

lemma gate_guarded: "gate (guarded params env) st f = gate env st f"
  unfolding gate_def Let_def gate_open_guarded guarded_fields by (rule refl)

lemma deliver_to_gate_guarded:
  "well_formed_env env \<Longrightarrow>
   deliver_to_gate (guarded params env) params' st f = deliver_to_gate env params' st f"
  unfolding deliver_to_gate_def deliver_to_verdict_def
  by (simp add: node_step_guarded coder_loop_guarded verify_guarded gate_guarded[abs_def])

lemma deliver_guarded:
  assumes "well_formed_env env"
  shows "deliver (guarded params env) params st f = deliver env params st f"
proof -
  obtain r g where dg: "deliver_to_gate env params st f = (r, g)"
    by (cases "deliver_to_gate env params st f")
  show ?thesis
  proof (cases r)
    case (Inl e)
    with dg show ?thesis
      by (simp add: deliver_split deliver_to_gate_guarded[OF assms] bind_step_def)
  next
    case (Inr s)
    with dg have "release_ready params s" using deliver_to_gate_Inr by blast
    then have "release_step (guarded params env) s g = release_step env s g"
      by (simp add: release_step_def node_step_guarded)
    with dg Inr show ?thesis
      by (simp add: deliver_split deliver_to_gate_guarded[OF assms] bind_step_def)
  qed
qed

lemma report_guarded: "report_and_finish (guarded params env) = report_and_finish env"
  by (rule ext)+ (simp add: report_and_finish_def node_step_guarded)

lemma tail_guarded:
  "handle_rejected (guarded params env) st reason by_whom f = handle_rejected env st reason by_whom f"
  "handle_crash (guarded params env) st e f = handle_crash env st e f"
  by (simp_all add: handle_rejected_def handle_crash_def node_step_guarded report_guarded
      cong: sum.case_cong)

end
