(* ===== verification/Delivery_Claims.thy ===== *)
theory Delivery_Claims
  imports Flow_Properties
begin

text \<open>The properties of the delivery flow, with the run that witnesses them.\<close>

section \<open>A sample run\<close>

definition sample_input :: flow_input where
  "sample_input = \<lparr> fi_run_id = ''r'', fi_app_id = ''a'',
     fi_ticket = \<lparr> tk_id = ''T-1'', tk_system = ''jira'', tk_title = ''t'', tk_body = [],
       tk_state = None, tk_acceptance_criteria = [], tk_labels = [], tk_story_points = None \<rparr>,
     fi_policy_commit = ''c'', fi_policy_bundle = JObj [], fi_app_name = ''app'',
     fi_provisional_risk_tier = High,
     fi_risk_rules = \<lparr> rr_high_paths = [], rr_medium_paths = [], rr_medium_changed_files = None,
       rr_high_changed_files = None \<rparr>,
     fi_blocking_verifiers = [], fi_budget_cents_allowed = 100, fi_max_coder_retries = 1,
     fi_parent_run_id = None, fi_root_run_id = None \<rparr>"

text \<open>The first attempt's build fails, the second passes; Release merges.\<close>

definition sample_exec :: "string \<Rightarrow> nat \<Rightarrow> nat \<Rightarrow> flow_state \<Rightarrow> flow_state res" where
  "sample_exec n s k st =
    (if n = ''build_test'' then
       Inr (st\<lparr> fs_ci_result := Some \<lparr> cr_exit_code = (if fs_push_attempt st = 0 then 1 else 0),
              cr_source = SourceCI, cr_url = None, cr_duration_ms = 5 \<rparr> \<rparr>)
     else if n = ''release'' then Inr (st\<lparr> fs_merged_commit := Some ''abc'' \<rparr>)
     else if n \<in> set VERIFIERS then
       Inr (st\<lparr> fs_verifications := [\<lparr> vf_verifier = n, vf_passed = True, vf_findings = [],
              vf_graded = [] \<rparr>] \<rparr>)
     else Inr st)"

definition yes_from :: "string \<Rightarrow> approval_signal" where
  "yes_from who = \<lparr> sg_principal = who, sg_approved = True, sg_evidence_digest = ''d'', sg_comment = [] \<rparr>"

definition sample_env :: flow_env where
  "sample_env = \<lparr> en_exec = sample_exec, en_preview = [], en_fan_order = VERIFIERS,
     en_workflow_id = ''w'', en_early = [], en_waiting = [yes_from ''ann'', yes_from ''bob''],
     en_window = [] \<rparr>"

lemma sample_env_ok [simp]: "well_formed_env sample_env"
  by (simp add: well_formed_env_def sample_env_def VERIFIERS_def)

lemma sample_db_ok [simp]: "run_events empty_db r = []"
  by (simp add: run_events_def empty_db_def)

section \<open>The trail\<close>



text \<open>
  C2. Nothing of Release is recorded, and no effect on the world outside is recorded as
  authorized, before the approval gate has been passed: every event of the Release node and
  every event with a control mode comes after a \<open>gate_passed\<close> event of the same run.
\<close>

theorem release_follows_gate:
  assumes "well_formed_env env" and "run_events db (fi_run_id params) = []"
    and "evs = run_events (wf_db (snd (run env params db))) (fi_run_id params)"
  shows "\<forall>i < length evs. ev_node_id (evs ! i) = Some ''release'' \<or> ev_control_mode (evs ! i) \<noteq> None
    \<longrightarrow> (\<exists>j < i. ev_kind (evs ! j) = ''gate_passed'')"
proof (intro allI impI)
  fix i assume i: "i < length evs"
    and e: "ev_node_id (evs ! i) = Some ''release'' \<or> ev_control_mode (evs ! i) \<noteq> None"
  have "wf_run_id (snd (run env params db)) = fi_run_id params"
    using run_grows[OF assms(1), of params db] by (simp add: grows_def start_flow_log)
  then have "evs = log_of (snd (run env params db))" using assms(3) by (simp add: log_of_def)
  with run_split[OF assms(1,2)] obtain A B where AB: "evs = A @ B"
    "list_all (event_ok not_release) A" "B = [] \<or> (\<exists>e. py_last A = Some e \<and> ev_kind e = ''gate_passed'')"
    by auto
  have "\<not> i < length A"
  proof
    assume "i < length A"
    with AB have "event_ok not_release (evs ! i)" by (simp add: nth_append list_all_length)
    with e show False by (auto simp: event_ok_def not_release_def)
  qed
  with i AB(1) have "B \<noteq> []" by auto
  with AB(3) obtain e where "py_last A = Some e" "ev_kind e = ''gate_passed''" by auto
  then obtain C where "A = C @ [e]" by (cases A rule: rev_cases) auto
  with AB(1) \<open>\<not> i < length A\<close> \<open>ev_kind e = ''gate_passed''\<close> show "\<exists>j < i. ev_kind (evs ! j) = ''gate_passed''"
    by (intro exI[of _ "length C"]) (auto simp: nth_append)
qed

definition sample_trail :: "flow_event list" where
  "sample_trail = run_events (wf_db (snd (run sample_env sample_input empty_db))) (fi_run_id sample_input)"

lemma release_follows_gate_witness:
  "list_all (\<lambda>i. (ev_node_id (sample_trail ! i) \<noteq> Some ''release'' \<and> ev_control_mode (sample_trail ! i) = None)
      \<or> list_ex (\<lambda>j. ev_kind (sample_trail ! j) = ''gate_passed'') [0..<i]) [0..<length sample_trail]"
  using release_follows_gate[OF sample_env_ok sample_db_ok sample_trail_def]
  by (auto simp: list_all_iff list_ex_iff)

text \<open>
  The only event of a run that claims control over the outside world is the merge: an event
  either has no control mode, or it is the \<open>external_effect\<close> of Release and carries
  \<open>authorized\<close>.
\<close>

theorem only_the_merge_is_authorized:
  assumes "well_formed_env env" and "run_events db (fi_run_id params) = []"
  shows "list_all (\<lambda>e. ev_control_mode e = None \<or>
      (ev_kind e = ''external_effect'' \<and> ev_node_id e = Some ''release'' \<and>
       ev_control_mode e = Some ''authorized''))
    (run_events (wf_db (snd (run env params db))) (fi_run_id params))"
proof -
  have "wf_run_id (snd (run env params db)) = fi_run_id params"
    using run_grows[OF assms(1), of params db] by (simp add: grows_def start_flow_log)
  with controlled_events[OF assms] show ?thesis
    by (simp add: log_of_def event_ok_def[abs_def] controlled_def)
qed

lemma only_the_merge_is_authorized_witness:
  "list_all (\<lambda>e. ev_control_mode e = None \<or>
      (ev_kind e = ''external_effect'' \<and> ev_node_id e = Some ''release'' \<and>
       ev_control_mode e = Some ''authorized'')) sample_trail"
  unfolding sample_trail_def
  by (rule only_the_merge_is_authorized[OF sample_env_ok sample_db_ok])

section \<open>Release\<close>

text \<open>
  C1. Release is only ever handed a state that is ready for it.  Making the Release node check
  for itself that the tests passed, that no blocking verifier falsified the change, that at least
  as many approvals as the tier requires were given and none withheld, and that the tier is the
  maximum of the provisional tier and the tier the rules assign to the diff, and fail otherwise,
  changes nothing: every run has the same outcome, the same trail and the same rows.
\<close>

theorem release_needs_no_second_check:
  assumes "well_formed_env env"
  shows "run (guarded params env) params db = run env params db"
proof -
  have "start_row (guarded params env) params = start_row env params"
    by (simp add: start_row_def)
  then show ?thesis
    unfolding run_def Let_def deliver_guarded[OF assms] report_guarded tail_guarded by simp
qed

lemma release_needs_no_second_check_witness:
  "run (guarded sample_input sample_env) sample_input empty_db = run sample_env sample_input empty_db"
  by (rule release_needs_no_second_check) simp

section \<open>The Coder loop\<close>

text \<open>
  C24. The Coder is started at most \<open>max_coder_retries + 1\<close> times in a run, however often its
  change fails to build, and a negative allowance starts it not at all.
\<close>

theorem coder_attempts_bounded:
  assumes "well_formed_env env" and "run_events db (fi_run_id params) = []"
  shows "length (filter (\<lambda>e. ev_kind e = ''node_started'' \<and> ev_node_id e = Some ''coder'')
           (run_events (wf_db (snd (run env params db))) (fi_run_id params)))
         \<le> nat (fi_max_coder_retries params + 1)"
proof -
  let ?f0 = "start_flow env params db"
  obtain r h where d: "deliver env params (initial_state params) ?f0 = (r, h)"
    by (cases "deliver env params (initial_state params) ?f0")
  have w: "wf_log ?f0" and "coder_starts ?f0 = 0"
    using assms(2) by (simp_all add: start_flow_log coder_starts_def)
  with at_most_deliver[OF assms(1), of params ?f0 "initial_state params"] d
  have h: "wf_log h" "coder_starts h \<le> nat (fi_max_coder_retries params + 1)"
    by (simp_all add: at_most_def)
  have "coder_starts (snd (run env params db)) = coder_starts h"
    using grows_no_coder_starts[OF nocs.plain_run_tail[OF d] h(1)] by simp
  moreover have "wf_run_id (snd (run env params db)) = fi_run_id params"
    using run_grows[OF assms(1), of params db] by (simp add: grows_def start_flow_log)
  ultimately show ?thesis
    using h(2) by (simp add: coder_starts_def log_of_def coder_started_def[abs_def])
qed

lemma coder_attempts_bounded_witness:
  "length (filter (\<lambda>e. ev_kind e = ''node_started'' \<and> ev_node_id e = Some ''coder'') sample_trail) \<le> 2"
  using coder_attempts_bounded[OF sample_env_ok sample_db_ok, of sample_input]
  by (simp add: sample_trail_def sample_input_def)

text \<open>
  The Coder loop gives up for one reason only.  On a gapless trail it starts the Coder at
  most once per allowed attempt; it hands on a state only when that state's tests passed; it
  rejects the change only as \<open>retry budget exhausted\<close>, with no verifier blamed, and only after
  every allowed attempt was made.
\<close>

theorem coder_loop_outcomes:
  assumes "wf_log f" and "coder_loop env as st f = (r, f')"
  shows "\<exists>k \<le> length as. coder_starts f' = coder_starts f + k \<and>
    (case r of
       Inr st' \<Rightarrow> tests_passed st'
     | Inl (Rejected reason by_whom) \<Rightarrow> k = length as \<and> reason = ''retry budget exhausted'' \<and> by_whom = []
     | Inl _ \<Rightarrow> True)"
proof -
  obtain k where k: "k \<le> length as" "coder_starts f' = coder_starts f + k"
    "\<forall>reason by_whom. r = Inl (Rejected reason by_whom) \<longrightarrow>
       k = length as \<and> reason = ''retry budget exhausted'' \<and> by_whom = []"
    using coder_loop_starts[OF assms] by blast
  with coder_loop_Inr[of env as st f] assms(2) show ?thesis
    by (intro exI[of _ k]) (auto split: sum.split failure.split)
qed

definition unconfigured_env :: flow_env where
  "unconfigured_env = sample_env\<lparr> en_exec := (\<lambda>n s k st. Inl (ConfigError ''no model'')) \<rparr>"

lemma unconfigured_node_step:
  "\<exists>g. node_step unconfigured_env n st f = (Inl (Crashed (ConfigError ''no model'')), g)"
  by (simp add: node_step_def execute_def execute_counted_def unconfigured_env_def MAX_ATTEMPTS_def
      NON_RETRYABLE_def numeral_2_eq_2 Let_def)

lemma coder_loop_outcomes_witness:
  "\<exists>k \<le> 2. coder_starts (snd (coder_loop unconfigured_env [0, 1] (initial_state sample_input)
        (start_flow unconfigured_env sample_input empty_db)))
      = coder_starts (start_flow unconfigured_env sample_input empty_db) + k"
proof -
  let ?f = "start_flow unconfigured_env sample_input empty_db"
  obtain r g where "coder_loop unconfigured_env [0, 1] (initial_state sample_input) ?f = (r, g)"
    by (cases "coder_loop unconfigured_env [0, 1] (initial_state sample_input) ?f")
  with coder_loop_outcomes[OF _ this] show ?thesis by (auto simp: start_flow_log)
qed

section \<open>The approval gate\<close>

lemma gate_unsettled:
  assumes "gate env st f = (Inl x, f')"
  shows "fs_risk_tier st \<noteq> Low \<and>
    (x = Rejected ''rejected by an approver'' [] \<and>
       rejecting (wf_approvals f @ en_early env @ en_waiting env @ en_window env) \<or>
     x = Waiting \<and> \<not> decided (required_approvals (fs_risk_tier st))
       (wf_approvals f @ en_early env @ en_waiting env))"
proof -
  have high: "fs_risk_tier st \<noteq> Low"
    using assms by (auto simp: gate_def Let_def)
  define f3 where "f3 = gate_suspend st (gate_open env st f)"
  have f3: "wf_approvals f3 = wf_approvals f @ en_early env"
    by (simp add: f3_def gate_suspend_def gate_open_def emit_preview_def Let_def)
  have x: "Inl x = (case wait_decided (required_approvals (fs_risk_tier st)) (wf_approvals f3) (en_waiting env)
      of None \<Rightarrow> Inl Waiting | Some sigs \<Rightarrow> fst (gate_decide st (sigs @ en_window env) f3))"
    using assms high unfolding gate_def Let_def f3_def[symmetric] by (auto split: option.splits)
  show ?thesis
  proof (cases "wait_decided (required_approvals (fs_risk_tier st)) (wf_approvals f3) (en_waiting env)")
    case None
    from wait_decided_None[OF this] x None high f3 show ?thesis by simp
  next
    case (Some sigs)
    then have "Inl x = fst (gate_decide st (sigs @ en_window env) f3)" using x by simp
    then have "x = Rejected ''rejected by an approver'' []" "rejecting (sigs @ en_window env)"
      by (auto simp: gate_decide_def Let_def split: if_splits)
    moreover obtain k where "sigs = (wf_approvals f @ en_early env) @ take k (en_waiting env)"
      using wait_decided_Some[OF Some] f3 by auto
    ultimately show ?thesis
      using high by (auto simp: rejecting_def list_ex_iff dest: in_set_takeD)
  qed
qed


lemma wait_decided_enough:
  assumes "list_all sg_approved (sigs @ arriving)" and "n \<le> length (sigs @ arriving)"
  shows "\<exists>sigs'. wait_decided n sigs arriving = Some sigs'"
proof (cases "wait_decided n sigs arriving")
  case None
  from wait_decided_None[OF this] assms show ?thesis by (simp add: decided_def list_all_iff)
qed simp

text \<open>
  Enough approvals open the gate: when none of the decisions withholds approval and those
  that were pending or arrive while it waits are at least as many as the tier requires, the gate
  passes, in whatever order they arrive.
\<close>

theorem gate_opens_when_approved:
  assumes "list_all sg_approved (wf_approvals f @ en_early env @ en_waiting env @ en_window env)"
    and "required_approvals (fs_risk_tier st) \<le> length (wf_approvals f @ en_early env @ en_waiting env)"
  shows "\<exists>st' f'. gate env st f = (Inr st', f')"
proof (cases "required_approvals (fs_risk_tier st) = 0")
  case True
  then show ?thesis unfolding gate_def Let_def by (simp del: required_approvals_zero)
next
  case False
  define f3 where "f3 = gate_suspend st (gate_open env st f)"
  have f3: "wf_approvals f3 = wf_approvals f @ en_early env"
    by (simp add: f3_def gate_suspend_def gate_open_def emit_preview_def Let_def)
  obtain sigs where w: "wait_decided (required_approvals (fs_risk_tier st)) (wf_approvals f3)
      (en_waiting env) = Some sigs"
    using wait_decided_enough[of "wf_approvals f3" "en_waiting env"] assms f3 by auto
  obtain k where "sigs = wf_approvals f @ en_early env @ take k (en_waiting env)"
    using wait_decided_Some[OF w] f3 by auto
  then have "\<not> rejecting (sigs @ en_window env)"
    using assms(1) by (auto simp: not_rejecting list_all_iff dest: in_set_takeD)
  with False w show ?thesis
    unfolding gate_def Let_def f3_def[symmetric] by (simp add: gate_decide_def Let_def)
qed

lemma gate_opens_when_approved_witness:
  "\<exists>st' f'. gate sample_env (initial_state sample_input) (start_flow sample_env sample_input empty_db)
     = (Inr st', f')"
  by (rule gate_opens_when_approved)
    (simp_all add: sample_env_def sample_input_def initial_state_def yes_from_def start_flow_def
      new_flow_def new_flow_state_def)

text \<open>
  The gate counts decisions, not people: a high-tier change, which asks for two approvals,
  passes on two signals of one principal.
\<close>

theorem one_principal_can_approve_twice:
  assumes "en_early env = []" and "en_window env = []" and "en_waiting env = [a, a]" and "sg_approved a"
    and "wf_approvals f = []" and "fs_risk_tier st = High"
  shows "\<exists>st' f'. gate env st f = (Inr st', f') \<and>
    map ap_principal (fs_approvals st') = [sg_principal a, sg_principal a]"
proof -
  have w: "wait_decided 2 [] [a, a] = Some [a, a]"
    using assms(4) by (simp add: wait_decided.simps decided_def rejecting_def)
  have "wf_approvals (gate_suspend st (gate_open env st f)) = []"
    using assms by (simp add: gate_suspend_def gate_open_def emit_preview_def Let_def)
  with assms w show ?thesis
    by (simp add: gate_def Let_def gate_decide_def rejecting_def to_approval_def)
qed

lemma one_principal_can_approve_twice_witness:
  "\<exists>st' f'. gate (sample_env\<lparr> en_waiting := [yes_from ''ann'', yes_from ''ann''] \<rparr>)
       (initial_state sample_input) (start_flow sample_env sample_input empty_db) = (Inr st', f') \<and>
     map ap_principal (fs_approvals st') = [sg_principal (yes_from ''ann''), sg_principal (yes_from ''ann'')]"
  by (rule one_principal_can_approve_twice)
    (simp_all add: sample_env_def sample_input_def initial_state_def yes_from_def start_flow_def
      new_flow_def new_flow_state_def)

section \<open>Retries\<close>

lemma retry_from_spec:
  "retry_from g r k = (res, n) \<Longrightarrow> k \<le> n \<and> n \<le> k + r \<and> res = g n \<and>
     (\<forall>i. k \<le> i \<and> i < n \<longrightarrow> (\<exists>e. g i = Inl e \<and> err_type e \<notin> set NON_RETRYABLE)) \<and>
     (\<forall>e. res = Inl e \<longrightarrow> n = k + r \<or> err_type e \<in> set NON_RETRYABLE)"
proof (induction r arbitrary: k)
  case 0
  then show ?case by auto
next
  case (Suc r)
  show ?case
  proof (cases "\<exists>e. g k = Inl e \<and> err_type e \<notin> set NON_RETRYABLE")
    case True
    then obtain e where e: "g k = Inl e" "err_type e \<notin> set NON_RETRYABLE" by blast
    with Suc.prems have "retry_from g r (Suc k) = (res, n)" by simp
    note IH = Suc.IH[OF this]
    have "\<exists>e. g i = Inl e \<and> err_type e \<notin> set NON_RETRYABLE" if "k \<le> i" "i < n" for i
      using that IH e by (cases "i = k") auto
    with IH show ?thesis by auto
  next
    case False
    with Suc.prems show ?thesis by (cases "g k") auto
  qed
qed

text \<open>
  Retries are bounded and honest.  A node runs at least once and at most three times; the
  result is that of the last attempt; every earlier attempt failed with an error that may be
  retried; and a failure is reported only after the third attempt or for an error that may not.
\<close>

theorem execute_retries:
  assumes "execute_counted env n seq st = (res, k)"
  shows "1 \<le> k \<and> k \<le> 3 \<and> res = en_exec env n seq k st \<and>
    (\<forall>i. 1 \<le> i \<and> i < k \<longrightarrow> (\<exists>e. en_exec env n seq i st = Inl e \<and> err_type e \<notin> set NON_RETRYABLE)) \<and>
    (\<forall>e. res = Inl e \<longrightarrow> k = 3 \<or> err_type e \<in> set NON_RETRYABLE)"
  using retry_from_spec[of "\<lambda>k. en_exec env n seq k st" "MAX_ATTEMPTS - 1" 1 res k] assms
  by (simp add: execute_counted_def MAX_ATTEMPTS_def numeral_3_eq_3)

lemma execute_retries_witness:
  "execute_counted unconfigured_env ''coder'' 1 (initial_state sample_input)
     = (Inl (ConfigError ''no model''), 1) \<and> ''ConfigError'' \<in> set NON_RETRYABLE"
proof -
  have e: "execute_counted unconfigured_env ''coder'' 1 (initial_state sample_input)
     = (Inl (ConfigError ''no model''), 1)"
    by (simp add: execute_counted_def unconfigured_env_def MAX_ATTEMPTS_def numeral_2_eq_2 NON_RETRYABLE_def)
  from execute_retries[OF this] e show ?thesis by simp
qed

text \<open>
  A sandbox that cannot be started is retried.  \<open>build_test.py\<close> says the flow treats a
  \<open>SandboxInfrastructureError\<close> as final, but its name is not among the non-retryable types: when
  every attempt raises it, all three are made.
\<close>

theorem sandbox_errors_are_retried:
  assumes "\<forall>k. en_exec env n seq k st = Inl (SandboxInfrastructureError m)"
  shows "execute_counted env n seq st = (Inl (SandboxInfrastructureError m), 3)"
  using assms by (simp add: execute_counted_def MAX_ATTEMPTS_def NON_RETRYABLE_def numeral_2_eq_2 numeral_3_eq_3)

lemma sandbox_errors_are_retried_witness:
  "execute_counted (sample_env\<lparr> en_exec := (\<lambda>n s k st. Inl (SandboxInfrastructureError ''no runtime'')) \<rparr>)
     ''build_test'' 7 (initial_state sample_input) = (Inl (SandboxInfrastructureError ''no runtime''), 3)"
  by (rule sandbox_errors_are_retried) simp

section \<open>The verifiers\<close>

text \<open>What the Planner and the Coder wrote about their own work, replaced by anything at all.\<close>

definition rewrite_history :: "flow_state \<Rightarrow> flow_state \<Rightarrow> flow_state" where
  "rewrite_history other st = st\<lparr> fs_plan := fs_plan other, fs_retry_count := fs_retry_count other,
     fs_push_attempt := fs_push_attempt other, fs_workspace := fs_workspace other,
     fs_artifacts := fs_artifacts other, fs_cleanup := fs_cleanup other,
     fs_risk_tier_reason := fs_risk_tier_reason other, fs_approvals := fs_approvals other,
     fs_advisory_objections := fs_advisory_objections other, fs_app_name := fs_app_name other,
     fs_budget_cents_allowed := fs_budget_cents_allowed other, fs_rejected_by := fs_rejected_by other,
     fs_merged_commit := fs_merged_commit other, fs_notes := fs_notes other,
     fs_provisional_risk_tier := fs_provisional_risk_tier other \<rparr>"

lemma verifier_brief_rewrite [simp]: "verifier_brief (rewrite_history other st) = verifier_brief st"
  by (simp add: verifier_brief_def rewrite_history_def)

text \<open>
  C20. The verifiers judge the change and not its author's reasoning.  Replacing the plan, the
  retry count, the workspace, the notes and everything else the brief leaves out by arbitrary
  values leaves every event of the fan-out and its outcome the same, and the state it returns
  differs in those fields only.
\<close>

theorem verify_ignores_the_author:
  "verify env (rewrite_history other st) f =
    (case verify env st f of
       (Inl e, g) \<Rightarrow> (Inl e, g)
     | (Inr st', g) \<Rightarrow> (Inr (rewrite_history other st'), sync (rewrite_history other st') g))"
  unfolding verify_def Let_def verifier_brief_rewrite
  by (auto simp: sync_def rewrite_history_def split: prod.split option.split)

lemma completions_ok:
  assumes "\<forall>v \<in> set vs. \<exists>r. execute env v q b = Inr r"
  shows "\<exists>l. completions env q b vs failed f = (failed, f\<lparr> wf_latest := l \<rparr>)"
  using assms
proof (induction vs arbitrary: f)
  case Nil
  then show ?case by (auto intro: exI[of _ "wf_latest f"])
next
  case (Cons v vs)
  then obtain r where "execute env v q b = Inr r" by auto
  with Cons.IH[of "sync r f"] Cons.prems show ?case by (auto simp: sync_def)
qed

lemma emit_latest: "emit k n p c (f\<lparr> wf_latest := l \<rparr>) = (emit k n p c f)\<lparr> wf_latest := l \<rparr>"
  by (simp add: emit_def)

lemma emit_verdicts_latest:
  "emit_verdicts rs (f\<lparr> wf_latest := l \<rparr>) = (emit_verdicts rs f)\<lparr> wf_latest := l \<rparr>"
proof (induction rs arbitrary: f)
  case Nil
  then show ?case by simp
next
  case (Cons x rs)
  then show ?case by (cases x) (simp add: emit_latest)
qed

lemma execute_fan_order [simp]: "execute (env\<lparr> en_fan_order := vs \<rparr>) n q st = execute env n q st"
  by (simp add: execute_def execute_counted_def)

text \<open>The fan-out when no verifier fails: nothing of it depends on who finished first.\<close>

definition verify_all_ok :: "flow_env \<Rightarrow> flow_state \<Rightarrow> flow \<Rightarrow> flow_state step" where
  "verify_all_ok env st f =
    (let f1 = (emit ''verifiers_started'' None (JObj [(''count'', JInt 4)]) None f)\<lparr>
                 wf_node := Some ''verifier.regression_risk'' \<rparr>;
         results = fan_results env (Suc (wf_seq f)) (verifier_brief st);
         st' = st\<lparr> fs_spend_micro_cents :=
                    combine (fs_spend_micro_cents st # map (fs_spend_micro_cents \<circ> snd) results),
                  fs_verifications := fs_verifications st @ concat (map (fs_verifications \<circ> snd) results) \<rparr>;
         f2 = emit ''verifiers_completed'' None
               (JObj [(''passed'', JInt (int (length (filter vf_passed (fs_verifications st'))))),
                      (''of'', JInt 4),
                      (''falsified_by'', JList (map JStr (map vf_verifier
                          (filter (\<lambda>v. \<not> vf_passed v) (fs_verifications st'))))),
                      (''verifications'', JList (map verification_json (fs_verifications st')))]) None
               (emit_verdicts results f1)
     in (Inr st', sync st' f2))"

lemma verify_ok:
  assumes "set (en_fan_order env) = set VERIFIERS"
    and "\<forall>v \<in> set VERIFIERS. \<exists>r. execute env v (Suc (wf_seq f)) (verifier_brief st) = Inr r"
  shows "verify env st f = verify_all_ok env st f"
proof -
  let ?f1 = "(emit ''verifiers_started'' None (JObj [(''count'', JInt 4)]) None f)\<lparr>
    wf_node := Some ''verifier.regression_risk'' \<rparr>"
  have const: "length VERIFIERS = 4" "last VERIFIERS = ''verifier.regression_risk''"
    by (simp_all add: VERIFIERS_def)
  obtain l where "completions env (Suc (wf_seq f)) (verifier_brief st) (en_fan_order env) None ?f1
      = (None, ?f1\<lparr> wf_latest := l \<rparr>)"
    using completions_ok assms by blast
  with assms(1) show ?thesis
    by (simp add: verify_def verify_all_ok_def Let_def const emit_verdicts_latest emit_latest sync_def)
qed

text \<open>
  The order in which the concurrent verifiers finish decides nothing: when none of them
  fails, any two completion orders give the same state, the same verdict order and the same trail.
\<close>

theorem verify_order_irrelevant:
  assumes "set xs = set VERIFIERS" and "set ys = set VERIFIERS"
    and "\<forall>v \<in> set VERIFIERS. \<exists>r. execute env v (Suc (wf_seq f)) (verifier_brief st) = Inr r"
  shows "verify (env\<lparr> en_fan_order := xs \<rparr>) st f = verify (env\<lparr> en_fan_order := ys \<rparr>) st f"
proof -
  have "verify_all_ok (env\<lparr> en_fan_order := xs \<rparr>) st f = verify_all_ok (env\<lparr> en_fan_order := ys \<rparr>) st f"
    by (simp add: verify_all_ok_def fan_results_def)
  with assms show ?thesis by (simp add: verify_ok)
qed

lemma sample_execute_ok: "\<exists>r. execute sample_env n q st = Inr r"
  by (simp add: execute_def execute_counted_def MAX_ATTEMPTS_def numeral_2_eq_2 sample_env_def
      sample_exec_def)

lemma verify_order_irrelevant_witness:
  "verify (sample_env\<lparr> en_fan_order := VERIFIERS \<rparr>) (initial_state sample_input)
       (start_flow sample_env sample_input empty_db)
   = verify (sample_env\<lparr> en_fan_order := rev VERIFIERS \<rparr>) (initial_state sample_input)
       (start_flow sample_env sample_input empty_db)"
  by (rule verify_order_irrelevant) (simp_all add: sample_execute_ok)

text \<open>
  Declaring every verifier advisory makes every verifier blocking: with an empty list of
  blocking verifiers the flow falls back to all four, so any objection rejects the change.
\<close>

theorem no_blocking_means_all_blocking:
  assumes "fi_blocking_verifiers params = []"
    and "v \<in> set (fs_verifications st)" and "\<not> vf_passed v" and "vf_verifier v \<in> set ALL_VERIFIERS"
  shows "\<exists>by_whom. fst (judge_verdicts params st f)
      = Inl (Rejected ''a verifier falsified the change'' by_whom) \<and> vf_verifier v \<in> set by_whom"
proof -
  have "vf_verifier v \<in> set (falsified params st)"
    using assms by (auto simp: falsified_def blocking_set_def)
  moreover from this have "falsified params st \<noteq> []" by auto
  ultimately show ?thesis by (simp add: judge_verdicts_def Let_def)
qed

definition objection :: verification where
  "objection = \<lparr> vf_verifier = ''security'', vf_passed = False, vf_findings = [''f''], vf_graded = [] \<rparr>"

lemma no_blocking_means_all_blocking_witness:
  "\<exists>by_whom. fst (judge_verdicts sample_input ((initial_state sample_input)\<lparr> fs_verifications := [objection] \<rparr>)
      (start_flow sample_env sample_input empty_db))
      = Inl (Rejected ''a verifier falsified the change'' by_whom) \<and> vf_verifier objection \<in> set by_whom"
  by (rule no_blocking_means_all_blocking)
    (simp_all add: sample_input_def objection_def ALL_VERIFIERS_def)

section \<open>How a run ends\<close>

text \<open>
  A step that neither fails nor waits: it hands a state on or rejects the change.
\<close>

definition settles :: "'a step \<Rightarrow> bool" where
  "settles m \<longleftrightarrow> (case fst m of Inr _ \<Rightarrow> True | Inl (Rejected _ _) \<Rightarrow> True | Inl _ \<Rightarrow> False)"

lemma settles_bind:
  assumes "settles m" and "\<And>x g. m = (Inr x, g) \<Longrightarrow> settles (k x g)"
  shows "settles (bind_step m k)"
proof (cases m)
  case (Pair r g)
  with assms show ?thesis by (cases r) (simp_all add: bind_step_def settles_def)
qed

text \<open>
  An environment in which nothing gets stuck: every node succeeds within its attempts, every
  verifier finishes, and enough decisions arrive for any tier.
\<close>

definition cooperative :: "flow_env \<Rightarrow> bool" where
  "cooperative env \<longleftrightarrow> (\<forall>n q st. \<exists>r. execute env n q st = Inr r) \<and>
     set (en_fan_order env) = set VERIFIERS \<and> decided 2 (en_early env @ en_waiting env)"

lemma node_step_ok:
  assumes "cooperative env"
  shows "\<exists>st' f'. node_step env n st f = (Inr st', f')"
proof -
  obtain r where "execute env n (Suc (wf_seq f)) st = Inr r"
    using assms unfolding cooperative_def by blast
  then show ?thesis by (simp add: node_step_def Let_def)
qed

lemma settles_node:
  assumes "cooperative env"
  shows "settles (node_step env n st f)"
proof -
  obtain st' f' where "node_step env n st f = (Inr st', f')" using node_step_ok[OF assms] by blast
  then show ?thesis by (simp add: settles_def)
qed

lemma settles_coder_loop: "cooperative env \<Longrightarrow> settles (coder_loop env as st f)"
proof (induction as arbitrary: st f)
  case Nil
  then show ?case by (simp add: settles_def)
next
  case (Cons a as)
  have "settles (coder_pass env a st f)"
    unfolding coder_pass_def Let_def
    by (intro settles_bind settles_node Cons.prems) (simp add: settles_def)
  then show ?case
    unfolding coder_loop.simps
    by (rule settles_bind) (use Cons in \<open>simp add: settles_def\<close>)
qed

lemma settles_verify:
  assumes "cooperative env"
  shows "settles (verify env st f)"
proof -
  have "verify env st f = verify_all_ok env st f"
    by (rule verify_ok) (use assms in \<open>simp_all add: cooperative_def\<close>)
  then show ?thesis by (simp add: verify_all_ok_def settles_def Let_def)
qed

lemma decided_mono:
  "decided 2 sigs \<Longrightarrow> n \<le> 2 \<Longrightarrow> decided n (before @ sigs)"
  by (auto simp: decided_def rejecting_def)

lemma settles_gate:
  assumes "cooperative env"
  shows "settles (gate env st f)"
proof (cases "fst (gate env st f)")
  case (Inr st')
  then show ?thesis by (simp add: settles_def)
next
  case (Inl x)
  have "required_approvals (fs_risk_tier st) \<le> 2" by (cases "fs_risk_tier st") simp_all
  then have "decided (required_approvals (fs_risk_tier st)) (wf_approvals f @ en_early env @ en_waiting env)"
    using assms decided_mono by (auto simp: cooperative_def)
  moreover have "gate env st f = (Inl x, snd (gate env st f))"
    using Inl by (metis prod.collapse)
  ultimately show ?thesis
    using gate_unsettled[of env st f x] Inl by (cases x) (auto simp: settles_def)
qed

lemma settles_deliver:
  assumes "cooperative env"
  shows "settles (deliver env params st f)"
proof -
  have settle: "settles (case settle_tier params s g of (s', g') \<Rightarrow> k s' g')"
    if "\<And>s' g'. settles (k s' g')" for k :: "flow_state \<Rightarrow> flow \<Rightarrow> flow_state step" and s g
    using that by (simp split: prod.split)
  show ?thesis
    unfolding deliver_def
    by (intro settles_bind settles_node[OF assms] settles_coder_loop[OF assms] settle
        settles_verify[OF assms] settles_gate[OF assms])
      (simp_all add: settles_def judge_verdicts_def Let_def)
qed

text \<open>Rejection: Compensate runs on some state, and what follows is the common tail.\<close>

lemma handle_rejected_cases:
  "\<exists>g doomed. grows controlled f g \<and>
     handle_rejected env st0 reason by_whom f =
       (case node_step env ''compensate'' doomed g of
          (Inr st', f3) \<Rightarrow>
            report_and_finish env st' ((emit_cleanup st' f3)\<lparr> wf_status := ''rejected'' \<rparr>)
        | (Inl (Crashed e), f3) \<Rightarrow> (Raised e, f3)
        | (Inl _, f3) \<Rightarrow> (Suspended, f3))"
  unfolding handle_rejected_def Let_def
  by (intro exI conjI) (rule_tac [2] refl, auto intro: grows_sync whole.plain_emit)

lemma report_ok:
  assumes "cooperative env"
  shows "\<exists>r f'. report_and_finish env st f = (Returned r, f')"
proof -
  obtain st' f' where "node_step env ''reporter'' st f = (Inr st', f')"
    using node_step_ok[OF assms] by blast
  then show ?thesis by (simp add: report_and_finish_def Let_def)
qed

lemma cooperative_returns:
  assumes "cooperative env"
  shows "\<exists>r f. run env params db = (Returned r, f)"
proof -
  let ?st0 = "initial_state params" and ?f0 = "new_flow params (record_run_started (start_row env params) db)"
  obtain r f where d: "deliver env params ?st0 ?f0 = (r, f)"
    by (cases "deliver env params ?st0 ?f0")
  with settles_deliver[OF assms, of params ?st0 ?f0] have "settles (r, f)" by simp
  then consider st where "r = Inr st" | reason by_whom where "r = Inl (Rejected reason by_whom)"
    by (auto simp: settles_def split: sum.splits failure.splits)
  then show ?thesis
  proof cases
    case 1
    with d show ?thesis
      using report_ok[OF assms, of st "f\<lparr> wf_status := ''succeeded'' \<rparr>"] by (simp add: run_def)
  next
    case 2
    obtain g doomed where h: "handle_rejected env ?st0 reason by_whom f =
       (case node_step env ''compensate'' doomed g of
          (Inr st', f3) \<Rightarrow>
            report_and_finish env st' ((emit_cleanup st' f3)\<lparr> wf_status := ''rejected'' \<rparr>)
        | (Inl (Crashed e), f3) \<Rightarrow> (Raised e, f3)
        | (Inl _, f3) \<Rightarrow> (Suspended, f3))"
      using handle_rejected_cases by blast
    obtain st' f3 where "node_step env ''compensate'' doomed g = (Inr st', f3)"
      using node_step_ok[OF assms] by blast
    with h d 2 have "run env params db =
        report_and_finish env st' ((emit_cleanup st' f3)\<lparr> wf_status := ''rejected'' \<rparr>)"
      by (simp add: run_def)
    with report_ok[OF assms] show ?thesis by metis
  qed
qed

lemma sample_env_cooperative: "cooperative sample_env"
  unfolding cooperative_def
  by (intro conjI allI sample_execute_ok)
    (simp_all add: sample_env_def decided_def rejecting_def yes_from_def)



lemma finish_row:
  assumes "tracked f"
  shows "\<exists>row. db_runs (wf_db (finish f)) (wf_run_id f) = Some row \<and> rw_status row = wf_status f \<and>
    rw_ended row"
  using assms by (auto simp: finish_def Let_def db_runs_record_run_ended tracked_def)

lemma finish_last:
  assumes "wf_log f"
  shows "\<exists>e. py_last (log_of (finish f)) = Some e \<and> ev_kind e = ''run_cost'' \<and>
    ev_seq e = wf_seq (finish f)"
  using log_emit[OF assms] by (simp add: finish_def Let_def log_of_def)

lemma report_returned:
  assumes "report_and_finish env st f = (Returned r, f')" and "tracked f" and "wf_log f"
  shows "fr_run_id r = wf_run_id f \<and> fr_status r = wf_status f \<and>
    (\<exists>row. db_runs (wf_db f') (wf_run_id f) = Some row \<and> rw_status row = fr_status r \<and> rw_ended row) \<and>
    (\<exists>e. py_last (run_events (wf_db f') (wf_run_id f)) = Some e \<and> ev_kind e = ''run_cost'' \<and>
       ev_seq e = fr_events r)"
proof -
  obtain st' g where n: "node_step env ''reporter'' st f = (Inr st', g)"
    and f': "f' = finish g" and r: "fr_run_id r = wf_run_id f'" "fr_status r = wf_status f'"
      "fr_events r = wf_seq f'"
    using assms(1) by (auto simp: report_and_finish_def Let_def split: prod.splits sum.splits failure.splits)
  have "grows controlled f g"
    using whole.plain_node[of "''reporter''" f env st] n by simp
  with assms have g: "tracked g" "wf_log g" "wf_run_id g = wf_run_id f" by (simp_all add: grows_def)
  have s: "wf_status g = wf_status f" using node_step_Inr[OF n] by blast
  have fin: "wf_run_id (finish g) = wf_run_id g" "wf_status (finish g) = wf_status g"
    by (simp_all add: finish_def Let_def)
  show ?thesis
    using finish_row[OF g(1)] finish_last[OF g(2)] f' r g(3) s fin by (auto simp: log_of_def)
qed

text \<open>
  C13. A run that returns is on record the way it says: its status is \<open>succeeded\<close> or
  \<open>rejected\<close>, its row carries that status and is closed, and the last event of its trail is the
  cost of the run, numbered as many as the result says there are events.
\<close>

theorem returned_run_is_recorded:
  assumes "well_formed_env env" and "run_events db (fi_run_id params) = []"
    and "run env params db = (Returned r, f)"
  shows "fr_run_id r = fi_run_id params \<and> fr_status r \<in> {''succeeded'', ''rejected''} \<and>
    (\<exists>row. db_runs (wf_db f) (fi_run_id params) = Some row \<and> rw_status row = fr_status r \<and> rw_ended row) \<and>
    (\<exists>e. py_last (run_events (wf_db f) (fi_run_id params)) = Some e \<and> ev_kind e = ''run_cost'' \<and>
       ev_seq e = fr_events r)"
proof -
  let ?st0 = "initial_state params" and ?f0 = "start_flow env params db"
  obtain q g where d: "deliver env params ?st0 ?f0 = (q, g)" by (cases "deliver env params ?st0 ?f0")
  have "grows controlled ?f0 g"
    using controlled_deliver[OF assms(1), of ?f0 params ?st0] d by simp
  with assms(2) have g: "tracked g" "wf_log g" "wf_run_id g = fi_run_id params"
    by (simp_all add: grows_def start_flow_tracked start_flow_log)
  have "\<exists>st h. tracked h \<and> wf_log h \<and> wf_run_id h = fi_run_id params \<and>
    wf_status h \<in> {''succeeded'', ''rejected''} \<and> report_and_finish env st h = (Returned r, f)"
  proof (cases q)
    case (Inr st)
    with d assms(3) have "report_and_finish env st (g\<lparr> wf_status := ''succeeded'' \<rparr>) = (Returned r, f)"
      by (simp add: run_def start_flow_def)
    with g show ?thesis
      by (intro exI[of _ st] exI[of _ "g\<lparr> wf_status := ''succeeded'' \<rparr>"])
        (simp add: wf_log_def del: upt_Suc)
  next
    case (Inl x)
    have no: "fst (handle_crash env s e h) \<noteq> Returned r" for s e h
      by (simp add: handle_crash_def Let_def split: prod.split sum.split failure.split)
    from Inl d assms(3) no[of ?st0] obtain reason by_whom where
      "handle_rejected env ?st0 reason by_whom g = (Returned r, f)"
      by (cases x) (auto simp: run_def start_flow_def dest: arg_cong[of _ _ fst])
    moreover obtain h doomed where h: "grows controlled g h" and
      "handle_rejected env ?st0 reason by_whom g =
       (case node_step env ''compensate'' doomed h of
          (Inr st', f3) \<Rightarrow>
            report_and_finish env st' ((emit_cleanup st' f3)\<lparr> wf_status := ''rejected'' \<rparr>)
        | (Inl (Crashed e), f3) \<Rightarrow> (Raised e, f3)
        | (Inl _, f3) \<Rightarrow> (Suspended, f3))"
      using handle_rejected_cases by blast
    moreover obtain x k where n: "node_step env ''compensate'' doomed h = (x, k)"
      by (cases "node_step env ''compensate'' doomed h")
    ultimately obtain st' where x: "x = Inr st'"
      and rep: "report_and_finish env st' ((emit_cleanup st' k)\<lparr> wf_status := ''rejected'' \<rparr>) = (Returned r, f)"
      by (cases x) (auto split: failure.splits)
    have "grows controlled h k" using whole.plain_node[of "''compensate''" h env doomed] n by simp
    with h have "grows controlled g k" by (rule grows_trans)
    with grows_to_update(2)[OF whole.plain_cleanup]
    have "grows controlled g ((emit_cleanup st' k)\<lparr> wf_status := ''rejected'' \<rparr>)"
      by (blast intro: grows_trans)
    with g rep show ?thesis
      by (intro exI[of _ st'] exI[of _ "(emit_cleanup st' k)\<lparr> wf_status := ''rejected'' \<rparr>"])
        (simp add: grows_def)
  qed
  then show ?thesis using report_returned by metis
qed

lemma returned_run_is_recorded_witness:
  "\<exists>r :: flow_result. fr_status r \<in> {''succeeded'', ''rejected''} \<and>
    (\<exists>row. db_runs (wf_db (snd (run sample_env sample_input empty_db))) ''r'' = Some row \<and>
       rw_status row = fr_status r \<and> rw_ended row)"
proof -
  obtain r f where "run sample_env sample_input empty_db = (Returned r, f)"
    using cooperative_returns[OF sample_env_cooperative] by blast
  moreover have "fi_run_id sample_input = ''r''" by (simp add: sample_input_def)
  ultimately show ?thesis
    using returned_run_is_recorded[OF sample_env_ok sample_db_ok, of sample_input r f]
    by (intro exI[of _ r]) simp
qed

text \<open>
  A reporter that fails leaves the run open: the flow raises without closing it, so the row
  stays whatever it was, \<open>running\<close> for a release, and no cost is recorded, although the source
  promises both on every path.
\<close>

theorem failed_reporter_leaves_run_open:
  assumes "report_and_finish env st f = (Raised e, f')" and "wf_log f"
  shows "db_runs (wf_db f') = db_runs (wf_db f) \<and>
    (\<exists>es. log_of f' = log_of f @ es \<and> map ev_kind es = [''node_started'', ''node_failed''])"
proof -
  have n: "node_step env ''reporter'' st f = (Inl (Crashed e), f')"
    using assms(1) by (auto simp: report_and_finish_def Let_def split: prod.splits sum.splits failure.splits)
  let ?g = "f\<lparr> wf_node := Some ''reporter'' \<rparr>"
  have w: "wf_log ?g" using assms(2) by (simp add: wf_log_def del: upt_Suc)
  have "f' = emit ''node_failed'' (Some ''reporter'') (failure_json e) None
      (emit ''node_started'' (Some ''reporter'') (JObj []) None ?g)"
    using n by (auto simp: node_step_def Let_def split: sum.splits)
  then show ?thesis
    by (simp add: log_emit[OF w] log_emit[OF wf_log_emit[OF w]])
qed

lemma failed_reporter_leaves_run_open_witness:
  "\<exists>e f'. report_and_finish unconfigured_env (initial_state sample_input)
       (start_flow unconfigured_env sample_input empty_db) = (Raised e, f') \<and>
     db_runs (wf_db f') = db_runs (wf_db (start_flow unconfigured_env sample_input empty_db))"
proof -
  let ?f = "start_flow unconfigured_env sample_input empty_db"
  obtain g where "node_step unconfigured_env ''reporter'' (initial_state sample_input) ?f
      = (Inl (Crashed (ConfigError ''no model'')), g)"
    using unconfigured_node_step by blast
  then have r: "report_and_finish unconfigured_env (initial_state sample_input) ?f
      = (Raised (ConfigError ''no model''), g)"
    by (simp add: report_and_finish_def)
  have "wf_log ?f" by (simp add: start_flow_log)
  from failed_reporter_leaves_run_open[OF r this] r show ?thesis by blast
qed

end
