(* ===== verification/Node_World.thy ===== *)
theory Node_World
  imports Notes Delivery
begin

text \<open>
  What a node runs in (engine/nodes/base.py, the configuration records of engine/config.py and
  the adapter protocols of engine/adapters): the application's configuration and the systems
  outside.  A node is a function from a state to a computation over a log of the writes it made
  to those systems; the answers they give are the functions of \<open>node_ctx\<close>.
\<close>

section \<open>Configuration\<close>

record repo_ref =
  rref_host :: string
  rref_org :: string
  rref_repo :: string
  rref_project :: "string option"

definition repo_realm :: "repo_ref \<Rightarrow> string" where
  "repo_realm r = rref_host r @ '':'' @ rref_org r"

record ticket_ref =
  tref_system :: string
  tref_project :: string
  tref_id :: string

definition ticket_realm :: "ticket_ref \<Rightarrow> string" where
  "ticket_realm r = tref_system r @ '':'' @ tref_project r"

record repo_config =
  rc_name :: string
  rc_provider :: string
  rc_org :: string
  rc_repo :: string
  rc_project :: "string option"
  rc_path :: string

definition repo_config_ref :: "repo_config \<Rightarrow> repo_ref" where
  "repo_config_ref r = \<lparr> rref_host = (if rc_provider r = ''github'' then ''github.com'' else ''dev.azure.com''),
     rref_org = rc_org r, rref_repo = rc_repo r, rref_project = rc_project r \<rparr>"

record trigger_config =
  tc_provider :: string
  tc_project :: string
  tc_site :: "string option"
  tc_account_email :: "string option"
  tc_organisation :: "string option"
  tc_label :: "string option"
  tc_ready_state :: "string option"
  tc_max_story_points :: "int option"
  tc_story_points_field :: "string option"

definition trigger_ref :: "trigger_config \<Rightarrow> string \<Rightarrow> ticket_ref" where
  "trigger_ref t ticket_id = \<lparr> tref_system = tc_provider t, tref_project = tc_project t, tref_id = ticket_id \<rparr>"

record risk_config =
  rk_high_paths :: "string list"
  rk_medium_paths :: "string list"
  rk_high_labels :: "string list"
  rk_medium_changed_files :: "int option"
  rk_high_changed_files :: "int option"

text \<open>\<open>cpus\<close> is the configured number; nothing computes with it.\<close>

record sandbox_config =
  sb_toolchain_image :: string
  sb_test_command :: "string list"
  sb_memory_mb :: int
  sb_cpus :: rat
  sb_pids :: int
  sb_timeout_s :: int
  sb_tmp_mb :: int
  sb_require_full_isolation :: bool

record ci_config =
  cc_provider :: string
  cc_wait_s :: int
  cc_poll_s :: int
  cc_grace_s :: int
  cc_required_workflows :: "string list"

record node_model =
  nm_model :: string
  nm_effort :: string
  nm_max_tokens :: int

datatype llm_provider = ANTHROPIC | AZURE_OPENAI | OPENAI_COMPATIBLE | BEDROCK

fun provider_str :: "llm_provider \<Rightarrow> string" where
  "provider_str ANTHROPIC = ''anthropic''"
| "provider_str AZURE_OPENAI = ''azure_openai''"
| "provider_str OPENAI_COMPATIBLE = ''openai_compatible''"
| "provider_str BEDROCK = ''bedrock''"

record llm_config =
  lc_provider :: llm_provider
  lc_per_node :: "(string \<times> node_model) list"
  lc_base_url :: "string option"

definition for_node :: "llm_config \<Rightarrow> string \<Rightarrow> node_model res" where
  "for_node c node_id =
    (case map_of (lc_per_node c) node_id of
       Some m \<Rightarrow> Inr m
     | None \<Rightarrow>
         (case (if starts_with ''verifier.'' node_id then map_of (lc_per_node c) ''verifiers'' else None) of
            Some m \<Rightarrow> Inr m
          | None \<Rightarrow> Inl (ConfigError (''llm has no model configured for node '' @ repr_str node_id))))"

datatype integration_model = KUWARDEN_DEPLOYS | GATED_MERGE | GATED_DEPLOYMENT

fun model_str :: "integration_model \<Rightarrow> string" where
  "model_str KUWARDEN_DEPLOYS = ''kuwarden_deploys''"
| "model_str GATED_MERGE = ''gated_merge''"
| "model_str GATED_DEPLOYMENT = ''gated_deployment''"

record auto_merge_config =
  am_enabled :: bool
  am_max_risk_tier :: risk_tier
  am_max_files_changed :: "int option"
  am_require_external_anchor :: bool

definition default_auto_merge :: auto_merge_config where
  "default_auto_merge = \<lparr> am_enabled = False, am_max_risk_tier = Low, am_max_files_changed = None,
     am_require_external_anchor = True \<rparr>"

record app_config =
  ac_name :: string
  ac_repos :: "repo_config list"
  ac_triggers :: "trigger_config list"
  ac_integration_model :: integration_model
  ac_sandbox :: sandbox_config
  ac_auto_merge :: auto_merge_config
  ac_toolchain_id :: string
  ac_risk :: risk_config
  ac_llm :: "llm_config option"
  ac_ci :: "ci_config option"
  ac_blocking :: "string list"
  ac_budget_cents_per_run :: int
  ac_max_coder_retries :: int
  ac_default_risk_tier :: risk_tier

text \<open>\<open>primary\<close> is \<open>self.repos[0]\<close>, an \<open>IndexError\<close> on an empty list.\<close>

definition primary :: "app_config \<Rightarrow> repo_config res" where
  "primary c = (case ac_repos c of
     [] \<Rightarrow> Inl (OtherError ''IndexError'' ''list index out of range'')
   | r # rs \<Rightarrow> Inr r)"

section \<open>Which nodes may call a model\<close>

definition may_call_llm :: "node_class \<Rightarrow> bool" where
  "may_call_llm c \<longleftrightarrow> c \<noteq> DETERMINISTIC"

fun class_str :: "node_class \<Rightarrow> string" where
  "class_str DETERMINISTIC = ''deterministic''"
| "class_str ADVISORY = ''advisory''"
| "class_str GENERATIVE = ''generative''"
| "class_str VERIFIER = ''verifier''"

definition assert_may_call_llm :: "(string \<times> node_class) option \<Rightarrow> unit res" where
  "assert_may_call_llm current =
    (case current of
       None \<Rightarrow> Inl (InvariantViolation
         ''LLM call attempted outside any node. The Flow Engine contains no LLM (invariant 1).'')
     | Some (node_id, c) \<Rightarrow>
         if \<not> may_call_llm c then
           Inl (InvariantViolation (''node '' @ repr_str node_id @ '' is classified ''
             @ repr_str (class_str c) @ '' and may not call a model''))
         else Inr ())"

section \<open>The systems outside\<close>

record branch_ref =
  br_name :: string
  br_commit :: string

record file_edit =
  fe_path :: string
  fe_content :: string
  fe_deleted :: bool

record pull_request =
  pr_id :: string
  pr_url :: string
  pr_source_branch :: string

record ci_run =
  ci_id :: string
  ci_name :: string
  ci_workflow :: string
  ci_url :: string
  ci_head_sha :: string
  ci_passed :: "bool option"
  ci_raw_conclusion :: string

record sandbox_limits =
  sl_memory_mb :: int
  sl_cpus :: rat
  sl_pids :: int
  sl_timeout_s :: int
  sl_tmp_mb :: int

record sandbox_capabilities =
  cap_cgroup_memory :: bool
  cap_cgroup_cpu :: bool
  cap_cgroup_pids :: bool
  cap_rlimit_memory :: bool
  cap_tmpfs_quota :: bool
  cap_wall_clock :: bool
  cap_network_isolation :: bool

definition fully_enforced :: "sandbox_capabilities \<Rightarrow> bool" where
  "fully_enforced c \<longleftrightarrow> cap_cgroup_memory c \<and> cap_cgroup_cpu c \<and> cap_cgroup_pids c"

definition isolation_gaps :: "sandbox_capabilities \<Rightarrow> string list" where
  "isolation_gaps c =
    (if cap_cgroup_memory c then [] else
      [''container-total memory (cgroups unavailable; per-process rlimit only, so ''
       @ ''N processes at the limit can still exhaust the host)''])
    @ (if cap_cgroup_cpu c then [] else [''CPU quota (cgroups unavailable)''])
    @ (if cap_cgroup_pids c then [] else [''process-count cap (cgroups unavailable)''])"

lemma no_gaps_iff: "isolation_gaps c = [] \<longleftrightarrow> fully_enforced c"
  by (simp add: isolation_gaps_def fully_enforced_def)

record exec_result =
  ex_exit_code :: int
  ex_duration_ms :: int
  ex_stdout :: string
  ex_stderr :: string
  ex_limits_hit :: "string list"
  ex_enforced :: "sandbox_capabilities option"

text \<open>The writes a node asks of the systems outside, in the order it asks for them.\<close>

datatype effect =
    PostComment ticket_ref string
  | PushChange repo_ref branch_ref string string "file_edit list" "string option"
  | OpenPullRequest repo_ref string string string string
  | MergePullRequest repo_ref string string
  | DeleteBranch repo_ref string

text \<open>
  The answers of those systems.  Each call is answered by a function of its arguments; a write
  that is answered with an error may or may not have happened.
\<close>

record node_ctx =
  nc_config :: app_config
  nc_base_url :: string
  nc_fetch :: "ticket_ref \<Rightarrow> ticket res"
  nc_comments :: "ticket_ref \<Rightarrow> string list res"
  nc_comment :: "ticket_ref \<Rightarrow> string \<Rightarrow> unit res"
  nc_read_tree :: "repo_ref \<Rightarrow> string \<Rightarrow> ((string \<times> string) list) res"
  nc_push_change :: "repo_ref \<Rightarrow> branch_ref \<Rightarrow> string \<Rightarrow> string \<Rightarrow> file_edit list \<Rightarrow> string option \<Rightarrow> branch_ref res"
  nc_open_pull_request :: "repo_ref \<Rightarrow> string \<Rightarrow> string \<Rightarrow> string \<Rightarrow> string \<Rightarrow> pull_request res"
  nc_merge_pull_request :: "repo_ref \<Rightarrow> string \<Rightarrow> string \<Rightarrow> string res"
  nc_delete_branch :: "repo_ref \<Rightarrow> string \<Rightarrow> bool res"
  nc_ci_runs :: "nat \<Rightarrow> repo_ref \<Rightarrow> string \<Rightarrow> ci_run list res"
  nc_sandbox :: "((string \<times> string) list \<Rightarrow> string \<Rightarrow> string list \<Rightarrow> sandbox_limits \<Rightarrow> exec_result res) option"

text \<open>A computation of a node: the writes it made, then what it returned or raised.\<close>

type_synonym 'a io = "effect list \<times> 'a res"

definition io_pure :: "'a res \<Rightarrow> 'a io" where
  "io_pure r = ([], r)"

definition io_call :: "effect \<Rightarrow> 'a res \<Rightarrow> 'a io" where
  "io_call e r = ([e], r)"

definition io_bind :: "'a io \<Rightarrow> ('a \<Rightarrow> 'b io) \<Rightarrow> 'b io" where
  "io_bind m k = (case m of
     (es, Inl e) \<Rightarrow> (es, Inl e)
   | (es, Inr x) \<Rightarrow> (case k x of (es', r) \<Rightarrow> (es @ es', r)))"

text \<open>\<open>try: m except Exception as exc: h(exc)\<close>.\<close>

definition io_catch :: "'a io \<Rightarrow> (error \<Rightarrow> 'a io) \<Rightarrow> 'a io" where
  "io_catch m h = (case m of
     (es, Inr x) \<Rightarrow> (es, Inr x)
   | (es, Inl e) \<Rightarrow> (case h e of (es', r) \<Rightarrow> (es @ es', r)))"

named_theorems io_simps \<open>running a node's computation\<close>

lemma io_bind_pure [io_simps]:
  "io_bind (io_pure (Inr x)) k = k x" "io_bind (io_pure (Inl e)) k = io_pure (Inl e)"
  by (simp_all add: io_bind_def io_pure_def split: prod.split)

lemma io_bind_call [io_simps]:
  "io_bind (io_call e (Inl err)) k = io_call e (Inl err)"
  "io_bind (io_call e (Inr x)) k = (e # fst (k x), snd (k x))"
  by (simp_all add: io_bind_def io_call_def split: prod.split)

lemma io_bind_Inr:
  "snd (io_bind m k) = Inr y \<longleftrightarrow> (\<exists>x. snd m = Inr x \<and> snd (k x) = Inr y)"
  by (cases m; cases "snd m") (auto simp: io_bind_def split: prod.split)

lemma io_bind_fst:
  "fst (io_bind m k) = fst m @ (case snd m of Inl e \<Rightarrow> [] | Inr x \<Rightarrow> fst (k x))"
  by (cases m; cases "snd m") (auto simp: io_bind_def split: prod.split)

lemma io_bind_snd:
  "snd (io_bind m k) = (case snd m of Inl e \<Rightarrow> Inl e | Inr x \<Rightarrow> snd (k x))"
  by (cases m; cases "snd m") (auto simp: io_bind_def split: prod.split)

lemma io_catch_snd:
  "snd (io_catch m h) = (case snd m of Inl e \<Rightarrow> snd (h e) | Inr x \<Rightarrow> Inr x)"
  by (cases m; cases "snd m") (auto simp: io_catch_def split: prod.split)

lemma io_catch_fst:
  "fst (io_catch m h) = fst m @ (case snd m of Inl e \<Rightarrow> fst (h e) | Inr x \<Rightarrow> [])"
  by (cases m; cases "snd m") (auto simp: io_catch_def split: prod.split)

lemmas io_run = io_bind_fst io_bind_snd io_catch_fst io_catch_snd

lemma io_pure_simps [simp]: "fst (io_pure r) = []" "snd (io_pure r) = r"
  by (simp_all add: io_pure_def)

lemma io_call_simps [simp]: "fst (io_call e r) = [e]" "snd (io_call e r) = r"
  by (simp_all add: io_call_def)

section \<open>Adapters by configuration\<close>

text \<open>
  engine/adapters/factory.py.  Which adapter answers is the environment's business; whether one
  exists is decided here.
\<close>

definition ticket_adapter :: "trigger_config \<Rightarrow> unit res" where
  "ticket_adapter t =
    (if tc_provider t = ''jira'' then
       if \<not> truthy (tc_site t) \<or> \<not> truthy (tc_account_email t)
       then Inl (ConfigError ''jira triggers need both site and account_email'') else Inr ()
     else if tc_provider t = ''azure_devops'' then
       if \<not> truthy (tc_organisation t)
       then Inl (ConfigError ''azure_devops triggers need an organisation'') else Inr ()
     else Inl (ConfigError (''no ticket adapter for provider '' @ repr_str (tc_provider t))))"

definition scm_adapter :: "repo_config \<Rightarrow> unit res" where
  "scm_adapter r =
    (if rc_provider r = ''github'' \<or> rc_provider r = ''azure_repos'' then Inr ()
     else Inl (ConfigError (''no SCM adapter for provider '' @ repr_str (rc_provider r))))"

definition ci_adapter :: "ci_config \<Rightarrow> unit res" where
  "ci_adapter c =
    (if cc_provider c = ''github_actions'' then Inr ()
     else Inl (ConfigError (''no CI adapter for provider '' @ repr_str (cc_provider c))))"

record scm_capabilities =
  sc_deployment_protection :: bool
  sc_required_status_checks :: bool
  sc_restrictable_pipeline_triggers :: bool
  sc_detail :: "(string \<times> string) list"

definition validate_integration_model :: "integration_model \<Rightarrow> scm_capabilities \<Rightarrow> bool \<times> string" where
  "validate_integration_model declared caps =
    (case declared of
       GATED_DEPLOYMENT \<Rightarrow>
         if \<not> sc_deployment_protection caps then
           (False, ''the platform exposes no deployment protection rule, so there is no point ''
             @ ''at which it would pause and ask KuWarden'')
         else (True, ''declared model is supported by the platform as probed'')
     | GATED_MERGE \<Rightarrow>
         if \<not> sc_required_status_checks caps then
           (False, ''no required status check is available, so merge cannot be gated'')
         else (True, ''declared model is supported by the platform as probed'')
     | KUWARDEN_DEPLOYS \<Rightarrow>
         if \<not> sc_restrictable_pipeline_triggers caps then
           (False, ''the repository's pipeline cannot be restricted to manual or tag dispatch, ''
             @ ''so merging would deploy alongside KuWarden -- a double deploy, or a race'')
         else (True, ''declared model is supported by the platform as probed''))"

end
