(* ===== verification/Node_Sample.thy ===== *)
theory Node_Sample
  imports Node_World Delivery_Claims
begin

text \<open>
  One application, one ticket and one set of answers, on which the properties of the nodes are
  applied: a GitHub repository whose pipeline passes, tracked in Jira.
\<close>

definition sample_trigger :: trigger_config where
  "sample_trigger = \<lparr> tc_provider = ''jira'', tc_project = ''T'', tc_site = Some ''https://j'',
     tc_account_email = Some ''a@b'', tc_organisation = None, tc_label = Some ''kuwarden-auto'',
     tc_ready_state = Some ''Ready for Agent'', tc_max_story_points = Some 5,
     tc_story_points_field = None \<rparr>"

definition sample_repo :: repo_config where
  "sample_repo = \<lparr> rc_name = ''app'', rc_provider = ''github'', rc_org = ''o'', rc_repo = ''r'',
     rc_project = None, rc_path = ''.'' \<rparr>"

definition sample_config :: app_config where
  "sample_config = \<lparr> ac_name = ''App'', ac_repos = [sample_repo], ac_triggers = [sample_trigger],
     ac_integration_model = GATED_MERGE,
     ac_sandbox = \<lparr> sb_toolchain_image = ''img'', sb_test_command = [''pytest'', ''-q''],
       sb_memory_mb = 2048, sb_cpus = 2, sb_pids = 256, sb_timeout_s = 600, sb_tmp_mb = 512,
       sb_require_full_isolation = False \<rparr>,
     ac_auto_merge = \<lparr> am_enabled = True, am_max_risk_tier = Medium, am_max_files_changed = Some 3,
       am_require_external_anchor = True \<rparr>,
     ac_toolchain_id = ''none'',
     ac_risk = \<lparr> rk_high_paths = [], rk_medium_paths = [], rk_high_labels = [''security''],
       rk_medium_changed_files = None, rk_high_changed_files = None \<rparr>,
     ac_llm = None,
     ac_ci = Some \<lparr> cc_provider = ''github_actions'', cc_wait_s = 60, cc_poll_s = 15, cc_grace_s = 30,
       cc_required_workflows = [] \<rparr>,
     ac_blocking = ALL_VERIFIERS, ac_budget_cents_per_run = 0, ac_max_coder_retries = 3,
     ac_default_risk_tier = Low \<rparr>"

definition sample_ticket :: ticket where
  "sample_ticket = \<lparr> tk_id = ''T-1'', tk_system = ''jira'', tk_title = ''Fix it'', tk_body = ''b'',
     tk_state = Some ''ready for agent'', tk_acceptance_criteria = [''works''],
     tk_labels = [''kuwarden-auto''], tk_story_points = Some 3 \<rparr>"

definition sample_ci_run :: "string \<Rightarrow> ci_run" where
  "sample_ci_run sha = \<lparr> ci_id = ''1'', ci_name = ''CI'', ci_workflow = ''ci.yml'', ci_url = ''u'',
     ci_head_sha = sha, ci_passed = Some True, ci_raw_conclusion = ''success'' \<rparr>"

definition sample_ctx :: node_ctx where
  "sample_ctx = \<lparr> nc_config = sample_config, nc_base_url = ''http://h/'',
     nc_fetch = (\<lambda>r. Inr sample_ticket), nc_comments = (\<lambda>r. Inr []),
     nc_comment = (\<lambda>r b. Inr ()), nc_read_tree = (\<lambda>r c. Inr [(''a.py'', ''x'')]),
     nc_push_change = (\<lambda>r base b m es p. Inr \<lparr> br_name = b, br_commit = ''def'' \<rparr>),
     nc_open_pull_request = (\<lambda>r s t ti d. Inr \<lparr> pr_id = ''7'', pr_url = ''pr'', pr_source_branch = s \<rparr>),
     nc_merge_pull_request = (\<lambda>r n c. Inr ''fed''),
     nc_delete_branch = (\<lambda>r b. Inr True),
     nc_ci_runs = (\<lambda>i r c. Inr [sample_ci_run c]),
     nc_sandbox = Some (\<lambda>files img cmd lim. Inr \<lparr> ex_exit_code = 0, ex_duration_ms = 9,
       ex_stdout = ''ok'', ex_stderr = [], ex_limits_hit = [], ex_enforced = None \<rparr>) \<rparr>"

definition sample_state :: flow_state where
  "sample_state = (initial_state sample_input)\<lparr> fs_ticket := sample_ticket, fs_risk_tier := Low,
     fs_branch := Some ''b1'', fs_base_branch := Some ''main'', fs_base_commit := Some ''abc'',
     fs_diff := Some \<lparr> df_files = [\<lparr> fc_path = ''a.py'', fc_added = 1, fc_removed = 0 \<rparr>] \<rparr>,
     fs_proposed_edits := [\<lparr> pe_path = ''a.py'', pe_content = ''y'', pe_deleted = False \<rparr>] \<rparr>"

definition sample_model :: node_model where
  "sample_model = \<lparr> nm_model = ''claude-opus-5'', nm_effort = ''high'', nm_max_tokens = 4096 \<rparr>"

lemmas sample_defs = sample_ctx_def sample_config_def sample_trigger_def sample_repo_def
  sample_ticket_def sample_state_def initial_state_def sample_input_def new_flow_state_def
  sample_ci_run_def

end
