(* ===== verification/Triage.thy ===== *)
theory Triage
  imports Node_Sample Risk_Policy
begin

text \<open>
  engine/nodes/triage.py: admission control, the provisional tier and the budget, and the
  acknowledgement on the ticket, which may fail without failing the run.
\<close>

section \<open>Selecting a trigger\<close>

definition matched_triggers :: "app_config \<Rightarrow> string \<Rightarrow> trigger_config list" where
  "matched_triggers c system = filter (\<lambda>t. tc_provider t = system) (ac_triggers c)"

text \<open>\<open>matched[0] if matched else triggers[0]\<close>, for a configuration that declares a trigger.\<close>

definition select_trigger :: "app_config \<Rightarrow> string \<Rightarrow> trigger_config" where
  "select_trigger c system =
    (case matched_triggers c system of t # ts \<Rightarrow> t | [] \<Rightarrow> hd (ac_triggers c))"

definition selection_text :: "app_config \<Rightarrow> string \<Rightarrow> string" where
  "selection_text c system =
    (if matched_triggers c system \<noteq> [] then ''matched on provider '' @ repr_str system
     else ''no trigger declares provider '' @ repr_str system @ ''; fell back to the first'')"

section \<open>Admission\<close>

definition label_ok :: "trigger_config \<Rightarrow> ticket \<Rightarrow> bool" where
  "label_ok t tk \<longleftrightarrow> \<not> truthy (tc_label t) \<or> the (tc_label t) \<in> set (tk_labels tk)"

definition state_ok :: "trigger_config \<Rightarrow> ticket \<Rightarrow> bool" where
  "state_ok t tk \<longleftrightarrow> \<not> truthy (tc_ready_state t) \<or>
     casefold (or_else (tk_state tk) []) = casefold (the (tc_ready_state t))"

definition points_ok :: "trigger_config \<Rightarrow> ticket \<Rightarrow> bool" where
  "points_ok t tk \<longleftrightarrow> (case (tc_max_story_points t, tk_story_points tk) of
     (Some limit, Some n) \<Rightarrow> n \<le> limit | _ \<Rightarrow> True)"

definition label_denied :: "app_config \<Rightarrow> trigger_config \<Rightarrow> ticket \<Rightarrow> error" where
  "label_denied c t tk = PolicyDenied (tk_id tk @ '' does not carry the ''
     @ repr_str (the (tc_label t)) @ '' label that '' @ ac_name c @ '' requires'')"

definition state_denied :: "app_config \<Rightarrow> trigger_config \<Rightarrow> ticket \<Rightarrow> error" where
  "state_denied c t tk = PolicyDenied (tk_id tk @ '' is in state ''
     @ repr_str (or_else (tk_state tk) ''unknown'') @ ''; '' @ ac_name c @ '' admits tickets in ''
     @ repr_str (the (tc_ready_state t)))"

definition points_denied :: "app_config \<Rightarrow> trigger_config \<Rightarrow> ticket \<Rightarrow> error" where
  "points_denied c t tk = PolicyDenied (tk_id tk @ '' is ''
     @ string_of_int (the (tk_story_points tk)) @ '' points; '' @ ac_name c
     @ '' auto-handles at most '' @ string_of_int (the (tc_max_story_points t)))"

definition admit :: "app_config \<Rightarrow> trigger_config \<Rightarrow> ticket \<Rightarrow> unit res" where
  "admit c t tk =
    (if \<not> label_ok t tk then Inl (label_denied c t tk)
     else if \<not> state_ok t tk then Inl (state_denied c t tk)
     else if \<not> points_ok t tk then Inl (points_denied c t tk)
     else Inr ())"

definition admission_rows :: "trigger_config \<Rightarrow> ticket \<Rightarrow> (string \<times> pyval \<times> pyval \<times> bool) list" where
  "admission_rows t tk =
    [(''Required label'', str_or (tc_label t) ''none required'', strs_or (tk_labels tk) ''no labels'',
      label_ok t tk),
     (''Ready state'', str_or (tc_ready_state t) ''any state admitted'',
      str_or (tk_state tk) ''unknown'', state_ok t tk),
     (''Story points'',
      (case tc_max_story_points t of None \<Rightarrow> VStr ''no ceiling''
       | Some n \<Rightarrow> VStr (''at most '' @ string_of_int n)),
      (case tk_story_points tk of None \<Rightarrow> VStr ''not estimated'' | Some n \<Rightarrow> VInt n),
      points_ok t tk)]"

section \<open>The provisional tier and the budget\<close>

definition escalating :: "app_config \<Rightarrow> ticket \<Rightarrow> string list" where
  "escalating c tk = filter (\<lambda>l. l \<in> set (rk_high_labels (ac_risk c))) (tk_labels tk)"

definition label_tier :: "app_config \<Rightarrow> ticket \<Rightarrow> risk_tier" where
  "label_tier c tk = (if escalating c tk \<noteq> [] then raise_to (ac_default_risk_tier c) High
                      else ac_default_risk_tier c)"

definition intake :: "app_config \<Rightarrow> ticket \<Rightarrow> flow_state \<Rightarrow> flow_state" where
  "intake c tk st =
    (let tier = raise_to (fs_risk_tier st) (label_tier c tk)
     in st\<lparr> fs_ticket := tk, fs_risk_tier := tier, fs_provisional_risk_tier := Some tier,
            fs_budget_cents_allowed := (if fs_budget_cents_allowed st \<noteq> 0
              then fs_budget_cents_allowed st else ac_budget_cents_per_run c) \<rparr>)"

definition numbered :: "string list \<Rightarrow> string" where
  "numbered xs = py_join nl (map (\<lambda>(i, c). string_of_nat i @ ''. '' @ c) (zip [1..<Suc (length xs)] xs))"

definition opt_int :: "int option \<Rightarrow> pyval" where
  "opt_int x = (case x of None \<Rightarrow> VNone | Some n \<Rightarrow> VInt n)"

definition triage_notes :: "app_config \<Rightarrow> string \<Rightarrow> trigger_config \<Rightarrow> flow_state \<Rightarrow> node_notes" where
  "triage_notes c selection t st =
    (let tk = fs_ticket st; criteria = numbered (tk_acceptance_criteria tk)
     in compose (''Admitted '' @ tk_id tk @ '' '' @ [em_dash] @ '' provisional risk tier '' @ tier_str (fs_risk_tier st))
      [Some (fields_note ''Trigger applied''
         [(''Selection'', VStr selection), (''Provider'', VStr (tc_provider t)),
          (''Project'', VStr (tc_project t)), (''Organisation'', opt_str (tc_organisation t)),
          (''Site'', opt_str (tc_site t)), (''Triggers declared'', VInt (int (length (ac_triggers c))))]),
       Some (fields_note ''Ticket as read from the tracker''
         [(''Id'', VStr (tk_id tk)), (''Title'', VStr (tk_title tk)), (''State'', opt_str (tk_state tk)),
          (''Labels'', VStrs (tk_labels tk)), (''Story points'', opt_int (tk_story_points tk)),
          (''Acceptance criteria'', VStr (string_of_nat (length (tk_acceptance_criteria tk)) @ '' stated'')),
          (''Body'', VStr (string_of_nat (length (tk_body tk)) @ '' characters''))]),
       Some (checks ''Admission control'' (admission_rows t tk)),
       (if tk_body tk \<noteq> [] then Some (text_note (''Ticket body '' @ [em_dash] @ '' untrusted input'') (tk_body tk) True False)
        else None),
       (if criteria \<noteq> [] then Some (text_note (''Acceptance criteria '' @ [em_dash] @ '' untrusted input'') criteria True False)
        else None),
       Some (fields_note (''Risk tiering '' @ [em_dash] @ '' stage one of two'')
         [(''Application default'', VStr (tier_str (ac_default_risk_tier c))),
          (''Labels that escalate'', strs_or (rk_high_labels (ac_risk c)) ''none configured''),
          (''Escalating labels found'', strs_or (escalating c tk) ''none''),
          (''Provisional tier'', VStr (tier_str (fs_risk_tier st))),
          (''Authoritative'', VStr (''no '' @ [em_dash] @ '' final tiering runs after the Coder loop'')),
          (''Budget allocated'', VStr (string_of_int (fs_budget_cents_allowed st) @ '' cents''))])])"

section \<open>The acknowledgement\<close>

definition run_marker :: "flow_state \<Rightarrow> string" where
  "run_marker st = ''kuwarden-run: '' @ fs_run_id st"

definition rstrip_slash :: "string \<Rightarrow> string" where
  "rstrip_slash s = rev (dropWhile (\<lambda>c. c = CHR ''/'') (rev s))"

definition acknowledgement :: "node_ctx \<Rightarrow> flow_state \<Rightarrow> string" where
  "acknowledgement ctx st =
     ''KuWarden picked this up and started a run.'' @ nl @ nl
     @ ''Provisional risk tier: '' @ tier_str (fs_risk_tier st)
     @ '' (the authoritative tier is decided after the change exists).'' @ nl
     @ ''Follow it here: '' @ rstrip_slash (nc_base_url ctx) @ ''/runs/'' @ fs_run_id st @ nl @ nl
     @ run_marker st"

definition acknowledge :: "node_ctx \<Rightarrow> trigger_config \<Rightarrow> flow_state \<Rightarrow> unit io" where
  "acknowledge ctx t st =
    (let ref = trigger_ref t (tk_id (fs_ticket st))
     in io_catch
          (io_bind (io_pure (nc_comments ctx ref)) (\<lambda>bodies.
             if list_ex (contains (run_marker st)) bodies then io_pure (Inr ())
             else io_call (PostComment ref (acknowledgement ctx st))
                    (nc_comment ctx ref (acknowledgement ctx st))))
          (\<lambda>e. io_pure (Inr ())))"

definition triage :: "node_ctx \<Rightarrow> flow_state \<Rightarrow> flow_state io" where
  "triage ctx st =
    (let c = nc_config ctx
     in io_bind (io_pure (assert_configured_for (ac_name c) (fs_app_name st))) (\<lambda>_.
        if ac_triggers c = [] then io_pure (Inl (PolicyDenied (ac_name c @ '' declares no triggers'')))
        else
          let t = select_trigger c (tk_system (fs_ticket st))
          in io_bind (io_pure (ticket_adapter t)) (\<lambda>_.
             io_bind (io_pure (nc_fetch ctx (trigger_ref t (tk_id (fs_ticket st))))) (\<lambda>tk.
             io_bind (io_pure (admit c t tk)) (\<lambda>_.
               let st1 = intake c tk st;
                   st2 = st1\<lparr> fs_notes := Some (triage_notes c
                           (selection_text c (tk_system (fs_ticket st))) t st1) \<rparr>
               in io_bind (acknowledge ctx t st2) (\<lambda>_. io_pure (Inr st2)))))))"

section \<open>Properties\<close>

lemma contains_suffix: "contains p v \<Longrightarrow> contains p (u @ v)"
  unfolding contains_iff by (metis append_assoc)

lemma contains_refl: "contains p p"
  unfolding contains_iff by (metis append_Nil append_Nil2)

lemma acknowledge_ok: "snd (acknowledge ctx t st) = Inr ()"
  by (cases "nc_comments ctx (trigger_ref t (tk_id (fs_ticket st)))";
      cases "nc_comment ctx (trigger_ref t (tk_id (fs_ticket st))) (acknowledgement ctx st)")
    (auto simp: acknowledge_def Let_def io_catch_def io_bind_def io_pure_def io_call_def)

lemma triage_Inr:
  assumes "snd (triage ctx st) = Inr st'"
  shows "\<exists>t tk. t \<in> set (ac_triggers (nc_config ctx)) \<and>
    nc_fetch ctx (trigger_ref t (tk_id (fs_ticket st))) = Inr tk \<and>
    admit (nc_config ctx) t tk = Inr () \<and>
    assert_configured_for (ac_name (nc_config ctx)) (fs_app_name st) = Inr () \<and>
    (\<exists>n. st' = (intake (nc_config ctx) tk st)\<lparr> fs_notes := n \<rparr>)"
proof -
  let ?c = "nc_config ctx" and ?t = "select_trigger (nc_config ctx) (tk_system (fs_ticket st))"
  have ne: "ac_triggers ?c \<noteq> []"
    and conf: "assert_configured_for (ac_name ?c) (fs_app_name st) = Inr ()"
    using assms by (auto simp: triage_def Let_def io_bind_Inr split: if_splits)
  then obtain tk where tk: "nc_fetch ctx (trigger_ref ?t (tk_id (fs_ticket st))) = Inr tk"
    "admit ?c ?t tk = Inr ()" "\<exists>n. st' = (intake ?c tk st)\<lparr> fs_notes := n \<rparr>"
    using assms unfolding triage_def Let_def by (auto simp: io_bind_Inr)
  have "set (matched_triggers ?c (tk_system (fs_ticket st))) \<subseteq> set (ac_triggers ?c)"
    by (auto simp: matched_triggers_def)
  then have "?t \<in> set (ac_triggers ?c)"
    using ne by (auto simp: select_trigger_def split: list.split)
  with tk conf show ?thesis by blast
qed

text \<open>
  Triage admits only what the application's configuration admits.  When it returns a state,
  the worker's configuration is the run's own; the ticket is the one the tracker holds under a
  trigger of that configuration and passes that trigger's label, state and size rules; the tier
  is not below the tier it started with nor below the application's default, and is high when
  a label escalates; and an allocated budget is kept.
\<close>

theorem triage_admits:
  assumes "snd (triage ctx st) = Inr st'"
  shows "\<exists>t \<in> set (ac_triggers (nc_config ctx)).
    nc_fetch ctx (trigger_ref t (tk_id (fs_ticket st))) = Inr (fs_ticket st') \<and>
    label_ok t (fs_ticket st') \<and> state_ok t (fs_ticket st') \<and> points_ok t (fs_ticket st') \<and>
    casefold (py_strip (ac_name (nc_config ctx))) = casefold (py_strip (fs_app_name st)) \<and>
    fs_risk_tier st \<le> fs_risk_tier st' \<and> ac_default_risk_tier (nc_config ctx) \<le> fs_risk_tier st' \<and>
    (escalating (nc_config ctx) (fs_ticket st') \<noteq> [] \<longrightarrow> fs_risk_tier st' = High) \<and>
    fs_provisional_risk_tier st' = Some (fs_risk_tier st') \<and>
    (fs_budget_cents_allowed st \<noteq> 0 \<longrightarrow> fs_budget_cents_allowed st' = fs_budget_cents_allowed st)"
proof -
  obtain t tk n where t: "t \<in> set (ac_triggers (nc_config ctx))"
    and f: "nc_fetch ctx (trigger_ref t (tk_id (fs_ticket st))) = Inr tk"
    and a: "admit (nc_config ctx) t tk = Inr ()"
    and c: "assert_configured_for (ac_name (nc_config ctx)) (fs_app_name st) = Inr ()"
    and st': "st' = (intake (nc_config ctx) tk st)\<lparr> fs_notes := n \<rparr>"
    using triage_Inr[OF assms] by blast
  have "label_ok t tk \<and> state_ok t tk \<and> points_ok t tk"
    using a by (auto simp: admit_def split: if_splits)
  moreover have "casefold (py_strip (ac_name (nc_config ctx))) = casefold (py_strip (fs_app_name st))"
    using c by (auto simp: assert_configured_for_def raise_if_def split: if_splits)
  moreover have "fs_ticket st' = tk" by (simp add: st' intake_def Let_def)
  ultimately show ?thesis
    using t f by (intro bexI[of _ t]) (auto simp: st' intake_def label_tier_def raise_to_max Let_def max_def)
qed

lemma triage_admits_witness:
  "\<exists>st'. snd (triage sample_ctx sample_state) = Inr st' \<and> label_ok sample_trigger (fs_ticket st')"
proof -
  have c: "assert_configured_for ''App'' ''app'' = Inr ()"
    by code_simp
  have a: "admit sample_config sample_trigger sample_ticket = Inr ()"
    by code_simp
  have s: "select_trigger sample_config ''jira'' = sample_trigger"
    by (simp add: select_trigger_def matched_triggers_def sample_config_def sample_trigger_def)
  have t: "ticket_adapter sample_trigger = Inr ()"
    by (simp add: ticket_adapter_def sample_trigger_def)
  have f: "fs_app_name sample_state = ''app''" "tk_system (fs_ticket sample_state) = ''jira''"
    "ac_name sample_config = ''App''" "ac_triggers sample_config = [sample_trigger]"
    "nc_config sample_ctx = sample_config" "nc_fetch sample_ctx r = Inr sample_ticket" for r
    by (simp_all add: sample_defs)
  have "\<exists>st'. snd (triage sample_ctx sample_state) = Inr st'"
    unfolding triage_def Let_def f c s t a
    by (simp add: io_bind_Inr f s t a c acknowledge_ok)
  then obtain st' where st': "snd (triage sample_ctx sample_state) = Inr st'" by blast
  from triage_admits[OF st'] have "label_ok sample_trigger (fs_ticket st')"
    by (auto simp: f)
  with st' show ?thesis by blast
qed

text \<open>
  The acknowledgement is a courtesy and is made once.  It never fails the run; it posts at
  most one comment, which carries the run's marker; it posts nothing when the comments cannot be
  read or when one of them already carries the marker, so a retried Triage stays silent.
\<close>

theorem acknowledged_once:
  "snd (acknowledge ctx t st) = Inr () \<and>
   (fst (acknowledge ctx t st) = [] \<or>
    fst (acknowledge ctx t st)
      = [PostComment (trigger_ref t (tk_id (fs_ticket st))) (acknowledgement ctx st)]) \<and>
   contains (run_marker st) (acknowledgement ctx st) \<and>
   (fst (acknowledge ctx t st) \<noteq> [] \<longleftrightarrow>
     (\<exists>bodies. nc_comments ctx (trigger_ref t (tk_id (fs_ticket st))) = Inr bodies \<and>
       list_all (\<lambda>b. \<not> contains (run_marker st) b) bodies))"
proof -
  have "contains (run_marker st) (acknowledgement ctx st)"
    unfolding acknowledgement_def append_assoc by (intro contains_suffix contains_refl)
  then show ?thesis
    using acknowledge_ok[of ctx t st]
    by (cases "nc_comments ctx (trigger_ref t (tk_id (fs_ticket st)))";
        cases "nc_comment ctx (trigger_ref t (tk_id (fs_ticket st))) (acknowledgement ctx st)")
      (auto simp: acknowledge_def Let_def io_catch_def io_bind_def io_pure_def io_call_def
        list_ex_iff list_all_iff)
qed

end
