(* ===== verification/Ship_Nodes.thy ===== *)
theory Ship_Nodes
  imports Node_Sample Risk_Policy
begin

text \<open>
  The nodes that write to the outside: Push (engine/nodes/push.py), Release
  (engine/nodes/release.py), Compensate (engine/nodes/compensate.py) and the Reporter
  (engine/nodes/reporter.py).
\<close>

section \<open>Push\<close>

definition commit_message :: "flow_state \<Rightarrow> string" where
  "commit_message st = py_join nl
    [take 72 (tk_id (fs_ticket st) @ '': '' @ tk_title (fs_ticket st)), [],
     ''kuwarden-run-id: '' @ fs_run_id st,
     ''kuwarden-root-run-id: '' @ fs_root_run_id st,
     ''kuwarden-policy-commit: '' @ fs_policy_commit st,
     ''kuwarden-risk-tier-at-push: '' @ tier_str (fs_risk_tier st),
     ''kuwarden-attempt: '' @ string_of_int (fs_push_attempt st)]"

definition to_file_edit :: "proposed_edit \<Rightarrow> file_edit" where
  "to_file_edit e = \<lparr> fe_path = pe_path e, fe_content = pe_content e, fe_deleted = pe_deleted e \<rparr>"

definition no_change_error :: error where
  "no_change_error = AdapterError (
     ''the Coder produced no change '' @ [em_dash] @ '' the sandbox tree is identical to the base commit. ''
     @ ''Read the Coder's notes for what it was shown and what it decided; a run reaches ''
     @ ''here having proposed nothing when the model could not find what the ticket names.'')"

definition push_notes :: "repo_ref \<Rightarrow> string option \<Rightarrow> string \<Rightarrow> string \<Rightarrow> flow_state \<Rightarrow> node_notes" where
  "push_notes ref parent commit message st =
    compose (''Pushed '' @ string_of_nat (length (fs_proposed_edits st)) @ '' file(s) to ''
       @ the (fs_branch st) @ '' as '' @ take 12 commit)
     [Some (fields_note ''Where it went''
        [(''Repository'', VStr (rref_org ref @ ''/'' @ rref_repo ref)),
         (''Branch'', opt_str (fs_branch st)),
         (''Base commit, pinned by the Coder'', opt_str (fs_base_commit st)),
         (''Parent'', str_or parent (''none '' @ [em_dash] @ '' first attempt, so this commit sits on the base'')),
         (''New commit'', VStr commit),
         (''Pass of the Coder/Build cycle'', VInt (fs_push_attempt st)),
         (''Retries inside the Coder'', VInt (fs_retry_count st))]),
      Some (checks ''Checked before anything reached origin''
        [(''Protected paths'', VStr ''no CI definition, deploy manifest, IaC or KuWarden config'',
          (case fs_diff st of None \<Rightarrow> VStr ''no diff to check'' | Some d \<Rightarrow> VStrs (diff_paths d)), True)]),
      Some (fields_note ''What this node may do''
        [(''Credential held'', VStr ''scm.write_branch, and nothing else''),
         (''Merge'', VStr ''not on the adapter interface''),
         (''Pull request'', VStr (''not here '' @ [em_dash] @ '' Release opens it, after the gate'')),
         (''Control point moved'', VStr (''no '' @ [em_dash] @ '' pushing a branch is not one of the three''))]),
      Some (text_note ''Commit message, with the trailers that make the run resolvable'' message False False),
      Some (fields_note ''Files written''
        (map (\<lambda>e. (pe_path e, VStr (if pe_deleted e then ''deleted''
            else string_of_nat (length (splitlines (pe_content e))) @ '' lines''))) (fs_proposed_edits st)))]"

definition push :: "node_ctx \<Rightarrow> flow_state \<Rightarrow> flow_state io" where
  "push ctx st =
    (case fs_diff st of
       None \<Rightarrow> io_pure (Inl no_change_error)
     | Some d \<Rightarrow>
         if df_files d = [] then io_pure (Inl no_change_error)
         else if \<not> truthy (fs_branch st) \<or> \<not> truthy (fs_base_branch st) \<or> \<not> truthy (fs_base_commit st)
         then io_pure (Inl (AdapterError ''push reached before the Coder pinned a branch and a base commit''))
         else
           io_bind (io_pure (assert_not_protected (diff_paths d))) (\<lambda>_.
           io_bind (io_pure (primary (nc_config ctx))) (\<lambda>repo.
           io_bind (io_pure (scm_adapter repo)) (\<lambda>_.
             let ref = repo_config_ref repo; parent = fs_head_commit st; message = commit_message st;
                 base = \<lparr> br_name = the (fs_base_branch st), br_commit = the (fs_base_commit st) \<rparr>;
                 edits = map to_file_edit (fs_proposed_edits st); branch = the (fs_branch st)
             in io_bind (io_call (PushChange ref base branch message edits parent)
                          (nc_push_change ctx ref base branch message edits parent)) (\<lambda>pushed.
                let st1 = st\<lparr> fs_head_commit := Some (br_commit pushed),
                              fs_artifacts := fs_artifacts st @
                                [\<lparr> ar_kind = ''commit'',
                                   ar_uri = rref_org ref @ ''/'' @ rref_repo ref @ ''@'' @ br_commit pushed,
                                   ar_digest = br_commit pushed \<rparr>] \<rparr>
                in io_pure (Inr (st1\<lparr> fs_notes := Some (push_notes ref parent (br_commit pushed) message st1) \<rparr>)))))))"

section \<open>Release\<close>

text \<open>\<open>_may_merge\<close>: whether auto-merge applies, and the sentence that says why.\<close>

definition may_merge :: "app_config \<Rightarrow> flow_state \<Rightarrow> bool \<times> string" where
  "may_merge c st =
    (let policy = ac_auto_merge c;
         changed = length (changed_files st);
         anchored = (case fs_ci_result st of None \<Rightarrow> False | Some r \<Rightarrow> is_external_anchor r)
     in if \<not> am_enabled policy then (False, ''not enabled for this application'')
        else if ac_integration_model c \<noteq> GATED_MERGE then
          (False, ''integration_model is '' @ model_str (ac_integration_model c) @ '', not gated_merge'')
        else if RISK_TIER_ORDER (fs_risk_tier st) > RISK_TIER_ORDER (am_max_risk_tier policy) then
          (False, ''risk tier '' @ tier_str (fs_risk_tier st) @ '' is above the ''
             @ tier_str (am_max_risk_tier policy) @ '' ceiling'')
        else if list_ex (\<lambda>a. \<not> ap_approved a) (fs_approvals st) then (False, ''a human rejected this change'')
        else if above changed (am_max_files_changed policy) then
          (False, string_of_nat changed @ '' files changed, above the ''
             @ string_of_int (the (am_max_files_changed policy)) @ '' allowed'')
        else if am_require_external_anchor policy \<and> \<not> anchored then
          (False, ''no external anchor: ''
             @ or_else (fs_ci_detail st) ''the verdict came from KuWarden's own sandbox'')
        else (True, ''tier '' @ tier_str (fs_risk_tier st) @ '' at or below ''
               @ tier_str (am_max_risk_tier policy) @ '', '' @ string_of_nat changed @ '' file(s) changed''
               @ (if anchored then '', anchored against the project's own pipeline'' else [])
               @ '' '' @ [em_dash] @ '' merged under the declared policy''))"

text \<open>\<open>text or "default"\<close>.\<close>

definition text_or :: "string \<Rightarrow> string \<Rightarrow> string" where
  "text_or s d = (if s = [] then d else s)"

definition opt_text :: "string option \<Rightarrow> string" where
  "opt_text x = (case x of None \<Rightarrow> ''None'' | Some s \<Rightarrow> s)"

definition release_description :: "flow_state \<Rightarrow> string" where
  "release_description st =
    (let verdicts = text_or (py_join nl (map (\<lambda>v. ''- '' @ vf_verifier v @ '': ''
            @ (if vf_passed v then ''passed'' else ''FAILED'')) (fs_verifications st))) ''- none recorded'';
         approvals = text_or (py_join nl (map (\<lambda>a. ''- '' @ ap_principal a @ '': ''
            @ (if ap_approved a then ''approved'' else ''rejected'')
            @ '' (evidence '' @ ap_evidence_digest a @ '')'') (fs_approvals st)))
            ''- none required at this risk tier''
     in py_join nl
       [''Raised by KuWarden for '' @ tk_system (fs_ticket st) @ '' '' @ tk_id (fs_ticket st) @ ''.'', [],
        ''**Risk tier:** '' @ tier_str (fs_risk_tier st),
        ''**Run:** `'' @ fs_run_id st @ ''`'',
        ''**Head:** `'' @ opt_text (fs_head_commit st) @ ''`'',
        ''**Policy commit:** `'' @ fs_policy_commit st @ ''`'', [],
        ''### Verification'', verdicts, [], ''### Approvals'', approvals])"

definition release_notes :: "app_config \<Rightarrow> pull_request \<Rightarrow> string option \<Rightarrow> string \<Rightarrow> string \<Rightarrow> string
    \<Rightarrow> flow_state \<Rightarrow> node_notes" where
  "release_notes c pr merged why title description st =
    compose (''Opened '' @ pr_url pr
        @ (if truthy merged then '' and merged it as '' @ take 12 (the merged) else []))
     [Some (fields_note ''The pull request''
        [(''URL'', VStr (pr_url pr)), (''Source branch'', opt_str (fs_branch st)),
         (''Target branch'', opt_str (fs_base_branch st)), (''Head commit'', opt_str (fs_head_commit st)),
         (''Title'', VStr title)]),
      Some (fields_note ''What had to be true before this node ran''
        [(''Verifiers'', VStr (string_of_nat (length (fs_verifications st)) @ '' ran, all passed'')),
         (''Risk tier, final'', VStr (tier_str (fs_risk_tier st))),
         (''Approvals'', strs_or (map (\<lambda>a. ap_principal a @ '' (''
             @ (if ap_approved a then ''approved'' else ''rejected'') @ '')'') (fs_approvals st))
             ''none required at this tier'')]),
      Some (fields_note ''Control point''
        [(''Integration model'', VStr (model_str (ac_integration_model c))),
         (''control_mode recorded'', VStr (if truthy merged
            then ''authorized '' @ [em_dash] @ '' KuWarden merged this itself''
            else ''none '' @ [em_dash] @ '' this node opened a request, and performed no effect'')),
         (''Auto-merge'', VStr why),
         (''This node did'', VStr (if truthy merged then ''merge, as '' @ the merged
            else ''open a request addressed to a human''))]),
      Some (text_note ''Pull request description, as posted'' description False False)]"

definition release_title :: "flow_state \<Rightarrow> string" where
  "release_title st = take 200 (tk_id (fs_ticket st) @ '': '' @ tk_title (fs_ticket st))"

definition release :: "node_ctx \<Rightarrow> flow_state \<Rightarrow> flow_state io" where
  "release ctx st =
    (if \<not> truthy (fs_branch st) \<or> \<not> truthy (fs_head_commit st) \<or> \<not> truthy (fs_base_branch st)
     then io_pure (Inl (AdapterError ''release reached with no pushed branch''))
     else
       io_bind (io_pure (primary (nc_config ctx))) (\<lambda>repo.
       io_bind (io_pure (scm_adapter repo)) (\<lambda>_.
         let ref = repo_config_ref repo;
             title = release_title st;
             description = release_description st;
             source = the (fs_branch st); target = the (fs_base_branch st); head = the (fs_head_commit st)
         in io_bind (io_call (OpenPullRequest ref source target title description)
                      (nc_open_pull_request ctx ref source target title description)) (\<lambda>pr.
            let st1 = st\<lparr> fs_artifacts := fs_artifacts st @
                       [\<lparr> ar_kind = ''pull_request'', ar_uri = pr_url pr, ar_digest = pr_id pr \<rparr>] \<rparr>;
                (allowed, why) = may_merge (nc_config ctx) st1;
                notes = (\<lambda>merged s. release_notes (nc_config ctx) pr merged why title description s)
            in if \<not> allowed then io_pure (Inr (st1\<lparr> fs_notes := Some (notes None st1) \<rparr>))
               else
                 io_bind (io_call (MergePullRequest ref (pr_id pr) head)
                           (nc_merge_pull_request ctx ref (pr_id pr) head)) (\<lambda>merged.
                   let st2 = st1\<lparr> fs_artifacts := fs_artifacts st1 @
                              [\<lparr> ar_kind = ''merge'', ar_uri = pr_url pr, ar_digest = merged \<rparr>],
                              fs_merged_commit := Some merged \<rparr>
                   in io_pure (Inr (st2\<lparr> fs_notes := Some (notes (Some merged) st2) \<rparr>)))))))"

section \<open>Compensate\<close>

definition enumerate_findings :: "verification \<Rightarrow> note_section list" where
  "enumerate_findings v = map (\<lambda>(i, finding).
     text_note (vf_verifier v @ '' '' @ [em_dash] @ '' finding '' @ string_of_nat i) finding True False)
     (zip [1..<Suc (length (vf_findings v))] (vf_findings v))"

definition why_blocking :: "flow_state \<Rightarrow> verification list" where
  "why_blocking st = filter (\<lambda>v. \<not> vf_passed v \<and>
     (fs_rejected_by st = [] \<or> vf_verifier v \<in> set (fs_rejected_by st))) (fs_verifications st)"

definition why_advisory :: "flow_state \<Rightarrow> verification list" where
  "why_advisory st = filter (\<lambda>v. \<not> vf_passed v \<and> v \<notin> set (why_blocking st)) (fs_verifications st)"

definition finding_count :: "verification \<Rightarrow> string" where
  "finding_count v = string_of_nat (length (vf_findings v)) @ '' finding(s) '' @ [em_dash] @ '' ''"

definition why :: "flow_state \<Rightarrow> string \<times> note_section list" where
  "why st =
    (let rejected = filter (\<lambda>v. \<not> vf_passed v) (fs_verifications st)
     in if rejected = [] then
          (''Run aborted '' @ [em_dash] @ '' see the preceding events for the cause'', [])
        else
          (''Rejected by '' @ text_or (py_join '', '' (map vf_verifier (why_blocking st))) ''an earlier step'',
           fields_note ''Which verifiers falsified the change''
             (map (\<lambda>v. (vf_verifier v, VStr (finding_count v @ ''blocked the change''))) (why_blocking st)
              @ map (\<lambda>v. (vf_verifier v, VStr (finding_count v @ ''advisory, could not block''))) (why_advisory st)
              @ map (\<lambda>v. (vf_verifier v, VStr ''passed'')) (filter vf_passed (fs_verifications st)))
           # concat (map enumerate_findings rejected)))"

definition record_cleanup :: "flow_state \<Rightarrow> string option \<Rightarrow> flow_state" where
  "record_cleanup st cleanup =
    (let (summary, sections) = why st;
         st1 = (case cleanup of None \<Rightarrow> st | Some c \<Rightarrow> st\<lparr> fs_cleanup := Some c \<rparr>)
     in st1\<lparr> fs_notes := Some (compose
          (summary @ (if truthy (fs_cleanup st1) then '' '' @ [em_dash] @ '' '' @ the (fs_cleanup st1) else []))
          (map Some sections @
           [Some (fields_note ''Cleanup''
              [(''Branch'', str_or (fs_branch st1) ''none pushed''),
               (''Head commit'', str_or (fs_head_commit st1) [em_dash]),
               (''Action'', str_or (fs_cleanup st1) ''nothing to tidy'')])])) \<rparr>)"

definition compensate :: "node_ctx \<Rightarrow> flow_state \<Rightarrow> flow_state io" where
  "compensate ctx st =
    (if \<not> truthy (fs_branch st) \<or> \<not> truthy (fs_head_commit st)
     then io_pure (Inr (record_cleanup st None))
     else if list_ex (\<lambda>a. ar_kind a = ''pull_request'') (fs_artifacts st)
     then io_pure (Inr (record_cleanup st (Some ''branch kept: a pull request was opened against it'')))
     else
       io_bind (io_pure (primary (nc_config ctx))) (\<lambda>repo.
         let ref = repo_config_ref repo; branch = the (fs_branch st)
         in io_catch
              (io_bind (io_pure (scm_adapter repo)) (\<lambda>_.
               io_bind (io_call (DeleteBranch ref branch) (nc_delete_branch ctx ref branch)) (\<lambda>removed.
                 io_pure (Inr (record_cleanup st (Some
                   (if removed then ''branch '' @ branch @ '' deleted at '' @ take 8 (the (fs_head_commit st))
                    else ''branch '' @ branch @ '' was already gone'')))))))
              (\<lambda>e. io_pure (Inr (record_cleanup st (Some
                 (''branch '' @ branch @ '' could not be deleted: '' @ err_msg e)))))))"

section \<open>Reporter\<close>

definition tier_line :: "flow_state \<Rightarrow> string" where
  "tier_line st =
    (if fs_provisional_risk_tier st \<noteq> None \<and> fs_provisional_risk_tier st \<noteq> Some (fs_risk_tier st)
        \<and> fs_risk_tier_reason st \<noteq> []
     then ''risk tier **'' @ tier_str (fs_risk_tier st) @ ''**, raised from ''
          @ tier_str (the (fs_provisional_risk_tier st)) @ '' because '' @ fs_risk_tier_reason st
     else ''risk tier **'' @ tier_str (fs_risk_tier st) @ ''**''
          @ (if fs_risk_tier_reason st \<noteq> [] then '' '' @ [em_dash] @ '' '' @ fs_risk_tier_reason st else []))"

definition verdict_line :: "flow_state \<Rightarrow> verification \<Rightarrow> string" where
  "verdict_line st v =
    (if vf_passed v then ''- '' @ vf_verifier v @ '': passed''
     else if vf_verifier v \<in> set (fs_advisory_objections st)
     then ''- '' @ vf_verifier v @ '': objected, but is configured as advisory and could not block''
     else ''- '' @ vf_verifier v @ '': FAILED '' @ [em_dash] @ '' this stopped the change'')"

definition report_body :: "flow_state \<Rightarrow> string" where
  "report_body st =
    (let prs = map ar_uri (filter (\<lambda>a. ar_kind a = ''pull_request'') (fs_artifacts st))
     in py_join nl
       ([''KuWarden run `'' @ fs_run_id st @ ''` '' @ [em_dash] @ '' '' @ tier_line st @ ''.'', []]
        @ (if prs \<noteq> [] then [''Pull request: '' @ py_join '', '' prs, []] else [])
        @ (if fs_verifications st \<noteq> []
           then ''Verification:'' # map (verdict_line st) (fs_verifications st) @ [[]] else [])
        @ (if fs_approvals st \<noteq> []
           then ''Approvals:'' # map (\<lambda>a. ''- '' @ ap_principal a @ '': ''
                  @ (if ap_approved a then ''approved'' else ''rejected'')) (fs_approvals st) @ [[]] else [])
        @ [''Policy commit `'' @ fs_policy_commit st @ ''`.'']))"

definition report_trigger :: "app_config \<Rightarrow> string \<Rightarrow> trigger_config" where
  "report_trigger c system =
    (case find (\<lambda>t. tc_provider t = system) (ac_triggers c) of
       Some t \<Rightarrow> t | None \<Rightarrow> hd (ac_triggers c))"

definition reporter :: "node_ctx \<Rightarrow> flow_state \<Rightarrow> flow_state io" where
  "reporter ctx st =
    (let c = nc_config ctx
     in if ac_triggers c = [] then
          io_pure (Inr (st\<lparr> fs_notes := Some (compose
            (''Nothing was posted '' @ [em_dash] @ '' the application declares no trigger to post back to'')
            [Some (fields_note ''Why''
               [(''Triggers declared'', VInt 0),
                (''Outcome'', VStr ''the ticket was not told what became of this run'')])]) \<rparr>))
        else
          let t = report_trigger c (tk_system (fs_ticket st)); body = report_body st;
              ref = trigger_ref t (tk_id (fs_ticket st))
          in io_bind (io_pure (ticket_adapter t)) (\<lambda>_.
             io_bind (io_call (PostComment ref body) (nc_comment ctx ref body)) (\<lambda>_.
             io_pure (Inr (st\<lparr> fs_notes := Some (compose
               (''Posted the outcome to '' @ tc_provider t @ '' '' @ tk_id (fs_ticket st))
               [Some (fields_note ''Where it was posted''
                  [(''Provider'', VStr (tc_provider t)), (''Project'', VStr (tc_project t)),
                   (''Ticket'', VStr (tk_id (fs_ticket st))),
                   (''Runs on'', VStr (''every path '' @ [em_dash] @ '' success and compensation alike''))]),
                Some (text_note ''Comment, as posted'' body False False)]) \<rparr>)))))"

section \<open>Properties\<close>

text \<open>
  C26. What Push sends is the change that was checked.  It asks for at most one write; when it
  asks for one, the diff is not empty, no path of it is protected, the new tree is the pinned
  base commit plus the proposed edits, and the new commit's parent is what the run had pushed
  before.  Only a successful write moves the head.
\<close>

theorem push_writes_what_was_checked:
  "(fst (push ctx st) = [] \<or>
    (\<exists>d repo. fs_diff st = Some d \<and> df_files d \<noteq> [] \<and>
       violations DEFAULT_PROTECTED_PATHS (diff_paths d) = [] \<and>
       primary (nc_config ctx) = Inr repo \<and>
       fst (push ctx st) = [PushChange (repo_config_ref repo)
         \<lparr> br_name = the (fs_base_branch st), br_commit = the (fs_base_commit st) \<rparr>
         (the (fs_branch st)) (commit_message st) (map to_file_edit (fs_proposed_edits st))
         (fs_head_commit st)])) \<and>
   (case snd (push ctx st) of
      Inl e \<Rightarrow> True
    | Inr st' \<Rightarrow> fst (push ctx st) \<noteq> [] \<and> fs_head_commit st' \<noteq> None \<and>
        fs_diff st' = fs_diff st \<and> fs_base_commit st' = fs_base_commit st \<and>
        fs_proposed_edits st' = fs_proposed_edits st)"
proof (cases "fs_diff st")
  case None
  then show ?thesis by (simp add: push_def)
next
  case (Some d)
  show ?thesis
  proof (cases "df_files d = [] \<or> \<not> truthy (fs_branch st) \<or> \<not> truthy (fs_base_branch st) \<or>
      \<not> truthy (fs_base_commit st) \<or> assert_not_protected (diff_paths d) \<noteq> Inr () \<or>
      (\<exists>e. primary (nc_config ctx) = Inl e) \<or> (\<exists>r. primary (nc_config ctx) = Inr r \<and> scm_adapter r \<noteq> Inr ())")
    case True
    then show ?thesis
      by (cases "assert_not_protected (diff_paths d)"; cases "primary (nc_config ctx)";
          cases "scm_adapter (projr (primary (nc_config ctx)))")
        (auto simp: push_def Some io_simps)
  next
    case False
    then obtain repo where g: "df_files d \<noteq> []" "truthy (fs_branch st)" "truthy (fs_base_branch st)"
      "truthy (fs_base_commit st)" "assert_not_protected (diff_paths d) = Inr ()"
      "primary (nc_config ctx) = Inr repo" "scm_adapter repo = Inr ()"
      by (cases "primary (nc_config ctx)") auto
    from g(5) have v: "violations DEFAULT_PROTECTED_PATHS (diff_paths d) = []"
      by (simp add: assert_not_protected_def Let_def split: if_splits)
    let ?r = "nc_push_change ctx (repo_config_ref repo)
         \<lparr> br_name = the (fs_base_branch st), br_commit = the (fs_base_commit st) \<rparr>
         (the (fs_branch st)) (commit_message st) (map to_file_edit (fs_proposed_edits st))
         (fs_head_commit st)"
    show ?thesis
      by (cases ?r) (simp_all add: push_def Some g v io_simps Let_def)
  qed
qed

text \<open>
  Two attempts of a run never share a commit message, while a retry of the same attempt
  repeats it: the message, which the adapters use as the idempotency key of a push, names the
  attempt, and nothing of the Coder's inner loop, of the edits or of the head enters it.
\<close>

theorem commit_message_names_the_attempt:
  "(commit_message (st\<lparr> fs_push_attempt := i \<rparr>) = commit_message (st\<lparr> fs_push_attempt := j \<rparr>)
     \<longleftrightarrow> i = j) \<and>
   commit_message (st\<lparr> fs_retry_count := n, fs_head_commit := h, fs_proposed_edits := es \<rparr>)
     = commit_message st"
  by (simp_all add: commit_message_def string_of_int_eq)

lemma may_merge_declared:
  "fst (may_merge c st) \<longleftrightarrow>
     am_enabled (ac_auto_merge c) \<and> ac_integration_model c = GATED_MERGE \<and>
     fs_risk_tier st \<le> am_max_risk_tier (ac_auto_merge c) \<and>
     list_all ap_approved (fs_approvals st) \<and>
     (am_max_files_changed (ac_auto_merge c) = None \<or>
      int (length (changed_files st)) \<le> the (am_max_files_changed (ac_auto_merge c))) \<and>
     (am_require_external_anchor (ac_auto_merge c) = False \<or>
      (\<exists>r. fs_ci_result st = Some r \<and> cr_source r = SourceCI))"
  by (auto simp: may_merge_def Let_def tier_order list_ex_iff list_all_iff above_def
      is_external_anchor_def split: option.splits)

text \<open>
  C25. A merge is exactly what the application declared.  Release merges only when auto-merge is
  enabled under \<open>gated_merge\<close>, the tier is at or below the declared ceiling, no human objected,
  the change is not larger than declared and, where an external anchor is required, the verdict
  came from the project's own pipeline; and when all of that holds it does merge.
\<close>

theorem may_merge_iff_declared:
  "fst (may_merge c st) \<longleftrightarrow>
     am_enabled (ac_auto_merge c) \<and> ac_integration_model c = GATED_MERGE \<and>
     fs_risk_tier st \<le> am_max_risk_tier (ac_auto_merge c) \<and>
     list_all ap_approved (fs_approvals st) \<and>
     (am_max_files_changed (ac_auto_merge c) = None \<or>
      int (length (changed_files st)) \<le> the (am_max_files_changed (ac_auto_merge c))) \<and>
     (am_require_external_anchor (ac_auto_merge c) = False \<or>
      (\<exists>r. fs_ci_result st = Some r \<and> cr_source r = SourceCI))"
  by (rule may_merge_declared)

lemma release_reached:
  assumes "fst (release ctx st) \<noteq> []"
  shows "\<exists>repo. truthy (fs_branch st) \<and> truthy (fs_head_commit st) \<and> truthy (fs_base_branch st) \<and>
    primary (nc_config ctx) = Inr repo \<and> scm_adapter repo = Inr ()"
proof -
  have "truthy (fs_branch st) \<and> truthy (fs_head_commit st) \<and> truthy (fs_base_branch st)"
    using assms by (auto simp: release_def split: if_splits)
  moreover obtain repo where "primary (nc_config ctx) = Inr repo"
    using assms by (cases "primary (nc_config ctx)") (auto simp: release_def io_simps split: if_splits)
  moreover have "scm_adapter (projr (primary (nc_config ctx))) = Inr ()"
    using assms calculation
    by (cases "scm_adapter (projr (primary (nc_config ctx)))")
      (auto simp: release_def io_simps split: if_splits)
  ultimately show ?thesis by auto
qed

text \<open>
  Release asks for a pull request before it asks for anything else, merges at most that pull
  request and only at the head it was given, and only when the declared policy allows it; a
  state it returns carries a merged commit it did not carry before only after such a merge.
\<close>

theorem release_effects:
  "(fst (release ctx st) = [] \<or>
   (\<exists>repo t d. fst (release ctx st) = [OpenPullRequest (repo_config_ref repo) (the (fs_branch st))
        (the (fs_base_branch st)) t d]) \<or>
   (\<exists>repo t d n. fst (release ctx st) = [OpenPullRequest (repo_config_ref repo) (the (fs_branch st))
        (the (fs_base_branch st)) t d, MergePullRequest (repo_config_ref repo) n (the (fs_head_commit st))]
      \<and> fst (may_merge (nc_config ctx) st))) \<and>
   (case snd (release ctx st) of
      Inr st' \<Rightarrow> fs_merged_commit st' = fs_merged_commit st \<or> length (fst (release ctx st)) = 2
    | Inl e \<Rightarrow> True)"
proof (cases "fst (release ctx st) = []")
  case False
  then obtain repo where g: "truthy (fs_branch st)" "truthy (fs_head_commit st)" "truthy (fs_base_branch st)"
    "primary (nc_config ctx) = Inr repo" "scm_adapter repo = Inr ()"
    using release_reached by blast
  define op where "op = nc_open_pull_request ctx (repo_config_ref repo) (the (fs_branch st))
    (the (fs_base_branch st)) (release_title st) (release_description st)"
  have art: "fst (may_merge c (st\<lparr> fs_artifacts := a \<rparr>)) = fst (may_merge c st)" for c a
    by (simp add: may_merge_declared changed_files_def)
  show ?thesis
  proof (cases op)
    case (Inl e)
    then show ?thesis
      by (auto simp: release_def g io_simps Let_def op_def[symmetric])
  next
    case (Inr pr)
    let ?st1 = "st\<lparr> fs_artifacts := fs_artifacts st @
      [\<lparr> ar_kind = ''pull_request'', ar_uri = pr_url pr, ar_digest = pr_id pr \<rparr>] \<rparr>"
    obtain allowed reason where m: "may_merge (nc_config ctx) ?st1 = (allowed, reason)"
      by (cases "may_merge (nc_config ctx) ?st1")
    with art have al: "allowed = fst (may_merge (nc_config ctx) st)" by (metis fst_conv)
    show ?thesis
      by (cases allowed; cases "nc_merge_pull_request ctx (repo_config_ref repo) (pr_id pr) (the (fs_head_commit st))")
        (use al in \<open>auto simp: release_def g io_simps Let_def m Inr op_def[symmetric]\<close>)
  qed
next
  case True
  have "\<not> (\<exists>st'. snd (release ctx st) = Inr st')"
  proof
    assume "\<exists>st'. snd (release ctx st) = Inr st'"
    then show False
      using True
      by (cases "primary (nc_config ctx)"; cases "scm_adapter (projr (primary (nc_config ctx)))")
        (auto simp: release_def io_simps Let_def io_bind_fst split: if_splits)
  qed
  with True show ?thesis by (auto split: sum.split)
qed

text \<open>
  Cleaning up cannot fail and deletes narrowly.  For an application with a repository,
  Compensate always returns a state; the only write it ever asks for is the deletion of the
  run's own branch, and it asks for none when nothing was pushed or a pull request was opened.
  The verdicts, artifacts and commits of the run are kept.
\<close>

theorem compensate_never_fails:
  assumes "ac_repos (nc_config ctx) \<noteq> []"
  shows "\<exists>st'. snd (compensate ctx st) = Inr st' \<and>
    fs_verifications st' = fs_verifications st \<and> fs_artifacts st' = fs_artifacts st \<and>
    fs_head_commit st' = fs_head_commit st \<and> fs_notes st' \<noteq> None \<and>
    (fst (compensate ctx st) = [] \<or>
     (truthy (fs_branch st) \<and> truthy (fs_head_commit st) \<and>
      (\<forall>a \<in> set (fs_artifacts st). ar_kind a \<noteq> ''pull_request'') \<and>
      fst (compensate ctx st) = [DeleteBranch (repo_config_ref (hd (ac_repos (nc_config ctx)))) (the (fs_branch st))]))"
proof -
  have rec: "fs_verifications (record_cleanup st c) = fs_verifications st \<and>
    fs_artifacts (record_cleanup st c) = fs_artifacts st \<and>
    fs_head_commit (record_cleanup st c) = fs_head_commit st \<and> fs_notes (record_cleanup st c) \<noteq> None" for c
    by (simp add: record_cleanup_def Let_def split: prod.split option.split)
  obtain repo rs where repos: "ac_repos (nc_config ctx) = repo # rs"
    using assms by (cases "ac_repos (nc_config ctx)") auto
  then have p: "primary (nc_config ctx) = Inr repo" by (simp add: primary_def)
  let ?b = "the (fs_branch st)"
  show ?thesis
    by (cases "scm_adapter repo"; cases "nc_delete_branch ctx (repo_config_ref repo) ?b")
      (use rec repos in \<open>auto simp: compensate_def p io_run Let_def list_ex_iff\<close>)
qed

lemma compensate_never_fails_witness:
  "\<exists>st'. snd (compensate sample_ctx (sample_state\<lparr> fs_head_commit := Some ''def'' \<rparr>)) = Inr st' \<and>
     fs_notes st' \<noteq> None"
  using compensate_never_fails[of sample_ctx "sample_state\<lparr> fs_head_commit := Some ''def'' \<rparr>"]
  by (auto simp: sample_ctx_def sample_config_def)

end
