(* ===== verification/Ci.thy ===== *)
theory Ci
  imports Node_Sample
begin

text \<open>
  The project's own pipeline read back as a verdict (engine/adapters/ci/__init__.py and
  engine/adapters/ci/github_actions.py).  The pipeline is a function from the number of the poll
  to the runs the platform lists.  The waiting loop may not end, so its result is an option:
  \<open>None\<close> is a loop that never returns, and it always returns when a poll interval is at least
  one second, which is what the configuration parser enforces.
\<close>

section \<open>One answer of the platform\<close>

definition PASSING_CONCLUSIONS :: "string list" where
  "PASSING_CONCLUSIONS = [''success'', ''skipped'', ''neutral'']"

text \<open>A workflow run as GitHub returns it; \<open>None\<close> is an absent key or a null.\<close>

record gh_run =
  gh_id :: "string option"
  gh_name :: "string option"
  gh_path :: "string option"
  gh_html_url :: "string option"
  gh_head_sha :: "string option"
  gh_status :: "string option"
  gh_conclusion :: "string option"

definition gh_ci_run :: "gh_run \<Rightarrow> ci_run" where
  "gh_ci_run e =
    (let completed = (gh_status e = Some ''completed''); conclusion = or_else (gh_conclusion e) []
     in \<lparr> ci_id = or_else (gh_id e) [], ci_name = or_else (gh_name e) ''workflow'',
          ci_workflow = or_else (gh_path e) [], ci_url = or_else (gh_html_url e) [],
          ci_head_sha = or_else (gh_head_sha e) [],
          ci_passed = (if completed then Some (conclusion \<in> set PASSING_CONCLUSIONS) else None),
          ci_raw_conclusion = (if completed then conclusion else or_else (gh_status e) ''unknown'') \<rparr>)"

section \<open>The verdict\<close>

record ci_outcome =
  co_passed :: "bool option"
  co_detail :: string
  co_url :: "string option"
  co_runs :: "ci_run list"

definition for_commit :: "ci_run list \<Rightarrow> string \<Rightarrow> ci_run list" where
  "for_commit runs commit = filter (\<lambda>r. ci_head_sha r = commit) runs"

definition required_runs :: "ci_run list \<Rightarrow> string list \<Rightarrow> ci_run list" where
  "required_runs runs required =
    (if required = [] then runs
     else filter (\<lambda>r. ci_name r \<in> set required \<or> ci_workflow r \<in> set required) runs)"

fun insert_name :: "ci_run \<Rightarrow> ci_run list \<Rightarrow> ci_run list" where
  "insert_name x [] = [x]"
| "insert_name x (y # ys) = (if code_le (ci_name x) (ci_name y) then x # y # ys else y # insert_name x ys)"

fun sort_name :: "ci_run list \<Rightarrow> ci_run list" where
  "sort_name [] = []"
| "sort_name (x # xs) = insert_name x (sort_name xs)"

definition decide :: "ci_run list \<Rightarrow> ci_outcome" where
  "decide runs =
    (case filter (\<lambda>r. ci_passed r \<noteq> Some True) runs of
       f # fs \<Rightarrow> \<lparr> co_passed = Some False,
          co_detail = ''failed: '' @ py_join '', '' (map (\<lambda>r. ci_name r @ '' ('' @ ci_raw_conclusion r @ '')'')
                       (sort_name (f # fs))),
          co_url = Some (ci_url f), co_runs = runs \<rparr>
     | [] \<Rightarrow> \<lparr> co_passed = Some True,
          co_detail = ''passed: '' @ py_join '', '' (map ci_name (sort_name runs)),
          co_url = (case runs of [] \<Rightarrow> None | r # rs \<Rightarrow> Some (ci_url r)), co_runs = runs \<rparr>)"

text \<open>What one poll concludes, or \<open>None\<close> to keep waiting.\<close>

definition poll_verdict :: "ci_config \<Rightarrow> string \<Rightarrow> int \<Rightarrow> ci_run list \<Rightarrow> ci_outcome option" where
  "poll_verdict s commit elapsed listed =
    (let runs = required_runs (for_commit listed commit) (cc_required_workflows s);
         pending = filter (\<lambda>r. ci_passed r = None) runs
     in if runs \<noteq> [] then
          if pending = [] then Some (decide runs)
          else if elapsed \<ge> cc_wait_s s then
            Some \<lparr> co_passed = None,
                   co_detail = ''still running after '' @ string_of_int (cc_wait_s s) @ ''s: ''
                     @ py_join '', '' (map ci_name (sort_name pending)),
                   co_url = None, co_runs = runs \<rparr>
          else None
        else if elapsed \<ge> cc_grace_s s then
          Some \<lparr> co_passed = None,
                 co_detail = ''no pipeline run appeared for '' @ take 8 commit @ '' within ''
                   @ string_of_int (cc_grace_s s) @ ''s'',
                 co_url = None, co_runs = [] \<rparr>
        else if elapsed \<ge> cc_wait_s s then
          Some \<lparr> co_passed = None, co_detail = ''no pipeline run appeared for '' @ take 8 commit,
                 co_url = None, co_runs = [] \<rparr>
        else None)"

text \<open>\<open>await_verdict\<close>: the loop, whose result also says how many polls were made.\<close>

partial_function (option) await_from :: "(nat \<Rightarrow> ci_run list res) \<Rightarrow> ci_config \<Rightarrow> string \<Rightarrow> nat \<Rightarrow> int
    \<Rightarrow> (ci_outcome res \<times> nat) option" where
  "await_from poll s commit k elapsed =
    (case poll k of
       Inl e \<Rightarrow> Some (Inl e, Suc k)
     | Inr listed \<Rightarrow>
         (case poll_verdict s commit elapsed listed of
            Some v \<Rightarrow> Some (Inr v, Suc k)
          | None \<Rightarrow> await_from poll s commit (Suc k) (elapsed + cc_poll_s s)))"

definition await_verdict :: "(nat \<Rightarrow> ci_run list res) \<Rightarrow> string \<Rightarrow> ci_config \<Rightarrow> ci_outcome res option" where
  "await_verdict poll commit s = map_option fst (await_from poll s commit 0 0)"

section \<open>Properties\<close>

lemma poll_verdict_None:
  "poll_verdict s commit elapsed listed = None \<Longrightarrow> elapsed < max (cc_wait_s s) (cc_grace_s s)"
  by (auto simp: poll_verdict_def Let_def split: if_splits)

lemma await_step:
  "poll k = Inr listed \<Longrightarrow> poll_verdict s commit e listed = None \<Longrightarrow>
     await_from poll s commit k e = await_from poll s commit (Suc k) (e + cc_poll_s s)"
  "poll k = Inr listed \<Longrightarrow> poll_verdict s commit e listed = Some v \<Longrightarrow>
     await_from poll s commit k e = Some (Inr v, Suc k)"
  "poll k = Inl err \<Longrightarrow> await_from poll s commit k e = Some (Inl err, Suc k)"
  by (simp_all add: await_from.simps[of poll s commit k e])

text \<open>From a poll at \<open>elapsed\<close>, the loop ends after a bounded number of further polls.\<close>

lemma await_from_returns:
  assumes "cc_poll_s s \<ge> 1"
  shows "\<exists>r n. await_from poll s commit k elapsed = Some (r, n) \<and> k < n \<and>
    (n = Suc k \<or> elapsed + int (n - k - 2) * cc_poll_s s < max (cc_wait_s s) (cc_grace_s s))"
proof (induction "nat (max (cc_wait_s s) (cc_grace_s s) - elapsed)" arbitrary: k elapsed
    rule: less_induct)
  case less
  consider e where "poll k = Inl e"
    | listed v where "poll k = Inr listed" "poll_verdict s commit elapsed listed = Some v"
    | listed where "poll k = Inr listed" "poll_verdict s commit elapsed listed = None"
    by (cases "poll k"; cases "poll_verdict s commit elapsed (projr (poll k))") auto
  then show ?case
  proof cases
    case 1
    then show ?thesis by (simp add: await_step(3))
  next
    case 2
    then show ?thesis by (simp add: await_step(2))
  next
    case 3
    note now = poll_verdict_None[OF 3(2)]
    with assms have "nat (max (cc_wait_s s) (cc_grace_s s) - (elapsed + cc_poll_s s))
        < nat (max (cc_wait_s s) (cc_grace_s s) - elapsed)" by simp
    from less[OF this, of "Suc k"] obtain r n where
      r: "await_from poll s commit (Suc k) (elapsed + cc_poll_s s) = Some (r, n)" "Suc k < n"
        "n = Suc (Suc k) \<or> elapsed + cc_poll_s s + int (n - Suc k - 2) * cc_poll_s s
           < max (cc_wait_s s) (cc_grace_s s)"
      by auto
    have "elapsed + int (n - k - 2) * cc_poll_s s < max (cc_wait_s s) (cc_grace_s s)"
    proof (cases "n = Suc (Suc k)")
      case True
      with now show ?thesis by simp
    next
      case False
      with r(2) have "int (n - k - 2) = 1 + int (n - Suc k - 2)" by simp
      with False r(3) show ?thesis by (simp add: algebra_simps)
    qed
    with r 3 show ?thesis by (simp add: await_step(1))
  qed
qed

lemma await_from_last:
  assumes "cc_poll_s s \<ge> 1" and "await_from poll s commit k elapsed = Some (Inr v, n)"
  shows "\<exists>j listed e. poll j = Inr listed \<and> poll_verdict s commit e listed = Some v"
  using assms(2)
proof (induction "nat (max (cc_wait_s s) (cc_grace_s s) - elapsed)" arbitrary: k elapsed
    rule: less_induct)
  case less
  show ?case
  proof (cases "poll k")
    case (Inl e)
    with less.prems show ?thesis by (simp add: await_step(3))
  next
    case (Inr listed)
    show ?thesis
    proof (cases "poll_verdict s commit elapsed listed")
      case None
      from poll_verdict_None[OF None] assms(1)
      have "nat (max (cc_wait_s s) (cc_grace_s s) - (elapsed + cc_poll_s s))
        < nat (max (cc_wait_s s) (cc_grace_s s) - elapsed)" by simp
      from less.hyps[OF this] less.prems Inr None show ?thesis by (simp add: await_step(1))
    next
      case (Some w)
      with less.prems Inr show ?thesis by (auto simp: await_step(2))
    qed
  qed
qed

text \<open>The runs of one answer that gate a commit.\<close>

definition gating :: "ci_config \<Rightarrow> string \<Rightarrow> ci_run list \<Rightarrow> ci_run list" where
  "gating s commit listed = filter (\<lambda>r. ci_head_sha r = commit \<and>
     (cc_required_workflows s = [] \<or> ci_name r \<in> set (cc_required_workflows s) \<or>
      ci_workflow r \<in> set (cc_required_workflows s))) listed"

lemma gating_runs: "required_runs (for_commit listed commit) (cc_required_workflows s) = gating s commit listed"
  by (auto simp: required_runs_def for_commit_def gating_def intro!: filter_cong)

lemma poll_verdict_decided:
  assumes "poll_verdict s commit e listed = Some v" and "co_passed v = Some b"
  shows "gating s commit listed \<noteq> [] \<and> (b \<longleftrightarrow> (\<forall>r \<in> set (gating s commit listed). ci_passed r = Some True)) \<and>
    (\<forall>r \<in> set (gating s commit listed). ci_passed r \<noteq> None)"
proof -
  let ?g = "gating s commit listed"
  have g: "?g \<noteq> []" "filter (\<lambda>r. ci_passed r = None) ?g = []" "v = decide ?g"
    using assms by (auto simp: poll_verdict_def gating_runs Let_def split: if_splits)
  show ?thesis
  proof (cases "filter (\<lambda>r. ci_passed r \<noteq> Some True) ?g")
    case Nil
    with g assms(2) show ?thesis by (auto simp: decide_def filter_empty_conv)
  next
    case (Cons f fs)
    then have "f \<in> set ?g" "ci_passed f \<noteq> Some True" by (auto simp: filter_eq_Cons_iff)
    with Cons g assms(2) show ?thesis by (auto simp: decide_def filter_empty_conv)
  qed
qed

text \<open>
  Waiting for the pipeline ends.  With a poll interval of at least a second, which is what
  the configuration parser enforces, the loop returns whatever the platform answers, and no poll
  is made once the later of the two bounds has passed on an earlier one.
\<close>

theorem await_terminates:
  assumes "cc_poll_s s \<ge> 1"
  shows "\<exists>r n. await_from poll s commit 0 0 = Some (r, n) \<and> await_verdict poll commit s = Some r \<and>
    (n = 1 \<or> int (n - 2) * cc_poll_s s < max (cc_wait_s s) (cc_grace_s s))"
  using await_from_returns[OF assms, of poll commit 0 0] by (auto simp: await_verdict_def)

definition sample_ci :: ci_config where
  "sample_ci = \<lparr> cc_provider = ''github_actions'', cc_wait_s = 60, cc_poll_s = 15, cc_grace_s = 30,
     cc_required_workflows = [''CI'', ''Lint''] \<rparr>"

lemma await_terminates_witness:
  "\<exists>r n. await_from (\<lambda>k. Inr []) sample_ci ''abc'' 0 0 = Some (r, n) \<and> (n = 1 \<or> int (n - 2) * 15 < 60)"
  using await_terminates[of sample_ci "\<lambda>k. Inr []" "''abc''"] by (auto simp: sample_ci_def)

text \<open>
  A verdict is about the commit and nothing else.  A pass or a failure is only ever read from
  one answer of the platform that lists at least one gating run for exactly this commit, all of
  them finished; it is a pass exactly when every one of them passed.  Runs of other commits and
  of workflows that do not gate do not count.
\<close>

theorem verdict_is_about_the_commit:
  assumes "cc_poll_s s \<ge> 1" and "await_verdict poll commit s = Some (Inr v)" and "co_passed v = Some b"
  shows "\<exists>k listed. poll k = Inr listed \<and> gating s commit listed \<noteq> [] \<and>
    (\<forall>r \<in> set (gating s commit listed). ci_passed r \<noteq> None) \<and>
    (b \<longleftrightarrow> (\<forall>r \<in> set (gating s commit listed). ci_passed r = Some True))"
proof -
  obtain n where "await_from poll s commit 0 0 = Some (Inr v, n)"
    using assms(2) by (auto simp: await_verdict_def)
  from await_from_last[OF assms(1) this] obtain k listed e where
    "poll k = Inr listed" "poll_verdict s commit e listed = Some v" by blast
  with poll_verdict_decided[OF this(2) assms(3)] show ?thesis by blast
qed

lemma sample_verdict:
  "await_verdict (\<lambda>k. Inr [sample_ci_run ''abc'', sample_ci_run ''old'']) ''abc'' sample_ci
     = Some (Inr \<lparr> co_passed = Some True, co_detail = ''passed: CI'', co_url = Some ''u'',
                    co_runs = [sample_ci_run ''abc''] \<rparr>)"
  by (simp add: await_verdict_def await_from.simps poll_verdict_def required_runs_def for_commit_def
      sample_ci_def sample_ci_run_def decide_def)

lemma verdict_is_about_the_commit_witness:
  "list_all (\<lambda>r. ci_passed r = Some True)
     (gating sample_ci ''abc'' [sample_ci_run ''abc'', sample_ci_run ''old''])"
proof -
  have "cc_poll_s sample_ci \<ge> 1" by (simp add: sample_ci_def)
  from verdict_is_about_the_commit[OF this sample_verdict, of True] show ?thesis by (auto simp: list_all_iff)
qed

text \<open>
  A required workflow that never ran does not stop the verdict: with two workflows required,
  a passing run of the first alone, and no trace of the second, is a pass.
\<close>

theorem missing_required_workflow_passes:
  assumes "cc_required_workflows s = [a, b]" and "ci_name r = a" and "ci_passed r = Some True"
  shows "\<exists>v. await_verdict (\<lambda>k. Inr [r]) (ci_head_sha r) s = Some (Inr v) \<and> co_passed v = Some True"
  using assms
  by (simp add: await_verdict_def await_from.simps poll_verdict_def required_runs_def for_commit_def decide_def)

lemma missing_required_workflow_passes_witness:
  "\<exists>v. await_verdict (\<lambda>k. Inr [sample_ci_run ''abc'']) (ci_head_sha (sample_ci_run ''abc'')) sample_ci
     = Some (Inr v) \<and> co_passed v = Some True"
  by (rule missing_required_workflow_passes) (simp_all add: sample_ci_def sample_ci_run_def)

end
