(* ===== verification/Build_Test.thy ===== *)
theory Build_Test
  imports Ci Risk_Policy
begin

text \<open>
  engine/nodes/build_test.py: the sandbox run over the pinned base plus the proposed edits, and
  the pipeline's verdict that takes over from a passing one.  The node writes nothing outside;
  its result is \<open>None\<close> only where waiting for the pipeline never ends.
\<close>

section \<open>The tree that is graded\<close>

definition lay_edit :: "proposed_edit \<Rightarrow> (string \<times> string) list \<Rightarrow> (string \<times> string) list" where
  "lay_edit e files =
    (if pe_deleted e then dict_pop (pe_path e) files else dict_put (pe_path e) (pe_content e) files)"

definition graded_tree :: "(string \<times> string) list \<Rightarrow> proposed_edit list \<Rightarrow> (string \<times> string) list" where
  "graded_tree tree edits = fold lay_edit edits tree"

definition limits_of :: "sandbox_config \<Rightarrow> sandbox_limits" where
  "limits_of s = \<lparr> sl_memory_mb = sb_memory_mb s, sl_cpus = sb_cpus s, sl_pids = sb_pids s,
     sl_timeout_s = sb_timeout_s s, sl_tmp_mb = sb_tmp_mb s \<rparr>"

section \<open>The external anchor\<close>

definition anchor_to_ci :: "node_ctx \<Rightarrow> flow_state \<Rightarrow> flow_state res option" where
  "anchor_to_ci ctx st =
    (case ac_ci (nc_config ctx) of
       None \<Rightarrow> Some (Inr st)
     | Some ci \<Rightarrow>
         if \<not> truthy (fs_head_commit st) then
           Some (Inr (st\<lparr> fs_ci_detail :=
             Some ''nothing was pushed, so there is no commit for a pipeline to run on'' \<rparr>))
         else
           (case (ci_adapter ci, primary (nc_config ctx)) of
              (Inl e, _) \<Rightarrow> Some (Inl e)
            | (Inr _, Inl e) \<Rightarrow> Some (Inl e)
            | (Inr _, Inr repo) \<Rightarrow>
                map_option (\<lambda>r. and_then r (\<lambda>outcome.
                    let st1 = st\<lparr> fs_ci_detail := Some (co_detail outcome) \<rparr>
                    in case co_passed outcome of
                         None \<Rightarrow> Inr st1
                       | Some p \<Rightarrow> Inr (st1\<lparr> fs_ci_result := Some \<lparr> cr_exit_code = (if p then 0 else 1),
                            cr_source = SourceCI, cr_url = co_url outcome, cr_duration_ms = 0 \<rparr> \<rparr>)))
                  (await_verdict (\<lambda>k. nc_ci_runs ctx k (repo_config_ref repo) (the (fs_head_commit st)))
                     (the (fs_head_commit st)) ci)))"

section \<open>The node\<close>

definition nothing_executed :: "node_ctx \<Rightarrow> flow_state \<Rightarrow> flow_state" where
  "nothing_executed ctx st =
    (let r = \<lparr> cr_exit_code = 0, cr_source = SourceSandbox, cr_url = None, cr_duration_ms = 0 \<rparr>
     in st\<lparr> fs_sandbox_result := Some r, fs_ci_result := Some r,
            fs_notes := Some (compose
              (''Nothing was executed '' @ [em_dash] @ '' there was nothing executable'')
              [Some (fields_note ''Why no verdict was produced''
                 [(''Proposed edits'', VInt (int (length (fs_proposed_edits st)))),
                  (''Sandbox'', VStr (if nc_sandbox ctx \<noteq> None then ''configured'' else ''none configured'')),
                  (''Recorded as'', VStr ''exit 0, source sandbox''),
                  (''Meaning'', VStr ''no tests ran; this is not evidence that any test passed'')])]) \<rparr>)"

definition anchored :: "flow_state \<Rightarrow> bool" where
  "anchored st = (case fs_ci_result st of None \<Rightarrow> False | Some r \<Rightarrow> is_external_anchor r)"

definition build_notes :: "app_config \<Rightarrow> exec_result \<Rightarrow> nat \<Rightarrow> flow_state \<Rightarrow> node_notes" where
  "build_notes c result files st =
    compose (''Tests exited '' @ string_of_int (ex_exit_code result) @ '' in the sandbox '' @ [em_dash] @ '' ''
        @ (if anchored st then ''anchored against the project's own pipeline''
           else ''not anchored against an external pipeline''))
     [Some (fields_note (''Sandbox run '' @ [em_dash] @ '' ours, and therefore not an independent witness'')
        [(''Command'', VStr (py_join '' '' (sb_test_command (ac_sandbox c)))),
         (''Image'', VStr (sb_toolchain_image (ac_sandbox c))),
         (''Exit code'', VInt (ex_exit_code result)),
         (''Duration'', VStr (string_of_int (ex_duration_ms result) @ '' ms'')),
         (''Limits hit'', strs_or (ex_limits_hit result) ''none''),
         (''Files materialised'', VInt (int files)),
         (''Isolation'', VStr (case fs_sandbox_isolation st of None \<Rightarrow> ''not probed''
            | Some i \<Rightarrow> isolation_str i)),
         (''Isolation gaps'', strs_or (fs_sandbox_gaps st) ''none'')]),
      Some (fields_note (''Invariant 3 '' @ [em_dash] @ '' was the verdict read from an external system of record?'')
        [(''CI section declared'', VStr (if ac_ci c \<noteq> None then ''yes'' else ''no'')),
         (''Authoritative verdict'', VStr (case fs_ci_result st of None \<Rightarrow> ''none''
            | Some r \<Rightarrow> source_str (cr_source r))),
         (''Independent anchor'', VStr (if anchored st then ''yes''
            else ''no '' @ [em_dash] @ '' the sandbox verdict stands, and it is labelled as such'')),
         (''Pipeline URL'', opt_str (case fs_ci_result st of None \<Rightarrow> None | Some r \<Rightarrow> cr_url r)),
         (''Detail'', opt_str (fs_ci_detail st))]),
      (if ex_stdout result \<noteq> [] then Some (text_note (''Test output '' @ [em_dash] @ '' stdout'') (ex_stdout result) False True) else None),
      (if ex_stderr result \<noteq> [] then Some (text_note (''Test output '' @ [em_dash] @ '' stderr'') (ex_stderr result) False True) else None)]"

definition note_isolation :: "exec_result \<Rightarrow> flow_state \<Rightarrow> flow_state" where
  "note_isolation result st =
    (case ex_enforced result of
       None \<Rightarrow> st
     | Some c \<Rightarrow> st\<lparr> fs_sandbox_isolation := Some (if fully_enforced c then Enforced else Degraded),
                   fs_sandbox_gaps := isolation_gaps c \<rparr>)"

definition sandbox_verdict :: "exec_result \<Rightarrow> ci_result" where
  "sandbox_verdict result = \<lparr> cr_exit_code = ex_exit_code result, cr_source = SourceSandbox,
     cr_url = None, cr_duration_ms = ex_duration_ms result \<rparr>"

text \<open>What follows the execution in the sandbox.\<close>

definition after_exec :: "node_ctx \<Rightarrow> nat \<Rightarrow> exec_result \<Rightarrow> flow_state \<Rightarrow> flow_state res option" where
  "after_exec ctx files result st =
    (let st1 = note_isolation result st;
         st2 = st1\<lparr> fs_sandbox_result := Some (sandbox_verdict result),
                    fs_ci_result := Some (sandbox_verdict result) \<rparr>
     in map_option (\<lambda>r. and_then r (\<lambda>st3.
          Inr (st3\<lparr> fs_notes := Some (build_notes (nc_config ctx) result files st3) \<rparr>)))
          (if ex_exit_code result = 0 then anchor_to_ci ctx st2 else Some (Inr st2)))"

definition build_test :: "node_ctx \<Rightarrow> flow_state \<Rightarrow> flow_state res option" where
  "build_test ctx st =
    (case (case fs_diff st of None \<Rightarrow> Inr () | Some d \<Rightarrow> assert_not_protected (diff_paths d)) of
       Inl e \<Rightarrow> Some (Inl e)
     | Inr _ \<Rightarrow>
         (case nc_sandbox ctx of
            None \<Rightarrow> Some (Inr (nothing_executed ctx st))
          | Some exec_in \<Rightarrow>
              if fs_proposed_edits st = [] then Some (Inr (nothing_executed ctx st))
              else if \<not> truthy (fs_base_commit st) then
                Some (Inl (SandboxInfrastructureError (
                  ''build_test reached without a pinned base commit; the Coder sets it and every ''
                  @ ''grading run must execute against the tree the change was written for'')))
              else
                (case and_then (primary (nc_config ctx)) (\<lambda>repo. and_then (scm_adapter repo) (\<lambda>_.
                        nc_read_tree ctx (repo_config_ref repo) (the (fs_base_commit st)))) of
                   Inl e \<Rightarrow> Some (Inl e)
                 | Inr tree \<Rightarrow>
                     let files = graded_tree tree (fs_proposed_edits st); s = ac_sandbox (nc_config ctx)
                     in case exec_in files (sb_toolchain_image s) (sb_test_command s) (limits_of s) of
                          Inl e \<Rightarrow> Some (Inl e)
                        | Inr result \<Rightarrow> after_exec ctx (length files) result st)))"

section \<open>Properties\<close>

text \<open>
  What is graded is the pinned base with the edits laid over it, in order: each edit sets its
  path to its content, or removes the path when it is a deletion, and every other path is what
  the base commit holds.
\<close>

theorem graded_tree_is_base_plus_edits:
  "map_of (graded_tree tree edits) =
     fold (\<lambda>e m. m(pe_path e := (if pe_deleted e then None else Some (pe_content e)))) edits (map_of tree)"
proof (induction edits arbitrary: tree)
  case Nil
  then show ?case by (simp add: graded_tree_def)
next
  case (Cons e es)
  have "graded_tree tree (e # es) = graded_tree (lay_edit e tree) es"
    by (simp add: graded_tree_def)
  then show ?case
    by (simp add: Cons.IH lay_edit_def map_of_dict_pop map_of_dict_put)
qed

lemma anchor_to_ci_Inr:
  assumes "anchor_to_ci ctx st = Some (Inr st')"
  shows "fs_sandbox_result st' = fs_sandbox_result st \<and>
    (fs_ci_result st' = fs_ci_result st \<or>
     (\<exists>ci repo v p r. ac_ci (nc_config ctx) = Some ci \<and> primary (nc_config ctx) = Inr repo \<and>
        await_verdict (\<lambda>k. nc_ci_runs ctx k (repo_config_ref repo) (the (fs_head_commit st)))
          (the (fs_head_commit st)) ci = Some (Inr v) \<and> co_passed v = Some p \<and>
        fs_ci_result st' = Some r \<and> cr_source r = SourceCI \<and> cr_exit_code r = (if p then 0 else 1)))"
proof (cases "ac_ci (nc_config ctx)")
  case None
  with assms show ?thesis by (simp add: anchor_to_ci_def)
next
  case (Some ci)
  show ?thesis
  proof (cases "truthy (fs_head_commit st)")
    case False
    with assms Some show ?thesis by (auto simp: anchor_to_ci_def)
  next
    case True
    obtain repo where repo: "primary (nc_config ctx) = Inr repo"
      using assms Some True by (cases "primary (nc_config ctx)") (auto simp: anchor_to_ci_def split: sum.splits)
    obtain u where u: "ci_adapter ci = Inr u"
      using assms Some True by (cases "ci_adapter ci") (auto simp: anchor_to_ci_def)
    obtain v where v: "await_verdict (\<lambda>k. nc_ci_runs ctx k (repo_config_ref repo) (the (fs_head_commit st)))
          (the (fs_head_commit st)) ci = Some (Inr v)"
      using assms Some True repo u by (auto simp: anchor_to_ci_def and_then_Inr)
    show ?thesis
      by (cases "co_passed v") (use assms Some True repo u v in \<open>auto simp: anchor_to_ci_def Let_def\<close>)
  qed
qed

text \<open>
  C28. Which grader decided is on record, and the stronger one cannot rescue the weaker.  A state
  Build \& Test returns keeps the sandbox's own verdict beside the authoritative one; the
  authoritative verdict is either that same sandbox verdict, labelled as such, or one read from
  the project's pipeline for the commit that was pushed, and the latter only when the sandbox
  run had passed.
\<close>

theorem build_test_verdict:
  assumes "build_test ctx st = Some (Inr st')"
  shows "\<exists>s r. fs_sandbox_result st' = Some s \<and> cr_source s = SourceSandbox \<and> fs_ci_result st' = Some r \<and>
    (r = s \<or>
     (cr_source r = SourceCI \<and> cr_exit_code s = 0 \<and>
      (\<exists>ci repo v. ac_ci (nc_config ctx) = Some ci \<and> primary (nc_config ctx) = Inr repo \<and>
        await_verdict (\<lambda>k. nc_ci_runs ctx k (repo_config_ref repo) (the (fs_head_commit st)))
          (the (fs_head_commit st)) ci = Some (Inr v) \<and>
        co_passed v = Some (cr_exit_code r = 0))))"
proof -
  have "st' = nothing_executed ctx st \<or>
    (\<exists>n result. after_exec ctx n result st = Some (Inr st'))"
    using assms by (auto simp: build_test_def Let_def split: sum.splits option.splits if_splits)
  then show ?thesis
  proof (elim disjE exE)
    assume "st' = nothing_executed ctx st"
    then show ?thesis by (simp add: nothing_executed_def Let_def)
  next
    fix n result assume a: "after_exec ctx n result st = Some (Inr st')"
    define st2 where "st2 = (note_isolation result st)\<lparr> fs_sandbox_result := Some (sandbox_verdict result),
      fs_ci_result := Some (sandbox_verdict result) \<rparr>"
    have st2: "fs_sandbox_result st2 = Some (sandbox_verdict result)"
      "fs_ci_result st2 = Some (sandbox_verdict result)" "fs_head_commit st2 = fs_head_commit st"
      by (simp_all add: st2_def note_isolation_def split: option.split)
    obtain st3 where st3: "(if ex_exit_code result = 0 then anchor_to_ci ctx st2 else Some (Inr st2)) = Some (Inr st3)"
      and st': "fs_sandbox_result st' = fs_sandbox_result st3" "fs_ci_result st' = fs_ci_result st3"
      using a unfolding after_exec_def Let_def st2_def[symmetric] by (auto simp: and_then_Inr)
    show ?thesis
    proof (cases "ex_exit_code result = 0")
      case False
      with st3 st' st2 show ?thesis by (simp add: sandbox_verdict_def)
    next
      case True
      with st3 have "anchor_to_ci ctx st2 = Some (Inr st3)" by simp
      from anchor_to_ci_Inr[OF this] st2 st' True show ?thesis
        by (auto simp: sandbox_verdict_def split: if_splits)
    qed
  qed
qed

lemma build_test_verdict_witness:
  "\<exists>st' s. build_test (sample_ctx\<lparr> nc_sandbox := None \<rparr>) sample_state = Some (Inr st') \<and>
     fs_sandbox_result st' = Some s \<and> cr_source s = SourceSandbox"
proof -
  have "violations DEFAULT_PROTECTED_PATHS [''a.py''] = []" by code_simp
  then have "build_test (sample_ctx\<lparr> nc_sandbox := None \<rparr>) sample_state
      = Some (Inr (nothing_executed (sample_ctx\<lparr> nc_sandbox := None \<rparr>) sample_state))"
    by (simp add: build_test_def sample_state_def diff_paths_def assert_not_protected_def)
  from build_test_verdict[OF this] this show ?thesis by blast
qed

end
