(* ===== verification/Json_Values.thy ===== *)
theory Json_Values
  imports Flow_Types "HOL-Library.Multiset"
begin

text \<open>
  JSON values as Python treats them: truth, \<open>.get\<close>, \<open>str\<close>, and \<open>json.dumps\<close>.  The canonical text,
  with the keys of every object sorted, is shown to determine the value.
\<close>

section \<open>Truth and access\<close>

fun json_truthy :: "json \<Rightarrow> bool" where
  "json_truthy JNull = False"
| "json_truthy (JBool b) = b"
| "json_truthy (JInt i) = (i \<noteq> 0)"
| "json_truthy (JStr s) = (s \<noteq> [])"
| "json_truthy (JList xs) = (xs \<noteq> [])"
| "json_truthy (JObj kvs) = (kvs \<noteq> [])"

definition json_or :: "json \<Rightarrow> json \<Rightarrow> json" where
  "json_or a b = (if json_truthy a then a else b)"

text \<open>\<open>d.get(key)\<close> of a dictionary, \<open>None\<close> where it is absent.\<close>

definition json_get :: "json \<Rightarrow> string \<Rightarrow> json" where
  "json_get v key = (case v of JObj kvs \<Rightarrow> (case map_of kvs key of Some x \<Rightarrow> x | None \<Rightarrow> JNull) | _ \<Rightarrow> JNull)"

text \<open>Iterating a list, and nothing for the empty value of \<open>... or []\<close>.\<close>

definition json_items :: "json \<Rightarrow> json list" where
  "json_items v = (case v of JList xs \<Rightarrow> xs | _ \<Rightarrow> [])"

section \<open>Text\<close>

text \<open>
  \<open>str(value)\<close> of a parsed JSON value without fractions: a string is itself, everything else
  prints as its \<open>repr\<close>.
\<close>

fun json_repr :: "json \<Rightarrow> string" and json_reprs :: "json list \<Rightarrow> string list"
  and item_reprs :: "(string \<times> json) list \<Rightarrow> string list" where
  "json_repr JNull = ''None''"
| "json_repr (JBool b) = (if b then ''True'' else ''False'')"
| "json_repr (JInt i) = string_of_int i"
| "json_repr (JStr s) = repr_str s"
| "json_repr (JList xs) = ''['' @ py_join '', '' (json_reprs xs) @ '']''"
| "json_repr (JObj kvs) = ''{'' @ py_join '', '' (item_reprs kvs) @ ''}''"
| "json_reprs [] = []"
| "json_reprs (x # xs) = json_repr x # json_reprs xs"
| "item_reprs [] = []"
| "item_reprs ((k, v) # kvs) = (repr_str k @ '': '' @ json_repr v) # item_reprs kvs"

fun json_str :: "json \<Rightarrow> string" where
  "json_str (JStr s) = s"
| "json_str v = json_repr v"

text \<open>\<open>str(d.get(key, ""))\<close>.\<close>

definition get_str :: "(string \<times> json) list \<Rightarrow> string \<Rightarrow> string" where
  "get_str kvs k = (case map_of kvs k of None \<Rightarrow> [] | Some v \<Rightarrow> json_str v)"

text \<open>What \<open>for x in value\<close> goes through: the elements, the characters, or the keys.\<close>

definition json_iter :: "json \<Rightarrow> json list res" where
  "json_iter v =
    (case v of
       JList xs \<Rightarrow> Inr xs
     | JStr s \<Rightarrow> Inr (map (\<lambda>c. JStr [c]) s)
     | JObj kvs \<Rightarrow> Inr (map (\<lambda>(k, x). JStr k) kvs)
     | JInt i \<Rightarrow> Inl (OtherError ''TypeError'' '''int' object is not iterable'')
     | JBool b \<Rightarrow> Inl (OtherError ''TypeError'' '''bool' object is not iterable'')
     | JNull \<Rightarrow> Inl (OtherError ''TypeError'' '''NoneType' object is not iterable''))"

text \<open>\<open>json.dumps\<close> of a string; everything outside the printable ASCII range is escaped.\<close>

definition json_char :: "char \<Rightarrow> string" where
  "json_char c =
    (if c = CHR 0x22 then [CHR 0x5C, CHR 0x22]
     else if c = CHR 0x5C then [CHR 0x5C, CHR 0x5C]
     else if c = CHR 0x0A then [CHR 0x5C, CHR ''n'']
     else if c = CHR 0x0D then [CHR 0x5C, CHR ''r'']
     else if c = CHR 0x09 then [CHR 0x5C, CHR ''t'']
     else if c = CHR 0x08 then [CHR 0x5C, CHR ''b'']
     else if c = CHR 0x0C then [CHR 0x5C, CHR ''f'']
     else if c = em_dash then CHR 0x5C # ''u2014''
     else let n = (of_char c :: nat) in
       if n < 32 \<or> 126 < n then CHR 0x5C # ''u00'' @ [hex_digit (n div 16), hex_digit (n mod 16)] else [c])"

definition json_quote :: "string \<Rightarrow> string" where
  "json_quote s = [CHR 0x22] @ concat (map json_char s) @ [CHR 0x22]"

text \<open>Without white space, as \<open>separators=(",", ":")\<close> asks for.\<close>

fun json_text :: "json \<Rightarrow> string" and json_texts :: "json list \<Rightarrow> string list"
  and item_texts :: "(string \<times> json) list \<Rightarrow> string list" where
  "json_text JNull = ''null''"
| "json_text (JBool b) = (if b then ''true'' else ''false'')"
| "json_text (JInt i) = string_of_int i"
| "json_text (JStr s) = json_quote s"
| "json_text (JList xs) = ''['' @ py_join '','' (json_texts xs) @ '']''"
| "json_text (JObj kvs) = ''{'' @ py_join '','' (item_texts kvs) @ ''}''"
| "json_texts [] = []"
| "json_texts (x # xs) = json_text x # json_texts xs"
| "item_texts [] = []"
| "item_texts ((k, v) # kvs) = (json_quote k @ '':'' @ json_text v) # item_texts kvs"

fun insert_item :: "string \<times> json \<Rightarrow> (string \<times> json) list \<Rightarrow> (string \<times> json) list" where
  "insert_item x [] = [x]"
| "insert_item x (y # ys) = (if code_le (fst x) (fst y) then x # y # ys else y # insert_item x ys)"

fun sort_keys :: "json \<Rightarrow> json" and sort_list :: "json list \<Rightarrow> json list"
  and sort_items :: "(string \<times> json) list \<Rightarrow> (string \<times> json) list" where
  "sort_keys (JList xs) = JList (sort_list xs)"
| "sort_keys (JObj kvs) = JObj (sort_items kvs)"
| "sort_keys JNull = JNull"
| "sort_keys (JBool b) = JBool b"
| "sort_keys (JInt i) = JInt i"
| "sort_keys (JStr s) = JStr s"
| "sort_list [] = []"
| "sort_list (x # xs) = sort_keys x # sort_list xs"
| "sort_items [] = []"
| "sort_items ((k, v) # kvs) = insert_item (k, sort_keys v) (sort_items kvs)"

definition canonical :: "json \<Rightarrow> string" where
  "canonical v = json_text (sort_keys v)"

section \<open>The text determines the value\<close>

definition hex_value :: "char \<Rightarrow> nat" where
  "hex_value c = (let n = (of_char c :: nat) in if n < 58 then n - 48 else n - 87)"

lemma hex_value_digit: "k < 16 \<Longrightarrow> hex_value (hex_digit k) = k"
  by (simp add: hex_value_def hex_digit_def Let_def)

text \<open>Reading one character of a quoted string back.\<close>

fun read_char :: "string \<Rightarrow> (char \<times> string) option" where
  "read_char [] = None"
| "read_char (c # cs) =
    (if c \<noteq> CHR 0x5C then Some (c, cs)
     else case cs of
       t # ts \<Rightarrow>
         if t = CHR ''n'' then Some (CHR 0x0A, ts) else if t = CHR ''r'' then Some (CHR 0x0D, ts)
         else if t = CHR ''t'' then Some (CHR 0x09, ts) else if t = CHR ''b'' then Some (CHR 0x08, ts)
         else if t = CHR ''f'' then Some (CHR 0x0C, ts)
         else if t = CHR ''u'' then
           (case ts of a # b # d # e # us \<Rightarrow>
              if a = CHR ''2'' then Some (em_dash, us)
              else Some (char_of (16 * hex_value d + hex_value e), us)
            | _ \<Rightarrow> None)
         else Some (t, ts)
     | [] \<Rightarrow> None)"

lemma read_json_char: "read_char (json_char c @ u) = Some (c, u)"
proof -
  have n: "(of_char c :: nat) div 16 < 16" "(of_char c :: nat) mod 16 < 16" by (simp_all add: less_mult_imp_div_less)
  show ?thesis
    by (auto simp: json_char_def Let_def hex_value_digit n)
qed

lemma json_char_not_quote: "json_char c @ u \<noteq> CHR 0x22 # v"
  by (auto simp: json_char_def Let_def)

lemma json_chars_prefix:
  "concat (map json_char s) @ CHR 0x22 # r = concat (map json_char s') @ CHR 0x22 # r' \<Longrightarrow> s = s' \<and> r = r'"
proof (induction s arbitrary: s')
  case Nil
  then show ?case
    by (cases s') (use json_char_not_quote in \<open>auto, metis\<close>)
next
  case (Cons c cs)
  then obtain c' cs' where s': "s' = c' # cs'"
    using json_char_not_quote[of c] by (cases s') auto
  have e: "json_char c @ (concat (map json_char cs) @ CHR 0x22 # r) =
      json_char c' @ (concat (map json_char cs') @ CHR 0x22 # r')"
    using Cons.prems by (simp add: s')
  then have "Some (c, concat (map json_char cs) @ CHR 0x22 # r) = Some (c', concat (map json_char cs') @ CHR 0x22 # r')"
    by (metis read_json_char)
  then show ?case using Cons.IH by (simp add: s')
qed

lemma json_quote_prefix: "json_quote s @ r = json_quote s' @ r' \<Longrightarrow> s = s' \<and> r = r'"
  by (rule json_chars_prefix) (simp add: json_quote_def)

definition num_char :: "char \<Rightarrow> bool" where
  "num_char c \<longleftrightarrow> c = CHR ''-'' \<or> (48 \<le> (of_char c :: nat) \<and> (of_char c :: nat) \<le> 57)"

lemma num_digit_char: "d < 10 \<Longrightarrow> num_char (digit_char d)"
  by (simp add: num_char_def)

lemma num_string_of_nat: "list_all num_char (string_of_nat n)"
proof (induction n rule: string_of_nat.induct)
  case (1 n)
  then show ?case
    by (subst string_of_nat.simps) (simp add: num_digit_char del: digit_char.simps)
qed

lemma num_string_of_int: "list_all num_char (string_of_int i)"
  using num_string_of_nat by (simp add: string_of_int_def) (simp add: num_char_def)

lemma string_of_int_nonempty [simp]: "string_of_int i \<noteq> []"
  by (simp add: string_of_int_def)

lemma num_hd_string_of_int: "num_char (hd (string_of_int i))"
  using num_string_of_int[of i] by (cases "string_of_int i") simp_all

text \<open>What may follow a value in its text: nothing, or a character no number contains.\<close>

definition ends_value :: "string \<Rightarrow> bool" where
  "ends_value r \<longleftrightarrow> (case r of [] \<Rightarrow> True | c # cs \<Rightarrow> \<not> num_char c)"

lemma takeWhile_num: "list_all P s \<Longrightarrow> (case r of [] \<Rightarrow> True | c # cs \<Rightarrow> \<not> P c) \<Longrightarrow> takeWhile P (s @ r) = s"
  by (induction s) (auto split: list.splits)

lemma string_of_int_prefix:
  assumes "string_of_int i @ r = string_of_int i' @ r'" "ends_value r" "ends_value r'"
  shows "i = i' \<and> r = r'"
proof -
  have "string_of_int i = takeWhile num_char (string_of_int i @ r)"
    "string_of_int i' = takeWhile num_char (string_of_int i' @ r')"
    using assms(2,3) by (simp_all add: takeWhile_num num_string_of_int ends_value_def)
  then have "string_of_int i = string_of_int i'" using assms(1) by simp
  then show ?thesis using assms(1) by (simp add: string_of_int_eq)
qed

lemma join_tail: "ts \<noteq> [] \<Longrightarrow> concat (map ((@) sep) ts) = sep @ py_join sep ts"
  by (induction sep ts rule: py_join.induct) auto

definition list_tail :: "json list \<Rightarrow> string" where
  "list_tail xs = concat (map ((@) '','') (json_texts xs)) @ '']''"

definition item_tail :: "(string \<times> json) list \<Rightarrow> string" where
  "item_tail kvs = concat (map ((@) '','') (item_texts kvs)) @ ''}''"

lemma json_text_list:
  "json_text (JList xs) = ''['' @ (if xs = [] then '']'' else drop 1 (list_tail xs))"
  using join_tail[of "json_texts xs" "'',''"] by (cases xs) (simp_all add: list_tail_def)

lemma json_text_obj:
  "json_text (JObj kvs) = ''{'' @ (if kvs = [] then ''}'' else drop 1 (item_tail kvs))"
  using join_tail[of "item_texts kvs" "'',''"] by (cases kvs) (auto simp add: item_tail_def)

lemma list_tail_simps:
  "list_tail [] = '']''" "list_tail (x # xs) = '','' @ json_text x @ list_tail xs"
  "item_tail [] = ''}''" "item_tail ((k, v) # kvs) = '','' @ json_quote k @ '':'' @ json_text v @ item_tail kvs"
  by (simp_all add: list_tail_def item_tail_def)

lemma tail_ends [simp]: "ends_value (list_tail xs @ r)" "ends_value (item_tail kvs @ r)"
  by (cases xs; simp add: list_tail_simps ends_value_def num_char_def)
    (cases kvs; auto simp add: list_tail_simps ends_value_def num_char_def)

text \<open>The first character tells the constructors apart.\<close>

definition value_head :: "json \<Rightarrow> char \<Rightarrow> bool" where
  "value_head v c \<longleftrightarrow> (case v of JNull \<Rightarrow> c = CHR ''n'' | JBool b \<Rightarrow> c = (if b then CHR ''t'' else CHR ''f'')
     | JInt i \<Rightarrow> num_char c | JStr s \<Rightarrow> c = CHR 0x22 | JList xs \<Rightarrow> c = CHR ''['' | JObj kvs \<Rightarrow> c = CHR 0x7B)"

lemma json_text_head: "\<exists>c cs. json_text v = c # cs \<and> value_head v c"
proof (cases v)
  case (JInt i)
  then show ?thesis
    using num_hd_string_of_int[of i] by (cases "string_of_int i") (simp_all add: value_head_def)
qed (simp_all add: value_head_def json_quote_def)

lemma heads_differ:
  assumes "json_text v @ r = json_text v' @ r'"
  shows "\<exists>c. value_head v c \<and> value_head v' c"
  using json_text_head[of v] json_text_head[of v'] assms by auto

lemma json_text_nonclose: "json_text v @ r \<noteq> '']'' @ r'" "json_quote k @ r \<noteq> ''}'' @ r'"
proof -
  obtain c cs where c: "json_text v = c # cs" "value_head v c" using json_text_head by blast
  have "c \<noteq> CHR '']''"
    using c(2) by (cases v) (auto simp: value_head_def num_char_def split: if_splits)
  then show "json_text v @ r \<noteq> '']'' @ r'" by (simp add: c(1))
qed (simp add: json_quote_def)

lemma text_determines:
  "json_text v @ r = json_text v' @ r' \<Longrightarrow> ends_value r \<Longrightarrow> ends_value r' \<Longrightarrow> v = v' \<and> r = r'"
  "list_tail xs @ r = list_tail xs' @ r' \<Longrightarrow> xs = xs' \<and> r = r'"
  "item_tail kvs @ r = item_tail kvs' @ r' \<Longrightarrow> kvs = kvs' \<and> r = r'"
proof (induction v and xs and kvs arbitrary: v' r r' and xs' r r' and kvs' r r'
    rule: json_text_json_texts_item_texts.induct)
  case 1
  then show ?case using heads_differ[OF 1(1)]
    by (cases v') (auto simp: value_head_def num_char_def split: if_splits)
next
  case (2 b)
  then show ?case using heads_differ[OF 2(1)]
    by (cases v') (auto simp: value_head_def num_char_def split: if_splits)
next
  case (3 i)
  then show ?case using heads_differ[OF 3(1)] string_of_int_prefix[of i r _ r']
    by (cases v') (auto simp: value_head_def num_char_def split: if_splits)
next
  case (4 s)
  then show ?case using heads_differ[OF 4(1)] json_quote_prefix[of s r _ r']
    by (cases v') (auto simp: value_head_def num_char_def split: if_splits)
next
  case (5 xs)
  obtain xs' where v': "v' = JList xs'"
    using heads_differ[OF 5(2)] by (cases v') (auto simp: value_head_def num_char_def split: if_splits)
  have e: "(if xs = [] then '']'' else drop 1 (list_tail xs)) @ r =
      (if xs' = [] then '']'' else drop 1 (list_tail xs')) @ r'"
    using 5(2) by (simp add: v' json_text_list del: json_text.simps)
  show ?case
  proof (cases "xs = [] \<or> xs' = []")
    case True
    then show ?thesis
      using e json_text_nonclose(1) by (cases xs; cases xs') (auto simp: v' list_tail_simps dest: sym)
  next
    case False
    then have "list_tail xs @ r = list_tail xs' @ r'"
      using e by (cases xs; cases xs') (auto simp: list_tail_simps)
    then show ?thesis using 5(1) by (simp add: v')
  qed
next
  case (6 kvs)
  obtain kvs' where v': "v' = JObj kvs'"
    using heads_differ[OF 6(2)] by (cases v') (auto simp: value_head_def num_char_def split: if_splits)
  have e: "(if kvs = [] then ''}'' else drop 1 (item_tail kvs)) @ r =
      (if kvs' = [] then ''}'' else drop 1 (item_tail kvs')) @ r'"
    using 6(2) by (simp add: v' json_text_obj del: json_text.simps)
  show ?case
  proof (cases "kvs = [] \<or> kvs' = []")
    case True
    then show ?thesis
      using e json_text_nonclose(2) by (cases kvs; cases kvs') (auto simp: v' list_tail_simps dest: sym)
  next
    case False
    then have "item_tail kvs @ r = item_tail kvs' @ r'"
      using e by (cases kvs; cases kvs') (auto simp: list_tail_simps)
    then show ?thesis using 6(1) by (simp add: v')
  qed
next
  case 7
  then show ?case by (cases xs') (simp_all add: list_tail_simps)
next
  case (8 x xs)
  obtain x' xs'' where x': "xs' = x' # xs''"
    using 8(3) by (cases xs') (simp_all add: list_tail_simps)
  have t: "json_text x @ (list_tail xs @ r) = json_text x' @ (list_tail xs'' @ r')"
    using 8(3) by (simp add: x' list_tail_simps)
  from 8(1)[OF t] have "x = x'" "list_tail xs @ r = list_tail xs'' @ r'" by simp_all
  with 8(2) show ?case by (simp add: x')
next
  case 9
  then have "kvs' = []"
    by (cases kvs'; cases "hd kvs'") (simp_all add: list_tail_simps)
  with 9 show ?case by (simp add: list_tail_simps)
next
  case (10 k v kvs)
  obtain k' v' kvs'' where k': "kvs' = (k', v') # kvs''"
    using 10(3) by (cases kvs') (auto simp: list_tail_simps)
  have q: "json_quote k @ ('':'' @ json_text v @ item_tail kvs @ r) =
      json_quote k' @ ('':'' @ json_text v' @ item_tail kvs'' @ r')"
    using 10(3) by (simp add: k' list_tail_simps)
  from json_quote_prefix[OF q] have k: "k = k'"
    and t: "json_text v @ (item_tail kvs @ r) = json_text v' @ (item_tail kvs'' @ r')" by simp_all
  from 10(1)[OF t] have "v = v'" "item_tail kvs @ r = item_tail kvs'' @ r'" by simp_all
  with 10(2) show ?case by (simp add: k k')
qed

lemma canonical_eq: "canonical v = canonical v' \<longleftrightarrow> sort_keys v = sort_keys v'"
  using text_determines(1)[of "sort_keys v" "[]" "sort_keys v'" "[]"]
  by (auto simp: canonical_def ends_value_def)

text \<open>
  C33. The text a document is hashed as determines the document up to the order of its keys: two
  values with the same canonical text are equal once their keys are sorted.
\<close>

theorem canonical_determines_value: "canonical v = canonical v' \<longleftrightarrow> sort_keys v = sort_keys v'"
  by (rule canonical_eq)

section \<open>The order of keys does not matter\<close>

lemma insert_item_commute:
  "fst x \<noteq> fst y \<Longrightarrow> insert_item x (insert_item y l) = insert_item y (insert_item x l)"
proof (induction l)
  case Nil
  then show ?case using code_le_total[of "fst x" "fst y"] code_le_antisym[of "fst x" "fst y"] by auto
next
  case (Cons z zs)
  then show ?case
    using code_le_total[of "fst x" "fst y"] code_le_antisym[of "fst x" "fst y"]
      code_le_trans[of "fst x" "fst y" "fst z"] code_le_trans[of "fst y" "fst x" "fst z"]
    by auto
qed

lemma sort_items_move:
  "distinct (map fst (as @ (k, v) # bs)) \<Longrightarrow>
   sort_items (as @ (k, v) # bs) = insert_item (k, sort_keys v) (sort_items (as @ bs))"
proof (induction as)
  case (Cons a as)
  obtain k' v' where a: "a = (k', v')" by (cases a)
  then show ?case using Cons insert_item_commute[of "(k', sort_keys v')" "(k, sort_keys v)"] by auto
qed simp

lemma sort_items_perm:
  "mset kvs = mset kvs' \<Longrightarrow> distinct (map fst kvs) \<Longrightarrow> sort_items kvs = sort_items kvs'"
proof (induction kvs arbitrary: kvs')
  case (Cons x kvs)
  obtain k v where x: "x = (k, v)" by (cases x)
  have "x \<in> set kvs'" using Cons.prems(1) by (metis list.set_intros(1) mset_eq_setD)
  then obtain as bs where kvs': "kvs' = as @ x # bs" by (metis split_list)
  have m: "mset kvs = mset (as @ bs)" using Cons.prems(1) by (simp add: kvs')
  have "mset (map fst kvs') = mset (map fst (x # kvs))" using arg_cong[OF Cons.prems(1), of "image_mset fst"] by simp
  then have "distinct (map fst kvs')" using Cons.prems(2) mset_eq_imp_distinct_iff by blast
  then have "sort_items kvs' = insert_item (k, sort_keys v) (sort_items (as @ bs))"
    using sort_items_move[of as k v bs] by (simp add: kvs' x)
  then show ?case using Cons.IH[OF m] Cons.prems(2) by (simp add: x)
qed simp

text \<open>
  Writing the keys of an object in another order leaves the canonical text, and with it the
  digest, as it is.
\<close>

theorem canonical_ignores_key_order:
  assumes "mset kvs = mset kvs'" "distinct (map fst kvs)"
  shows "canonical (JObj kvs) = canonical (JObj kvs')"
  using sort_items_perm[OF assms] by (simp add: canonical_def)

lemma canonical_ignores_key_order_witness:
  "canonical (JObj [(''b'', JInt 1), (''a'', JNull)]) = canonical (JObj [(''a'', JNull), (''b'', JInt 1)])"
  by (rule canonical_ignores_key_order) simp_all

end
