(* ===== verification/Repo_Context.thy ===== *)
theory Repo_Context
  imports Risk_Policy
begin

text \<open>
  engine/nodes/repo_context.py: which files of a repository are put in front of a model.  A tree
  is a list of paths and contents with distinct paths, contents being text (every byte one ASCII
  character).  \<open>imports_of\<close> is the source's regular expression written as the scanner it
  describes: at each position the keyword form is tried first, then, at the start of a line, the
  Python form, and the scan goes on behind a match.
\<close>

type_synonym tree = "(string \<times> string) list"

section \<open>Names\<close>

definition GENERATED_FILES :: "string list" where
  "GENERATED_FILES = [''package-lock.json'', ''pnpm-lock.yaml'', ''yarn.lock'', ''bun.lockb'',
     ''uv.lock'', ''poetry.lock'', ''Cargo.lock'', ''composer.lock'', ''Gemfile.lock'', ''go.sum'']"

text \<open>\<open>path.rsplit("/", 1)[-1]\<close> and \<open>path.rsplit("/", 1)[0] if "/" in path else ""\<close>.\<close>

definition base_name :: "string \<Rightarrow> string" where
  "base_name p = rev (takeWhile (\<lambda>c. c \<noteq> CHR ''/'') (rev p))"

definition dir_name :: "string \<Rightarrow> string" where
  "dir_name p = rev (drop 1 (dropWhile (\<lambda>c. c \<noteq> CHR ''/'') (rev p)))"

definition is_inlinable :: "string \<Rightarrow> string \<Rightarrow> bool" where
  "is_inlinable path body \<longleftrightarrow> CHR 0x00 \<notin> set (take 1024 body) \<and> base_name path \<notin> set GENERATED_FILES"

section \<open>Module specifiers\<close>

fun strip_prefix :: "string \<Rightarrow> string \<Rightarrow> string option" where
  "strip_prefix [] s = Some s"
| "strip_prefix (p # ps) [] = None"
| "strip_prefix (p # ps) (c # cs) = (if p = c then strip_prefix ps cs else None)"

definition is_quote :: "char \<Rightarrow> bool" where
  "is_quote c \<longleftrightarrow> c = CHR 0x22 \<or> c = CHR 0x27"

text \<open>\<open>\s*\(?\s*["']([^"']+)["']\<close>: the quoted name and what follows it.\<close>

definition quoted_name :: "string \<Rightarrow> (string \<times> string) option" where
  "quoted_name s =
    (let a = dropWhile is_space s;
         b = (case a of c # cs \<Rightarrow> if c = CHR 0x28 then dropWhile is_space cs else a | [] \<Rightarrow> a)
     in case b of
          [] \<Rightarrow> None
        | c # cs \<Rightarrow>
            if is_quote c then
              let name = takeWhile (\<lambda>x. \<not> is_quote x) cs; rest = dropWhile (\<lambda>x. \<not> is_quote x) cs
              in (case rest of [] \<Rightarrow> None | q # after \<Rightarrow> if name = [] then None else Some (name, after))
            else None)"

definition keyword_form :: "string \<Rightarrow> (string \<times> string) option" where
  "keyword_form s =
    (case strip_prefix ''from'' s of Some r \<Rightarrow> quoted_name r
     | None \<Rightarrow> (case strip_prefix ''import'' s of Some r \<Rightarrow> quoted_name r
     | None \<Rightarrow> (case strip_prefix ''require'' s of Some r \<Rightarrow> quoted_name r
     | None \<Rightarrow> None)))"

text \<open>\<open>\s*from\s+([\w.]+)\s+import\s\<close>, tried at the start of a line.\<close>

definition module_char :: "char \<Rightarrow> bool" where
  "module_char c \<longleftrightarrow> is_word c \<or> c = CHR ''.''"

definition spaces1 :: "string \<Rightarrow> string option" where
  "spaces1 s = (case s of [] \<Rightarrow> None | c # cs \<Rightarrow> if is_space c then Some (dropWhile is_space cs) else None)"

definition python_form :: "string \<Rightarrow> (string \<times> string) option" where
  "python_form s =
    (case strip_prefix ''from'' (dropWhile is_space s) of None \<Rightarrow> None
     | Some r \<Rightarrow> (case spaces1 r of None \<Rightarrow> None
     | Some n \<Rightarrow>
         let name = takeWhile module_char n
         in if name = [] then None
            else (case spaces1 (dropWhile module_char n) of None \<Rightarrow> None
              | Some i \<Rightarrow> (case strip_prefix ''import'' i of None \<Rightarrow> None
              | Some e \<Rightarrow> (case e of [] \<Rightarrow> None
                         | c # cs \<Rightarrow> if is_space c then Some (name, cs) else None)))))"

lemma strip_prefix_length: "strip_prefix p s = Some r \<Longrightarrow> length r + length p = length s"
  by (induction p s rule: strip_prefix.induct) (auto split: if_splits)

lemma length_dropWhile_lt: "dropWhile P xs = y # ys \<Longrightarrow> length ys < length xs"
  using length_dropWhile_le[of P xs] by simp

lemma quoted_name_length: "quoted_name s = Some (n, r) \<Longrightarrow> length r < length s"
proof -
  assume q: "quoted_name s = Some (n, r)"
  define a where "a = dropWhile is_space s"
  define b where "b = (case a of c # cs \<Rightarrow> if c = CHR 0x28 then dropWhile is_space cs else a | [] \<Rightarrow> a)"
  have "length a \<le> length s" by (simp add: a_def length_dropWhile_le)
  moreover have "length b \<le> length a"
    by (auto simp: b_def length_dropWhile_le le_SucI split: list.split)
  moreover obtain c cs qq where "b = c # cs" "dropWhile (\<lambda>x. \<not> is_quote x) cs = qq # r"
    using q unfolding quoted_name_def Let_def a_def[symmetric] b_def[symmetric]
    by (auto split: list.splits if_splits)
  moreover from this(2) have "length r < length cs" by (rule length_dropWhile_lt)
  ultimately show ?thesis by simp
qed

lemma keyword_form_length: "keyword_form s = Some (n, r) \<Longrightarrow> length r < length s"
  by (auto simp: keyword_form_def split: option.splits dest!: quoted_name_length strip_prefix_length)

lemma spaces1_length: "spaces1 s = Some r \<Longrightarrow> length r < length s"
  by (auto simp: spaces1_def less_Suc_eq_le length_dropWhile_le split: list.splits if_splits)

lemma python_form_length:
  assumes "python_form s = Some (n, r)"
  shows "length r < length s"
proof -
  obtain a b i c where "strip_prefix ''from'' (dropWhile is_space s) = Some a" "spaces1 a = Some b"
    "spaces1 (dropWhile module_char b) = Some i" "strip_prefix ''import'' i = Some (c # r)"
    using assms by (auto simp: python_form_def Let_def split: option.splits if_splits list.splits)
  then show ?thesis
    using strip_prefix_length[of "''from''" "dropWhile is_space s" a] spaces1_length[of a b]
      spaces1_length[of "dropWhile module_char b" i] strip_prefix_length[of "''import''" i "c # r"]
      length_dropWhile_le[of is_space s] length_dropWhile_le[of module_char b]
    by simp
qed

definition specifier_at :: "bool \<Rightarrow> string \<Rightarrow> (string \<times> string) option" where
  "specifier_at at_line_start s =
    (case keyword_form s of Some m \<Rightarrow> Some m
     | None \<Rightarrow> if at_line_start then python_form s else None)"

lemma specifier_at_length: "specifier_at l s = Some (n, r) \<Longrightarrow> length r < length s"
  by (auto simp: specifier_at_def split: option.splits if_splits
      dest: keyword_form_length python_form_length)

text \<open>
  \<open>findall\<close>.  After a match the scan resumes behind it; a match ends with a quote or with
  white space, and only a line feed starts a new line.
\<close>

definition ends_line :: "string \<Rightarrow> string \<Rightarrow> bool" where
  "ends_line s rest = (let n = length s - length rest in n > 0 \<and> s ! (n - 1) = CHR 0x0A)"

function scan :: "bool \<Rightarrow> string \<Rightarrow> string list" where
  "scan l s =
    (case specifier_at l s of
       Some (name, rest) \<Rightarrow> name # scan (ends_line s rest) rest
     | None \<Rightarrow> (case s of [] \<Rightarrow> [] | c # cs \<Rightarrow> scan (c = CHR 0x0A) cs))"
  by pat_completeness auto

termination
  by (relation "measure (length \<circ> snd)") (auto dest: specifier_at_length)

declare scan.simps [simp del]

definition imports_of :: "string \<Rightarrow> string list" where
  "imports_of body = scan True body"

abbreviation split_slash :: "string \<Rightarrow> string list" where
  "split_slash \<equiv> split_on (CHR ''/'')"

text \<open>The stack is kept with its top first.\<close>

fun pop_parts :: "string list \<Rightarrow> string list \<Rightarrow> string list" where
  "pop_parts stack [] = rev stack"
| "pop_parts stack (part # parts) =
    (if part = ''..'' then pop_parts (tl stack) parts else pop_parts (part # stack) parts)"

definition relative_stem :: "string \<Rightarrow> string \<Rightarrow> string" where
  "relative_stem source specifier =
     py_join ''/'' (pop_parts []
       (filter (\<lambda>p. p \<noteq> [] \<and> p \<noteq> ''.'') (split_slash (dir_name source @ ''/'' @ specifier))))"

definition stem_of :: "string \<Rightarrow> string \<Rightarrow> string" where
  "stem_of specifier source =
    (if starts_with ''@/'' specifier then drop 2 specifier
     else if starts_with ''.'' specifier then relative_stem source specifier
     else if CHR ''.'' \<in> set specifier \<and> CHR ''/'' \<notin> set specifier
       then replace_char (CHR ''.'') (CHR ''/'') specifier
     else specifier)"

definition candidates :: "string \<Rightarrow> string list" where
  "candidates stem =
     stem # map (\<lambda>ext. stem @ ext) [''.ts'', ''.tsx'', ''.js'', ''.jsx'', ''.mjs'', ''.css'', ''.py'']
     @ map (\<lambda>ext. stem @ ''/index'' @ ext) [''.ts'', ''.tsx'', ''.js'', ''.jsx'']"

definition resolve :: "string \<Rightarrow> string \<Rightarrow> string set \<Rightarrow> string option" where
  "resolve specifier source known = find (\<lambda>c. c \<in> known) (candidates (stem_of specifier source))"

section \<open>The neighbourhood of a change\<close>

definition known_paths :: "tree \<Rightarrow> string set" where
  "known_paths files = fst ` set files"

definition file_of :: "tree \<Rightarrow> string \<Rightarrow> string" where
  "file_of files path = the (map_of files path)"

text \<open>The files that one file's specifiers name.\<close>

definition targets_of :: "tree \<Rightarrow> string \<Rightarrow> string set" where
  "targets_of files path =
     set (List.map_filter (\<lambda>sp. resolve sp path (known_paths files)) (imports_of (file_of files path)))"

definition MAX_DEPTH :: nat where
  "MAX_DEPTH = 2"

fun expand :: "tree \<Rightarrow> nat \<Rightarrow> string set \<Rightarrow> string set \<Rightarrow> string set" where
  "expand files 0 chosen frontier = chosen"
| "expand files (Suc depth) chosen frontier =
    (let found = (\<Union>path\<in>frontier. targets_of files path) - chosen
     in if found = {} then chosen else expand files depth (chosen \<union> found) found)"

definition closure_of :: "tree \<Rightarrow> string list \<Rightarrow> nat \<Rightarrow> string set" where
  "closure_of files seeds depth =
    (let chosen = {s \<in> set seeds. s \<in> known_paths files} in expand files depth chosen chosen)"

definition dependents :: "tree \<Rightarrow> string set \<Rightarrow> string set" where
  "dependents files targets =
    (let known = known_paths files; wanted = {t \<in> targets. t \<in> known}
     in if wanted = {} then {}
        else fst ` set (filter (\<lambda>(path, body). path \<notin> wanted \<and>
               list_ex (\<lambda>sp. case resolve sp path known of Some t \<Rightarrow> t \<in> wanted | None \<Rightarrow> False)
                 (imports_of body)) files))"

section \<open>The prompt\<close>

fun insert_path :: "string \<times> string \<Rightarrow> tree \<Rightarrow> tree" where
  "insert_path f [] = [f]"
| "insert_path f (g # gs) = (if code_le (fst f) (fst g) then f # g # gs else g # insert_path f gs)"

fun sort_tree :: "tree \<Rightarrow> tree" where
  "sort_tree [] = []"
| "sort_tree (f # fs) = insert_path f (sort_tree fs)"

record render_counts =
  rn_listed :: nat
  rn_shown :: nat
  rn_withheld :: nat
  rn_omitted :: nat
  rn_bytes_used :: nat

definition file_element :: "string \<times> string \<Rightarrow> string" where
  "file_element f = ''<file path='' @ repr_str (fst f) @ ''>'' @ nl @ snd f @ nl @ ''</file>''"

definition shown_files :: "tree \<Rightarrow> string set option \<Rightarrow> tree" where
  "shown_files files incl =
     filter (\<lambda>(path, body). is_inlinable path body \<and>
               (case incl of None \<Rightarrow> True | Some ps \<Rightarrow> path \<in> ps)) (sort_tree files)"

definition withheld_files :: "tree \<Rightarrow> string set option \<Rightarrow> tree" where
  "withheld_files files incl =
     filter (\<lambda>(path, body). is_inlinable path body \<and>
               (case incl of None \<Rightarrow> False | Some ps \<Rightarrow> path \<notin> ps)) (sort_tree files)"

definition unreadable_files :: "tree \<Rightarrow> tree" where
  "unreadable_files files = filter (\<lambda>(path, body). \<not> is_inlinable path body) (sort_tree files)"

definition withheld_note :: "nat \<Rightarrow> nat \<Rightarrow> string" where
  "withheld_note withheld unreadable =
    (let reasons =
       (if withheld > 0 then [string_of_nat withheld @ '' were not selected for this request ''
          @ [em_dash] @ '' say so in `reasoning` if you need one and it will be provided''] else [])
       @ (if unreadable > 0 then [string_of_nat unreadable
          @ '' are binary or machine-generated (do not edit a lockfile)''] else [])
     in ''<note>Every file in the repository is listed above. Contents are shown for the ''
        @ ''selected ones only: '' @ py_join ''; '' reasons @ ''. Never assume a listed file is empty ''
        @ ''or irrelevant because its contents are absent.</note>'')"

definition listing_element :: "tree \<Rightarrow> string \<Rightarrow> string" where
  "listing_element files tag = ''<'' @ tag @ ''_listing>'' @ nl
     @ py_join nl (map fst (sort_tree files)) @ nl @ ''</'' @ tag @ ''_listing>''"

definition render :: "tree \<Rightarrow> string \<Rightarrow> string set option \<Rightarrow> string \<times> render_counts" where
  "render files tag incl =
    (let shown = shown_files files incl; withheld = length (withheld_files files incl);
         unreadable = length (unreadable_files files)
     in (py_join (nl @ nl) (listing_element files tag # map file_element shown
           @ (if unreadable > 0 \<or> withheld > 0 then [withheld_note withheld unreadable] else [])),
         \<lparr> rn_listed = length files, rn_shown = length shown, rn_withheld = withheld,
           rn_omitted = unreadable, rn_bytes_used = sum_list (map (\<lambda>f. length (snd f)) shown) \<rparr>))"

section \<open>Properties\<close>

text \<open>One hop along an import, from a file of the repository to a file of the repository.\<close>

definition import_rel :: "tree \<Rightarrow> (string \<times> string) set" where
  "import_rel files = {(p, q). p \<in> known_paths files \<and> q \<in> targets_of files p}"

lemma resolve_known: "resolve sp src known = Some t \<Longrightarrow> t \<in> known"
  by (auto simp: resolve_def find_Some_iff)

lemma targets_known: "t \<in> targets_of files p \<Longrightarrow> t \<in> known_paths files"
  by (auto simp: targets_of_def List.map_filter_def dest: resolve_known)

lemma targets_iff: "t \<in> targets_of files p \<longleftrightarrow>
  (\<exists>sp\<in>set (imports_of (file_of files p)). resolve sp p (known_paths files) = Some t)"
  by (auto simp: targets_of_def List.map_filter_def intro!: image_eqI)

text \<open>Breadth first: what is reachable within \<open>n\<close> hops, given that the frontier is where the last hop ended.\<close>

definition hops :: "('a \<times> 'a) set \<Rightarrow> 'a set \<Rightarrow> nat \<Rightarrow> 'a set" where
  "hops r S n = {t. \<exists>s\<in>S. \<exists>k\<le>n. (s, t) \<in> r ^^ k}"

lemma hops_0 [simp]: "hops r S 0 = S"
  by (auto simp: hops_def)

lemma hops_Suc: "hops r S (Suc n) = S \<union> hops r (r `` S) n"
proof (intro set_eqI iffI)
  fix t assume "t \<in> hops r S (Suc n)"
  then obtain s k where s: "s \<in> S" "k \<le> Suc n" "(s, t) \<in> r ^^ k" by (auto simp: hops_def)
  show "t \<in> S \<union> hops r (r `` S) n"
  proof (cases k)
    case 0 then show ?thesis using s by simp
  next
    case (Suc m)
    then obtain u where "(s, u) \<in> r" "(u, t) \<in> r ^^ m" using s relpow_Suc_D2 by metis
    then show ?thesis using s Suc by (auto simp: hops_def)
  qed
next
  fix t assume "t \<in> S \<union> hops r (r `` S) n"
  then consider "t \<in> S" | s u k where "s \<in> S" "(s, u) \<in> r" "k \<le> n" "(u, t) \<in> r ^^ k"
    by (auto simp: hops_def)
  then show "t \<in> hops r S (Suc n)"
  proof cases
    case 1 then show ?thesis by (force simp: hops_def)
  next
    case 2
    then have "(s, t) \<in> r ^^ Suc k" by (metis relpow_Suc_I2)
    then show ?thesis using 2 unfolding hops_def by (metis (mono_tags, lifting) Suc_le_mono mem_Collect_eq)
  qed
qed

lemma hops_Un: "hops r (A \<union> B) n = hops r A n \<union> hops r B n"
  by (auto simp: hops_def)

lemma hops_mono: "A \<subseteq> B \<Longrightarrow> m \<le> n \<Longrightarrow> hops r A m \<subseteq> hops r B n"
  unfolding hops_def by (blast intro: le_trans)

lemma hops_empty [simp]: "hops r {} n = {}"
  by (auto simp: hops_def)

lemma hops_closed: "r `` S \<subseteq> S \<Longrightarrow> hops r S n = S"
proof (induction n)
  case (Suc n)
  have "hops r (r `` S) n \<subseteq> hops r S n" by (rule hops_mono[OF Suc.prems le_refl])
  then show ?case using Suc.IH[OF Suc.prems] unfolding hops_Suc by blast
qed simp

lemma frontier_image:
  "F \<subseteq> known_paths files \<Longrightarrow> (\<Union>p\<in>F. targets_of files p) = import_rel files `` F"
  by (auto simp: import_rel_def)

lemma expand_hops:
  assumes "F \<subseteq> C" "C \<subseteq> known_paths files" "import_rel files `` (C - F) \<subseteq> C"
  shows "expand files n C F = hops (import_rel files) C n"
  using assms
proof (induction n arbitrary: C F)
  case (Suc n)
  let ?r = "import_rel files"
  define N where "N = ?r `` F - C"
  have F: "(\<Union>p\<in>F. targets_of files p) = ?r `` F"
    using Suc.prems by (intro frontier_image) blast
  have split: "?r `` C = ?r `` F \<union> ?r `` (C - F)" using Suc.prems(1) by blast
  have img: "C \<union> ?r `` C = C \<union> N" using Suc.prems(3) unfolding split N_def by blast
  show ?case
  proof (cases "N = {}")
    case True
    then have "?r `` C \<subseteq> C" using img by blast
    then show ?thesis using True by (simp add: F N_def[symmetric] hops_closed)
  next
    case False
    have "expand files (Suc n) C F = expand files n (C \<union> N) N"
      using False by (simp add: F N_def[symmetric] Let_def)
    also have "\<dots> = hops ?r (C \<union> N) n"
    proof (rule Suc.IH)
      show "C \<union> N \<subseteq> known_paths files"
        using Suc.prems by (auto simp: N_def import_rel_def dest: targets_known)
      show "?r `` (C \<union> N - N) \<subseteq> C \<union> N" using img by blast
    qed simp
    also have "\<dots> = hops ?r C (Suc n)"
    proof -
      have "hops ?r (C \<union> N) n = hops ?r (C \<union> ?r `` C) n" by (simp add: img)
      also have "\<dots> = C \<union> hops ?r (?r `` C) n"
      proof -
        have "C \<subseteq> hops ?r C n" by (force simp: hops_def)
        moreover have "hops ?r C n \<subseteq> C \<union> hops ?r (?r `` C) n"
          using hops_Suc[of ?r C n] hops_mono[of C C n "Suc n" ?r] by auto
        ultimately show ?thesis by (auto simp: hops_Un)
      qed
      finally show ?thesis by (simp add: hops_Suc)
    qed
    finally show ?thesis .
  qed
qed simp

text \<open>
  The neighbourhood of a change is exactly what its files reach along imports in at most
  \<open>depth\<close> hops, starting from the seeds that exist: the breadth-first loop, which expands only the
  files found last and stops when it finds none, misses nothing within the bound and takes in
  nothing beyond it.
\<close>

theorem closure_is_bounded_reachability:
  "closure_of files seeds depth =
     {t. \<exists>s. s \<in> set seeds \<and> s \<in> known_paths files \<and>
             (\<exists>k. k \<le> depth \<and> (s, t) \<in> import_rel files ^^ k)}"
proof -
  let ?C = "{s \<in> set seeds. s \<in> known_paths files}"
  have "expand files depth ?C ?C = hops (import_rel files) ?C depth"
    by (rule expand_hops) auto
  then show ?thesis by (auto simp: closure_of_def Let_def hops_def)
qed

lemma file_of_mem: "distinct (map fst files) \<Longrightarrow> (p, b) \<in> set files \<Longrightarrow> file_of files p = b"
  by (simp add: file_of_def)

lemma dependents_mem:
  "p \<in> dependents files targets \<longleftrightarrow>
     (\<exists>b sp t. (p, b) \<in> set files \<and> p \<notin> targets \<and> sp \<in> set (imports_of b) \<and>
        resolve sp p (known_paths files) = Some t \<and> t \<in> targets)" (is "?l \<longleftrightarrow> ?r")
proof
  assume ?l
  then show ?r
    by (clarsimp simp: dependents_def Let_def list_ex_iff split: if_splits option.splits)
      (metis known_paths_def fst_conv image_eqI)
next
  assume ?r
  then obtain b sp t where h: "(p, b) \<in> set files" "p \<notin> targets" "sp \<in> set (imports_of b)"
    "resolve sp p (known_paths files) = Some t" "t \<in> targets" by blast
  let ?w = "{t \<in> targets. t \<in> known_paths files}"
  have t: "t \<in> ?w" using h(5) resolve_known[OF h(4)] by simp
  have ex: "list_ex (\<lambda>sp. case resolve sp p (known_paths files) of Some t \<Rightarrow> t \<in> ?w | None \<Rightarrow> False)
      (imports_of b)"
    unfolding list_ex_iff using h(3,4) t by (intro bexI[of _ sp]) simp_all
  have "(p, b) \<in> set (filter (\<lambda>(path, body). path \<notin> ?w \<and>
      list_ex (\<lambda>sp. case resolve sp path (known_paths files) of Some t \<Rightarrow> t \<in> ?w | None \<Rightarrow> False)
        (imports_of body)) files)"
    using h(1,2) ex by simp
  then have "fst (p, b) \<in> dependents files targets"
    unfolding dependents_def Let_def using t by (simp only: if_not_P empty_iff not_False_eq_True imageI split: if_split) blast
  then show ?l by simp
qed

text \<open>
  The dependents of a set of files are exactly the other files of the repository that have an
  import leading to one of them: it is the closure's import relation, run backwards.
\<close>

theorem dependents_are_the_importers:
  assumes "distinct (map fst files)"
  shows "dependents files targets = {p. p \<in> known_paths files - targets \<and>
           (\<exists>t. t \<in> targets \<and> (p, t) \<in> import_rel files)}"
proof (intro set_eqI iffI)
  fix p assume "p \<in> dependents files targets"
  then obtain b sp t where pb: "(p, b) \<in> set files" "p \<notin> targets" "sp \<in> set (imports_of b)"
      "resolve sp p (known_paths files) = Some t" "t \<in> targets"
    unfolding dependents_mem by blast
  moreover have "p \<in> known_paths files" using pb(1) by (force simp: known_paths_def)
  ultimately show "p \<in> {p. p \<in> known_paths files - targets \<and> (\<exists>t. t \<in> targets \<and> (p, t) \<in> import_rel files)}"
    using file_of_mem[OF assms pb(1)] by (auto simp: import_rel_def targets_iff)
next
  fix p assume "p \<in> {p. p \<in> known_paths files - targets \<and> (\<exists>t. t \<in> targets \<and> (p, t) \<in> import_rel files)}"
  then obtain t sp where pb: "p \<in> known_paths files" "p \<notin> targets" "t \<in> targets"
      "sp \<in> set (imports_of (file_of files p))" "resolve sp p (known_paths files) = Some t"
    by (auto simp: import_rel_def targets_iff)
  from pb(1) obtain b where "(p, b) \<in> set files" by (auto simp: known_paths_def)
  then show "p \<in> dependents files targets"
    unfolding dependents_mem using pb file_of_mem[OF assms, of p b] by auto
qed

lemma set_insert_path [simp]: "set (insert_path f fs) = insert f (set fs)"
  by (induction fs) auto

lemma set_sort_tree [simp]: "set (sort_tree fs) = set fs"
  by (induction fs) auto

lemma length_insert_path [simp]: "length (insert_path f fs) = Suc (length fs)"
  by (induction fs) auto

lemma length_sort_tree [simp]: "length (sort_tree fs) = length fs"
  by (induction fs) auto

lemma three_way:
  "length (filter (\<lambda>x. P x \<and> Q x) xs) + length (filter (\<lambda>x. P x \<and> \<not> Q x) xs)
     + length (filter (\<lambda>x. \<not> P x) xs) = length xs"
  by (induction xs) auto

lemma shown_plus_withheld:
  "length (shown_files files incl) + length (withheld_files files incl)
     + length (unreadable_files files) = length files"
proof -
  let ?P = "\<lambda>f. is_inlinable (fst f) (snd f)"
  let ?Q = "\<lambda>f. case incl of None \<Rightarrow> True | Some ps \<Rightarrow> fst f \<in> ps"
  have "shown_files files incl = filter (\<lambda>f. ?P f \<and> ?Q f) (sort_tree files)"
    "withheld_files files incl = filter (\<lambda>f. ?P f \<and> \<not> ?Q f) (sort_tree files)"
    "unreadable_files files = filter (\<lambda>f. \<not> ?P f) (sort_tree files)"
    by (auto simp: shown_files_def withheld_files_def unreadable_files_def split_def
        split: option.splits intro!: filter_cong)
  then show ?thesis using three_way[of ?P ?Q "sort_tree files"] by simp
qed

lemma shown_files_mem:
  "(path, body) \<in> set (shown_files files incl) \<longleftrightarrow>
     (path, body) \<in> set files \<and> is_inlinable path body \<and>
     (case incl of None \<Rightarrow> True | Some ps \<Rightarrow> path \<in> ps)"
  by (auto simp: shown_files_def)

lemma py_join_starts: "\<exists>r. py_join sep (x # xs) = x @ r"
  by (cases xs) auto

lemma py_join_contains: "x \<in> set xs \<Longrightarrow> contains x (py_join sep xs)"
proof (induction xs rule: induct_list012)
  case (3 y z zs)
  show ?case
  proof (cases "x = y")
    case True then show ?thesis unfolding contains_iff py_join.simps by (metis append_Nil)
  next
    case False
    then have "contains x (py_join sep (z # zs))" using 3 by simp
    then show ?thesis unfolding contains_iff py_join.simps by (metis append_assoc)
  qed
qed (auto simp: contains_iff intro: exI[of _ "[]"])

lemma contains_trans: "contains a b \<Longrightarrow> contains b c \<Longrightarrow> contains a c"
  unfolding contains_iff by (metis append_assoc)

lemma render_starts: "\<exists>r. fst (render files tag incl) = listing_element files tag @ r"
  unfolding render_def Let_def fst_conv by (rule py_join_starts)

lemma contains_middle: "contains x (a @ x @ b)"
  unfolding contains_iff by blast

text \<open>
  Whatever is selected, a prompt names every file of the repository and shows the contents of
  every selected file that is neither binary nor generated; the counts on the record account for
  each file exactly once, and something is left out exactly when the closing note says so.
\<close>

theorem render_listing_is_complete:
  assumes "(path, body) \<in> set files"
  shows "contains path (listing_element files tag) \<and>
    (\<exists>r. fst (render files tag incl) = listing_element files tag @ r) \<and>
    (is_inlinable path body \<and> (case incl of None \<Rightarrow> True | Some ps \<Rightarrow> path \<in> ps) \<longrightarrow>
       contains (file_element (path, body)) (fst (render files tag incl))) \<and>
    rn_listed (snd (render files tag incl)) = rn_shown (snd (render files tag incl))
      + rn_withheld (snd (render files tag incl)) + rn_omitted (snd (render files tag incl))"
proof (intro conjI impI)
  have "path \<in> set (map fst (sort_tree files))" using assms by force
  then have "contains path (py_join nl (map fst (sort_tree files)))" by (rule py_join_contains)
  moreover have "contains (py_join nl (map fst (sort_tree files))) (listing_element files tag)"
    unfolding listing_element_def contains_iff by (metis append_assoc)
  ultimately show "contains path (listing_element files tag)" by (rule contains_trans)
  show "\<exists>r. fst (render files tag incl) = listing_element files tag @ r" by (rule render_starts)
  show "rn_listed (snd (render files tag incl)) = rn_shown (snd (render files tag incl))
      + rn_withheld (snd (render files tag incl)) + rn_omitted (snd (render files tag incl))"
    using shown_plus_withheld[of files incl] by (simp add: render_def Let_def)
  assume "is_inlinable path body \<and> (case incl of None \<Rightarrow> True | Some ps \<Rightarrow> path \<in> ps)"
  then have "(path, body) \<in> set (shown_files files incl)" using assms by (simp add: shown_files_mem)
  then show "contains (file_element (path, body)) (fst (render files tag incl))"
    by (auto simp: render_def Let_def intro!: py_join_contains)
qed

section \<open>On a small repository\<close>

definition sample_tree :: tree where
  "sample_tree = [(''a/x.ts'', ''import y from '' @ [CHR 0x22] @ ''./y'' @ [CHR 0x22]),
     (''a/y.ts'', ''from p.q import z''), (''p/q.py'', ''pass''), (''yarn.lock'', ''h'')]"

lemma sample_imports:
  "imports_of (''import y from '' @ [CHR 0x22] @ ''./y'' @ [CHR 0x22]) = [''./y'']"
  "imports_of ''from p.q import z'' = [''p.q'']" "imports_of ''pass'' = []" "imports_of ''h'' = []"
  by code_simp+

lemma sample_resolves:
  "resolve ''./y'' ''a/x.ts'' (known_paths sample_tree) = Some ''a/y.ts''"
  "resolve ''p.q'' ''a/y.ts'' (known_paths sample_tree) = Some ''p/q.py''"
  by code_simp+

lemma sample_closure: "closure_of sample_tree [''a/x.ts''] MAX_DEPTH = {''a/x.ts'', ''a/y.ts'', ''p/q.py''}"
  by code_simp

lemma sample_dependents: "dependents sample_tree {''a/y.ts''} = {''a/x.ts''}"
  by code_simp

lemma dependents_are_the_importers_witness:
  "''a/x.ts'' \<in> dependents sample_tree {''a/y.ts''} \<and>
   (''a/x.ts'', ''a/y.ts'') \<in> import_rel sample_tree"
proof -
  have "distinct (map fst sample_tree)" by (simp add: sample_tree_def)
  note dependents_are_the_importers[OF this, of "{''a/y.ts''}"]
  then show ?thesis using sample_dependents by blast
qed

lemma render_listing_is_complete_witness:
  "contains ''p/q.py'' (listing_element sample_tree ''repository'') \<and>
   contains (file_element (''p/q.py'', ''pass''))
     (fst (render sample_tree ''repository'' (Some {''p/q.py''}))) \<and>
   rn_listed (snd (render sample_tree ''repository'' (Some {''p/q.py''}))) =
     rn_shown (snd (render sample_tree ''repository'' (Some {''p/q.py''})))
     + rn_withheld (snd (render sample_tree ''repository'' (Some {''p/q.py''})))
     + rn_omitted (snd (render sample_tree ''repository'' (Some {''p/q.py''})))"
proof -
  have m: "(''p/q.py'', ''pass'') \<in> set sample_tree" by (simp add: sample_tree_def)
  have i: "is_inlinable ''p/q.py'' ''pass''" by code_simp
  show ?thesis
    using render_listing_is_complete[OF m, of "''repository''" "Some {''p/q.py''}"] i by simp
qed

end
