(* ===== verification/Llm.thy ===== *)
theory Llm
  imports Node_World
begin

text \<open>
  engine/adapters/llm: what a node asks of a model and what it gets back.  The Anthropic service,
  the credential broker and \<open>json.loads\<close> are the fields of \<open>llm_backend\<close>; the guard, the request as
  it is sent, the classification of failures and the reading of a response are the source's.
\<close>

section \<open>Requests and completions\<close>

record llm_request =
  lq_system :: string
  lq_prompt :: string
  lq_cacheable_prefix :: "string option"
  lq_max_tokens :: int
  lq_effort :: string
  lq_schema :: "json option"

record completion =
  cm_text :: string
  cm_parsed :: "(string \<times> json) list option"
  cm_input_tokens :: int
  cm_output_tokens :: int
  cm_model :: string
  cm_stop_reason :: string
  cm_cache_write_tokens :: int
  cm_cache_read_tokens :: int

definition usage_of :: "completion \<Rightarrow> usage" where
  "usage_of c = \<lparr> us_input_tokens = cm_input_tokens c, us_output_tokens = cm_output_tokens c,
     us_cache_write_tokens = cm_cache_write_tokens c, us_cache_read_tokens = cm_cache_read_tokens c \<rparr>"

text \<open>How both prompts that show a ticket list its acceptance criteria.\<close>

definition criteria_text :: "ticket \<Rightarrow> string" where
  "criteria_text tk =
    (let s = py_join nl (map (\<lambda>c. ''- '' @ c) (tk_acceptance_criteria tk))
     in if s = [] then ''- none stated'' else s)"

text \<open>
  An exception of the SDK is its class name and its own message.  A response carries a stop
  reason, the details of a refusal, typed content blocks and the token counts; the two cache
  counts may be absent.
\<close>

record api_error =
  ae_type :: string
  ae_message :: string

record api_message =
  am_stop_reason :: string
  am_refusal_category :: "string option"
  am_refusal_explanation :: "string option"
  am_content :: "(string \<times> string) list"
  am_input_tokens :: int
  am_output_tokens :: int
  am_cache_creation_input_tokens :: "int option"
  am_cache_read_input_tokens :: "int option"
  am_model :: string

record llm_backend =
  lb_installed :: bool
  lb_token :: "unit res"
  lb_call :: "bool \<Rightarrow> json \<Rightarrow> api_error + api_message"
  lb_list_models :: "api_error + string list"
  lb_loads :: "string \<Rightarrow> json option"

section \<open>Configuration to adapter\<close>

fun not_yet_implemented :: "llm_provider \<Rightarrow> string option" where
  "not_yet_implemented AZURE_OPENAI = Some ''Azure OpenAI''"
| "not_yet_implemented OPENAI_COMPATIBLE = Some ''OpenAI-compatible (vLLM / Ollama)''"
| "not_yet_implemented BEDROCK = Some ''AWS Bedrock''"
| "not_yet_implemented ANTHROPIC = None"

text \<open>The adapter is its model name; \<open>None\<close> prints as Python's \<open>None\<close>.\<close>

definition llm_adapter :: "llm_config \<Rightarrow> string \<Rightarrow> string res" where
  "llm_adapter c node_id =
     and_then (for_node c node_id) (\<lambda>m.
       if lc_provider c = ANTHROPIC then Inr (nm_model m)
       else Inl (ConfigError (''llm.provider '' @ repr_str (provider_str (lc_provider c)) @ '' (''
              @ (case not_yet_implemented (lc_provider c) of None \<Rightarrow> ''None'' | Some l \<Rightarrow> l)
              @ '') is declared but not implemented yet; anthropic is the implemented backend'')))"

section \<open>The Anthropic adapter\<close>

definition STREAM_ABOVE_MAX_TOKENS :: int where
  "STREAM_ABOVE_MAX_TOKENS = 16000"

definition content_of :: "llm_request \<Rightarrow> json" where
  "content_of q =
    (if \<not> truthy (lq_cacheable_prefix q) then JStr (lq_prompt q)
     else JList
       (JObj [(''type'', JStr ''text''), (''text'', JStr (the (lq_cacheable_prefix q))),
              (''cache_control'', JObj [(''type'', JStr ''ephemeral'')])]
        # (if lq_prompt q \<noteq> [] then [JObj [(''type'', JStr ''text''), (''text'', JStr (lq_prompt q))]] else [])))"

definition request_params :: "string \<Rightarrow> llm_request \<Rightarrow> json" where
  "request_params model q =
     JObj [(''model'', JStr model), (''max_tokens'', JInt (lq_max_tokens q)), (''system'', JStr (lq_system q)),
       (''messages'', JList [JObj [(''role'', JStr ''user''), (''content'', content_of q)]]),
       (''thinking'', JObj [(''type'', JStr ''adaptive'')]),
       (''output_config'', JObj ((''effort'', JStr (lq_effort q)) #
          (case lq_schema q of None \<Rightarrow> []
           | Some sch \<Rightarrow> [(''format'', JObj [(''type'', JStr ''json_schema''), (''schema'', sch)])])))]"

definition rejected_key :: "string \<Rightarrow> error" where
  "rejected_key type_name = LLMAuthError (type_name @ '' from the Anthropic API '' @ [em_dash]
     @ '' the stored llm.api_key was rejected. Replace it in the Workbench.'')"

definition is_auth_failure :: "string \<Rightarrow> bool" where
  "is_auth_failure type_name \<longleftrightarrow> type_name \<in> set [''AuthenticationError'', ''PermissionDeniedError'']"

definition worker_log_detail :: string where
  "worker_log_detail = '' The provider's explanation is in the worker log '' @ [em_dash] @ '' it is kept out of this ''
     @ ''record because it can quote the request, and the request contains ticket text.''"

definition classify_failure :: "api_error \<Rightarrow> error" where
  "classify_failure e =
    (if is_auth_failure (ae_type e) then rejected_key (ae_type e)
     else if ae_type e = ''BadRequestError'' then
       LLMRequestRejected (''BadRequestError from the Anthropic API.'' @ worker_log_detail
         @ '' A 400 most often means the account cannot be billed, the prompt exceeded the context ''
         @ ''window, or a parameter is unsupported.'')
     else LLMError (ae_type e @ '' from the Anthropic API.'' @ worker_log_detail))"

text \<open>\<open>f"{type(candidate)}"\<close> of a parsed JSON value.\<close>

fun json_type :: "json \<Rightarrow> string" where
  "json_type JNull = ''<class 'NoneType'>''"
| "json_type (JBool b) = ''<class 'bool'>''"
| "json_type (JInt i) = ''<class 'int'>''"
| "json_type (JStr s) = ''<class 'str'>''"
| "json_type (JList xs) = ''<class 'list'>''"
| "json_type (JObj kvs) = ''<class 'dict'>''"

definition parse_completion :: "(string \<Rightarrow> json option) \<Rightarrow> string \<Rightarrow> string \<Rightarrow> (string \<times> json) list res" where
  "parse_completion loads stop_reason txt =
    (case loads txt of
       None \<Rightarrow> Inl (LLMError (''schema was requested but the response was not JSON ''
         @ ''(stop_reason='' @ stop_reason @ '', '' @ string_of_nat (length txt) @ '' characters returned)''))
     | Some (JObj kvs) \<Rightarrow> Inr kvs
     | Some v \<Rightarrow> Inl (LLMError (''schema was requested but the response was a '' @ json_type v)))"

definition text_of :: "api_message \<Rightarrow> string" where
  "text_of m = concat (map snd (filter (\<lambda>(type, t). type = ''text'') (am_content m)))"

definition to_completion :: "(string \<Rightarrow> json option) \<Rightarrow> api_message \<Rightarrow> bool \<Rightarrow> completion res" where
  "to_completion loads m expects_schema =
    (if am_stop_reason m = ''refusal'' then
       Inl (ModelRefusal (am_refusal_category m) (or_else (am_refusal_explanation m) []))
     else if am_stop_reason m = ''max_tokens'' then
       Inl (LLMOutputTruncated (''response hit max_tokens after '' @ string_of_int (am_output_tokens m)
         @ '' output tokens; the output is truncated. Raise `max_tokens` for this node '' @ [em_dash]
         @ '' the Coder returns whole file contents, so it needs far more than a node that returns a summary.''))
     else and_then
       (if expects_schema then map_sum id Some (parse_completion loads (am_stop_reason m) (text_of m))
        else Inr None)
       (\<lambda>parsed. Inr \<lparr> cm_text = text_of m, cm_parsed = parsed, cm_input_tokens = am_input_tokens m,
          cm_output_tokens = am_output_tokens m, cm_model = am_model m, cm_stop_reason = am_stop_reason m,
          cm_cache_write_tokens = (case am_cache_creation_input_tokens m of None \<Rightarrow> 0 | Some n \<Rightarrow> n),
          cm_cache_read_tokens = (case am_cache_read_input_tokens m of None \<Rightarrow> 0 | Some n \<Rightarrow> n) \<rparr>))"

definition client_of :: "llm_backend \<Rightarrow> unit res" where
  "client_of b = (if \<not> lb_installed b then Inl (LLMError ''the `anthropic` package is not installed'')
                  else lb_token b)"

definition ping :: "llm_backend \<Rightarrow> string \<Rightarrow> string res" where
  "ping b model = and_then (client_of b) (\<lambda>_.
     case lb_list_models b of
       Inl e \<Rightarrow> Inl (if is_auth_failure (ae_type e) then rejected_key (ae_type e)
                     else LLMError (ae_type e @ '' from the Anthropic API''))
     | Inr available \<Rightarrow> Inr (''anthropic, model '' @ model
         @ (case available of [] \<Rightarrow> [] | m # ms \<Rightarrow> '' (API reachable, e.g. '' @ m @ '')'')))"

definition complete :: "llm_backend \<Rightarrow> (string \<times> node_class) option \<Rightarrow> string \<Rightarrow> llm_request \<Rightarrow> completion res" where
  "complete b current model q =
     and_then (assert_may_call_llm current) (\<lambda>_.
     and_then (client_of b) (\<lambda>_.
       case lb_call b (lq_max_tokens q > STREAM_ABOVE_MAX_TOKENS) (request_params model q) of
         Inl e \<Rightarrow> Inl (classify_failure e)
       | Inr m \<Rightarrow> to_completion (lb_loads b) m (lq_schema q \<noteq> None)))"

text \<open>\<open>except LLMError\<close> catches the class and its four subclasses; \<open>except ModelRefusal\<close> the last alone.\<close>

definition is_llm_error :: "error \<Rightarrow> bool" where
  "is_llm_error e \<longleftrightarrow> err_type e \<in> set [''LLMError'', ''LLMAuthError'', ''LLMOutputTruncated'',
     ''LLMRequestRejected'', ''ModelRefusal'']"

section \<open>Properties\<close>

text \<open>
  The guard comes before everything a provider does: code outside every node and a
  deterministic node get one and the same \<open>InvariantViolation\<close> from every backend, whatever the
  credential store or the service would have answered.
\<close>

theorem unentitled_calls_are_refused:
  assumes "current = None \<or> map_option snd current = Some DETERMINISTIC"
  shows "\<exists>m. \<forall>b model q. complete b current model q = Inl (InvariantViolation m)"
  using assms
  by (cases current) (auto simp: complete_def assert_may_call_llm_def may_call_llm_def)

lemma complete_Inr:
  assumes "complete b current model q = Inr c"
  shows "\<exists>m. assert_may_call_llm current = Inr () \<and> client_of b = Inr () \<and>
    lb_call b (lq_max_tokens q > STREAM_ABOVE_MAX_TOKENS) (request_params model q) = Inr m \<and>
    to_completion (lb_loads b) m (lq_schema q \<noteq> None) = Inr c"
  using assms unfolding complete_def by (auto simp: res_simps split: sum.splits)

lemma parse_completion_Inr: "parse_completion loads r t = Inr kvs \<longleftrightarrow> loads t = Some (JObj kvs)"
  by (auto simp: parse_completion_def split: option.splits json.splits)

lemma map_sum_Inr: "map_sum f g r = Inr y \<longleftrightarrow> (\<exists>x. r = Inr x \<and> y = g x)"
  by (cases r) auto

text \<open>
  A completion is one the node can use: it comes from a response that was neither a refusal nor
  cut off at the token limit, and when a schema was asked for its parsed value is the JSON object
  that the response's text is.  A refusal and a truncation are reported as such before the content
  is looked at.
\<close>

theorem completion_is_usable:
  assumes "complete b current model q = Inr c"
  shows "\<exists>m. lb_call b (lq_max_tokens q > STREAM_ABOVE_MAX_TOKENS) (request_params model q) = Inr m \<and>
    am_stop_reason m \<noteq> ''refusal'' \<and> am_stop_reason m \<noteq> ''max_tokens'' \<and>
    cm_text c = text_of m \<and> cm_model c = am_model m \<and>
    (cm_parsed c = None \<longleftrightarrow> lq_schema q = None) \<and>
    (\<forall>kvs. cm_parsed c = Some kvs \<longrightarrow> lb_loads b (text_of m) = Some (JObj kvs))"
proof -
  obtain m where m: "lb_call b (lq_max_tokens q > STREAM_ABOVE_MAX_TOKENS) (request_params model q) = Inr m"
    "to_completion (lb_loads b) m (lq_schema q \<noteq> None) = Inr c"
    using complete_Inr[OF assms] by blast
  show ?thesis
    by (rule exI[of _ m])
      (use m in \<open>auto simp: to_completion_def res_simps parse_completion_Inr map_sum_Inr split: if_splits\<close>)
qed

text \<open>
  What the provider says about a failed call stays out of the record: two failures of the same
  class give the same error, whatever their messages quote.
\<close>

theorem provider_message_stays_out:
  assumes "ae_type e1 = ae_type e2"
  shows "complete (b\<lparr> lb_call := \<lambda>s p. Inl e1 \<rparr>) current model q =
         complete (b\<lparr> lb_call := \<lambda>s p. Inl e2 \<rparr>) current model q"
  using assms by (simp add: complete_def classify_failure_def client_of_def)

lemma complete_error_kinds:
  assumes "complete b current model q = Inl e"
  shows "is_llm_error e \<or> err_type e = ''InvariantViolation'' \<or> lb_token b = Inl e"
  using assms unfolding complete_def and_then_Inl
proof (elim disjE exE conjE)
  assume "assert_may_call_llm current = Inl e"
  then show ?thesis by (auto simp: assert_may_call_llm_def split: option.splits if_splits prod.splits)
next
  assume "client_of b = Inl e"
  then show ?thesis by (auto simp: client_of_def is_llm_error_def split: if_splits)
next
  assume "(case lb_call b (lq_max_tokens q > STREAM_ABOVE_MAX_TOKENS) (request_params model q) of
      Inl e \<Rightarrow> Inl (classify_failure e) | Inr m \<Rightarrow> to_completion (lb_loads b) m (lq_schema q \<noteq> None)) = Inl e"
  then show ?thesis
    by (auto simp: classify_failure_def rejected_key_def to_completion_def parse_completion_def is_llm_error_def
        split: sum.splits if_splits option.splits json.splits)
qed

section \<open>A backend\<close>

definition sample_answer :: "json" where
  "sample_answer = JObj [(''findings'', JList
     [JObj [(''detail'', JStr ''a.py: off by one''), (''severity'', JStr '' Blocking'')]])]"

definition sample_text :: string where
  "sample_text = ''{\"findings\": [{\"detail\": \"a.py: off by one\", \"severity\": \" Blocking\"}]}''"

text \<open>A service that answers every call with that object; the parser is given at this text only.\<close>

definition sample_backend :: llm_backend where
  "sample_backend = \<lparr> lb_installed = True, lb_token = Inr (),
     lb_call = (\<lambda>s p. Inr \<lparr> am_stop_reason = ''end_turn'', am_refusal_category = None,
       am_refusal_explanation = None, am_content = [(''thinking'', ''t''), (''text'', sample_text)],
       am_input_tokens = 100, am_output_tokens = 10, am_cache_creation_input_tokens = None,
       am_cache_read_input_tokens = None, am_model = ''claude-opus-5'' \<rparr>),
     lb_list_models = Inr [''claude-opus-5''],
     lb_loads = (\<lambda>t. if t = sample_text then Some sample_answer else None) \<rparr>"

definition sample_request :: llm_request where
  "sample_request = \<lparr> lq_system = ''s'', lq_prompt = ''p'', lq_cacheable_prefix = None,
     lq_max_tokens = 4096, lq_effort = ''high'', lq_schema = Some (JObj []) \<rparr>"

lemma sample_complete:
  "lq_schema q \<noteq> None \<Longrightarrow> cls \<noteq> DETERMINISTIC \<Longrightarrow> complete sample_backend (Some (node_id, cls)) model q = Inr
     \<lparr> cm_text = sample_text, cm_parsed = Some [(''findings'', JList
         [JObj [(''detail'', JStr ''a.py: off by one''), (''severity'', JStr '' Blocking'')]])],
       cm_input_tokens = 100, cm_output_tokens = 10, cm_model = ''claude-opus-5'',
       cm_stop_reason = ''end_turn'', cm_cache_write_tokens = 0, cm_cache_read_tokens = 0 \<rparr>"
  by (auto simp: complete_def assert_may_call_llm_def may_call_llm_def client_of_def sample_backend_def
      to_completion_def parse_completion_def text_of_def sample_answer_def)

lemma unentitled_calls_are_refused_witness:
  "\<exists>m. \<forall>b model q. complete b (Some (''push'', DETERMINISTIC)) model q = Inl (InvariantViolation m)"
  by (rule unentitled_calls_are_refused) simp

lemma completion_is_usable_witness:
  "\<exists>m. lb_call sample_backend False (request_params ''claude-opus-5'' sample_request) = Inr m \<and>
     am_stop_reason m \<noteq> ''refusal'' \<and> text_of m = sample_text"
proof -
  have c: "\<exists>c. complete sample_backend (Some (''verifier.security'', VERIFIER)) ''claude-opus-5'' sample_request = Inr c \<and>
      cm_text c = sample_text"
    by (subst sample_complete) (simp_all add: sample_request_def)
  then obtain c where c: "complete sample_backend (Some (''verifier.security'', VERIFIER)) ''claude-opus-5''
      sample_request = Inr c" "cm_text c = sample_text" by blast
  have "\<not> lq_max_tokens sample_request > STREAM_ABOVE_MAX_TOKENS"
    by (simp add: sample_request_def STREAM_ABOVE_MAX_TOKENS_def)
  then show ?thesis using completion_is_usable[OF c(1)] c(2) by auto
qed

lemma provider_message_stays_out_witness:
  "complete (sample_backend\<lparr> lb_call := \<lambda>s p. Inl \<lparr> ae_type = ''BadRequestError'', ae_message = ''ticket text'' \<rparr> \<rparr>)
       (Some (''coder'', GENERATIVE)) ''claude-opus-5'' sample_request =
   complete (sample_backend\<lparr> lb_call := \<lambda>s p. Inl \<lparr> ae_type = ''BadRequestError'', ae_message = [] \<rparr> \<rparr>)
       (Some (''coder'', GENERATIVE)) ''claude-opus-5'' sample_request"
  by (rule provider_message_stays_out) simp

end
