(* ===== verification/Evidence.thy ===== *)
theory Evidence
  imports Json_Values Delivery_Claims
begin

text \<open>
  engine/evidence.py and the two endpoints of engine/api/main.py that use it: what an approver is
  shown, the digest that binds a decision to it, and the decision.  The hash, the times the
  database stamps on rows and the registry of applications are parameters.
\<close>

section \<open>Caveats\<close>

definition overridden_caveat :: "json \<Rightarrow> string" where
  "overridden_caveat name = json_str name @ '' falsified this change and was not permitted to block it, because this ''
     @ ''application declares it advisory. Its findings are on this page and were not acted on by the gate.''"

definition quiet_caveat :: "nat \<Rightarrow> string" where
  "quiet_caveat n = string_of_nat n @ '' finding(s) were recorded by verifiers that did not stop this change ''
     @ [em_dash] @ '' each judged, by the verifier that wrote it, not serious enough to block. A ''
     @ ''passing verdict is not an empty one, that judgement is theirs, and this page is where it can be overruled.''"

definition not_independent_caveat :: "json \<Rightarrow> string" where
  "not_independent_caveat reason =
     ''The tests were run in KuWarden's own sandbox, not by the project's CI. ''
     @ ''The same system produced this change and graded it, so this verdict is not an ''
     @ ''independent check (invariant 3).''
     @ (if json_truthy reason then '' No verdict came from the project's pipeline: '' @ json_str reason @ ''.'' else [])"

definition no_verdict_caveat :: string where
  "no_verdict_caveat = ''No test verdict was recorded for this run.''"

definition isolation_caveat :: "string list \<Rightarrow> string" where
  "isolation_caveat gaps =
     ''The sandbox ran under weakened isolation (''
     @ (let s = py_join '', '' gaps in if s = [] then ''unspecified'' else s)
     @ ''). Resource limits the configuration asked for were not applied by the host.''"

definition no_preview_caveat :: string where
  "no_preview_caveat =
     ''No running deployment of this commit was found, so nothing on this page shows ''
     @ ''the change working. Every check above verifies form '' @ [em_dash] @ '' lint, types, the build, and ''
     @ ''four models reading a diff '' @ [em_dash] @ '' and none of them can tell whether the change does ''
     @ ''what the ticket asked.''"

definition unpinned_caveat :: string where
  "unpinned_caveat = ''No policy bundle was pinned for this run, so there is no recorded statement of ''
     @ ''which rules authorised it.''"

text \<open>\<open>v.get("graded") or [{"detail": d} for d in (v.get("findings") or [])]\<close>.\<close>

definition findings_of :: "json \<Rightarrow> json list" where
  "findings_of v =
     (if json_truthy (json_get v ''graded'') then json_items (json_get v ''graded'')
      else map (\<lambda>d. JObj [(''detail'', d)]) (json_items (json_get v ''findings'')))"

definition quiet_findings :: "json list \<Rightarrow> json list" where
  "quiet_findings verifications =
     concat (map findings_of (filter (\<lambda>v. \<not> json_truthy (json_get v ''blocks'')) verifications))"

definition gap_names :: "json \<Rightarrow> string list" where
  "gap_names isolation = map json_str (json_items (json_get isolation ''gaps''))"

definition caveats :: "string \<Rightarrow> json \<Rightarrow> json \<Rightarrow> json list \<Rightarrow> json \<Rightarrow> string \<Rightarrow> string list" where
  "caveats policy_commit verdict isolation verifications disarmed preview =
     map overridden_caveat (json_items (json_get disarmed ''advisory''))
     @ (let quiet = quiet_findings verifications
        in if quiet \<noteq> [] then [quiet_caveat (length quiet)] else [])
     @ (if json_truthy verdict \<and> json_get verdict ''source'' \<noteq> JStr ''ci''
        then [not_independent_caveat (json_get verdict ''ci_detail'')] else [])
     @ (if \<not> json_truthy verdict then [no_verdict_caveat] else [])
     @ (if json_get isolation ''state'' = JStr ''degraded'' then [isolation_caveat (gap_names isolation)] else [])
     @ (if preview = [] then [no_preview_caveat] else [])
     @ (if starts_with ''unpinned:'' policy_commit then [unpinned_caveat] else [])"

section \<open>The document\<close>

definition EVIDENCE_SCHEMA :: int where
  "EVIDENCE_SCHEMA = 3"

record evidence_env =
  ee_app_name :: "uuid \<Rightarrow> string option"
  ee_created_at :: "uuid \<Rightarrow> string"
  ee_occurred_at :: "uuid \<Rightarrow> nat \<Rightarrow> string"
  ee_sha256 :: "string \<Rightarrow> string"

definition digest_of :: "evidence_env \<Rightarrow> json \<Rightarrow> string" where
  "digest_of env document = ee_sha256 env (canonical document)"

definition event_row :: "evidence_env \<Rightarrow> flow_event \<Rightarrow> json" where
  "event_row env e = JObj
     [(''seq'', JInt (int (ev_seq e))), (''kind'', JStr (ev_kind e)), (''node_id'', jopt (ev_node_id e)),
      (''control_mode'', jopt (ev_control_mode e)), (''payload'', ev_payload e),
      (''occurred_at'', JStr (ee_occurred_at env (ev_run_id e) (ev_seq e)))]"

text \<open>\<open>ORDER BY seq\<close>.\<close>

definition ordered_events :: "audit_db \<Rightarrow> uuid \<Rightarrow> flow_event list" where
  "ordered_events db run_id = sorted_by ev_seq (run_events db run_id)"

definition payload_of :: "flow_event list \<Rightarrow> string \<Rightarrow> json" where
  "payload_of events kind =
    (case py_last (filter (\<lambda>e. ev_kind e = kind) events) of Some e \<Rightarrow> ev_payload e | None \<Rightarrow> JObj [])"

definition caveats_of :: "run_row \<Rightarrow> flow_event list \<Rightarrow> string list" where
  "caveats_of row events =
     caveats (rs_policy_commit (rw_started row)) (payload_of events ''build_test_verdict'')
       (payload_of events ''sandbox_isolation'')
       (json_items (json_get (payload_of events ''verifiers_completed'') ''verifications''))
       (payload_of events ''verifier_overridden'')
       (json_str (json_or (json_get (payload_of events ''preview_published'') ''url'') (JStr [])))"

definition document_of :: "evidence_env \<Rightarrow> run_row \<Rightarrow> flow_event list \<Rightarrow> json" where
  "document_of env row events =
    (let run = rw_started row; final = payload_of events ''risk_tier_final'';
         column = JStr (tier_str (rs_risk_tier run))
     in JObj
      [(''schema'', JInt EVIDENCE_SCHEMA),
       (''run_id'', JStr (rs_run_id run)),
       (''application'', jopt (ee_app_name env (rs_app_id run))),
       (''ticket'', JObj [(''system'', JStr (rs_ticket_system run)), (''id'', JStr (rs_ticket_id run))]),
       (''risk_tier'', json_or (json_get final ''tier'') column),
       (''provisional_risk_tier'', json_or (json_get final ''provisional'') column),
       (''risk_tier_reason'', json_or (json_get final ''reason'') (JStr ''final tiering did not run'')),
       (''status'', JStr (rw_status row)),
       (''policy_commit'', JStr (rs_policy_commit run)),
       (''policy_bundle'', rs_policy_bundle run),
       (''started_at'', JStr (ee_created_at env (rs_run_id run))),
       (''tests'', payload_of events ''build_test_verdict''),
       (''sandbox_isolation'', payload_of events ''sandbox_isolation''),
       (''verifications'', json_or (json_get (payload_of events ''verifiers_completed'') ''verifications'') (JList [])),
       (''preview_url'', json_or (json_get (payload_of events ''preview_published'') ''url'') (JStr [])),
       (''caveats'', JList (map JStr (caveats_of row events))),
       (''events'', JList (map (event_row env) events))])"

record evidence =
  ed_run_id :: uuid
  ed_digest :: string
  ed_document :: json

definition run_not_found :: "uuid \<Rightarrow> error" where
  "run_not_found run_id = OtherError ''RunNotFound'' (''no run '' @ run_id)"

definition assemble :: "evidence_env \<Rightarrow> audit_db \<Rightarrow> uuid \<Rightarrow> evidence res" where
  "assemble env db run_id =
    (case db_runs db run_id of
       None \<Rightarrow> Inl (run_not_found run_id)
     | Some row \<Rightarrow>
         let document = document_of env row (ordered_events db run_id)
         in Inr \<lparr> ed_run_id = run_id, ed_digest = digest_of env document, ed_document = document \<rparr>)"

section \<open>The decision\<close>

record decision =
  dc_approved :: bool
  dc_evidence_digest :: string
  dc_comment :: string

datatype decided_as =
    HttpError nat string
  | Signalled string approval_signal

text \<open>
  \<open>POST /api/runs/{id}/approval\<close>.  The evidence is assembled from one reading of the tables
  (\<open>db\<close>) and the status from a later one (\<open>db'\<close>); \<open>unreachable\<close> is the failure of the
  workflow service, if it fails.
\<close>

definition decide_run :: "evidence_env \<Rightarrow> audit_db \<Rightarrow> audit_db \<Rightarrow> (string \<Rightarrow> approval_signal \<Rightarrow> string option)
    \<Rightarrow> uuid \<Rightarrow> decision \<Rightarrow> string \<Rightarrow> decided_as" where
  "decide_run env db db' unreachable run_id body email =
    (case assemble env db run_id of
       Inl e \<Rightarrow> HttpError 404 (err_msg e)
     | Inr evidence \<Rightarrow>
         if ed_digest evidence \<noteq> dc_evidence_digest body then
           HttpError 409 (''the evidence changed after this page was loaded, so this decision would be ''
             @ ''recorded against something you did not read. Reload and decide again.'')
         else
           let status = map_option rw_status (db_runs db' run_id)
           in if status \<noteq> Some ''suspended'' then
                HttpError 409 (''this run is '' @ (case status of None \<Rightarrow> ''None'' | Some s \<Rightarrow> s)
                  @ ''; it is not waiting for a decision'')
              else
                let workflow_id = rs_workflow_id (rw_started (the (db_runs db' run_id)));
                    signal = \<lparr> sg_principal = email, sg_approved = dc_approved body,
                               sg_evidence_digest = ed_digest evidence, sg_comment = dc_comment body \<rparr>
                in (case unreachable workflow_id signal of
                      Some m \<Rightarrow> HttpError 503 (''the Flow Engine is unreachable: '' @ m)
                    | None \<Rightarrow> Signalled workflow_id signal))"

section \<open>Reading the trail\<close>

lemma insert_by_least: "\<forall>y \<in> set xs. f x \<le> f y \<Longrightarrow> insert_by f x xs = x # xs"
  by (cases xs) auto

lemma sorted_by_id: "sorted (map f xs) \<Longrightarrow> sorted_by f xs = xs"
  by (induction xs) (auto simp: insert_by_least)

lemma ordered_events_log:
  assumes "wf_log g"
  shows "ordered_events (wf_db g) (wf_run_id g) = log_of g"
proof -
  have "sorted (map ev_seq (log_of g))"
    using assms unfolding wf_log_def by (simp del: upt_Suc)
  then show ?thesis by (simp add: ordered_events_def log_of_def sorted_by_id)
qed

lemma payload_of_append:
  "payload_of (xs @ ys) kind =
     (if \<exists>e \<in> set ys. ev_kind e = kind then payload_of ys kind else payload_of xs kind)"
proof (cases "\<exists>e \<in> set ys. ev_kind e = kind")
  case True
  then have "filter (\<lambda>e. ev_kind e = kind) ys \<noteq> []" by (auto simp: filter_empty_conv)
  then obtain zs z where "filter (\<lambda>e. ev_kind e = kind) ys = zs @ [z]" by (metis rev_exhaust)
  then show ?thesis
    using True py_last_append[of "filter (\<lambda>e. ev_kind e = kind) xs @ zs" z]
    by (auto simp add: payload_of_def simp flip: append_assoc)
next
  case False
  then have "filter (\<lambda>e. ev_kind e = kind) ys = []" by (auto simp: filter_empty_conv)
  with False show ?thesis by (simp add: payload_of_def)
qed

text \<open>The latest payload of a kind in the flow's own trail.\<close>

definition latest :: "string \<Rightarrow> flow \<Rightarrow> json" where
  "latest kind f = payload_of (log_of f) kind"

lemma latest_emit:
  "wf_log f \<Longrightarrow> latest kind (emit k n p c f) = (if k = kind then p else latest kind f)"
  by (simp add: latest_def log_emit payload_of_append) (simp add: payload_of_def)

lemma latest_sync [simp]:
  "latest kind (sync st f) = latest kind f" "latest kind (f\<lparr> wf_node := x \<rparr>) = latest kind f"
  "latest kind (f\<lparr> wf_approvals := a \<rparr>) = latest kind f" "latest kind (set_status s f) = latest kind f"
  "latest kind (f\<lparr> wf_status := s \<rparr>) = latest kind f" "latest kind (f\<lparr> wf_notices := ns \<rparr>) = latest kind f"
  by (simp_all add: latest_def)

text \<open>Steps that record no event of the given kinds.\<close>

abbreviation silent :: "string list \<Rightarrow> flow \<Rightarrow> flow \<Rightarrow> bool" where
  "silent kinds \<equiv> grows (\<lambda>k n c. k \<notin> set kinds)"

lemma latest_silent:
  assumes "silent kinds f g" "kind \<in> set kinds" "wf_log f"
  shows "latest kind g = latest kind f"
proof -
  obtain es where "log_of g = log_of f @ es" "list_all (event_ok (\<lambda>k n c. k \<notin> set kinds)) es"
    using assms unfolding grows_def by blast
  moreover from this have "\<not> (\<exists>e \<in> set es. ev_kind e = kind)"
    using assms(2) by (auto simp: list_all_iff event_ok_def)
  ultimately show ?thesis by (simp add: latest_def payload_of_append)
qed

lemma silent_log: "silent kinds f g \<Longrightarrow> wf_log f \<Longrightarrow> wf_log g"
  by (simp add: grows_def)

definition verdict_payload :: "flow_state \<Rightarrow> ci_result \<Rightarrow> json" where
  "verdict_payload st r = JObj
     [(''exit_code'', JInt (cr_exit_code r)), (''source'', JStr (source_str (cr_source r))),
      (''duration_ms'', JInt (cr_duration_ms r)), (''url'', jopt (cr_url r)),
      (''independent_anchor'', JBool (is_external_anchor r)),
      (''sandbox_exit_code'', (case fs_sandbox_result st of None \<Rightarrow> JNull | Some s \<Rightarrow> JInt (cr_exit_code s))),
      (''ci_detail'', jopt (fs_ci_detail st))]"

interpretation any_event: coder_policy "\<lambda>k n c. True"
  by unfold_locales simp_all

lemma coder_pass_verdict:
  assumes "coder_pass env a st f = (Inr s, g)" "wf_log f"
  shows "\<exists>h. wf_log h \<and> g = emit_verdict s h"
proof -
  let ?f0 = "sync (st\<lparr> fs_push_attempt := a \<rparr>) f"
  obtain s1 f1 s2 f2 f3 where
    c: "node_step env ''coder'' (st\<lparr> fs_push_attempt := a \<rparr>) ?f0 = (Inr s1, f1)"
    and p: "node_step env ''push'' s1 f1 = (Inr s2, f2)"
    and b: "node_step env ''build_test'' s2 (record_push a s2 f2) = (Inr s, f3)"
    and g: "g = emit_verdict s f3"
    using assms(1) by (auto simp: coder_pass_def Let_def bind_step_Inr)
  have step: "node_step env n x f = (r, g) \<Longrightarrow> wf_log f \<Longrightarrow> wf_log g" for n x f r g
    using grows_node_step[of "\<lambda>k n c. True" n f env x] by (simp add: grows_def)
  have "wf_log ?f0" using assms(2) by (simp add: wf_log_def)
  then have "wf_log f2" using step[OF c] step[OF p] by simp
  then have "wf_log (record_push a s2 f2)"
    using any_event.plain_record_push[of f2 a s2] by (simp add: grows_def)
  then have "wf_log f3" using step[OF b] by simp
  with g show ?thesis by blast
qed

text \<open>The Coder loop hands on a state whose verdict is the latest one on the trail.\<close>

lemma coder_loop_verdict:
  assumes "coder_loop env as st f = (Inr st', f')" "wf_log f"
  shows "wf_log f' \<and> (\<exists>r. fs_ci_result st' = Some r \<and> latest ''build_test_verdict'' f' = verdict_payload st' r)"
  using assms
proof (induction as arbitrary: st f)
  case (Cons a as)
  obtain s g where p: "coder_pass env a st f = (Inr s, g)"
    and rest: "(if tests_passed s then (Inr s, g) else coder_loop env as s g) = (Inr st', f')"
    using Cons.prems(1) by (auto simp: bind_step_Inr)
  have "grows (\<lambda>k n c. True) f (snd (coder_pass env a st f))" by (rule any_event.plain_coder_pass)
  then have g: "wf_log g" using Cons.prems(2) p by (simp add: grows_def)
  show ?case
  proof (cases "tests_passed s")
    case False
    then show ?thesis using rest Cons.IH[OF _ g] by simp
  next
    case True
    obtain h where "wf_log h" "g = emit_verdict s h"
      using coder_pass_verdict[OF p Cons.prems(2)] by blast
    then show ?thesis using True rest g
      by (auto simp: tests_passed_def emit_verdict_def latest_emit verdict_payload_def split: option.splits)
  qed
qed simp

lemma wf_log_sync [simp]: "wf_log (sync st f) = wf_log f"
  by (simp add: wf_log_def)

lemma isolation_on_trail:
  assumes "wf_log f"
  shows "wf_log (emit_isolation st f)"
    and "silent [''build_test_verdict''] f (emit_isolation st f)"
    and "fs_sandbox_isolation st = Some i \<Longrightarrow> latest ''sandbox_isolation'' (emit_isolation st f) =
      JObj [(''state'', JStr (isolation_str i)), (''gaps'', JList (map JStr (fs_sandbox_gaps st)))]"
  using assms by (auto simp: emit_isolation_def wf_log_emit latest_emit grows_emit split: option.split)

lemma tier_on_trail:
  assumes "wf_log f" "settle_tier params st f = (st', f')"
  shows "wf_log f' \<and> silent [''build_test_verdict'', ''sandbox_isolation''] f f' \<and>
    json_get (latest ''risk_tier_final'' f') ''tier'' = JStr (tier_str (fs_risk_tier st')) \<and>
    (\<exists>t r p. st' = st\<lparr> fs_risk_tier := t, fs_risk_tier_reason := r, fs_provisional_risk_tier := p \<rparr>)"
  using assms
  by (auto simp: settle_tier_def Let_def latest_emit json_get_def wf_log_emit split: prod.splits
      intro!: grows_from_update(3)[OF grows_emit])

lemma verify_on_trail:
  assumes "wf_log f" "verify env st f = (Inr st', f')"
  shows "wf_log f' \<and> silent [''build_test_verdict'', ''sandbox_isolation'', ''risk_tier_final''] f f' \<and>
    json_get (latest ''verifiers_completed'' f') ''verifications'' =
      JList (map verification_json (fs_verifications st')) \<and>
    (\<exists>spend vs. st' = st\<lparr> fs_spend_micro_cents := spend, fs_verifications := vs \<rparr>)"
proof -
  let ?S = "silent [''build_test_verdict'', ''sandbox_isolation'', ''risk_tier_final'']"
  let ?f1 = "(emit ''verifiers_started'' None (JObj [(''count'', JInt (int (length VERIFIERS)))]) None f)
    \<lparr> wf_node := Some (last VERIFIERS) \<rparr>"
  obtain f2 where c: "completions env (Suc (wf_seq f)) (verifier_brief st) (en_fan_order env) None ?f1 = (None, f2)"
    using assms(2) by (auto simp: verify_def Let_def split: prod.splits option.splits if_splits)
  let ?rs = "fan_results env (Suc (wf_seq f)) (verifier_brief st)"
  let ?f3 = "emit_verdicts ?rs f2"
  have f': "\<exists>p. f' = sync st' (emit ''verifiers_completed'' None
      (JObj [p, (''of'', JInt (int (length VERIFIERS))),
         (''falsified_by'', JList (map JStr (map vf_verifier (filter (\<lambda>v. \<not> vf_passed v) (fs_verifications st'))))),
         (''verifications'', JList (map verification_json (fs_verifications st')))]) None ?f3) \<and> fst p = ''passed''"
    using assms(2) c by (auto simp: verify_def Let_def split: if_splits)
  then obtain p where f'p: "f' = sync st' (emit ''verifiers_completed'' None
      (JObj [p, (''of'', JInt (int (length VERIFIERS))),
         (''falsified_by'', JList (map JStr (map vf_verifier (filter (\<lambda>v. \<not> vf_passed v) (fs_verifications st'))))),
         (''verifications'', JList (map verification_json (fs_verifications st')))]) None ?f3)" "fst p = ''passed''"
    by blast
  have "?S f ?f1" by (rule grows_to_update(1)) (rule grows_emit, simp)
  moreover have "?S ?f1 f2"
    using grows_completions[of "en_fan_order env" "\<lambda>k n c. k \<notin> set [''build_test_verdict'', ''sandbox_isolation'', ''risk_tier_final'']"
        ?f1 env "Suc (wf_seq f)" "verifier_brief st" None] c by simp
  moreover have "?S f2 ?f3" by (rule grows_emit_verdicts) simp
  ultimately have f3: "?S f ?f3" by (blast intro: grows_trans)
  have "?S ?f3 f'" unfolding f'p(1) by (rule grows_sync) (rule grows_emit, simp)
  with f3 have s: "?S f f'" by (rule grows_trans)
  have "wf_log ?f3" using silent_log[OF f3 assms(1)] .
  then have "json_get (latest ''verifiers_completed'' f') ''verifications'' =
      JList (map verification_json (fs_verifications st'))"
    using f'p(2) by (cases p) (simp add: f'p(1) latest_emit json_get_def)
  then show ?thesis using s silent_log[OF s assms(1)] verify_Inr[OF assms(2)] by blast
qed

lemma judge_on_trail:
  assumes "wf_log f" "judge_verdicts params st f = (Inr st', f')"
  shows "wf_log f' \<and> silent [''build_test_verdict'', ''sandbox_isolation'', ''risk_tier_final'', ''verifiers_completed''] f f' \<and>
    (overridden params st \<noteq> [] \<longrightarrow> json_get (latest ''verifier_overridden'' f') ''advisory'' =
      JList (map JStr (overridden params st)))"
  using assms
  by (auto simp: judge_verdicts_def Let_def latest_emit json_get_def wf_log_emit split: if_splits
      intro!: grows_from_update(3)[OF grows_emit] grows_sync)

lemma gate_open_on_trail:
  assumes "wf_log f"
  shows "wf_log (gate_open env st f)"
    and "silent [''build_test_verdict'', ''sandbox_isolation'', ''risk_tier_final'', ''verifiers_completed'',
           ''verifier_overridden''] f (gate_open env st f)"
proof -
  let ?P = "\<lambda>k n c. k \<notin> set [''build_test_verdict'', ''sandbox_isolation'', ''risk_tier_final'',
    ''verifiers_completed'', ''verifier_overridden'']"
  let ?f0 = "f\<lparr> wf_approvals := wf_approvals f @ en_early env \<rparr>"
  have "grows ?P f ?f0" by (rule grows_to_update(3)) simp
  moreover have "grows ?P ?f0 (emit_preview env st ?f0)"
    by (auto simp: emit_preview_def intro!: grows_emit)
  moreover have "grows ?P (emit_preview env st ?f0) (gate_open env st f)"
    unfolding gate_open_def by (rule grows_emit) simp
  ultimately show s: "grows ?P f (gate_open env st f)" by (blast intro: grows_trans)
  then show "wf_log (gate_open env st f)" using assms by (rule silent_log)
qed

section \<open>Sorting keys keeps what a document says\<close>

lemma map_of_insert_item:
  "k \<notin> fst ` set kvs \<Longrightarrow> map_of (insert_item (k, v) kvs) = (map_of kvs)(k \<mapsto> v)"
  by (induction kvs) (auto simp: fun_eq_iff)

lemma fst_insert_item: "fst ` set (insert_item x kvs) = insert (fst x) (fst ` set kvs)"
  by (induction kvs) auto

lemma fst_sort_items: "fst ` set (sort_items kvs) = fst ` set kvs"
proof (induction kvs)
  case (Cons x kvs)
  then show ?case by (cases x) (simp add: fst_insert_item)
qed simp

lemma map_of_sort_items:
  "distinct (map fst kvs) \<Longrightarrow> map_of (sort_items kvs) = map_option sort_keys \<circ> map_of kvs"
proof (induction kvs)
  case (Cons x kvs)
  obtain k v where x: "x = (k, v)" by (cases x)
  have "k \<notin> fst ` set (sort_items kvs)" using Cons.prems by (simp add: x fst_sort_items)
  then show ?case using Cons by (auto simp: x map_of_insert_item fun_eq_iff)
qed (simp add: fun_eq_iff)

lemma json_get_sort_keys:
  "distinct (map fst kvs) \<Longrightarrow> json_get (sort_keys (JObj kvs)) k = sort_keys (json_get (JObj kvs) k)"
  by (simp add: json_get_def map_of_sort_items split: option.split)

lemma length_sort_list: "sort_list xs = sort_list ys \<Longrightarrow> length xs = length ys"
proof -
  have "length (sort_list zs) = length zs" for zs by (induction zs) simp_all
  then show "sort_list xs = sort_list ys \<Longrightarrow> length xs = length ys" by metis
qed

lemma document_events: "json_get (document_of env row events) ''events'' = JList (map (event_row env) events)"
  by (simp add: document_of_def Let_def json_get_def)

lemma document_tier:
  "json_get (document_of env row events) ''risk_tier'' =
     json_or (json_get (payload_of events ''risk_tier_final'') ''tier'') (JStr (tier_str (rs_risk_tier (rw_started row))))"
  by (simp add: document_of_def Let_def json_get_def)

lemma document_verifications:
  "json_get (document_of env row events) ''verifications'' =
     json_or (json_get (payload_of events ''verifiers_completed'') ''verifications'') (JList [])"
  by (simp add: document_of_def Let_def json_get_def)

lemma document_same_events:
  assumes "sort_keys (document_of env row events) = sort_keys (document_of env row' events')"
  shows "length events = length events'"
proof -
  have d: "json_get (sort_keys (document_of env r es)) ''events'' = JList (sort_list (map (event_row env) es))" for r es
  proof -
    obtain kvs where k: "document_of env r es = JObj kvs" "distinct (map fst kvs)"
      unfolding document_of_def Let_def by simp
    have "json_get (sort_keys (JObj kvs)) ''events'' = sort_keys (json_get (JObj kvs) ''events'')"
      by (rule json_get_sort_keys[OF k(2)])
    then show ?thesis using document_events[of env r es] unfolding k(1) by (metis sort_keys.simps(1))
  qed
  from d[of row events] d[of row' events'] assms show ?thesis by (auto dest: length_sort_list)
qed

section \<open>Properties\<close>

text \<open>
  C32. A page without a caveat is a change on which every control held: no disarmed reviewer
  objected, no reviewer that let the change through left a finding, the tests were graded by the
  project's pipeline, the sandbox was not degraded, the commit is running somewhere and the policy
  was pinned.  Any one of these failing puts its caveat on the page.
\<close>

theorem clean_page_iff_every_control_held:
  "caveats_of row events = [] \<longleftrightarrow>
     json_items (json_get (payload_of events ''verifier_overridden'') ''advisory'') = [] \<and>
     quiet_findings (json_items (json_get (payload_of events ''verifiers_completed'') ''verifications'')) = [] \<and>
     json_get (payload_of events ''build_test_verdict'') ''source'' = JStr ''ci'' \<and>
     json_get (payload_of events ''sandbox_isolation'') ''state'' \<noteq> JStr ''degraded'' \<and>
     json_str (json_or (json_get (payload_of events ''preview_published'') ''url'') (JStr [])) \<noteq> [] \<and>
     \<not> starts_with ''unpinned:'' (rs_policy_commit (rw_started row))"
proof -
  have t: "json_get v ''source'' = JStr ''ci'' \<Longrightarrow> json_truthy v" for v
    by (auto simp: json_get_def split: json.splits option.splits)
  then show ?thesis by (auto simp: caveats_of_def caveats_def Let_def)
qed


text \<open>
  C23. A decision is bound to the evidence it was made on.  A signal reaches the flow only for a
  suspended run, in the name of the authenticated user, with the digest the client sent; and a
  page with that digest is the page the tables give at that moment, key order apart, unless the
  hash collides on the two texts.
\<close>

theorem decision_is_bound_to_its_evidence:
  assumes "decide_run env db db' unreachable run_id body email = Signalled workflow_id signal"
  shows "\<exists>row row'. db_runs db run_id = Some row \<and> db_runs db' run_id = Some row' \<and>
    rw_status row' = ''suspended'' \<and> workflow_id = rs_workflow_id (rw_started row') \<and>
    sg_principal signal = email \<and> sg_approved signal = dc_approved body \<and>
    sg_evidence_digest signal = dc_evidence_digest body \<and>
    (\<forall>page. digest_of env page = dc_evidence_digest body \<longrightarrow>
       sort_keys page = sort_keys (document_of env row (ordered_events db run_id)) \<or>
       (canonical page \<noteq> canonical (document_of env row (ordered_events db run_id)) \<and>
        ee_sha256 env (canonical page) =
          ee_sha256 env (canonical (document_of env row (ordered_events db run_id)))))"
proof -
  obtain row where row: "db_runs db run_id = Some row"
    using assms by (auto simp: decide_run_def assemble_def split: option.splits)
  let ?d = "document_of env row (ordered_events db run_id)"
  obtain row' where row': "db_runs db' run_id = Some row'" "rw_status row' = ''suspended''"
    and dg: "digest_of env ?d = dc_evidence_digest body"
    and w: "workflow_id = rs_workflow_id (rw_started row')"
    and s: "signal = \<lparr> sg_principal = email, sg_approved = dc_approved body,
              sg_evidence_digest = digest_of env ?d, sg_comment = dc_comment body \<rparr>"
    using assms row by (auto simp: decide_run_def assemble_def Let_def split: if_splits option.splits)
  have "digest_of env page = dc_evidence_digest body \<longrightarrow>
       sort_keys page = sort_keys ?d \<or>
       (canonical page \<noteq> canonical ?d \<and> ee_sha256 env (canonical page) = ee_sha256 env (canonical ?d))" for page
    using canonical_eq[of page ?d] dg by (auto simp: digest_of_def)
  then show ?thesis using row row' dg w s by auto
qed

text \<open>
  A stale page is refused: once the trail of the run has one more event than the page shows, a
  decision sent with the page's digest is answered with a conflict and no signal is sent, unless
  the hash collides.
\<close>

theorem stale_page_is_refused:
  assumes "db_runs db run_id = Some row" and "\<not> has_event db run_id (ev_seq e)" and "ev_run_id e = run_id"
    and "dc_evidence_digest body = digest_of env (document_of env row (ordered_events db run_id))"
    and "inj (ee_sha256 env)"
  shows "\<exists>m. decide_run env (record_event e db) db' unreachable run_id body email = HttpError 409 m"
proof -
  let ?db = "record_event e db"
  let ?old = "document_of env row (ordered_events db run_id)"
  let ?new = "document_of env row (ordered_events ?db run_id)"
  have "run_events ?db run_id = run_events db run_id @ [e]"
    using assms(2,3) by (simp add: record_event_def run_events_def)
  then have "length (ordered_events ?db run_id) \<noteq> length (ordered_events db run_id)"
    by (simp add: ordered_events_def)
  then have "sort_keys ?new \<noteq> sort_keys ?old" using document_same_events by blast
  then have "canonical ?new \<noteq> canonical ?old" using canonical_eq by blast
  then have d: "digest_of env ?new \<noteq> digest_of env ?old"
    using assms(5) by (simp add: digest_of_def inj_eq)
  have "db_runs ?db run_id = Some row" using assms(1) by (simp add: record_event_def)
  then show ?thesis using d assms(4) by (simp add: decide_run_def assemble_def Let_def)
qed

section \<open>On a small run\<close>

text \<open>A run whose sandbox passes the tests without full isolation.\<close>

definition mark_degraded :: "flow_state \<Rightarrow> flow_state" where
  "mark_degraded st = st\<lparr> fs_sandbox_isolation := Some Degraded, fs_sandbox_gaps := [''CPU quota''],
     fs_ci_result := Some \<lparr> cr_exit_code = 0, cr_source = SourceSandbox, cr_url = None, cr_duration_ms = 0 \<rparr> \<rparr>"

definition degraded_env :: flow_env where
  "degraded_env = sample_env\<lparr> en_exec := (\<lambda>n s k st. Inr (mark_degraded st)) \<rparr>"

lemma degraded_execute: "execute degraded_env n q st = Inr (mark_degraded st)"
  by (simp add: execute_def execute_counted_def MAX_ATTEMPTS_def numeral_2_eq_2 degraded_env_def)

lemma degraded_node: "\<exists>f'. node_step degraded_env n st f = (Inr ((mark_degraded st)\<lparr> fs_notes := None \<rparr>), f')"
  by (simp add: node_step_def Let_def degraded_execute)

lemma degraded_pass:
  "\<exists>s g. coder_pass degraded_env a st f = (Inr s, g) \<and> tests_passed s \<and> fs_sandbox_isolation s = Some Degraded \<and>
     fs_sandbox_gaps s = [''CPU quota''] \<and> fs_verifications s = fs_verifications st"
proof -
  let ?st0 = "st\<lparr> fs_push_attempt := a \<rparr>"
  obtain f1 where 1: "node_step degraded_env ''coder'' ?st0 (sync ?st0 f) = (Inr ((mark_degraded ?st0)\<lparr> fs_notes := None \<rparr>), f1)"
    using degraded_node by blast
  let ?s1 = "(mark_degraded ?st0)\<lparr> fs_notes := None \<rparr>"
  obtain f2 where 2: "node_step degraded_env ''push'' ?s1 f1 = (Inr ((mark_degraded ?s1)\<lparr> fs_notes := None \<rparr>), f2)"
    using degraded_node by blast
  let ?s2 = "(mark_degraded ?s1)\<lparr> fs_notes := None \<rparr>"
  obtain f3 where 3: "node_step degraded_env ''build_test'' ?s2 (record_push a ?s2 f2) =
      (Inr ((mark_degraded ?s2)\<lparr> fs_notes := None \<rparr>), f3)"
    using degraded_node by blast
  show ?thesis
    by (simp add: coder_pass_def Let_def 1 2 3 bind_step_def) (simp add: mark_degraded_def tests_passed_def)
qed

lemma degraded_verify:
  "\<exists>s g. verify degraded_env st f = (Inr s, g) \<and> fs_verifications s = fs_verifications st"
proof -
  have "verify degraded_env st f = verify_all_ok degraded_env st f"
    by (rule verify_ok) (simp_all add: degraded_execute, simp add: degraded_env_def sample_env_def)
  moreover have "v \<in> set (fan_results degraded_env q (verifier_brief st)) \<Longrightarrow> fs_verifications (snd v) = []" for v q
    by (auto simp: fan_results_def degraded_execute List.map_filter_def mark_degraded_def verifier_brief_def new_flow_state_def)
  ultimately show ?thesis
    by (auto simp: verify_all_ok_def Let_def)
qed

definition degraded_row :: run_row where
  "degraded_row = \<lparr> rw_started = start_row degraded_env sample_input, rw_status = ''suspended'', rw_ended = False \<rparr>"


definition waiting_db :: audit_db where
  "waiting_db = empty_db\<lparr> db_runs := [''r'' \<mapsto> degraded_row] \<rparr>"

definition plain_evidence_env :: evidence_env where
  "plain_evidence_env = \<lparr> ee_app_name = (\<lambda>a. Some ''App''), ee_created_at = (\<lambda>r. ''2026-08-29''),
     ee_occurred_at = (\<lambda>r n. ''2026-08-29''), ee_sha256 = (\<lambda>t. t) \<rparr>"

definition approving :: decision where
  "approving = \<lparr> dc_approved = True, dc_evidence_digest =
     digest_of plain_evidence_env (document_of plain_evidence_env degraded_row (ordered_events waiting_db ''r'')),
     dc_comment = ''ok'' \<rparr>"

lemma decision_is_bound_to_its_evidence_witness:
  "\<exists>w signal. decide_run plain_evidence_env waiting_db waiting_db (\<lambda>w s. None) ''r'' approving ''ann@x'' =
     Signalled w signal \<and> sg_principal signal = ''ann@x'' \<and> sg_approved signal"
proof -
  obtain w signal where "decide_run plain_evidence_env waiting_db waiting_db (\<lambda>w s. None) ''r'' approving ''ann@x'' =
     Signalled w signal"
    by (simp add: decide_run_def assemble_def waiting_db_def approving_def degraded_row_def Let_def)
  with decision_is_bound_to_its_evidence[OF this] show ?thesis
    by (auto simp: approving_def)
qed

lemma stale_page_is_refused_witness:
  "\<exists>m. decide_run plain_evidence_env
     (record_event \<lparr> ev_run_id = ''r'', ev_seq = 1, ev_kind = ''gate_reached'', ev_node_id = None,
        ev_payload = JObj [], ev_control_mode = None \<rparr> waiting_db)
     waiting_db (\<lambda>w s. None) ''r'' approving ''ann@x'' = HttpError 409 m"
  by (rule stale_page_is_refused[where row = degraded_row])
    (simp_all add: waiting_db_def empty_db_def has_event_def approving_def plain_evidence_env_def)

end
