(* ===== verification/Config.thy ===== *)
theory Config
  imports Ci
begin

text \<open>
  engine/config.py: from the text of a kuwarden.yaml to an application's configuration.  PyYAML is
  the function \<open>ye_load\<close>; a value of it is a \<open>yaml\<close>, whose mappings have string keys.  What the
  parser does with a value Python would accept and a reader would not expect (a boolean for a
  number, a string where a list of strings is meant) is written out.
\<close>

section \<open>Values\<close>

datatype yaml =
    YNull
  | YBool bool
  | YInt int
  | YFloat rat
  | YStr string
  | YList "yaml list"
  | YMap "(string \<times> yaml) list"

text \<open>
  The parser of the text, \<open>float(text)\<close> where it is a finite number, and the text of a float.
\<close>

record yaml_env =
  ye_load :: "string \<Rightarrow> string + yaml"
  ye_float_of_str :: "string \<Rightarrow> rat option"
  ye_float_text :: "rat \<Rightarrow> string"

fun yaml_repr :: "yaml_env \<Rightarrow> yaml \<Rightarrow> string" and yaml_reprs :: "yaml_env \<Rightarrow> yaml list \<Rightarrow> string list"
  and yaml_item_reprs :: "yaml_env \<Rightarrow> (string \<times> yaml) list \<Rightarrow> string list" where
  "yaml_repr e YNull = ''None''"
| "yaml_repr e (YBool b) = (if b then ''True'' else ''False'')"
| "yaml_repr e (YInt i) = string_of_int i"
| "yaml_repr e (YFloat x) = ye_float_text e x"
| "yaml_repr e (YStr s) = repr_str s"
| "yaml_repr e (YList xs) = ''['' @ py_join '', '' (yaml_reprs e xs) @ '']''"
| "yaml_repr e (YMap kvs) = ''{'' @ py_join '', '' (yaml_item_reprs e kvs) @ ''}''"
| "yaml_reprs e [] = []"
| "yaml_reprs e (x # xs) = yaml_repr e x # yaml_reprs e xs"
| "yaml_item_reprs e [] = []"
| "yaml_item_reprs e ((k, v) # kvs) = (repr_str k @ '': '' @ yaml_repr e v) # yaml_item_reprs e kvs"

fun yaml_str :: "yaml_env \<Rightarrow> yaml \<Rightarrow> string" where
  "yaml_str e (YStr s) = s"
| "yaml_str e v = yaml_repr e v"

fun yaml_truthy :: "yaml \<Rightarrow> bool" where
  "yaml_truthy YNull = False"
| "yaml_truthy (YBool b) = b"
| "yaml_truthy (YInt i) = (i \<noteq> 0)"
| "yaml_truthy (YFloat x) = (x \<noteq> 0)"
| "yaml_truthy (YStr s) = (s \<noteq> [])"
| "yaml_truthy (YList xs) = (xs \<noteq> [])"
| "yaml_truthy (YMap kvs) = (kvs \<noteq> [])"

fun yaml_type :: "yaml \<Rightarrow> string" where
  "yaml_type YNull = ''NoneType''"
| "yaml_type (YBool b) = ''bool''"
| "yaml_type (YInt i) = ''int''"
| "yaml_type (YFloat x) = ''float''"
| "yaml_type (YStr s) = ''str''"
| "yaml_type (YList xs) = ''list''"
| "yaml_type (YMap kvs) = ''dict''"

text \<open>\<open>d.get(key, default)\<close> on a dictionary, and on a value that may not be one.\<close>

definition dict_get :: "(string \<times> yaml) list \<Rightarrow> string \<Rightarrow> yaml \<Rightarrow> yaml" where
  "dict_get d key dflt = (case map_of d key of Some v \<Rightarrow> v | None \<Rightarrow> dflt)"

definition any_get :: "yaml \<Rightarrow> string \<Rightarrow> yaml \<Rightarrow> yaml res" where
  "any_get v key dflt = (case v of YMap d \<Rightarrow> Inr (dict_get d key dflt)
     | _ \<Rightarrow> Inl (OtherError ''AttributeError'' (repr_str (yaml_type v) @ '' object has no attribute 'get'' @ [CHR 0x27])))"

text \<open>\<open>for x in value\<close>: a list gives its elements, a string its characters, a dictionary its keys.\<close>

definition any_iter :: "yaml \<Rightarrow> yaml list res" where
  "any_iter v = (case v of YList xs \<Rightarrow> Inr xs | YStr s \<Rightarrow> Inr (map (\<lambda>c. YStr [c]) s)
     | YMap d \<Rightarrow> Inr (map (YStr \<circ> fst) d)
     | _ \<Rightarrow> Inl (OtherError ''TypeError'' (repr_str (yaml_type v) @ '' object is not iterable'')))"

text \<open>
  \<open>int(value)\<close>: a float is cut towards zero; a string is white space, a sign and digits in which
  single underscores may stand.
\<close>

fun digits_of :: "bool \<Rightarrow> string \<Rightarrow> string option" where
  "digits_of after_digit [] = (if after_digit then Some [] else None)"
| "digits_of after_digit (c # cs) =
    (if 48 \<le> (of_char c :: nat) \<and> (of_char c :: nat) \<le> 57 then map_option ((#) c) (digits_of True cs)
     else if c = CHR ''_'' \<and> after_digit then digits_of False cs else None)"

definition int_of_str :: "string \<Rightarrow> int option" where
  "int_of_str s =
    (let t = py_strip s
     in case t of
          [] \<Rightarrow> None
        | c # cs \<Rightarrow>
            if c = CHR ''-'' then map_option (\<lambda>d. - int (digits_value d)) (digits_of False cs)
            else map_option (\<lambda>d. int (digits_value d)) (digits_of False (if c = CHR ''+'' then cs else t)))"

definition py_int :: "yaml \<Rightarrow> int res" where
  "py_int v = (case v of
     YInt i \<Rightarrow> Inr i
   | YBool b \<Rightarrow> Inr (if b then 1 else 0)
   | YFloat x \<Rightarrow> Inr (if x < 0 then - \<lfloor>- x\<rfloor> else \<lfloor>x\<rfloor>)
   | YStr s \<Rightarrow> (case int_of_str s of Some i \<Rightarrow> Inr i
       | None \<Rightarrow> Inl (OtherError ''ValueError'' (''invalid literal for int() with base 10: '' @ repr_str s)))
   | _ \<Rightarrow> Inl (OtherError ''TypeError'' (''int() argument must be a string, a bytes-like object or a real number, not ''
            @ repr_str (yaml_type v))))"

definition py_float :: "yaml_env \<Rightarrow> yaml \<Rightarrow> rat res" where
  "py_float e v = (case v of
     YInt i \<Rightarrow> Inr (of_int i)
   | YBool b \<Rightarrow> Inr (if b then 1 else 0)
   | YFloat x \<Rightarrow> Inr x
   | YStr s \<Rightarrow> (case ye_float_of_str e s of Some x \<Rightarrow> Inr x
       | None \<Rightarrow> Inl (OtherError ''ValueError'' (''could not convert string to float: '' @ repr_str s)))
   | _ \<Rightarrow> Inl (OtherError ''TypeError'' (''float() argument must be a string or a real number, not ''
            @ repr_str (yaml_type v))))"

fun map_res :: "('a \<Rightarrow> 'b res) \<Rightarrow> 'a list \<Rightarrow> 'b list res" where
  "map_res f [] = Inr []"
| "map_res f (x # xs) = and_then (f x) (\<lambda>y. and_then (map_res f xs) (\<lambda>ys. Inr (y # ys)))"

definition config_error :: "string \<Rightarrow> 'a res" where
  "config_error m = Inl (ConfigError m)"

section \<open>The sections\<close>

definition mapping :: "(string \<times> yaml) list \<Rightarrow> string \<Rightarrow> (string \<times> yaml) list res" where
  "mapping raw key = (case dict_get raw key YNull of YMap d \<Rightarrow> Inr d
     | _ \<Rightarrow> config_error (key @ '' must be a mapping''))"

definition sequence :: "(string \<times> yaml) list \<Rightarrow> string \<Rightarrow> string \<Rightarrow> yaml list res" where
  "sequence raw outer inner = and_then (mapping raw outer) (\<lambda>d.
     case dict_get d inner YNull of YList xs \<Rightarrow> Inr xs
     | _ \<Rightarrow> config_error (outer @ ''.'' @ inner @ '' must be a list''))"

text \<open>\<open>str(entry[key]) if entry.get(key) else None\<close>.\<close>

definition given_text :: "yaml_env \<Rightarrow> (string \<times> yaml) list \<Rightarrow> string \<Rightarrow> string option" where
  "given_text e d key = (let v = dict_get d key YNull in if yaml_truthy v then Some (yaml_str e v) else None)"

definition index_text :: "string \<Rightarrow> nat \<Rightarrow> string" where
  "index_text what i = what @ ''['' @ string_of_nat i @ '']''"

definition config_repo :: "yaml_env \<Rightarrow> yaml \<Rightarrow> nat \<Rightarrow> repo_config res" where
  "config_repo e entry i =
    (let here = index_text ''workspace.repos'' i
     in case entry of
       YMap d \<Rightarrow>
         let provider = yaml_str e (dict_get d ''provider'' (YStr []))
         in if provider \<notin> set [''github'', ''azure_repos''] then
              config_error (here @ ''.provider must be github or azure_repos, got '' @ repr_str provider)
            else if provider = ''azure_repos'' \<and> \<not> yaml_truthy (dict_get d ''project'' YNull) then
              config_error (here @ '' is azure_repos and needs a project'')
            else (case filter (\<lambda>k. \<not> yaml_truthy (dict_get d k YNull)) [''name'', ''org'', ''repo''] of
                required # _ \<Rightarrow> config_error (here @ ''.'' @ required @ '' is required'')
              | [] \<Rightarrow> Inr \<lparr> rc_name = yaml_str e (dict_get d ''name'' YNull), rc_provider = provider,
                  rc_org = yaml_str e (dict_get d ''org'' YNull), rc_repo = yaml_str e (dict_get d ''repo'' YNull),
                  rc_project = given_text e d ''project'', rc_path = yaml_str e (dict_get d ''path'' (YStr ''.'')) \<rparr>)
     | _ \<Rightarrow> config_error (here @ '' must be a mapping''))"

text \<open>
  \<open>max_story_points\<close> is taken as it stands; the record holds it when it is a number, and the
  value itself is kept beside the configuration.
\<close>

fun int_value :: "yaml \<Rightarrow> int option" where
  "int_value (YInt i) = Some i"
| "int_value (YBool b) = Some (if b then 1 else 0)"
| "int_value v = None"

definition config_trigger :: "yaml_env \<Rightarrow> yaml \<Rightarrow> nat \<Rightarrow> (trigger_config \<times> yaml) res" where
  "config_trigger e entry i =
    (let here = index_text ''triggers'' i
     in case entry of
       YMap d \<Rightarrow>
         let provider = yaml_str e (dict_get d ''provider'' (YStr []))
         in if provider \<notin> set [''jira'', ''azure_devops''] then
              config_error (here @ ''.provider must be jira or azure_devops, got '' @ repr_str provider)
            else if provider = ''jira'' \<and> \<not> yaml_truthy (dict_get d ''site'' YNull) then
              config_error (here @ '' is jira and needs a site url'')
            else if provider = ''azure_devops'' \<and> \<not> yaml_truthy (dict_get d ''organisation'' YNull) then
              config_error (here @ '' is azure_devops and needs an organisation'')
            else if \<not> yaml_truthy (dict_get d ''project'' YNull) then
              config_error (here @ ''.project is required'')
            else Inr (\<lparr> tc_provider = provider, tc_project = yaml_str e (dict_get d ''project'' YNull),
                tc_site = given_text e d ''site'', tc_account_email = given_text e d ''account_email'',
                tc_organisation = given_text e d ''organisation'', tc_label = given_text e d ''label'',
                tc_ready_state = given_text e d ''ready_state'',
                tc_max_story_points = int_value (dict_get d ''max_story_points'' YNull),
                tc_story_points_field = given_text e d ''story_points_field'' \<rparr>,
                dict_get d ''max_story_points'' YNull)
     | _ \<Rightarrow> config_error (here @ '' must be a mapping''))"

definition provider_of :: "yaml \<Rightarrow> llm_provider option" where
  "provider_of v = find (\<lambda>p. v = YStr (provider_str p)) [ANTHROPIC, AZURE_OPENAI, OPENAI_COMPATIBLE, BEDROCK]"

definition FORBIDDEN_KEYS :: "string list" where
  "FORBIDDEN_KEYS = [''api_key'', ''key'', ''token'', ''secret'']"

definition config_node_model :: "yaml_env \<Rightarrow> string \<times> yaml \<Rightarrow> (string \<times> node_model) res" where
  "config_node_model e item =
    (case snd item of
       YMap d \<Rightarrow>
         if \<not> yaml_truthy (dict_get d ''model'' YNull) then config_error (''llm.'' @ fst item @ '' needs a model'')
         else and_then (py_int (dict_get d ''max_tokens'' (YInt 8192))) (\<lambda>n.
           Inr (fst item, \<lparr> nm_model = yaml_str e (dict_get d ''model'' YNull),
                nm_effort = yaml_str e (dict_get d ''effort'' (YStr ''high'')), nm_max_tokens = n \<rparr>))
     | _ \<Rightarrow> config_error (''llm.'' @ fst item @ '' needs a model''))"

definition config_llm :: "yaml_env \<Rightarrow> yaml \<Rightarrow> llm_config option res" where
  "config_llm e raw =
    (case raw of
       YNull \<Rightarrow> Inr None
     | YMap d \<Rightarrow>
         if dict_get d ''provider'' YNull = YNull then
           config_error (''llm.provider must be declared explicitly (one of ''
             @ py_join '', '' (map provider_str [ANTHROPIC, AZURE_OPENAI, OPENAI_COMPATIBLE, BEDROCK]) @ '')'')
         else (case provider_of (dict_get d ''provider'' YNull) of
             None \<Rightarrow> config_error (''unknown llm.provider '' @ yaml_repr e (dict_get d ''provider'' YNull))
           | Some provider \<Rightarrow>
               (case filter (\<lambda>k. k \<in> fst ` set d) FORBIDDEN_KEYS of
                  forbidden # _ \<Rightarrow> config_error (''llm.'' @ forbidden @ '' must not appear in kuwarden.yaml; ''
                    @ ''credentials are resolved by the broker from the environment or the secret store'')
                | [] \<Rightarrow> and_then (map_res (config_node_model e)
                      (filter (\<lambda>(k, v). k \<notin> set [''provider'', ''base_url'']) d)) (\<lambda>per_node.
                    Inr (Some \<lparr> lc_provider = provider, lc_per_node = per_node,
                      lc_base_url = given_text e d ''base_url'' \<rparr>))))
     | _ \<Rightarrow> config_error ''llm must be a mapping'')"

fun insert_name_text :: "string \<Rightarrow> string list \<Rightarrow> string list" where
  "insert_name_text x [] = [x]"
| "insert_name_text x (y # ys) = (if code_le x y then x # y # ys else y # insert_name_text x ys)"

definition config_verification :: "yaml \<Rightarrow> string list res" where
  "config_verification raw =
    (case raw of
       YNull \<Rightarrow> Inr ALL_VERIFIERS
     | YMap r \<Rightarrow>
         (case dict_get r ''verifiers'' YNull of
            YNull \<Rightarrow> Inr ALL_VERIFIERS
          | YMap d \<Rightarrow>
              let unknown = filter (\<lambda>k. k \<notin> set ALL_VERIFIERS) (map fst d)
              in if unknown \<noteq> [] then
                   config_error (''unknown verifier(s) '' @ py_join '', '' (foldr insert_name_text unknown [])
                     @ ''; expected any of '' @ py_join '', '' ALL_VERIFIERS)
                 else Inr (filter (\<lambda>name. yaml_truthy (dict_get d name (YBool True))) ALL_VERIFIERS)
          | _ \<Rightarrow> config_error ''verification.verifiers must be a mapping of name to true/false'')
     | _ \<Rightarrow> config_error ''verification must be a mapping'')"

definition tier_of :: "yaml \<Rightarrow> risk_tier option" where
  "tier_of v = find (\<lambda>t. v = YStr (tier_str t)) [Low, Medium, High]"

definition unhashable :: "yaml \<Rightarrow> bool" where
  "unhashable v \<longleftrightarrow> (case v of YList xs \<Rightarrow> True | YMap d \<Rightarrow> True | _ \<Rightarrow> False)"

text \<open>\<open>isinstance(files, int)\<close> holds of a boolean, whose value is 0 or 1.\<close>

definition config_auto_merge :: "yaml_env \<Rightarrow> yaml \<Rightarrow> integration_model \<Rightarrow> auto_merge_config res" where
  "config_auto_merge e raw model =
    (case raw of
       YNull \<Rightarrow> Inr default_auto_merge
     | YMap d \<Rightarrow>
         let enabled = yaml_truthy (dict_get d ''enabled'' (YBool False));
             tier = dict_get d ''max_risk_tier'' (YStr ''low'');
             files = dict_get d ''max_files_changed'' YNull
         in if enabled \<and> model \<noteq> GATED_MERGE then
              config_error (''delivery.auto_merge is only available under integration_model: gated_merge ''
                @ [em_dash] @ '' this application declares '' @ model_str model
                @ '', where KuWarden holds no merge authority (ADR 0004)'')
            else if unhashable tier then
              Inl (OtherError ''TypeError'' (''unhashable type: '' @ repr_str (yaml_type tier)))
            else (case tier_of tier of
                None \<Rightarrow> config_error (''unknown auto_merge.max_risk_tier '' @ yaml_repr e tier
                  @ ''; expected one of '' @ py_join '', '' (map tier_str [Low, Medium, High]))
              | Some t \<Rightarrow>
                  if files \<noteq> YNull \<and> (case int_value files of None \<Rightarrow> True | Some n \<Rightarrow> n < 1) then
                    config_error ''auto_merge.max_files_changed must be a positive integer, or absent''
                  else Inr \<lparr> am_enabled = enabled, am_max_risk_tier = t, am_max_files_changed = int_value files,
                         am_require_external_anchor =
                           yaml_truthy (dict_get d ''require_external_anchor'' (YBool True)) \<rparr>)
     | _ \<Rightarrow> config_error ''delivery.auto_merge must be a mapping'')"

definition config_ci :: "yaml_env \<Rightarrow> yaml \<Rightarrow> ci_config option res" where
  "config_ci e raw =
    (case raw of
       YNull \<Rightarrow> Inr None
     | YMap d \<Rightarrow>
         let provider = yaml_str e (dict_get d ''provider'' (YStr []));
             declared = dict_get d ''required_workflows'' YNull
         in if provider \<noteq> ''github_actions'' then
              config_error (''ci.provider must be github_actions, got '' @ repr_str provider)
            else (case (if yaml_truthy declared then declared else YList []) of
                YList required \<Rightarrow>
                  and_then (py_int (dict_get d ''poll_s'' (YInt 15))) (\<lambda>poll_s.
                  if poll_s < 1 then config_error ''ci.poll_s must be at least 1 second''
                  else and_then (py_int (dict_get d ''wait_s'' (YInt 900))) (\<lambda>wait_s.
                       and_then (py_int (dict_get d ''grace_s'' (YInt 90))) (\<lambda>grace_s.
                       Inr (Some \<lparr> cc_provider = provider, cc_wait_s = wait_s, cc_poll_s = poll_s,
                         cc_grace_s = grace_s, cc_required_workflows = map (yaml_str e) required \<rparr>))))
              | _ \<Rightarrow> config_error ''ci.required_workflows must be a list of workflow names or paths'')
     | _ \<Rightarrow> config_error ''ci must be a mapping'')"

definition no_toolchain :: "string \<Rightarrow> string" where
  "no_toolchain missing = ''declares no '' @ missing @ '', so there is nothing to grade a change with. KuWarden will ''
     @ ''not guess: it used to default to a Python image running `pytest -q`, which meant a ''
     @ ''repository in any other language got a Build & Test verdict that had verified nothing. ''
     @ ''Build an image from this application's own dependency manifest '' @ [em_dash] @ '' `uv run python -m ''
     @ ''engine.sandbox build-app --recipe <ecosystem> --name <app> --manifest <checkout>` '' @ [em_dash] @ '' then ''
     @ ''declare `sandbox.toolchain_image` and `sandbox.test_command`.''"

definition config_sandbox :: "yaml_env \<Rightarrow> yaml \<Rightarrow> sandbox_config res" where
  "config_sandbox e raw =
    (case raw of
       YNull \<Rightarrow> config_error (no_toolchain ''sandbox: section'')
     | YMap d \<Rightarrow>
         let declared = dict_get d ''limits'' YNull;
             limits = (if yaml_truthy declared then declared else YMap []);
             image = dict_get d ''toolchain_image'' YNull
         in (case dict_get d ''test_command'' YNull of
               YNull \<Rightarrow> config_error (no_toolchain ''sandbox.test_command'')
             | YList command \<Rightarrow>
                 if \<not> yaml_truthy image then config_error (no_toolchain ''sandbox.toolchain_image'')
                 else
                   let limit = (\<lambda>key dflt. and_then (any_get limits key (YInt dflt)) py_int)
                   in and_then (limit ''memory_mb'' 2048) (\<lambda>memory_mb.
                      and_then (and_then (any_get limits ''cpus'' (YFloat 2)) (py_float e)) (\<lambda>cpus.
                      and_then (limit ''pids'' 256) (\<lambda>pids.
                      and_then (limit ''timeout_s'' 600) (\<lambda>timeout_s.
                      and_then (limit ''tmp_mb'' 512) (\<lambda>tmp_mb.
                      Inr \<lparr> sb_toolchain_image = yaml_str e image, sb_test_command = map (yaml_str e) command,
                        sb_memory_mb = memory_mb, sb_cpus = cpus, sb_pids = pids, sb_timeout_s = timeout_s,
                        sb_tmp_mb = tmp_mb,
                        sb_require_full_isolation = yaml_truthy (dict_get d ''require_full_isolation'' (YBool False)) \<rparr>)))))
             | _ \<Rightarrow> config_error ''sandbox.test_command must be a list of arguments, not a string'')
     | _ \<Rightarrow> config_error ''sandbox must be a mapping'')"

section \<open>The file\<close>

text \<open>\<open>version != 1\<close>: \<open>True\<close> and \<open>1.0\<close> are equal to 1.\<close>

definition is_version_1 :: "yaml \<Rightarrow> bool" where
  "is_version_1 v \<longleftrightarrow> v \<in> set [YInt 1, YBool True, YFloat 1]"

definition model_of :: "yaml \<Rightarrow> integration_model option" where
  "model_of v = find (\<lambda>m. v = YStr (model_str m)) [KUWARDEN_DEPLOYS, GATED_MERGE, GATED_DEPLOYMENT]"

text \<open>
  The configuration, and the three values the parser passes on as it found them: the two file
  counts of \<open>risk\<close> and each trigger's \<open>max_story_points\<close>.  The record holds them where they are
  numbers.
\<close>

record loaded =
  ld_config :: app_config
  ld_medium_changed_files :: yaml
  ld_high_changed_files :: yaml
  ld_max_story_points :: "yaml list"

definition texts_of :: "yaml_env \<Rightarrow> yaml \<Rightarrow> string \<Rightarrow> string list res" where
  "texts_of e section_value key =
     and_then (any_get section_value key (YList [])) (\<lambda>v.
     and_then (any_iter v) (\<lambda>xs. Inr (map (yaml_str e) xs)))"

definition or_empty :: "yaml \<Rightarrow> yaml" where
  "or_empty v = (if yaml_truthy v then v else YMap [])"

definition parse_risk :: "yaml_env \<Rightarrow> yaml \<Rightarrow> (risk_config \<times> yaml \<times> yaml) res" where
  "parse_risk e risk_raw =
     and_then (texts_of e risk_raw ''high_paths'') (\<lambda>high.
     and_then (texts_of e risk_raw ''medium_paths'') (\<lambda>medium.
     and_then (texts_of e risk_raw ''high_labels'') (\<lambda>labels.
     and_then (any_get risk_raw ''medium_changed_files'' YNull) (\<lambda>m.
     and_then (any_get risk_raw ''high_changed_files'' YNull) (\<lambda>h.
     Inr (\<lparr> rk_high_paths = high, rk_medium_paths = medium, rk_high_labels = labels,
            rk_medium_changed_files = int_value m, rk_high_changed_files = int_value h \<rparr>, m, h))))))"

definition parse_triggers :: "yaml_env \<Rightarrow> yaml \<Rightarrow> (trigger_config \<times> yaml) list res" where
  "parse_triggers e raw =
     and_then (any_iter (if yaml_truthy raw then raw else YList [])) (\<lambda>xs.
       map_res (\<lambda>(x, i). config_trigger e x i) (zip xs [0..<length xs]))"

definition parse_repos :: "yaml_env \<Rightarrow> (string \<times> yaml) list \<Rightarrow> repo_config list res" where
  "parse_repos e raw =
     and_then (sequence raw ''workspace'' ''repos'') (\<lambda>xs.
     and_then (map_res (\<lambda>(x, i). config_repo e x i) (zip xs [0..<length xs])) (\<lambda>repos.
       if repos = [] then config_error ''workspace.repos must contain at least one repository'' else Inr repos))"

definition parse_name :: "(string \<times> yaml) list \<Rightarrow> string res" where
  "parse_name raw = and_then (mapping raw ''app'') (\<lambda>app.
     case dict_get app ''name'' YNull of
       YStr name \<Rightarrow> if name = [] then config_error ''app.name is required'' else Inr name
     | _ \<Rightarrow> config_error ''app.name is required'')"

definition parse_model :: "yaml_env \<Rightarrow> (string \<times> yaml) list \<Rightarrow> integration_model res" where
  "parse_model e delivery =
    (let declared = dict_get delivery ''integration_model'' YNull
     in if declared = YNull then
          config_error (''delivery.integration_model must be declared explicitly (one of ''
            @ py_join '', '' (map model_str [KUWARDEN_DEPLOYS, GATED_MERGE, GATED_DEPLOYMENT]) @ '')'')
        else case model_of declared of
          None \<Rightarrow> config_error (''unknown integration_model '' @ yaml_repr e declared)
        | Some m \<Rightarrow> Inr m)"

definition parse_mapping :: "yaml_env \<Rightarrow> (string \<times> yaml) list \<Rightarrow> loaded res" where
  "parse_mapping e raw =
    (if \<not> is_version_1 (dict_get raw ''version'' YNull) then
       config_error (''unsupported kuwarden.yaml version '' @ yaml_repr e (dict_get raw ''version'' YNull) @ ''; expected 1'')
     else
       and_then (parse_name raw) (\<lambda>name.
       and_then (parse_repos e raw) (\<lambda>repos.
       and_then (parse_triggers e (dict_get raw ''triggers'' YNull)) (\<lambda>triggers.
       and_then (mapping raw ''delivery'') (\<lambda>delivery.
       and_then (parse_model e delivery) (\<lambda>model.
       and_then (config_auto_merge e (dict_get delivery ''auto_merge'' YNull) model) (\<lambda>auto_merge.
       and_then (config_verification (dict_get raw ''verification'' YNull)) (\<lambda>blocking.
       and_then (config_llm e (dict_get raw ''llm'' YNull)) (\<lambda>llm.
       and_then (config_sandbox e (dict_get raw ''sandbox'' YNull)) (\<lambda>sandbox.
       and_then (config_ci e (dict_get raw ''ci'' YNull)) (\<lambda>ci.
       and_then (any_get (dict_get raw ''toolchain'' (YMap [])) ''id'' (YStr ''none'')) (\<lambda>toolchain.
       and_then (parse_risk e (or_empty (dict_get raw ''risk'' YNull))) (\<lambda>(risk, m, h).
       and_then (and_then (any_get (or_empty (dict_get raw ''budgets'' YNull)) ''cents_per_run'' (YInt 0)) py_int) (\<lambda>cents.
       and_then (and_then (any_get (dict_get raw ''flow'' (YMap [])) ''max_coder_retries'' (YInt 3)) py_int) (\<lambda>retries.
       Inr \<lparr> ld_config = \<lparr> ac_name = name, ac_repos = repos, ac_triggers = map fst triggers,
               ac_integration_model = model, ac_sandbox = sandbox, ac_auto_merge = auto_merge,
               ac_toolchain_id = yaml_str e toolchain, ac_risk = risk, ac_llm = llm, ac_ci = ci,
               ac_blocking = blocking, ac_budget_cents_per_run = cents, ac_max_coder_retries = retries,
               ac_default_risk_tier = Low \<rparr>,
             ld_medium_changed_files = m, ld_high_changed_files = h,
             ld_max_story_points = map snd triggers \<rparr>)))))))))))))))"

definition parse :: "yaml_env \<Rightarrow> string \<Rightarrow> loaded res" where
  "parse e text =
    (case ye_load e text of
       Inl exc \<Rightarrow> config_error (''kuwarden.yaml is not valid YAML: '' @ exc)
     | Inr (YMap raw) \<Rightarrow> parse_mapping e raw
     | Inr _ \<Rightarrow> config_error ''kuwarden.yaml must be a mapping'')"

section \<open>Properties\<close>

lemma config_error_simps [simp]: "config_error m \<noteq> Inr x" "config_error m = Inl e \<longleftrightarrow> e = ConfigError m"
  by (auto simp: config_error_def)

lemma map_res_mem: "map_res f xs = Inr ys \<Longrightarrow> y \<in> set ys \<Longrightarrow> \<exists>x \<in> set xs. f x = Inr y"
  by (induction xs arbitrary: ys) (auto simp: and_then_Inr)

text \<open>What a file that parsed went through.\<close>

lemma parse_Inr:
  assumes "parse e txt = Inr ld"
  shows "\<exists>raw delivery. ye_load e txt = Inr (YMap raw) \<and> mapping raw ''delivery'' = Inr delivery \<and>
    parse_name raw = Inr (ac_name (ld_config ld)) \<and> parse_repos e raw = Inr (ac_repos (ld_config ld)) \<and>
    map_sum id (map fst) (parse_triggers e (dict_get raw ''triggers'' YNull)) = Inr (ac_triggers (ld_config ld)) \<and>
    parse_model e delivery = Inr (ac_integration_model (ld_config ld)) \<and>
    config_auto_merge e (dict_get delivery ''auto_merge'' YNull) (ac_integration_model (ld_config ld)) =
      Inr (ac_auto_merge (ld_config ld)) \<and>
    config_verification (dict_get raw ''verification'' YNull) = Inr (ac_blocking (ld_config ld)) \<and>
    config_llm e (dict_get raw ''llm'' YNull) = Inr (ac_llm (ld_config ld)) \<and>
    config_sandbox e (dict_get raw ''sandbox'' YNull) = Inr (ac_sandbox (ld_config ld)) \<and>
    config_ci e (dict_get raw ''ci'' YNull) = Inr (ac_ci (ld_config ld))"
proof -
  obtain raw where raw: "ye_load e txt = Inr (YMap raw)" "parse_mapping e raw = Inr ld"
    using assms by (auto simp: parse_def split: sum.splits yaml.splits)
  from raw(2) obtain delivery where d: "mapping raw ''delivery'' = Inr delivery"
    by (auto simp: parse_mapping_def res_simps split: if_splits)
  show ?thesis
    by (rule exI[of _ raw], rule exI[of _ delivery])
      (use raw(2) in \<open>auto simp: parse_mapping_def raw(1) d and_then_Inr split: if_splits prod.splits\<close>)
qed

lemma config_repo_Inr:
  assumes "config_repo e x i = Inr r"
  shows "scm_adapter r = Inr () \<and> (rc_provider r = ''azure_repos'' \<longrightarrow> rc_project r \<noteq> None)"
  using assms
  by (auto simp: config_repo_def Let_def scm_adapter_def given_text_def split: yaml.splits if_splits list.splits)

lemma parse_repos_Inr:
  assumes "parse_repos e raw = Inr rs"
  shows "rs \<noteq> [] \<and> (\<forall>r \<in> set rs. scm_adapter r = Inr () \<and> (rc_provider r = ''azure_repos'' \<longrightarrow> rc_project r \<noteq> None))"
proof -
  obtain ps where m: "map_res (\<lambda>(x, i). config_repo e x i) ps = Inr rs" and "rs \<noteq> []"
    using assms by (auto simp: parse_repos_def and_then_Inr split: if_splits)
  moreover have "scm_adapter r = Inr () \<and> (rc_provider r = ''azure_repos'' \<longrightarrow> rc_project r \<noteq> None)"
    if r: "r \<in> set rs" for r
  proof -
    obtain p where "(\<lambda>(x, i). config_repo e x i) p = Inr r" using map_res_mem[OF m r] by blast
    then show ?thesis by (cases p) (simp add: config_repo_Inr)
  qed
  ultimately show ?thesis by blast
qed

lemma config_trigger_Inr:
  assumes "config_trigger e x i = Inr (t, v)"
  shows "tc_provider t \<in> {''jira'', ''azure_devops''} \<and> (tc_provider t = ''jira'' \<longrightarrow> tc_site t \<noteq> None) \<and>
    (tc_provider t = ''azure_devops'' \<longrightarrow> tc_organisation t \<noteq> None)"
proof (cases x)
  case (YMap d)
  define provider where "provider = yaml_str e (dict_get d ''provider'' (YStr []))"
  have p: "provider \<in> {''jira'', ''azure_devops''}"
    "\<not> (provider = ''jira'' \<and> \<not> yaml_truthy (dict_get d ''site'' YNull))"
    "\<not> (provider = ''azure_devops'' \<and> \<not> yaml_truthy (dict_get d ''organisation'' YNull))"
    using assms unfolding YMap config_trigger_def Let_def yaml.case provider_def[symmetric]
    by (auto simp del: config_error_simps(2) split: if_split_asm)
  have t: "tc_provider t = provider" "tc_site t = given_text e d ''site''"
    "tc_organisation t = given_text e d ''organisation''"
    using assms unfolding YMap config_trigger_def Let_def yaml.case provider_def[symmetric]
    by (auto split: if_split_asm)
  show ?thesis using p by (auto simp: t given_text_def Let_def)
qed (use assms in \<open>simp_all add: config_trigger_def Let_def\<close>)

lemma parse_triggers_Inr:
  assumes "parse_triggers e raw = Inr ts" "t \<in> set (map fst ts)"
  shows "tc_provider t \<in> {''jira'', ''azure_devops''} \<and> (tc_provider t = ''jira'' \<longrightarrow> tc_site t \<noteq> None) \<and>
    (tc_provider t = ''azure_devops'' \<longrightarrow> tc_organisation t \<noteq> None)"
proof -
  obtain ps where m: "map_res (\<lambda>(x, i). config_trigger e x i) ps = Inr ts"
    using assms(1) by (auto simp: parse_triggers_def and_then_Inr)
  obtain v where v: "(t, v) \<in> set ts" using assms(2) by auto
  obtain p where "(\<lambda>(x, i). config_trigger e x i) p = Inr (t, v)" using map_res_mem[OF m v] by blast
  then have "config_trigger e (fst p) (snd p) = Inr (t, v)" by (simp add: split_def)
  then show ?thesis by (rule config_trigger_Inr)
qed

lemma config_ci_Inr:
  assumes "config_ci e raw = Inr (Some c)"
  shows "ci_adapter c = Inr () \<and> cc_poll_s c \<ge> 1"
  using assms
  by (auto simp: config_ci_def Let_def ci_adapter_def res_simps split: yaml.splits if_splits)

lemma parse_name_Inr:
  assumes "parse_name raw = Inr n"
  shows "n \<noteq> []"
proof -
  obtain app where "(case dict_get app ''name'' YNull of
       YStr name \<Rightarrow> if name = [] then config_error ''app.name is required'' else Inr name
     | _ \<Rightarrow> config_error ''app.name is required'') = Inr n"
    using assms by (auto simp: parse_name_def and_then_Inr)
  then show ?thesis by (cases "dict_get app ''name'' YNull") (auto split: if_splits)
qed

lemma config_node_model_Inr:
  "config_node_model e x = Inr (n, m) \<Longrightarrow> n = fst x"
  by (auto simp: config_node_model_def res_simps split: yaml.splits if_splits)

lemma config_llm_Inr:
  assumes "config_llm e raw = Inr (Some c)"
  shows "\<exists>d. raw = YMap d \<and> set FORBIDDEN_KEYS \<inter> fst ` set d = {} \<and>
    (\<forall>n. n \<in> fst ` set (lc_per_node c) \<longrightarrow> n \<in> fst ` set d \<and> n \<noteq> ''provider'' \<and> n \<noteq> ''base_url'')"
proof -
  obtain d where d: "raw = YMap d" and f: "filter (\<lambda>k. k \<in> fst ` set d) FORBIDDEN_KEYS = []"
    and m: "map_res (config_node_model e) (filter (\<lambda>(k, v). k \<notin> set [''provider'', ''base_url'']) d) = Inr (lc_per_node c)"
    using assms by (auto simp: config_llm_def res_simps split: yaml.splits if_splits option.splits list.splits)
  have "n \<in> fst ` set d \<and> n \<noteq> ''provider'' \<and> n \<noteq> ''base_url''" if n: "n \<in> fst ` set (lc_per_node c)" for n
  proof -
    obtain md where "(n, md) \<in> set (lc_per_node c)" using n by auto
    from map_res_mem[OF m this] obtain x
      where "x \<in> set (filter (\<lambda>(k, v). k \<notin> set [''provider'', ''base_url'']) d)" "config_node_model e x = Inr (n, md)"
      by blast
    moreover from this(2) have "n = fst x" by (rule config_node_model_Inr)
    ultimately show ?thesis by auto
  qed
  moreover have "set FORBIDDEN_KEYS \<inter> fst ` set d = {}" using f by (auto simp: filter_empty_conv)
  ultimately show ?thesis using d by blast
qed

text \<open>
  A file that parses gives an application the nodes can work with: it has a name and at least
  one repository, every repository and the pipeline have an adapter, an Azure repository has its
  project, every trigger names a supported tracker with its address, and the pipeline is polled at
  intervals of at least a second.  No key that would hold a credential stands in its \<open>llm\<close> section.
\<close>

theorem parsed_config_is_usable:
  assumes "parse e txt = Inr ld"
  shows "ac_name (ld_config ld) \<noteq> [] \<and>
    (\<exists>r. primary (ld_config ld) = Inr r \<and> scm_adapter r = Inr ()) \<and>
    (\<forall>r \<in> set (ac_repos (ld_config ld)). scm_adapter r = Inr () \<and> (rc_provider r = ''azure_repos'' \<longrightarrow> rc_project r \<noteq> None)) \<and>
    (\<forall>t \<in> set (ac_triggers (ld_config ld)). tc_provider t \<in> {''jira'', ''azure_devops''} \<and>
       (tc_provider t = ''jira'' \<longrightarrow> tc_site t \<noteq> None) \<and>
       (tc_provider t = ''azure_devops'' \<longrightarrow> tc_organisation t \<noteq> None)) \<and>
    (\<forall>c. ac_ci (ld_config ld) = Some c \<longrightarrow> ci_adapter c = Inr () \<and> cc_poll_s c \<ge> 1) \<and>
    (\<exists>raw. ye_load e txt = Inr (YMap raw) \<and>
       (\<forall>d. dict_get raw ''llm'' YNull = YMap d \<longrightarrow> set FORBIDDEN_KEYS \<inter> fst ` set d = {}))"
proof -
  obtain raw delivery where p: "ye_load e txt = Inr (YMap raw)"
    "parse_name raw = Inr (ac_name (ld_config ld))" "parse_repos e raw = Inr (ac_repos (ld_config ld))"
    "map_sum id (map fst) (parse_triggers e (dict_get raw ''triggers'' YNull)) = Inr (ac_triggers (ld_config ld))"
    "config_llm e (dict_get raw ''llm'' YNull) = Inr (ac_llm (ld_config ld))"
    "config_ci e (dict_get raw ''ci'' YNull) = Inr (ac_ci (ld_config ld))"
    using parse_Inr[OF assms] by blast
  note repos = parse_repos_Inr[OF p(3)]
  obtain r rs where r: "ac_repos (ld_config ld) = r # rs" using repos by (cases "ac_repos (ld_config ld)") auto
  have "set FORBIDDEN_KEYS \<inter> fst ` set d = {}" if d: "dict_get raw ''llm'' YNull = YMap d" for d
  proof (cases "ac_llm (ld_config ld)")
    case None
    then show ?thesis
      using p(5) by (auto simp: d config_llm_def res_simps split: if_splits option.splits list.splits)
  next
    case (Some c)
    then show ?thesis using config_llm_Inr[of e "YMap d" c] p(5) d by auto
  qed
  moreover have "\<forall>t \<in> set (ac_triggers (ld_config ld)). tc_provider t \<in> {''jira'', ''azure_devops''} \<and>
       (tc_provider t = ''jira'' \<longrightarrow> tc_site t \<noteq> None) \<and>
       (tc_provider t = ''azure_devops'' \<longrightarrow> tc_organisation t \<noteq> None)"
  proof -
    obtain ts where "parse_triggers e (dict_get raw ''triggers'' YNull) = Inr ts" "ac_triggers (ld_config ld) = map fst ts"
      using p(4) by (cases "parse_triggers e (dict_get raw ''triggers'' YNull)") auto
    then show ?thesis using parse_triggers_Inr by metis
  qed
  moreover have "primary (ld_config ld) = Inr r \<and> scm_adapter r = Inr ()"
    using repos r by (simp add: primary_def)
  ultimately show ?thesis
    using repos parse_name_Inr[OF p(2)] config_ci_Inr p(1,6) by auto
qed

lemma config_auto_merge_Inr:
  assumes "config_auto_merge e raw model = Inr a"
  shows "(am_enabled a \<longrightarrow> model = GATED_MERGE \<and>
      (\<exists>d. raw = YMap d \<and> yaml_truthy (dict_get d ''enabled'' (YBool False)))) \<and>
    (\<not> am_require_external_anchor a \<longrightarrow>
      (\<exists>d v. raw = YMap d \<and> map_of d ''require_external_anchor'' = Some v \<and> \<not> yaml_truthy v)) \<and>
    (\<forall>n. am_max_files_changed a = Some n \<longrightarrow> n \<ge> 1)"
  using assms
  by (auto simp: config_auto_merge_def Let_def default_auto_merge_def dict_get_def
      split: yaml.splits if_splits option.splits)

text \<open>
  The right to merge is declared, never acquired: a parsed configuration enables auto-merge only
  under \<open>gated_merge\<close> and only where the file says so, it drops the requirement of an external anchor
  only where the file gives that key a false value, and a bound on the changed files is positive.
\<close>

theorem merge_authority_is_declared:
  assumes "parse e txt = Inr ld"
  shows "(am_enabled (ac_auto_merge (ld_config ld)) \<longrightarrow> ac_integration_model (ld_config ld) = GATED_MERGE) \<and>
    (\<exists>raw delivery. ye_load e txt = Inr (YMap raw) \<and> dict_get raw ''delivery'' YNull = YMap delivery \<and>
      (am_enabled (ac_auto_merge (ld_config ld)) \<longrightarrow>
        (\<exists>d. dict_get delivery ''auto_merge'' YNull = YMap d \<and> yaml_truthy (dict_get d ''enabled'' (YBool False)))) \<and>
      (\<not> am_require_external_anchor (ac_auto_merge (ld_config ld)) \<longrightarrow>
        (\<exists>d v. dict_get delivery ''auto_merge'' YNull = YMap d \<and>
           map_of d ''require_external_anchor'' = Some v \<and> \<not> yaml_truthy v))) \<and>
    (\<forall>n. am_max_files_changed (ac_auto_merge (ld_config ld)) = Some n \<longrightarrow> n \<ge> 1)"
proof -
  obtain raw delivery where p: "ye_load e txt = Inr (YMap raw)" "mapping raw ''delivery'' = Inr delivery"
    "config_auto_merge e (dict_get delivery ''auto_merge'' YNull) (ac_integration_model (ld_config ld)) =
      Inr (ac_auto_merge (ld_config ld))"
    using parse_Inr[OF assms] by blast
  have d: "dict_get raw ''delivery'' YNull = YMap delivery"
    using p(2) by (auto simp: mapping_def split: yaml.splits)
  show ?thesis using config_auto_merge_Inr[OF p(3)] p(1) d by blast
qed

lemma config_verification_Inr:
  assumes "config_verification raw = Inr bl"
  shows "set bl \<subseteq> set ALL_VERIFIERS \<and>
    (\<forall>v \<in> set ALL_VERIFIERS. v \<notin> set bl \<longleftrightarrow>
      (\<exists>r d x. raw = YMap r \<and> dict_get r ''verifiers'' YNull = YMap d \<and> map_of d v = Some x \<and> \<not> yaml_truthy x))"
proof (cases raw)
  case (YMap r)
  show ?thesis
  proof (cases "dict_get r ''verifiers'' YNull")
    case y: (YMap d)
    then have "bl = filter (\<lambda>name. yaml_truthy (dict_get d name (YBool True))) ALL_VERIFIERS"
      using assms by (auto simp: YMap config_verification_def Let_def split: if_splits)
    then show ?thesis by (auto simp: YMap y dict_get_def[of d _ "YBool True"] split: option.splits)
  qed (use assms in \<open>auto simp: YMap config_verification_def\<close>)
qed (use assms in \<open>auto simp: config_verification_def\<close>)

text \<open>
  A reviewer that cannot block was declared so: in a parsed configuration a verifier is missing
  from the blocking ones exactly when the file gives its name a false value under
  \<open>verification.verifiers\<close>; whatever the file leaves out blocks, and no other name can occur.
\<close>

theorem advisory_only_when_declared:
  assumes "parse e txt = Inr ld"
  shows "set (ac_blocking (ld_config ld)) \<subseteq> set ALL_VERIFIERS \<and>
    (\<exists>raw. ye_load e txt = Inr (YMap raw) \<and>
      (\<forall>v \<in> set ALL_VERIFIERS. v \<notin> set (ac_blocking (ld_config ld)) \<longleftrightarrow>
        (\<exists>r d x. dict_get raw ''verification'' YNull = YMap r \<and> dict_get r ''verifiers'' YNull = YMap d \<and>
           map_of d v = Some x \<and> \<not> yaml_truthy x)))"
proof -
  obtain raw where p: "ye_load e txt = Inr (YMap raw)"
    "config_verification (dict_get raw ''verification'' YNull) = Inr (ac_blocking (ld_config ld))"
    using parse_Inr[OF assms] by blast
  show ?thesis using p(1) config_verification_Inr[OF p(2)] by blast
qed

text \<open>
  C34. No configuration makes Build and Test wait for ever: whatever a parsed file declares and
  whatever the pipeline answers, the wait for its verdict returns.
\<close>

theorem declared_wait_ends:
  assumes "parse e txt = Inr ld" and "ac_ci (ld_config ld) = Some ci"
  shows "\<exists>r. await_verdict poll commit ci = Some r"
proof -
  have "cc_poll_s ci \<ge> 1"
    using parse_Inr[OF assms(1)] assms(2) config_ci_Inr by metis
  then show ?thesis using await_from_returns[of ci poll commit 0 0] by (auto simp: await_verdict_def)
qed

section \<open>On a small file\<close>

text \<open>The value a file with these sections loads to.\<close>

definition sample_yaml :: "(string \<times> yaml) list" where
  "sample_yaml =
    [(''version'', YInt 1),
     (''app'', YMap [(''name'', YStr ''App'')]),
     (''workspace'', YMap [(''repos'', YList [YMap [(''name'', YStr ''app''), (''provider'', YStr ''github''),
        (''org'', YStr ''o''), (''repo'', YStr ''r'')]])]),
     (''triggers'', YList [YMap [(''provider'', YStr ''azure_devops''), (''organisation'', YStr ''org''),
        (''project'', YStr ''p''), (''max_story_points'', YInt 5)]]),
     (''delivery'', YMap [(''integration_model'', YStr ''gated_merge''),
        (''auto_merge'', YMap [(''enabled'', YBool True), (''max_files_changed'', YInt 3)])]),
     (''verification'', YMap [(''verifiers'', YMap [(''security'', YBool False)])]),
     (''llm'', YMap [(''provider'', YStr ''anthropic''), (''coder'', YMap [(''model'', YStr ''claude-opus-5'')])]),
     (''ci'', YMap [(''provider'', YStr ''github_actions''), (''poll_s'', YStr ''20'')]),
     (''sandbox'', YMap [(''toolchain_image'', YStr ''img''), (''test_command'', YList [YStr ''pytest'', YStr ''-q''])])]"

definition sample_yaml_env :: yaml_env where
  "sample_yaml_env = \<lparr> ye_load = (\<lambda>t. if t = ''sample'' then Inr (YMap sample_yaml) else Inl ''not the sample''),
     ye_float_of_str = (\<lambda>t. None), ye_float_text = (\<lambda>x. []) \<rparr>"

lemma sample_parses:
  "case parse sample_yaml_env ''sample'' of Inl e \<Rightarrow> False
   | Inr ld \<Rightarrow> am_enabled (ac_auto_merge (ld_config ld)) \<and> am_require_external_anchor (ac_auto_merge (ld_config ld)) \<and>
       ac_blocking (ld_config ld) = [''correctness'', ''test_evidence'', ''regression_risk''] \<and>
       map_option cc_poll_s (ac_ci (ld_config ld)) = Some 20"
  by code_simp

lemma sample_loaded:
  obtains ld where "parse sample_yaml_env ''sample'' = Inr ld" "am_enabled (ac_auto_merge (ld_config ld))"
    "ac_blocking (ld_config ld) = [''correctness'', ''test_evidence'', ''regression_risk'']"
    "\<exists>c. ac_ci (ld_config ld) = Some c"
  using sample_parses by (cases "parse sample_yaml_env ''sample''") auto

lemma parsed_config_is_usable_witness:
  "\<exists>ld r. parse sample_yaml_env ''sample'' = Inr ld \<and> primary (ld_config ld) = Inr r \<and> scm_adapter r = Inr ()"
proof -
  obtain ld where "parse sample_yaml_env ''sample'' = Inr ld" by (rule sample_loaded)
  with parsed_config_is_usable[OF this] show ?thesis by blast
qed

lemma merge_authority_is_declared_witness:
  "\<exists>ld. parse sample_yaml_env ''sample'' = Inr ld \<and> am_enabled (ac_auto_merge (ld_config ld)) \<and>
     ac_integration_model (ld_config ld) = GATED_MERGE"
proof -
  obtain ld where "parse sample_yaml_env ''sample'' = Inr ld" "am_enabled (ac_auto_merge (ld_config ld))"
    by (rule sample_loaded)
  with merge_authority_is_declared[OF this(1)] show ?thesis by blast
qed

lemma advisory_only_when_declared_witness:
  "\<exists>ld raw d r. parse sample_yaml_env ''sample'' = Inr ld \<and> ''security'' \<notin> set (ac_blocking (ld_config ld)) \<and>
     ye_load sample_yaml_env ''sample'' = Inr (YMap raw) \<and> dict_get raw ''verification'' YNull = YMap r \<and>
     dict_get r ''verifiers'' YNull = YMap d \<and> map_of d ''security'' \<noteq> None"
proof -
  obtain ld where ld: "parse sample_yaml_env ''sample'' = Inr ld"
    "ac_blocking (ld_config ld) = [''correctness'', ''test_evidence'', ''regression_risk'']"
    by (rule sample_loaded)
  have b: "''security'' \<in> set ALL_VERIFIERS" "''security'' \<notin> set (ac_blocking (ld_config ld))"
    by (simp_all add: ALL_VERIFIERS_def ld(2))
  with advisory_only_when_declared[OF ld(1)] ld(1) show ?thesis by fastforce
qed

lemma declared_wait_ends_witness:
  "\<exists>ld ci r. parse sample_yaml_env ''sample'' = Inr ld \<and> ac_ci (ld_config ld) = Some ci \<and>
     await_verdict (\<lambda>k. Inr []) ''abc'' ci = Some r"
proof -
  obtain ld where ld: "parse sample_yaml_env ''sample'' = Inr ld" "\<exists>c. ac_ci (ld_config ld) = Some c"
    by (rule sample_loaded)
  then obtain ci where "ac_ci (ld_config ld) = Some ci" by blast
  with declared_wait_ends[OF ld(1) this, of "\<lambda>k. Inr []" "''abc''"] ld(1) show ?thesis by blast
qed

end
