(* ===== verification/Sandbox_Workspace.thy ===== *)
theory Sandbox_Workspace
  imports Repo_Context Json_Values
begin

text \<open>
  engine/policy/confinement.py, engine/sandbox/workspace.py and the Coder's \<open>_apply\<close>: the
  throwaway directory a change is written in, where a path the model supplies may land, and the
  diff read back out of it.  The host's file system is an association list from absolute paths,
  as lists of names, to what is there; git is a parameter and only its answers are read.
\<close>

section \<open>The host's file system\<close>

datatype entry = File string | Link string | Dir

type_synonym path = "string list"
type_synonym file_system = "(path \<times> entry) list"

definition lookup :: "file_system \<Rightarrow> path \<Rightarrow> entry option" where
  "lookup fs p = (if p = [] then Some Dir else map_of fs p)"

definition put_entry :: "path \<Rightarrow> entry \<Rightarrow> file_system \<Rightarrow> file_system" where
  "put_entry p x fs = (p, x) # filter (\<lambda>(q, y). q \<noteq> p) fs"

definition remove_entry :: "path \<Rightarrow> file_system \<Rightarrow> file_system" where
  "remove_entry p fs = filter (\<lambda>(q, y). q \<noteq> p) fs"

definition link_at :: "file_system \<Rightarrow> path \<Rightarrow> string option" where
  "link_at fs p = (case lookup fs p of Some (Link t) \<Rightarrow> Some t | _ \<Rightarrow> None)"

definition path_text :: "path \<Rightarrow> string" where
  "path_text p = ''/'' @ py_join ''/'' p"

definition os_error :: "string \<Rightarrow> string \<Rightarrow> path \<Rightarrow> error" where
  "os_error cls description p = OtherError cls (description @ '': '' @ repr_str (path_text p))"

lemma link_in_dom: "link_at fs p \<noteq> None \<Longrightarrow> p \<in> fst ` set fs"
  by (auto simp: link_at_def lookup_def split: option.splits if_splits dest: map_of_SomeD intro: rev_image_eqI)

lemma finite_links: "finite {p. link_at fs p \<noteq> None}"
  by (rule finite_subset[of _ "fst ` set fs"]) (use link_in_dom in \<open>auto simp del: not_None_eq\<close>)

text \<open>
  \<open>os.path.realpath\<close>: component by component, \<open>..\<close> pops, a link is replaced by its target.
  \<open>active\<close> holds the links whose target is being followed; meeting one again is a loop, which
  \<open>Path.resolve\<close> reports as an error.
\<close>

function realpath :: "file_system \<Rightarrow> path list \<Rightarrow> path \<Rightarrow> string list \<Rightarrow> path option" where
  "realpath fs active p [] = Some p"
| "realpath fs active p (name # rest) =
    (if name = [] \<or> name = ''.'' then realpath fs active p rest
     else if name = ''..'' then realpath fs active (butlast p) rest
     else (case link_at fs (p @ [name]) of
             None \<Rightarrow> realpath fs active (p @ [name]) rest
           | Some target \<Rightarrow>
               if p @ [name] \<in> set active then None
               else (case realpath fs ((p @ [name]) # active) (if starts_with ''/'' target then [] else p)
                            (split_slash target) of
                       None \<Rightarrow> None
                     | Some q \<Rightarrow> realpath fs active q rest)))"
  by pat_completeness auto
termination
proof (relation "measures [\<lambda>(fs, active, p, rest). card ({p. link_at fs p \<noteq> None} - set active),
                           \<lambda>(fs, active, p, rest). length rest]", goal_cases)
  case (5 fs active p name rest target)
  then have "p @ [name] \<in> {p. link_at fs p \<noteq> None} - set active" by simp
  then have "card ({p. link_at fs p \<noteq> None} - set ((p @ [name]) # active))
      < card ({p. link_at fs p \<noteq> None} - set active)"
    by (intro psubset_card_mono) (use finite_links[of fs] in auto)
  then show ?case by simp
qed simp_all

declare realpath.simps [simp del]

text \<open>\<open>(base / path).resolve()\<close>; an absolute path replaces the base.\<close>

definition resolve_path :: "file_system \<Rightarrow> path \<Rightarrow> string \<Rightarrow> path res" where
  "resolve_path fs base path =
    (if CHR 0x00 \<in> set path then Inl (OtherError ''ValueError'' ''lstat: embedded null character in path'')
     else case realpath fs [] [] ((if starts_with ''/'' path then [] else base) @ split_slash path) of
            None \<Rightarrow> Inl (OtherError ''RuntimeError'' (''Symlink loop from '' @ repr_str path))
          | Some p \<Rightarrow> Inr p)"

section \<open>Confinement\<close>

definition under :: "path \<Rightarrow> path \<Rightarrow> bool" where
  "under base p \<longleftrightarrow> take (length base) p = base"

definition confine :: "file_system \<Rightarrow> path \<Rightarrow> string \<Rightarrow> path res" where
  "confine fs root_dir path =
    (if py_strip path = [] then
       Inl (SandboxInfrastructureError ''refusing a workspace path that is empty'')
     else and_then (resolve_path fs [] (path_text root_dir)) (\<lambda>base.
          and_then (resolve_path fs base path) (\<lambda>resolved.
          if \<not> under base resolved then
            Inl (SandboxInfrastructureError (''refusing to touch a path outside the workspace: '' @ repr_str path))
          else Inr resolved)))"

section \<open>Writing the model's edits\<close>

text \<open>
  \<open>mkdir(parents=True, exist_ok=True)\<close>, \<open>write_text\<close> and \<open>unlink(missing_ok=True)\<close> of a resolved
  path.  The second argument of \<open>make_dirs\<close> is the part that is known to exist.
\<close>

fun make_dirs :: "file_system \<Rightarrow> path \<Rightarrow> string list \<Rightarrow> file_system res" where
  "make_dirs fs done_part [] = Inr fs"
| "make_dirs fs done_part (x # xs) =
    (let d = done_part @ [x]
     in case lookup fs d of
          Some Dir \<Rightarrow> make_dirs fs d xs
        | None \<Rightarrow> make_dirs (put_entry d Dir fs) d xs
        | Some y \<Rightarrow>
            if xs = [] then Inl (os_error ''FileExistsError'' ''[Errno 17] File exists'' d)
            else Inl (os_error ''NotADirectoryError'' ''[Errno 20] Not a directory'' (d @ xs)))"

definition write_text :: "file_system \<Rightarrow> path \<Rightarrow> string \<Rightarrow> file_system res" where
  "write_text fs p content =
    (if lookup fs p = Some Dir then Inl (os_error ''IsADirectoryError'' ''[Errno 21] Is a directory'' p)
     else Inr (put_entry p (File content) fs))"

definition is_file_entry :: "entry option \<Rightarrow> bool" where
  "is_file_entry x = (case x of Some (File s) \<Rightarrow> True | _ \<Rightarrow> False)"

definition unlink :: "file_system \<Rightarrow> path \<Rightarrow> file_system res" where
  "unlink fs p =
    (case lookup fs p of
       Some Dir \<Rightarrow> Inl (os_error ''IsADirectoryError'' ''[Errno 21] Is a directory'' p)
     | Some y \<Rightarrow> Inr (remove_entry p fs)
     | None \<Rightarrow>
         if list_ex (\<lambda>k. is_file_entry (lookup fs (take k p))) [0..<length p]
         then Inl (os_error ''NotADirectoryError'' ''[Errno 20] Not a directory'' p)
         else Inr fs)"

definition apply_edit :: "path \<Rightarrow> (string \<times> json) list \<Rightarrow> file_system \<Rightarrow> (string \<times> file_system) res" where
  "apply_edit root_dir edit fs =
     and_then (confine fs root_dir (get_str edit ''path'')) (\<lambda>target.
       if json_truthy (case map_of edit ''deleted'' of None \<Rightarrow> JNull | Some v \<Rightarrow> v) then
         and_then (unlink fs target) (\<lambda>fs1. Inr (get_str edit ''path'', fs1))
       else
         and_then (make_dirs fs [] (butlast target)) (\<lambda>fs1.
         and_then (write_text fs1 target (get_str edit ''content'')) (\<lambda>fs2.
         Inr (get_str edit ''path'', fs2))))"

fun apply_all :: "path \<Rightarrow> json list \<Rightarrow> string list \<Rightarrow> file_system \<Rightarrow> (string list \<times> file_system) res" where
  "apply_all root_dir [] written fs = Inr (written, fs)"
| "apply_all root_dir (JObj edit # edits) written fs =
     and_then (apply_edit root_dir edit fs) (\<lambda>(path, fs1). apply_all root_dir edits (written @ [path]) fs1)"
| "apply_all root_dir (e # edits) written fs = apply_all root_dir edits written fs"

definition apply_edits :: "path \<Rightarrow> (string \<times> json) list \<Rightarrow> file_system \<Rightarrow> (string list \<times> file_system) res" where
  "apply_edits workspace_root parsed fs =
     and_then (resolve_path fs [] (path_text workspace_root)) (\<lambda>root_dir.
       case map_of parsed ''edits'' of
         Some (JList edits) \<Rightarrow> apply_all root_dir edits [] fs
       | _ \<Rightarrow> Inr ([], fs))"

section \<open>The workspace\<close>

definition place_file :: "path \<Rightarrow> string \<times> string \<Rightarrow> file_system \<Rightarrow> file_system res" where
  "place_file root_dir f fs =
    (let target = root_dir @ filter (\<lambda>p. p \<noteq> [] \<and> p \<noteq> ''.'') (split_slash (fst f))
     in and_then (make_dirs fs [] (butlast target)) (\<lambda>fs1. write_text fs1 target (snd f)))"

fun place_files :: "path \<Rightarrow> tree \<Rightarrow> file_system \<Rightarrow> file_system res" where
  "place_files root_dir [] fs = Inr fs"
| "place_files root_dir (f # files) fs = and_then (place_file root_dir f fs) (place_files root_dir files)"

text \<open>
  \<open>mkdtemp\<close> made \<open>root_dir\<close>; \<open>git_setup\<close> answers for the five git commands that commit the baseline.
\<close>

definition materialise :: "path \<Rightarrow> (file_system \<Rightarrow> unit res) \<Rightarrow> tree \<Rightarrow> file_system \<Rightarrow> file_system res" where
  "materialise root_dir git_setup files host =
     and_then (place_files root_dir files (put_entry root_dir Dir host)) (\<lambda>fs.
     and_then (git_setup fs) (\<lambda>u. Inr fs))"

definition destroy :: "path \<Rightarrow> file_system \<Rightarrow> file_system" where
  "destroy root_dir fs = filter (\<lambda>(p, x). \<not> under root_dir p) fs"

section \<open>The diff\<close>

definition tab :: char where
  "tab = CHR 0x09"

definition numstat_count :: "string \<Rightarrow> int" where
  "numstat_count s =
    (if s \<noteq> [] \<and> list_all (\<lambda>c. 48 \<le> (of_char c :: nat) \<and> (of_char c :: nat) \<le> 57) s
     then int (digits_value s) else 0)"

definition numstat_line :: "string \<Rightarrow> file_change option" where
  "numstat_line line =
    (case split_on tab line of
       [added, removed, path] \<Rightarrow>
         Some \<lparr> fc_path = path, fc_added = numstat_count added, fc_removed = numstat_count removed \<rparr>
     | _ \<Rightarrow> None)"

definition git_changed_files :: "string \<Rightarrow> file_change list" where
  "git_changed_files output = List.map_filter numstat_line (splitlines output)"

text \<open>\<open>path.read_text() if path.is_file() else None\<close>; both follow links.\<close>

definition read_file :: "file_system \<Rightarrow> path \<Rightarrow> string \<Rightarrow> string option" where
  "read_file fs root_dir path =
    (case realpath fs [] [] (root_dir @ split_slash path) of
       None \<Rightarrow> None
     | Some p \<Rightarrow> (case lookup fs p of Some (File s) \<Rightarrow> Some s | _ \<Rightarrow> None))"

definition read_changes :: "file_system \<Rightarrow> path \<Rightarrow> string \<Rightarrow> (string \<times> string option) list" where
  "read_changes fs root_dir output =
     dict_of (map (\<lambda>c. (fc_path c, read_file fs root_dir (fc_path c))) (git_changed_files output))"

section \<open>Resolution\<close>

text \<open>No link on the way to a path, and names a path can be written with.\<close>

definition clean :: "file_system \<Rightarrow> path \<Rightarrow> bool" where
  "clean fs p \<longleftrightarrow> (\<forall>k. link_at fs (take k p) = None)"

definition plain_name :: "string \<Rightarrow> bool" where
  "plain_name x \<longleftrightarrow> x \<noteq> [] \<and> x \<noteq> ''.'' \<and> x \<noteq> ''..'' \<and> CHR ''/'' \<notin> set x"

lemma link_at_root [simp]: "link_at fs [] = None"
  by (simp add: link_at_def lookup_def)

lemma clean_Nil [simp]: "clean fs []"
  by (simp add: clean_def)

lemma clean_butlast: "clean fs p \<Longrightarrow> clean fs (butlast p)"
  by (simp add: clean_def butlast_conv_take take_take)

lemma clean_snoc: "clean fs (p @ [x]) \<longleftrightarrow> clean fs p \<and> link_at fs (p @ [x]) = None"
proof
  assume c: "clean fs (p @ [x])"
  have "link_at fs (take k p) = None" for k
  proof -
    have "take (min k (length p)) (p @ [x]) = take k p" by (simp add: min_def)
    then show ?thesis using c[unfolded clean_def, rule_format, of "min k (length p)"] by simp
  qed
  moreover have "link_at fs (p @ [x]) = None"
    using c[unfolded clean_def, rule_format, of "Suc (length p)"] by simp
  ultimately show "clean fs p \<and> link_at fs (p @ [x]) = None" by (simp add: clean_def)
next
  assume "clean fs p \<and> link_at fs (p @ [x]) = None"
  moreover have "take k (p @ [x]) = (if k \<le> length p then take k p else p @ [x])" for k
    by simp
  ultimately show "clean fs (p @ [x])" by (simp add: clean_def)
qed

lemma clean_append: "clean fs (p @ q) \<Longrightarrow> clean fs p"
  by (induction q rule: rev_induct) (auto simp: clean_snoc simp flip: append_assoc)

lemma realpath_clean: "realpath fs active p rest = Some q \<Longrightarrow> clean fs p \<Longrightarrow> clean fs q"
proof (induction fs active p rest arbitrary: q rule: realpath.induct)
  case (1 fs active p)
  then show ?case by (simp add: realpath.simps)
next
  case (2 fs active p name rest)
  show ?case
  proof (cases "link_at fs (p @ [name])")
    case None
    then show ?thesis
      using 2 by (auto simp: realpath.simps(2)[of _ _ _ name] clean_butlast clean_snoc split: if_splits)
  next
    case (Some target)
    show ?thesis
    proof (cases "name = [] \<or> name = ''.'' \<or> name = ''..''")
      case True
      then show ?thesis
        using 2 by (auto simp: realpath.simps(2)[of _ _ _ name] clean_butlast split: if_splits)
    next
      case False
      then obtain r where r: "realpath fs ((p @ [name]) # active) (if starts_with ''/'' target then [] else p)
            (split_slash target) = Some r" and a: "p @ [name] \<notin> set active" and q: "realpath fs active r rest = Some q"
        using "2.prems"(1) Some by (auto simp: realpath.simps(2)[of _ _ _ name] split: if_splits option.splits)
      have "clean fs r"
        using "2.IH"(4)[OF _ _ Some a r] False "2.prems"(2) by auto
      then show ?thesis using "2.IH"(5)[OF _ _ Some a r q] False by simp
    qed
  qed
qed

lemma realpath_plain:
  "realpath fs active p rest = Some q \<Longrightarrow> list_all plain_name p \<Longrightarrow> list_all (\<lambda>x. CHR ''/'' \<notin> set x) rest
    \<Longrightarrow> list_all plain_name q"
proof (induction fs active p rest arbitrary: q rule: realpath.induct)
  case (1 fs active p)
  then show ?case by (simp add: realpath.simps)
next
  case (2 fs active p name rest)
  have b: "list_all plain_name (butlast p)" using "2.prems"(2) by (auto simp: list_all_iff dest: in_set_butlastD)
  show ?case
  proof (cases "name = [] \<or> name = ''.'' \<or> name = ''..''")
    case True
    then show ?thesis
      using 2 b by (auto simp: realpath.simps(2)[of _ _ _ name] split: if_splits)
  next
    case False
    then have n: "plain_name name" using "2.prems"(3) by (simp add: plain_name_def)
    show ?thesis
    proof (cases "link_at fs (p @ [name])")
      case None
      then show ?thesis
        using 2 n False by (auto simp: realpath.simps(2)[of _ _ _ name])
    next
      case (Some target)
      obtain r where r: "realpath fs ((p @ [name]) # active) (if starts_with ''/'' target then [] else p)
            (split_slash target) = Some r" and a: "p @ [name] \<notin> set active" and q: "realpath fs active r rest = Some q"
        using "2.prems"(1) Some False by (auto simp: realpath.simps(2)[of _ _ _ name] split: if_splits option.splits)
      have "list_all (\<lambda>x. CHR ''/'' \<notin> set x) (split_slash target)"
        by (auto simp: list_all_iff dest: split_on_parts)
      then have "list_all plain_name r"
        using "2.IH"(4)[OF _ _ Some a r] False "2.prems"(2) by auto
      then show ?thesis using "2.IH"(5)[OF _ _ Some a r q] False "2.prems"(3) by simp
    qed
  qed
qed

lemma realpath_append:
  "clean fs (p @ q) \<Longrightarrow> list_all plain_name q \<Longrightarrow> realpath fs active p (q @ rest) = realpath fs active (p @ q) rest"
proof (induction q arbitrary: p)
  case (Cons x xs)
  have "link_at fs (p @ [x]) = None"
    using clean_append[of fs "p @ [x]" xs] Cons.prems(1) by (simp add: clean_snoc)
  with Cons show ?case by (simp add: realpath.simps plain_name_def)
qed simp

lemma realpath_plain_clean:
  "clean fs (p @ rest) \<Longrightarrow> list_all plain_name rest \<Longrightarrow> realpath fs active p rest = Some (p @ rest)"
  using realpath_append[of fs p rest active "[]"] by (simp add: realpath.simps)

lemma resolve_path_Inr:
  assumes "resolve_path fs base path = Inr p" and "list_all plain_name base"
  shows "clean fs p \<and> list_all plain_name p"
proof -
  have r: "realpath fs [] [] ((if starts_with ''/'' path then [] else base) @ split_slash path) = Some p"
    using assms(1) by (auto simp: resolve_path_def split: if_splits option.splits)
  have "list_all (\<lambda>x. CHR ''/'' \<notin> set x) ((if starts_with ''/'' path then [] else base) @ split_slash path)"
    using assms(2) by (auto simp: list_all_iff plain_name_def dest: split_on_parts)
  then show ?thesis using realpath_clean[OF r] realpath_plain[OF r] by simp
qed

lemma realpath_self: "clean fs p \<Longrightarrow> list_all plain_name p \<Longrightarrow> realpath fs [] [] p = Some p"
  using realpath_plain_clean[of fs "[]" p "[]"] by simp

lemma split_path_text:
  "list_all plain_name p \<Longrightarrow> split_slash (path_text p) = (if p = [] then [[], []] else [] # p)"
proof (cases p)
  case (Cons x xs)
  assume "list_all plain_name p"
  then have "list_all (\<lambda>x. CHR ''/'' \<notin> set x) p" by (auto simp: list_all_iff plain_name_def)
  then show ?thesis using split_on_join[of "CHR ''/''" p] Cons by (simp add: path_text_def)
qed (simp add: path_text_def)

lemma resolve_again:
  assumes "clean fs p" "list_all plain_name p" "resolve_path fs base (path_text p) = Inr q"
  shows "q = p"
proof -
  have "starts_with ''/'' (path_text p)" by (simp add: path_text_def)
  then have "realpath fs [] [] (split_slash (path_text p)) = Some q"
    using assms(3) by (auto simp: resolve_path_def split: if_splits option.splits)
  then show ?thesis
    using realpath_self[OF assms(1,2)]
    by (auto simp: split_path_text[OF assms(2)] realpath.simps split: if_splits)
qed

text \<open>
  Where a path supplied by a model lands.  A path that \<open>confine\<close> accepts is returned in a form
  that lies under the resolved workspace root and that no link leads away from: following every
  link once more, from the root of the file system, gives the path itself, so what is opened is
  what was compared.
\<close>

theorem confined_path_stays_inside:
  assumes "confine fs root_dir path = Inr p"
  shows "\<exists>base rest. resolve_path fs [] (path_text root_dir) = Inr base \<and> p = base @ rest \<and>
    realpath fs [] [] p = Some p \<and> (\<forall>k. link_at fs (take k p) = None)"
proof -
  obtain base where b: "resolve_path fs [] (path_text root_dir) = Inr base"
    and r: "resolve_path fs base path = Inr p" and u: "under base p"
    using assms by (auto simp: confine_def res_simps split: if_splits)
  have p: "clean fs p \<and> list_all plain_name p"
    using resolve_path_Inr[OF r] resolve_path_Inr[OF b] by simp
  have "p = base @ drop (length base) p"
    using u append_take_drop_id[of "length base" p] by (simp add: under_def)
  then show ?thesis using b p realpath_self[of fs p] by (auto simp: clean_def)
qed

lemma confine_Inr:
  assumes "confine fs base path = Inr p" "clean fs base" "list_all plain_name base"
  shows "under base p \<and> clean fs p \<and> list_all plain_name p"
proof -
  obtain b where b: "resolve_path fs [] (path_text base) = Inr b"
    and r: "resolve_path fs b path = Inr p" and u: "under b p"
    using assms(1) by (auto simp: confine_def res_simps split: if_splits)
  have "b = base" by (rule resolve_again[OF assms(2,3) b])
  then show ?thesis using u resolve_path_Inr[OF r] assms(3) by simp
qed

text \<open>
  Every relative path made of plain names is accepted and means what it says, as long as the
  workspace has no link on its way.
\<close>

lemma plain_path_is_accepted:
  assumes "clean fs (base @ ps)" "list_all plain_name (base @ ps)" "ps \<noteq> []"
    and "CHR 0x00 \<notin> set (path_text base)" "CHR 0x00 \<notin> set (py_join ''/'' ps)" "py_strip (py_join ''/'' ps) \<noteq> []"
  shows "confine fs base (py_join ''/'' ps) = Inr (base @ ps)"
proof -
  have b: "clean fs base" "list_all plain_name base" using assms(1,2) clean_append by auto
  have s: "split_slash (py_join ''/'' ps) = ps"
    using assms(2,3) split_on_join[of "CHR ''/''" ps] by (auto simp: list_all_iff plain_name_def)
  obtain c cs xs where "ps = (c # cs) # xs" "c \<noteq> CHR ''/''"
    using assms(2,3) by (auto simp: neq_Nil_conv plain_name_def)
  then have "\<not> starts_with ''/'' (py_join ''/'' ps)" by (cases xs) auto
  then have p: "resolve_path fs base (py_join ''/'' ps) = Inr (base @ ps)"
    using assms(1,2,5) realpath_self[of fs "base @ ps"] by (simp add: resolve_path_def s)
  have "realpath fs [] [] (split_slash (path_text base)) = Some base"
    using realpath_self[OF b] by (simp add: split_path_text[OF b(2)] realpath.simps)
  then have "resolve_path fs [] (path_text base) = Inr base"
    using assms(4) by (simp add: resolve_path_def)
  with p assms(6) show ?thesis by (simp add: confine_def under_def)
qed

section \<open>What the edits change\<close>

text \<open>Everything stands in a directory that exists.\<close>

definition fs_wf :: "file_system \<Rightarrow> bool" where
  "fs_wf fs \<longleftrightarrow> (\<forall>p x. lookup fs (p @ [x]) \<noteq> None \<longrightarrow> lookup fs p = Some Dir)"

lemma lookup_Nil [simp]: "lookup fs [] = Some Dir"
  by (simp add: lookup_def)

lemma lookup_put: "p \<noteq> [] \<Longrightarrow> lookup (put_entry p x fs) q = (if q = p then Some x else lookup fs q)"
proof -
  assume "p \<noteq> []"
  moreover have "map_of (filter (\<lambda>(r, y). r \<noteq> p) fs) q = map_of fs q" if "q \<noteq> p"
    using that by (induction fs) auto
  ultimately show ?thesis by (simp add: lookup_def put_entry_def)
qed

lemma lookup_remove: "lookup (remove_entry p fs) q = (if q = p \<and> q \<noteq> [] then None else lookup fs q)"
proof -
  have "map_of (filter (\<lambda>(r, y). r \<noteq> p) fs) q = (if q = p then None else map_of fs q)"
    by (induction fs) auto
  then show ?thesis by (auto simp: lookup_def remove_entry_def)
qed

lemma fs_wf_parent: "fs_wf fs \<Longrightarrow> lookup fs (p @ q) \<noteq> None \<Longrightarrow> q \<noteq> [] \<Longrightarrow> lookup fs p = Some Dir"
proof (induction q rule: rev_induct)
  case (snoc x xs)
  then have d: "lookup fs (p @ xs) = Some Dir" by (auto simp: fs_wf_def simp flip: append_assoc)
  then show ?case using snoc by (cases "xs = []") auto
qed simp

lemma fs_wf_put_leaf:
  assumes "fs_wf fs" "lookup fs p = Some Dir" "lookup fs (p @ [x]) \<noteq> Some Dir"
  shows "fs_wf (put_entry (p @ [x]) y fs)"
  unfolding fs_wf_def
proof (intro allI impI)
  fix q z assume l: "lookup (put_entry (p @ [x]) y fs) (q @ [z]) \<noteq> None"
  show "lookup (put_entry (p @ [x]) y fs) q = Some Dir"
  proof (cases "q @ [z] = p @ [x]")
    case True
    then show ?thesis using assms(2) by (simp add: lookup_put)
  next
    case False
    then have "lookup fs (q @ [z]) \<noteq> None" using l by (auto simp: lookup_put split: if_splits)
    then have q: "lookup fs q = Some Dir" using assms(1) unfolding fs_wf_def by blast
    then show ?thesis using assms(3) by (auto simp: lookup_put)
  qed
qed

lemma fs_wf_remove_leaf:
  assumes "fs_wf fs" "lookup fs p \<noteq> Some Dir"
  shows "fs_wf (remove_entry p fs)"
  unfolding fs_wf_def
proof (intro allI impI)
  fix q z assume "lookup (remove_entry p fs) (q @ [z]) \<noteq> None"
  then have "lookup fs q = Some Dir"
    using assms(1) by (auto simp: lookup_remove fs_wf_def split: if_splits)
  then show "lookup (remove_entry p fs) q = Some Dir" using assms(2) by (auto simp: lookup_remove)
qed

text \<open>How one file system grows into another along a path: only missing directories appear.\<close>

lemma make_dirs_effect:
  "make_dirs fs d xs = Inr fs' \<Longrightarrow> fs_wf fs \<Longrightarrow> lookup fs d = Some Dir \<Longrightarrow>
     fs_wf fs' \<and> lookup fs' (d @ xs) = Some Dir \<and>
     (\<forall>p. lookup fs' p = lookup fs p \<or>
          (lookup fs p = None \<and> lookup fs' p = Some Dir \<and> under p (d @ xs)))"
proof (induction fs d xs rule: make_dirs.induct)
  case (2 fs d x xs)
  show ?case
  proof (cases "lookup fs (d @ [x])")
    case None
    let ?fs = "put_entry (d @ [x]) Dir fs"
    have w: "fs_wf ?fs" using fs_wf_put_leaf[of fs d x Dir] 2 None by simp
    have m: "make_dirs ?fs (d @ [x]) xs = Inr fs'" using "2.prems"(1) None by (simp add: Let_def)
    have ih: "fs_wf fs' \<and> lookup fs' (d @ x # xs) = Some Dir \<and>
       (\<forall>p. lookup fs' p = lookup ?fs p \<or>
          (lookup ?fs p = None \<and> lookup fs' p = Some Dir \<and> under p (d @ x # xs)))"
      using "2.IH"(1)[OF refl None m w] by (simp add: lookup_put)
    moreover have "under (d @ [x]) (d @ x # xs)" by (simp add: under_def)
    ultimately show ?thesis
      using None by (auto simp: lookup_put split: if_splits)
  next
    case (Some y)
    then show ?thesis using 2 by (cases y) (auto simp: Let_def split: if_splits)
  qed
qed auto

lemma write_text_effect:
  assumes "write_text fs p content = Inr fs'" "fs_wf fs" "lookup fs (butlast p) = Some Dir"
  shows "fs_wf fs' \<and> p \<noteq> [] \<and> (\<forall>q. lookup fs' q = (if q = p then Some (File content) else lookup fs q))"
proof -
  have "lookup fs p \<noteq> Some Dir" and fs': "fs' = put_entry p (File content) fs"
    using assms(1) by (auto simp: write_text_def split: if_splits)
  then have "p \<noteq> []" by (auto simp: lookup_def)
  then show ?thesis
    using fs' fs_wf_put_leaf[OF assms(2,3), of "last p" "File content"] \<open>lookup fs p \<noteq> Some Dir\<close>
    by (simp add: lookup_put)
qed

lemma unlink_effect:
  assumes "unlink fs p = Inr fs'" "fs_wf fs"
  shows "fs_wf fs' \<and> (\<forall>q. lookup fs' q = (if q = p then None else lookup fs q))"
proof (cases "lookup fs p")
  case None
  then show ?thesis using assms by (auto simp: unlink_def split: if_splits)
next
  case (Some y)
  then have "y \<noteq> Dir" and fs': "fs' = remove_entry p fs"
    using assms(1) by (auto simp: unlink_def split: entry.splits)
  then have "p \<noteq> []" using Some by (auto simp: lookup_def)
  then show ?thesis
    using fs' fs_wf_remove_leaf[OF assms(2), of p] Some \<open>y \<noteq> Dir\<close> by (auto simp: lookup_remove)
qed

lemma under_append: "under q p \<longleftrightarrow> (\<exists>r. p = q @ r)"
  unfolding under_def by (metis append_eq_conv_conj)

lemma under_butlast: "under q (butlast p) \<Longrightarrow> under q p"
  by (cases p rule: rev_cases) (auto simp: under_append)

lemma prefixes_comparable: "under q p \<Longrightarrow> under base p \<Longrightarrow> under base q \<or> under q base"
  unfolding under_def by (metis nat_le_linear take_all_iff take_take min.absorb1)

text \<open>Making the directories of a path and writing it, for a path under an existing directory.\<close>

lemma write_stays_under:
  assumes "make_dirs fs [] (butlast target) = Inr fs1" "write_text fs1 target content = Inr fs'" "fs_wf fs"
    and base: "lookup fs base = Some Dir" "under base target"
  shows "fs_wf fs' \<and> lookup fs' base = Some Dir \<and> (\<forall>p. \<not> under base p \<longrightarrow> lookup fs' p = lookup fs p) \<and>
    (\<forall>p. link_at fs' p \<noteq> None \<longrightarrow> link_at fs' p = link_at fs p) \<and>
    (\<forall>q s. lookup fs' q = Some (File s) \<longleftrightarrow> (if q = target then s = content else lookup fs q = Some (File s)))"
proof -
  have e1: "fs_wf fs1" "lookup fs1 (butlast target) = Some Dir"
    "\<And>q. lookup fs1 q = lookup fs q \<or> (lookup fs q = None \<and> lookup fs1 q = Some Dir \<and> under q (butlast target))"
    using make_dirs_effect[OF assms(1,3) lookup_Nil, unfolded append_Nil] by blast+
  have e2: "fs_wf fs'" "\<And>q. lookup fs' q = (if q = target then Some (File content) else lookup fs1 q)"
    using write_text_effect[OF assms(2) e1(1,2)] by auto
  have out: "lookup fs' q = lookup fs q" if q: "\<not> under base q" for q
  proof -
    have "q \<noteq> target" using q base(2) by auto
    moreover have "lookup fs1 q = lookup fs q"
    proof (rule ccontr)
      assume "lookup fs1 q \<noteq> lookup fs q"
      then have n: "lookup fs q = None" "under q (butlast target)" using e1(3)[of q] by auto
      then have "under q base"
        using prefixes_comparable[OF under_butlast[OF n(2)] base(2)] q by blast
      then obtain r where r: "base = q @ r" by (auto simp: under_append)
      then have "r \<noteq> []" using base(1) n(1) by auto
      then show False using fs_wf_parent[OF assms(3), of q r] base(1) n(1) r by simp
    qed
    ultimately show ?thesis using e2(2) by simp
  qed
  have "lookup fs1 base = Some Dir" using e1(3)[of base] base(1) by auto
  moreover from this have "target \<noteq> base" using assms(2) by (auto simp: write_text_def)
  ultimately have "lookup fs' base = Some Dir" using e2(2) by auto
  moreover have "link_at fs' q = link_at fs q" if "link_at fs' q \<noteq> None" for q
    using that e2(2)[of q] e1(3)[of q] by (auto simp: link_at_def split: if_splits)
  moreover have "lookup fs' q = Some (File s) \<longleftrightarrow> (if q = target then s = content else lookup fs q = Some (File s))" for q s
    using e2(2)[of q] e1(3)[of q] by auto
  ultimately show ?thesis using e2(1) out by blast
qed

text \<open>One edit that is accepted: what it may have changed.\<close>

lemma apply_edit_effect:
  assumes "apply_edit base edit fs = Inr (path, fs')" "fs_wf fs"
    and base: "lookup fs base = Some Dir" "clean fs base" "list_all plain_name base"
  shows "fs_wf fs' \<and> path = get_str edit ''path'' \<and> (\<forall>p. \<not> under base p \<longrightarrow> lookup fs' p = lookup fs p) \<and>
    (\<forall>p. link_at fs' p \<noteq> None \<longrightarrow> link_at fs' p = link_at fs p) \<and> lookup fs' base = Some Dir"
proof -
  obtain target where t: "confine fs base (get_str edit ''path'') = Inr target"
    using assms(1) by (auto simp: apply_edit_def res_simps)
  then have tgt: "under base target" using confine_Inr[OF t base(2,3)] by simp
  show ?thesis
  proof (cases "json_truthy (case map_of edit ''deleted'' of None \<Rightarrow> JNull | Some v \<Rightarrow> v)")
    case True
    then have u: "unlink fs target = Inr fs'" and p: "path = get_str edit ''path''"
      using assms(1) t by (auto simp: apply_edit_def res_simps)
    then have "target \<noteq> base" using base(1) by (auto simp: unlink_def)
    then show ?thesis
      using unlink_effect[OF u assms(2)] p tgt base(1) by (auto simp: link_at_def)
  next
    case False
    then obtain fs1 where m: "make_dirs fs [] (butlast target) = Inr fs1"
      and w: "write_text fs1 target (get_str edit ''content'') = Inr fs'" and p: "path = get_str edit ''path''"
      using assms(1) t by (auto simp: apply_edit_def res_simps)
    show ?thesis using write_stays_under[OF m w assms(2) base(1) tgt] p by blast
  qed
qed

lemma clean_mono:
  assumes "clean fs p" "\<forall>q. link_at fs' q \<noteq> None \<longrightarrow> link_at fs' q = link_at fs q"
  shows "clean fs' p"
proof -
  have "link_at fs' (take k p) = None" for k
    using assms(1)[unfolded clean_def, rule_format, of k] assms(2)[rule_format, of "take k p"] by metis
  then show ?thesis by (simp add: clean_def)
qed

lemma apply_all_effect:
  "apply_all base edits written fs = Inr (written', fs') \<Longrightarrow> fs_wf fs \<Longrightarrow> lookup fs base = Some Dir \<Longrightarrow>
     clean fs base \<Longrightarrow> list_all plain_name base \<Longrightarrow>
   fs_wf fs' \<and> lookup fs' base = Some Dir \<and> (\<forall>p. \<not> under base p \<longrightarrow> lookup fs' p = lookup fs p) \<and>
   (\<forall>p. link_at fs' p \<noteq> None \<longrightarrow> link_at fs' p = link_at fs p)"
proof (induction base edits written fs rule: apply_all.induct)
  case (2 base edit edits written fs)
  obtain path fs1 where a: "apply_edit base edit fs = Inr (path, fs1)"
    and r: "apply_all base edits (written @ [path]) fs1 = Inr (written', fs')"
    using "2.prems"(1) by (auto simp: res_simps)
  note e = apply_edit_effect[OF a "2.prems"(2-5)]
  have "clean fs1 base" by (rule clean_mono[OF "2.prems"(4)]) (use e in blast)
  then have ih: "fs_wf fs' \<and> lookup fs' base = Some Dir \<and> (\<forall>p. \<not> under base p \<longrightarrow> lookup fs' p = lookup fs1 p) \<and>
     (\<forall>p. link_at fs' p \<noteq> None \<longrightarrow> link_at fs' p = link_at fs1 p)"
    using "2.IH"[OF r] e \<open>clean fs1 base\<close> "2.prems"(5) by blast
  then show ?case using e by metis
qed auto

lemma edit_effect:
  assumes "apply_edits root_dir parsed fs = Inr (written, fs')"
    and "resolve_path fs [] (path_text root_dir) = Inr base" "fs_wf fs" "lookup fs base = Some Dir"
  shows "fs_wf fs' \<and> lookup fs' base = Some Dir \<and>
    (\<forall>p. \<not> under base p \<longrightarrow> lookup fs' p = lookup fs p) \<and>
    (\<forall>p. link_at fs' p \<noteq> None \<longrightarrow> link_at fs' p = link_at fs p)"
proof -
  have b: "clean fs base" "list_all plain_name base" using resolve_path_Inr[OF assms(2)] by simp_all
  have "(written, fs') = ([], fs) \<or> (\<exists>edits. apply_all base edits [] fs = Inr (written, fs'))"
    using assms(1,2) by (auto simp: apply_edits_def split: option.splits json.splits)
  then show ?thesis
    using assms(3,4) apply_all_effect[OF _ assms(3,4) b] by blast
qed

text \<open>
  Whatever the model answers, applying its edits changes nothing outside the workspace: every
  path of the host that is not under the resolved workspace root holds afterwards what it held
  before, no link is created or redirected, and the file system stays well formed.
\<close>

theorem edits_stay_inside:
  assumes "apply_edits root_dir parsed fs = Inr (written, fs')"
    and "resolve_path fs [] (path_text root_dir) = Inr base" "fs_wf fs" "lookup fs base = Some Dir"
  shows "fs_wf fs' \<and> lookup fs' base = Some Dir \<and>
    (\<forall>p. \<not> under base p \<longrightarrow> lookup fs' p = lookup fs p) \<and>
    (\<forall>p. link_at fs' p \<noteq> None \<longrightarrow> link_at fs' p = link_at fs p)"
  by (rule edit_effect[OF assms])

section \<open>The baseline\<close>

lemma join_split_on: "py_join [d] (split_on d s) = s"
proof (induction s)
  case (Cons c cs)
  obtain q qs where "split_on d cs = q # qs" by (cases "split_on d cs") auto
  with Cons show ?case by (cases qs) auto
qed simp

lemma split_on_inject: "split_on d s = split_on d t \<longleftrightarrow> s = t"
  by (metis join_split_on)

definition plain_path :: "string \<Rightarrow> bool" where
  "plain_path p \<longleftrightarrow> list_all plain_name (split_slash p)"

text \<open>A workspace whose directory exists and that has no link in it.\<close>

definition sound_workspace :: "path \<Rightarrow> file_system \<Rightarrow> bool" where
  "sound_workspace base fs \<longleftrightarrow> fs_wf fs \<and> lookup fs base = Some Dir \<and> list_all plain_name base \<and>
     clean fs base \<and> (\<forall>q. under base q \<longrightarrow> link_at fs q = None)"

lemma clean_under:
  assumes "clean fs base" "\<forall>q. under base q \<longrightarrow> link_at fs q = None"
  shows "clean fs (base @ q)"
proof (induction q rule: rev_induct)
  case (snoc x xs)
  have "under base (base @ xs @ [x])" by (simp add: under_append)
  then have "link_at fs ((base @ xs) @ [x]) = None" using assms(2) by simp
  with snoc show ?case by (simp only: clean_snoc flip: append_assoc)
qed (use assms(1) in simp)

lemma read_file_plain:
  assumes "sound_workspace base fs" "plain_path p"
  shows "read_file fs base p = (case lookup fs (base @ split_slash p) of Some (File s) \<Rightarrow> Some s | _ \<Rightarrow> None)"
proof -
  have "clean fs (base @ split_slash p)" using assms(1) by (simp add: sound_workspace_def clean_under)
  then have "realpath fs [] [] (base @ split_slash p) = Some (base @ split_slash p)"
    using assms by (intro realpath_self) (auto simp: plain_path_def sound_workspace_def)
  then show ?thesis by (simp add: read_file_def)
qed

lemma place_file_effect:
  assumes "place_file base f fs = Inr fs'" "sound_workspace base fs" "plain_path (fst f)"
  shows "sound_workspace base fs' \<and> (\<forall>p. \<not> under base p \<longrightarrow> lookup fs' p = lookup fs p) \<and>
    (\<forall>q s. lookup fs' q = Some (File s) \<longleftrightarrow>
       (if q = base @ split_slash (fst f) then s = snd f else lookup fs q = Some (File s)))"
proof -
  have "filter (\<lambda>p. p \<noteq> [] \<and> p \<noteq> ''.'') (split_slash (fst f)) = split_slash (fst f)"
    using assms(3) by (auto simp: plain_path_def list_all_iff plain_name_def intro!: filter_True)
  then obtain fs1 where m: "make_dirs fs [] (butlast (base @ split_slash (fst f))) = Inr fs1"
    and w: "write_text fs1 (base @ split_slash (fst f)) (snd f) = Inr fs'"
    using assms(1) by (auto simp: place_file_def Let_def res_simps)
  have "fs_wf fs" "lookup fs base = Some Dir" "under base (base @ split_slash (fst f))"
    using assms(2) by (auto simp: sound_workspace_def under_append)
  note e = write_stays_under[OF m w this]
  have l: "link_at fs' p = link_at fs p" if "link_at fs' p \<noteq> None" for p using e that by blast
  have c: "clean fs base" "list_all plain_name base" "\<And>q. under base q \<Longrightarrow> link_at fs q = None"
    using assms(2) by (simp_all add: sound_workspace_def)
  have "clean fs' base" by (rule clean_mono[OF c(1)]) (use l in blast)
  moreover have "link_at fs' q = None" if "under base q" for q using l[of q] c(3)[OF that] by metis
  ultimately have "sound_workspace base fs'" using e c(2) by (simp add: sound_workspace_def)
  with e show ?thesis by blast
qed

lemma place_files_effect:
  "place_files base files fs = Inr fs' \<Longrightarrow> sound_workspace base fs \<Longrightarrow> list_all (plain_path \<circ> fst) files \<Longrightarrow>
     distinct (map fst files) \<Longrightarrow>
   sound_workspace base fs' \<and> (\<forall>p. \<not> under base p \<longrightarrow> lookup fs' p = lookup fs p) \<and>
   (\<forall>p s. lookup fs' (base @ split_slash p) = Some (File s) \<longleftrightarrow>
      (case map_of files p of Some body \<Rightarrow> s = body | None \<Rightarrow> lookup fs (base @ split_slash p) = Some (File s)))"
proof (induction base files fs rule: place_files.induct)
  case (2 base f files fs)
  obtain fs1 where f: "place_file base f fs = Inr fs1" and r: "place_files base files fs1 = Inr fs'"
    using "2.prems"(1) by (auto simp: res_simps)
  have e: "sound_workspace base fs1" "\<And>p. \<not> under base p \<Longrightarrow> lookup fs1 p = lookup fs p"
    "\<And>q s. lookup fs1 q = Some (File s) \<longleftrightarrow>
       (if q = base @ split_slash (fst f) then s = snd f else lookup fs q = Some (File s))"
    using place_file_effect[OF f "2.prems"(2)] "2.prems"(3) by auto
  have ih: "sound_workspace base fs'" "\<And>p. \<not> under base p \<Longrightarrow> lookup fs' p = lookup fs1 p"
    "\<And>p s. lookup fs' (base @ split_slash p) = Some (File s) \<longleftrightarrow>
      (case map_of files p of Some body \<Rightarrow> s = body | None \<Rightarrow> lookup fs1 (base @ split_slash p) = Some (File s))"
    using "2.IH"[OF r e(1)] "2.prems"(3,4) by auto
  have "map_of files (fst f) = None" using "2.prems"(4) by (auto simp: map_of_eq_None_iff)
  then have "lookup fs' (base @ split_slash p) = Some (File s) \<longleftrightarrow>
      (case map_of (f # files) p of Some body \<Rightarrow> s = body | None \<Rightarrow> lookup fs (base @ split_slash p) = Some (File s))" for p s
    by (cases f) (auto simp: ih(3) e(3) split_on_inject split: option.splits)
  with ih(1,2) e(2) show ?case by simp
qed simp

lemma case_file:
  assumes "\<And>t. x = Some (File t) \<longleftrightarrow> y = Some t"
  shows "(case x of Some (File s) \<Rightarrow> Some s | _ \<Rightarrow> None) = y"
  using assms by (cases y) (auto split: option.splits entry.splits)

text \<open>The workspace starts as the tree: reading a path back gives the file of the tree there.\<close>

lemma materialise_reads:
  assumes "materialise base git_setup files host = Inr fs"
    and host: "fs_wf host" "lookup host base = None" "lookup host (butlast base) = Some Dir" "clean host (butlast base)"
      "list_all plain_name base"
    and files: "list_all (plain_path \<circ> fst) files" "distinct (map fst files)"
  shows "sound_workspace base fs \<and> (\<forall>p. \<not> under base p \<longrightarrow> lookup fs p = lookup host p) \<and>
    (\<forall>p. plain_path p \<longrightarrow> read_file fs base p = map_of files p)"
proof -
  have "base \<noteq> []" using host(2) by (auto simp: lookup_def)
  then obtain d x where dx: "base = d @ [x]" by (cases base rule: rev_cases) auto
  let ?fs0 = "put_entry base Dir host"
  have l0: "lookup ?fs0 q = (if q = base then Some Dir else lookup host q)" for q
    using \<open>base \<noteq> []\<close> by (rule lookup_put)
  have none: "lookup host q = None" if under_q: "under base q" for q
  proof (rule ccontr)
    assume "lookup host q \<noteq> None"
    moreover obtain r where "q = base @ r" using under_q unfolding under_append by blast
    ultimately show False using fs_wf_parent[OF host(1), of base r] host(2) by (cases r) auto
  qed
  have "fs_wf ?fs0" using fs_wf_put_leaf[OF host(1), of d x Dir] host(2,3) dx by simp
  moreover have nolinks: "\<forall>q. under base q \<longrightarrow> link_at ?fs0 q = None"
    using none by (auto simp: link_at_def l0)
  moreover have "clean ?fs0 base"
  proof -
    have "link_at ?fs0 q = (if q = base then None else link_at host q)" for q
      by (simp add: link_at_def l0)
    then have "clean ?fs0 (butlast base)" and "link_at ?fs0 base = None"
      using clean_mono[OF host(4), of ?fs0] by simp_all
    then show ?thesis using clean_snoc[of ?fs0 d x] dx by simp
  qed
  ultimately have s0: "sound_workspace base ?fs0" using host(5) by (simp add: sound_workspace_def l0)
  have "place_files base files ?fs0 = Inr fs" using assms(1) by (auto simp: materialise_def res_simps)
  note e = place_files_effect[OF this s0 files]
  have s: "sound_workspace base fs" using e by (rule conjunct1)
  have at: "lookup fs (base @ split_slash p) = Some (File t) \<longleftrightarrow>
      (case map_of files p of Some body \<Rightarrow> t = body | None \<Rightarrow> lookup ?fs0 (base @ split_slash p) = Some (File t))" for p t
    by (rule conjunct2[OF conjunct2[OF e], rule_format])
  have out: "lookup fs p = lookup host p" if "\<not> under base p" for p
  proof -
    have "lookup fs p = lookup ?fs0 p" using e that by blast
    moreover have "p \<noteq> base" using that by (auto simp: under_def)
    ultimately show ?thesis by (simp add: l0)
  qed
  have "read_file fs base p = map_of files p" if "plain_path p" for p
  proof -
    have "lookup ?fs0 (base @ split_slash p) \<noteq> Some (File t)" for t
      using none[of "base @ split_slash p"] by (auto simp: l0 under_append)
    then have "lookup fs (base @ split_slash p) = Some (File t) \<longleftrightarrow> map_of files p = Some t" for t
      using at[of p t] by (auto split: option.splits)
    then show ?thesis unfolding read_file_plain[OF s that] by (rule case_file)
  qed
  with s out show ?thesis by blast
qed

section \<open>Where the workspace falls short\<close>

text \<open>
  \<open>.\<close> is not empty and resolves to the root itself: \<open>confine\<close> returns the directory, and the
  write that follows fails on it.
\<close>

lemma dot_is_the_root:
  assumes "resolve_path fs [] (path_text base) = Inr base"
  shows "confine fs base ''.'' = Inr base \<and>
    (lookup fs base = Some Dir \<longrightarrow> (\<exists>e. write_text fs base content = Inl e))"
proof -
  have b: "clean fs base" "list_all plain_name base" using resolve_path_Inr[OF assms] by simp_all
  have "realpath fs [] [] (base @ [''.'']) = Some base"
    using realpath_append[of fs "[]" base "[]" "[''.'']"] b by (simp add: realpath.simps)
  moreover have "py_strip ''.'' \<noteq> []" by code_simp
  ultimately show ?thesis using assms by (simp add: confine_def resolve_path_def under_def write_text_def)
qed

lemma splitlines_one:
  assumes "list_all (\<lambda>c. \<not> is_line_break c) s" "s \<noteq> []"
  shows "splitlines s = [s]"
proof -
  have "list_all (\<lambda>c. \<not> is_line_break c) t \<Longrightarrow>
      splitlines_from acc t = (if acc = [] \<and> t = [] then [] else [rev acc @ t])" for acc t
    by (induction t arbitrary: acc) (auto simp: is_line_break_def)
  from this[OF assms(1), of "[]"] show ?thesis using assms(2) by (simp add: splitlines_def)
qed

lemma git_changed_files_one:
  assumes "tab \<notin> set x" "list_all (\<lambda>c. \<not> is_line_break c) x"
  shows "git_changed_files (''1'' @ [tab] @ ''0'' @ [tab] @ x) = [\<lparr> fc_path = x, fc_added = 1, fc_removed = 0 \<rparr>]"
proof -
  have "splitlines (''1'' @ [tab] @ ''0'' @ [tab] @ x) = [''1'' @ [tab] @ ''0'' @ [tab] @ x]"
    by (rule splitlines_one) (use assms(2) in \<open>simp_all add: tab_def is_line_break_def\<close>)
  moreover have "split_on tab (''1'' @ [tab] @ ''0'' @ [tab] @ x) = [''1'', ''0'', x]"
    using split_on_plain[OF assms(1)] by (simp add: tab_def)
  moreover have "numstat_count ''1'' = 1" "numstat_count ''0'' = 0" by code_simp+
  ultimately show ?thesis by (simp add: git_changed_files_def numstat_line_def List.map_filter_def)
qed

lemma read_changes_one:
  assumes "tab \<notin> set x" "list_all (\<lambda>c. \<not> is_line_break c) x"
  shows "read_changes fs root_dir (''1'' @ [tab] @ ''0'' @ [tab] @ x) = [(x, read_file fs root_dir x)]"
  unfolding read_changes_def git_changed_files_one[OF assms] by (simp add: dict_of_def)

text \<open>
  A renamed file is one line of \<open>git diff --numstat\<close> whose path is \<open>old => new\<close>.  It is read as the
  deletion of a file of that name; the new file is not in the result.
\<close>

lemma rename_is_read_as_deletion:
  assumes "clean fs root_dir" "list_all plain_name root_dir" "lookup fs (root_dir @ [''a.py => b.py'']) = None"
  shows "read_changes fs root_dir (''1'' @ [tab] @ ''0'' @ [tab] @ ''a.py => b.py'') = [(''a.py => b.py'', None)]"
proof -
  have "clean fs (root_dir @ [''a.py => b.py''])" using assms by (simp add: clean_snoc link_at_def)
  then have "realpath fs [] [] (root_dir @ [''a.py => b.py'']) = Some (root_dir @ [''a.py => b.py''])"
    using assms(2) by (intro realpath_self) (simp_all add: plain_name_def)
  then have "read_file fs root_dir ''a.py => b.py'' = None" using assms(3) by (simp add: read_file_def)
  then show ?thesis by (subst read_changes_one) (simp_all add: tab_def is_line_break_def)
qed

text \<open>
  The diff is read through links.  A file name in the workspace that the tests made a link to a
  file elsewhere on the host is reported by git as changed, and its new content in the change that
  goes out is the content of that file of the host: reading back is not confined as writing is.
\<close>

theorem diff_reads_through_links:
  assumes "clean fs root_dir" "list_all plain_name root_dir" "plain_name x" "tab \<notin> set x"
    and "list_all (\<lambda>c. \<not> is_line_break c) x" "link_at fs (root_dir @ [x]) = Some (path_text secret)"
    and "clean fs secret" "list_all plain_name secret" "lookup fs secret = Some (File s)"
  shows "read_changes fs root_dir (''1'' @ [tab] @ ''0'' @ [tab] @ x) = [(x, Some s)]"
proof -
  have "secret \<noteq> []" using assms(9) by (auto simp: lookup_def)
  then have "realpath fs [root_dir @ [x]] [] (split_slash (path_text secret)) = Some secret"
    using realpath_plain_clean[of fs "[]" secret] assms(7,8) by (simp add: split_path_text realpath.simps(2)[of _ _ _ "[]"])
  then have "realpath fs [] root_dir [x] = Some secret"
    using assms(3,6) by (simp add: realpath.simps plain_name_def) (simp add: path_text_def)
  then have "realpath fs [] [] (root_dir @ [x]) = Some secret"
    using realpath_append[of fs "[]" root_dir] assms(1,2) by simp
  moreover have "split_slash x = [x]" using assms(3) by (simp add: plain_name_def split_on_plain)
  ultimately have "read_file fs root_dir x = Some s" using assms(9) by (simp add: read_file_def)
  then show ?thesis by (simp only: read_changes_one[OF assms(4,5)])
qed

section \<open>On a small host\<close>

definition sample_host :: file_system where
  "sample_host = [([''w''], Dir), ([''w'', ''a.py''], File ''x''), ([''etc''], Dir),
     ([''etc'', ''key''], File ''secret''), ([''w'', ''k''], Link ''/etc/key'')]"

lemma sample_host_wf: "fs_wf sample_host"
  unfolding fs_wf_def
  by (auto simp: lookup_def sample_host_def append_eq_Cons_conv split: if_splits)

lemma confined_path_stays_inside_witness:
  "confine sample_host [''w''] ''x/../b.py'' = Inr [''w'', ''b.py''] \<and>
   (\<exists>base rest. resolve_path sample_host [] (path_text [''w'']) = Inr base \<and> [''w'', ''b.py''] = base @ rest)"
proof -
  have c: "confine sample_host [''w''] ''x/../b.py'' = Inr [''w'', ''b.py'']" by code_simp
  with confined_path_stays_inside[OF c] show ?thesis by blast
qed

lemma edits_stay_inside_witness:
  "\<exists>fs'. apply_edits [''w''] [(''edits'', JList [JObj [(''path'', JStr ''d/b.py''), (''content'', JStr ''y'')]])] sample_host
      = Inr ([''d/b.py''], fs') \<and> fs_wf fs' \<and> lookup fs' [''etc'', ''key''] = lookup sample_host [''etc'', ''key'']"
proof -
  have r: "resolve_path sample_host [] (path_text [''w'']) = Inr [''w'']" by code_simp
  have l: "lookup sample_host [''w''] = Some Dir" by code_simp
  have "apply_edits [''w''] [(''edits'', JList [JObj [(''path'', JStr ''d/b.py''), (''content'', JStr ''y'')]])] sample_host
      = Inr ([''d/b.py''], put_entry [''w'', ''d'', ''b.py''] (File ''y'') (put_entry [''w'', ''d''] Dir sample_host))"
    by code_simp
  with edits_stay_inside[OF this r sample_host_wf l] show ?thesis by (auto simp: under_def)
qed

lemma diff_reads_through_links_witness:
  "read_changes sample_host [''w''] (''1'' @ [tab] @ ''0'' @ [tab] @ ''k'') = [(''k'', Some ''secret'')]"
proof (rule diff_reads_through_links[where secret = "[''etc'', ''key'']"])
  have "link_at sample_host p = (if p = [''w'', ''k''] then Some ''/etc/key'' else None)" for p
    by (auto simp: link_at_def lookup_def sample_host_def)
  then show "clean sample_host [''w'']" "clean sample_host [''etc'', ''key'']"
    "link_at sample_host ([''w''] @ [''k'']) = Some (path_text [''etc'', ''key''])"
    by (auto simp: clean_def path_text_def take_Cons' split: if_splits)
qed (code_simp+)

end
