(* ===== verification/Credentials.thy ===== *)
theory Credentials
  imports Node_World
begin

text \<open>
  engine/adapters/credentials.py, engine/adapters/secrets.py and the broker of
  engine/activities/nodes.py: which node may ask for which credential, the encrypted table the
  Workbench writes, and the order in which a credential is looked for.  The cipher, the hash and
  the base64 decoding of the master key are \<open>cipher\<close>; bytes are strings.
\<close>

section \<open>Secrets and kinds\<close>

datatype secret = Secret string

fun reveal :: "secret \<Rightarrow> string" where
  "reveal (Secret v) = v"

definition secret_repr :: "secret \<Rightarrow> string" where
  "secret_repr s = ''Secret(***)''"

definition secret_truthy :: "secret \<Rightarrow> bool" where
  "secret_truthy s \<longleftrightarrow> reveal s \<noteq> []"

datatype credential_kind =
    TICKET_READ_WRITE | SCM_READ | SCM_WRITE_BRANCH | SCM_PULL_REQUEST | SCM_MERGE
  | CI_READ | CI_TRIGGER | DEPLOY | LLM_API_KEY

fun kind_str :: "credential_kind \<Rightarrow> string" where
  "kind_str TICKET_READ_WRITE = ''ticket.read_write''"
| "kind_str SCM_READ = ''scm.read''"
| "kind_str SCM_WRITE_BRANCH = ''scm.write_branch''"
| "kind_str SCM_PULL_REQUEST = ''scm.pull_request''"
| "kind_str SCM_MERGE = ''scm.merge''"
| "kind_str CI_READ = ''ci.read''"
| "kind_str CI_TRIGGER = ''ci.trigger''"
| "kind_str DEPLOY = ''deploy''"
| "kind_str LLM_API_KEY = ''llm.api_key''"

definition ALL_KINDS :: "credential_kind list" where
  "ALL_KINDS = [TICKET_READ_WRITE, SCM_READ, SCM_WRITE_BRANCH, SCM_PULL_REQUEST, SCM_MERGE,
     CI_READ, CI_TRIGGER, DEPLOY, LLM_API_KEY]"

definition PRIVILEGED_KINDS :: "credential_kind list" where
  "PRIVILEGED_KINDS = [SCM_MERGE, CI_TRIGGER, DEPLOY]"

text \<open>\<open>CredentialKind(text)\<close>.\<close>

definition kind_of :: "string \<Rightarrow> credential_kind res" where
  "kind_of text = (case find (\<lambda>k. kind_str k = text) ALL_KINDS of
     Some k \<Rightarrow> Inr k
   | None \<Rightarrow> Inl (OtherError ''ValueError'' (repr_str text @ '' is not a valid CredentialKind'')))"

definition assert_may_hold :: "(string \<times> node_class) option \<Rightarrow> credential_kind \<Rightarrow> unit res" where
  "assert_may_hold current kind =
    (if kind \<notin> set PRIVILEGED_KINDS then Inr ()
     else case current of
         None \<Rightarrow> Inr ()
       | Some (node_id, c) \<Rightarrow>
           if may_call_llm c then
             Inl (InvariantViolation (''node '' @ repr_str node_id @ '' is classified '' @ repr_str (class_str c)
               @ '' and contains a model; it may not hold a '' @ repr_str (kind_str kind)
               @ '' credential (invariant 2)''))
           else Inr ())"

record credential_request =
  cq_kind :: credential_kind
  cq_realm :: string

text \<open>Constructing a request runs the check.\<close>

definition new_request :: "(string \<times> node_class) option \<Rightarrow> credential_kind \<Rightarrow> string \<Rightarrow> credential_request res" where
  "new_request current kind realm =
     and_then (assert_may_hold current kind) (\<lambda>u. Inr \<lparr> cq_kind = kind, cq_realm = realm \<rparr>)"

section \<open>The environment\<close>

fun VARIABLES :: "credential_kind \<Rightarrow> string" where
  "VARIABLES TICKET_READ_WRITE = ''KUWARDEN_TICKET_TOKEN''"
| "VARIABLES SCM_READ = ''KUWARDEN_SCM_TOKEN''"
| "VARIABLES SCM_WRITE_BRANCH = ''KUWARDEN_SCM_TOKEN''"
| "VARIABLES SCM_PULL_REQUEST = ''KUWARDEN_SCM_TOKEN''"
| "VARIABLES SCM_MERGE = ''KUWARDEN_SCM_MERGE_TOKEN''"
| "VARIABLES CI_READ = ''KUWARDEN_SCM_TOKEN''"
| "VARIABLES CI_TRIGGER = ''KUWARDEN_CI_TOKEN''"
| "VARIABLES DEPLOY = ''KUWARDEN_DEPLOY_TOKEN''"
| "VARIABLES LLM_API_KEY = ''KUWARDEN_LLM_API_KEY''"

definition is_lower :: "char \<Rightarrow> bool" where
  "is_lower c = (let n = (of_char c :: nat) in 97 \<le> n \<and> n \<le> 122)"

definition is_alnum :: "char \<Rightarrow> bool" where
  "is_alnum c = (let n = (of_char c :: nat) in is_lower c \<or> (65 \<le> n \<and> n \<le> 90) \<or> (48 \<le> n \<and> n \<le> 57))"

definition upper_char :: "char \<Rightarrow> char" where
  "upper_char c = (if is_lower c then char_of ((of_char c :: nat) - 32) else c)"

definition realm_slug :: "string \<Rightarrow> string" where
  "realm_slug realm = map (\<lambda>c. if is_alnum c then upper_char c else CHR ''_'') realm"

definition env_resolve :: "(string \<times> string) list \<Rightarrow> credential_request \<Rightarrow> secret res" where
  "env_resolve environ q =
    (let name = VARIABLES (cq_kind q);
         scoped = name @ ''__'' @ realm_slug (cq_realm q);
         value = (if truthy (map_of environ scoped) then map_of environ scoped else map_of environ name)
     in if \<not> truthy value then
          Inl (PolicyDenied (''no credential available for '' @ kind_str (cq_kind q) @ '' in realm ''
            @ repr_str (cq_realm q) @ '' (looked for '' @ scoped @ '', then '' @ name @ '')''))
        else Inr (Secret (the value)))"

section \<open>The encrypted table\<close>

record credential_row =
  cw_key_id :: string
  cw_nonce :: string
  cw_ciphertext :: string

type_synonym credential_table = "((uuid \<times> string) \<times> credential_row) list"

definition find_row :: "uuid \<Rightarrow> string \<Rightarrow> credential_table \<Rightarrow> credential_row option" where
  "find_row app kind t = map_of t (app, kind)"

text \<open>The \<open>DELETE\<close> and the upsert; the primary key is the application and the kind.\<close>

definition drop_row :: "uuid \<Rightarrow> string \<Rightarrow> credential_table \<Rightarrow> credential_table" where
  "drop_row app kind t = filter (\<lambda>(k, r). k \<noteq> (app, kind)) t"

definition upsert_row :: "uuid \<Rightarrow> string \<Rightarrow> credential_row \<Rightarrow> credential_table \<Rightarrow> credential_table" where
  "upsert_row app kind r t = drop_row app kind t @ [((app, kind), r)]"

text \<open>
  \<open>ca_encrypt key nonce plaintext associated\<close> and \<open>ca_decrypt key nonce ciphertext associated\<close> are
  AES-GCM; \<open>ca_key_id\<close> is the fingerprint of a key; \<open>ca_b64decode\<close> decodes the master key.
\<close>

record cipher =
  ca_encrypt :: "string \<Rightarrow> string \<Rightarrow> string \<Rightarrow> string \<Rightarrow> string"
  ca_decrypt :: "string \<Rightarrow> string \<Rightarrow> string \<Rightarrow> string \<Rightarrow> string option"
  ca_key_id :: "string \<Rightarrow> string"
  ca_b64decode :: "string \<Rightarrow> string option"

definition KEY_VARIABLE :: string where
  "KEY_VARIABLE = ''KUWARDEN_SECRET_KEY''"

definition KEY_BYTES :: nat where
  "KEY_BYTES = 32"

definition secret_key_error :: "string \<Rightarrow> 'a res" where
  "secret_key_error m = Inl (OtherError ''SecretKeyError'' m)"

definition load_master_key :: "cipher \<Rightarrow> (string \<times> string) list \<Rightarrow> string option \<Rightarrow> string res" where
  "load_master_key ca environ raw =
    (let material = (case raw of Some r \<Rightarrow> Some r | None \<Rightarrow> map_of environ KEY_VARIABLE)
     in if \<not> truthy material then
          secret_key_error (KEY_VARIABLE @ '' is not set. Generate one with ''
            @ ''`uv run python -m engine.adapters.secrets keygen` and put it in .env '' @ [em_dash]
            @ '' losing it means every stored credential must be re-entered.'')
        else case ca_b64decode ca (the material) of
            None \<Rightarrow> secret_key_error (KEY_VARIABLE @ '' is not valid base64url'')
          | Some key \<Rightarrow>
              if length key \<noteq> KEY_BYTES then
                secret_key_error (KEY_VARIABLE @ '' must decode to '' @ string_of_nat KEY_BYTES @ '' bytes, got ''
                  @ string_of_nat (length key))
              else Inr key)"

definition associated_data :: "uuid \<Rightarrow> credential_kind \<Rightarrow> string" where
  "associated_data app kind = ''kuwarden/v1/'' @ app @ ''/'' @ kind_str kind"

record credential_store =
  cs_app_id :: uuid
  cs_key :: string

definition open_store :: "cipher \<Rightarrow> (string \<times> string) list \<Rightarrow> uuid \<Rightarrow> string option \<Rightarrow> credential_store res" where
  "open_store ca environ app raw =
     and_then (load_master_key ca environ raw) (\<lambda>key. Inr \<lparr> cs_app_id = app, cs_key = key \<rparr>)"

definition store_resolve :: "cipher \<Rightarrow> credential_store \<Rightarrow> credential_table \<Rightarrow> credential_request \<Rightarrow> secret res" where
  "store_resolve ca s t q =
    (case find_row (cs_app_id s) (kind_str (cq_kind q)) t of
       None \<Rightarrow> Inl (PolicyDenied (''no credential stored for '' @ kind_str (cq_kind q) @ '' on application '' @ cs_app_id s))
     | Some r \<Rightarrow>
         if cw_key_id r \<noteq> ca_key_id ca (cs_key s) then
           secret_key_error (kind_str (cq_kind q) @ '' was encrypted with key '' @ cw_key_id r @ '', but ''
             @ KEY_VARIABLE @ '' is key '' @ ca_key_id ca (cs_key s)
             @ ''; the credential must be re-entered or the original key restored'')
         else case ca_decrypt ca (cs_key s) (cw_nonce r) (cw_ciphertext r) (associated_data (cs_app_id s) (cq_kind q)) of
             None \<Rightarrow> secret_key_error (kind_str (cq_kind q)
               @ '' failed to decrypt; the ciphertext has been altered or moved between rows'')
           | Some plaintext \<Rightarrow> Inr (Secret plaintext))"

text \<open>\<open>nonce\<close> are the random bytes drawn for this write.\<close>

definition store_put :: "cipher \<Rightarrow> credential_store \<Rightarrow> string \<Rightarrow> uuid \<Rightarrow> credential_kind \<Rightarrow> secret
    \<Rightarrow> credential_table \<Rightarrow> credential_table res" where
  "store_put ca s nonce app kind value t =
    (if app \<noteq> cs_app_id s then
       Inl (PolicyDenied (''store is scoped to application '' @ cs_app_id s @ '', refusing a write to '' @ app))
     else Inr (upsert_row app (kind_str kind)
       \<lparr> cw_key_id = ca_key_id ca (cs_key s), cw_nonce = nonce,
         cw_ciphertext = ca_encrypt ca (cs_key s) nonce (reveal value) (associated_data app kind) \<rparr> t))"

definition store_forget :: "credential_store \<Rightarrow> uuid \<Rightarrow> credential_kind \<Rightarrow> credential_table \<Rightarrow> credential_table" where
  "store_forget s app kind t = drop_row app (kind_str kind) t"

fun all_kinds_of :: "string list \<Rightarrow> credential_kind list res" where
  "all_kinds_of [] = Inr []"
| "all_kinds_of (x # xs) = and_then (kind_of x) (\<lambda>k. and_then (all_kinds_of xs) (\<lambda>ks. Inr (k # ks)))"

fun insert_kind :: "string \<Rightarrow> string list \<Rightarrow> string list" where
  "insert_kind x [] = [x]"
| "insert_kind x (y # ys) = (if code_le x y then x # y # ys else y # insert_kind x ys)"

definition kinds_present :: "credential_store \<Rightarrow> uuid \<Rightarrow> credential_table \<Rightarrow> credential_kind list res" where
  "kinds_present s app t =
     all_kinds_of (foldr insert_kind (map (snd \<circ> fst) (filter (\<lambda>(k, r). fst k = app) t)) [])"

section \<open>Store, then environment\<close>

definition store_then_env :: "cipher \<Rightarrow> credential_store \<Rightarrow> credential_table \<Rightarrow> (string \<times> string) list
    \<Rightarrow> credential_request \<Rightarrow> secret res" where
  "store_then_env ca s t environ q =
    (case store_resolve ca s t q of
       Inr v \<Rightarrow> Inr v
     | Inl (PolicyDenied m) \<Rightarrow>
         (case env_resolve environ q of
            Inl (PolicyDenied m') \<Rightarrow>
              Inl (PolicyDenied (''no credential for '' @ kind_str (cq_kind q) @ '' (realm '' @ repr_str (cq_realm q)
                @ ''): none stored for application '' @ cs_app_id s
                @ '' in the Workbench, and none in the environment''))
          | r \<Rightarrow> r)
     | Inl e \<Rightarrow> Inl e)"

section \<open>The table as slots\<close>

text \<open>What the store relies on: one row for each application and kind, and rows that do not touch.\<close>

locale slot_table =
  fixes find :: "'a \<Rightarrow> 'k \<Rightarrow> 't \<Rightarrow> 'r option"
    and drop :: "'a \<Rightarrow> 'k \<Rightarrow> 't \<Rightarrow> 't"
    and upsert :: "'a \<Rightarrow> 'k \<Rightarrow> 'r \<Rightarrow> 't \<Rightarrow> 't"
  assumes find_upsert: "find a k (upsert b l r t) = (if a = b \<and> k = l then Some r else find a k t)"
    and find_drop: "find a k (drop b l t) = (if a = b \<and> k = l then None else find a k t)"
begin

lemma find_upsert_same: "find a k (upsert a k r t) = Some r"
  by (simp add: find_upsert)

lemma find_moved: "a \<noteq> b \<or> k \<noteq> l \<Longrightarrow> find a k (upsert b l r t) = find a k t"
  by (auto simp: find_upsert)

lemma drop_after_upsert: "find a k (drop b l (upsert b l r t)) = find a k (drop b l t)"
  by (simp add: find_upsert find_drop)

end

interpretation credentials: slot_table find_row drop_row upsert_row
proof
  have m: "map_of (filter (\<lambda>(k, r). k \<noteq> x) t) y = (if y = x then None else map_of t y)"
    for x y and t :: credential_table
    by (induction t) auto
  show "find_row a k (drop_row b l t) = (if a = b \<and> k = l then None else find_row a k t)" for a k b l t
    by (simp add: find_row_def drop_row_def m)
  show "find_row a k (upsert_row b l r t) = (if a = b \<and> k = l then Some r else find_row a k t)" for a k b l r t
    by (auto simp: find_row_def upsert_row_def drop_row_def m map_add_def split: option.split)
qed

section \<open>Properties\<close>

lemma kind_of_str: "kind_of (kind_str k) = Inr k"
  by (cases k) (simp_all add: kind_of_def ALL_KINDS_def)

lemma kind_str_inject: "kind_str k = kind_str l \<longleftrightarrow> k = l"
  by (metis kind_of_str Inr_inject)

lemma kind_str_plain: "CHR ''/'' \<notin> set (kind_str k)"
  by (cases k) simp_all

text \<open>
  A node that contains a model cannot even ask for a merge, pipeline or deployment credential: a
  request is constructed exactly when its kind is not one of the three privileged ones or the code
  asking runs in no node or in a deterministic one.
\<close>

theorem agents_hold_no_privileged_credential:
  "(\<exists>q. new_request current kind realm = Inr q) \<longleftrightarrow>
     kind \<notin> {SCM_MERGE, CI_TRIGGER, DEPLOY} \<or> current = None \<or> (\<exists>node_id. current = Some (node_id, DETERMINISTIC))"
  by (cases current) (auto simp: new_request_def assert_may_hold_def PRIVILEGED_KINDS_def may_call_llm_def split: if_splits)

text \<open>
  A stored credential is read back.  After the store of an application accepted a credential, it
  resolves to the same secret for every realm, and what the table held for any other slot is
  unchanged.
\<close>

theorem stored_credential_is_read_back:
  assumes "store_put ca s nonce app kind value t = Inr t'"
    and "\<And>key m a. ca_decrypt ca key nonce (ca_encrypt ca key nonce m a) a = Some m"
  shows "store_resolve ca s t' \<lparr> cq_kind = kind, cq_realm = realm \<rparr> = Inr (Secret (reveal value)) \<and> app = cs_app_id s \<and>
    (\<forall>b l. \<not> (b = app \<and> l = kind_str kind) \<longrightarrow> find_row b l t' = find_row b l t)"
proof -
  have app: "app = cs_app_id s" and t': "t' = upsert_row app (kind_str kind)
       \<lparr> cw_key_id = ca_key_id ca (cs_key s), cw_nonce = nonce,
         cw_ciphertext = ca_encrypt ca (cs_key s) nonce (reveal value) (associated_data app kind) \<rparr> t"
    using assms(1) by (auto simp: store_put_def split: if_splits)
  then show ?thesis
    using assms(2) by (simp add: store_resolve_def credentials.find_upsert)
qed

lemma associated_data_inject:
  assumes "CHR ''/'' \<notin> set a" "CHR ''/'' \<notin> set b" "associated_data a k = associated_data b l"
  shows "a = b \<and> k = l"
proof -
  have "a @ CHR ''/'' # kind_str k = b @ CHR ''/'' # kind_str l"
    using assms(3) by (simp add: associated_data_def)
  then have "split_on (CHR ''/'') (a @ CHR ''/'' # kind_str k) = split_on (CHR ''/'') (b @ CHR ''/'' # kind_str l)"
    by simp
  then show ?thesis
    using assms(1,2) kind_str_plain by (simp add: split_on_cons split_on_plain kind_str_inject)
qed

text \<open>
  C35. A row cannot be moved.  A ciphertext written for one application and kind and copied into the
  row of another never yields a secret there, for whichever slot it is copied to, provided the
  cipher refuses a ciphertext under other associated data; the two slots have different
  associated data because neither a UUID nor a kind contains the separator.
\<close>

theorem moved_ciphertext_is_refused:
  assumes "store_put ca s nonce app kind value t = Inr t'" "find_row app (kind_str kind) t' = Some r"
    and "\<And>key m a b. a \<noteq> b \<Longrightarrow> ca_decrypt ca key nonce (ca_encrypt ca key nonce m a) b = None"
    and "cs_key victim = cs_key s" "cs_app_id victim \<noteq> app \<or> cq_kind q \<noteq> kind"
    and "CHR ''/'' \<notin> set app" "CHR ''/'' \<notin> set (cs_app_id victim)"
  shows "\<exists>m. store_resolve ca victim (upsert_row (cs_app_id victim) (kind_str (cq_kind q)) r t'') q
    = Inl (OtherError ''SecretKeyError'' m)"
proof -
  have r: "r = \<lparr> cw_key_id = ca_key_id ca (cs_key s), cw_nonce = nonce,
         cw_ciphertext = ca_encrypt ca (cs_key s) nonce (reveal value) (associated_data app kind) \<rparr>"
    using assms(1,2) by (auto simp: store_put_def credentials.find_upsert split: if_splits)
  have "associated_data app kind \<noteq> associated_data (cs_app_id victim) (cq_kind q)"
    using associated_data_inject[OF assms(6,7)] assms(5) by auto
  then show ?thesis
    using assms(3,4) by (simp add: store_resolve_def credentials.find_upsert r secret_key_error_def)
qed

lemma store_resolve_empty:
  "find_row (cs_app_id s) (kind_str (cq_kind q)) t = None \<Longrightarrow> store_resolve ca s t q =
     Inl (PolicyDenied (''no credential stored for '' @ kind_str (cq_kind q) @ '' on application '' @ cs_app_id s))"
  by (simp add: store_resolve_def)

lemma store_resolve_stored:
  "find_row (cs_app_id s) (kind_str (cq_kind q)) t = Some r \<Longrightarrow> store_resolve ca s t q \<noteq> Inl (PolicyDenied m)"
  by (simp add: store_resolve_def secret_key_error_def split: option.split)

lemma env_resolve_error: "env_resolve environ q = Inl e \<Longrightarrow> \<exists>m. e = PolicyDenied m"
  by (auto simp: env_resolve_def Let_def split: if_splits)

text \<open>
  The order of lookup.  A credential in the store wins over any environment; the environment is
  asked exactly when nothing is stored for the slot, so a credential that is stored and cannot be
  opened is reported as that and never replaced by a variable.
\<close>

theorem environment_only_when_nothing_is_stored:
  "store_then_env ca s t environ q =
    (case store_resolve ca s t q of
       Inr v \<Rightarrow> Inr v
     | Inl e \<Rightarrow>
         if find_row (cs_app_id s) (kind_str (cq_kind q)) t \<noteq> None then Inl e
         else (case env_resolve environ q of Inr v \<Rightarrow> Inr v
               | Inl e' \<Rightarrow> Inl (PolicyDenied (''no credential for '' @ kind_str (cq_kind q) @ '' (realm '' @ repr_str (cq_realm q)
                @ ''): none stored for application '' @ cs_app_id s
                @ '' in the Workbench, and none in the environment''))))"
proof (cases "find_row (cs_app_id s) (kind_str (cq_kind q)) t")
  case None
  then show ?thesis
    by (simp add: store_then_env_def store_resolve_empty)
      (use env_resolve_error[of environ q] in \<open>auto split: sum.split error.split\<close>)
next
  case (Some r)
  then show ?thesis
    using store_resolve_stored[OF Some, of ca]
    by (auto simp: store_then_env_def split: sum.split error.split)
qed

text \<open>Deleting is not scoped to the application of the store, as writing is.\<close>

lemma forget_is_not_scoped:
  "find_row app (kind_str kind) (store_forget s app kind t) = None"
  by (simp add: store_forget_def credentials.find_drop)

text \<open>
  The environment keys a realm by its letters and digits alone: two organisations whose names
  differ in punctuation or case get each other's scoped variable.
\<close>

lemma realms_share_a_variable:
  "env_resolve environ \<lparr> cq_kind = k, cq_realm = ''dev.azure.com:acme-eu'' \<rparr> = Inr v \<Longrightarrow>
   env_resolve environ \<lparr> cq_kind = k, cq_realm = ''dev.azure.com:Acme.EU'' \<rparr> = Inr v"
proof -
  have "realm_slug ''dev.azure.com:acme-eu'' = realm_slug ''dev.azure.com:Acme.EU''" by code_simp
  then show "env_resolve environ \<lparr> cq_kind = k, cq_realm = ''dev.azure.com:acme-eu'' \<rparr> = Inr v \<Longrightarrow> ?thesis"
    by (auto simp: env_resolve_def Let_def split: if_splits)
qed

section \<open>With a cipher\<close>

text \<open>A cipher that writes the associated data in front of the text and checks it.\<close>

definition sample_cipher :: cipher where
  "sample_cipher = \<lparr> ca_encrypt = (\<lambda>k n m a. string_of_nat (length a) @ '':'' @ a @ m),
     ca_decrypt = (\<lambda>k n c a. let h = string_of_nat (length a) @ '':'' @ a
        in if take (length h) c = h then Some (drop (length h) c) else None),
     ca_key_id = (\<lambda>k. ''id''), ca_b64decode = (\<lambda>x. Some x) \<rparr>"

definition sample_store :: credential_store where
  "sample_store = \<lparr> cs_app_id = ''app-1'', cs_key = ''k'' \<rparr>"

lemma sample_cipher_correct: "ca_decrypt sample_cipher k n (ca_encrypt sample_cipher k n m a) a = Some m"
  by (simp add: sample_cipher_def Let_def)

lemma string_of_nat_no_colon: "CHR '':'' \<notin> set (string_of_nat n)"
proof (induction n rule: string_of_nat.induct)
  case (1 n)
  have "CHR '':'' \<noteq> digit_char d" if "d < 10" for d
  proof
    assume e: "CHR '':'' = digit_char d"
    have "(of_char (digit_char d) :: nat) = 48 + d" using that by simp
    then show False using that by (simp add: e[symmetric] del: digit_char.simps)
  qed
  then show ?case using 1 by (subst string_of_nat.simps) (auto simp del: digit_char.simps)
qed

lemma length_prefix_inject:
  assumes "string_of_nat (length a) @ CHR '':'' # a @ m = string_of_nat (length b) @ CHR '':'' # b @ r"
  shows "a = b"
proof -
  have "split_on (CHR '':'') (string_of_nat (length a) @ CHR '':'' # a @ m) =
      split_on (CHR '':'') (string_of_nat (length b) @ CHR '':'' # b @ r)" using assms by simp
  then have s: "string_of_nat (length a) = string_of_nat (length b)"
    by (simp add: split_on_cons string_of_nat_no_colon)
  then have "length a = length b" by (metis digits_value_string_of_nat)
  with assms s show ?thesis by simp
qed

lemma sample_cipher_bound:
  assumes "a \<noteq> b"
  shows "ca_decrypt sample_cipher k n (ca_encrypt sample_cipher k n m a) b = None"
proof -
  define c where "c = string_of_nat (length a) @ CHR '':'' # a @ m"
  define h where "h = string_of_nat (length b) @ CHR '':'' # b"
  have "take (length h) c \<noteq> h"
  proof
    assume "take (length h) c = h"
    then have "c = h @ drop (length h) c" by (metis append_take_drop_id)
    then have "string_of_nat (length a) @ CHR '':'' # a @ m
        = string_of_nat (length b) @ CHR '':'' # b @ drop (length h) c"
      unfolding c_def h_def by (simp only: append_assoc append_Cons)
    with assms length_prefix_inject show False by blast
  qed
  then have "(if take (length h) c = h then Some (drop (length h) c) else None) = None"
    by (simp only: if_False)
  moreover have "ca_encrypt sample_cipher k n m a = c"
    unfolding sample_cipher_def c_def cipher.simps by (simp only: append_Cons append_Nil append_assoc)
  moreover have "ca_decrypt sample_cipher k n c b = (if take (length h) c = h then Some (drop (length h) c) else None)"
    unfolding sample_cipher_def h_def cipher.simps Let_def by (simp only: append_Cons append_Nil append_assoc)
  ultimately show ?thesis by (simp only:)
qed

lemma stored_credential_is_read_back_witness:
  "\<exists>t'. store_put sample_cipher sample_store ''n'' ''app-1'' SCM_READ (Secret ''t0k'') [] = Inr t' \<and>
     store_resolve sample_cipher sample_store t' \<lparr> cq_kind = SCM_READ, cq_realm = ''github.com:o'' \<rparr> = Inr (Secret ''t0k'')"
proof -
  obtain t' where p: "store_put sample_cipher sample_store ''n'' ''app-1'' SCM_READ (Secret ''t0k'') [] = Inr t'"
    by (simp add: store_put_def sample_store_def)
  show ?thesis using stored_credential_is_read_back[OF p sample_cipher_correct] p by auto
qed

lemma moved_ciphertext_is_refused_witness:
  "\<exists>t' r m. store_put sample_cipher sample_store ''n'' ''app-1'' SCM_READ (Secret ''t0k'') [] = Inr t' \<and>
     find_row ''app-1'' ''scm.read'' t' = Some r \<and>
     store_resolve sample_cipher \<lparr> cs_app_id = ''app-2'', cs_key = ''k'' \<rparr> (upsert_row ''app-2'' ''scm.read'' r t')
       \<lparr> cq_kind = SCM_READ, cq_realm = ''x'' \<rparr> = Inl (OtherError ''SecretKeyError'' m)"
proof -
  obtain t' where p: "store_put sample_cipher sample_store ''n'' ''app-1'' SCM_READ (Secret ''t0k'') [] = Inr t'"
    by (simp add: store_put_def sample_store_def)
  obtain r where r: "find_row ''app-1'' (kind_str SCM_READ) t' = Some r"
    using p by (auto simp: store_put_def sample_store_def credentials.find_upsert)
  show ?thesis
    using moved_ciphertext_is_refused[OF p r sample_cipher_bound, of "\<lparr> cs_app_id = ''app-2'', cs_key = ''k'' \<rparr>"
        "\<lparr> cq_kind = SCM_READ, cq_realm = ''x'' \<rparr>" t'] p r
    by (auto simp: sample_store_def)
qed

end
