(* ===== verification/Registry.thy ===== *)
theory Registry
  imports Config Credentials
begin

text \<open>
  The governance half of the Workbench API (engine/api/main.py) over the tables of
  engine/db/migrations: applications and their control point, the append-only record of its
  changes, stored configuration, triggers and credentials.  A handler is a function from the
  request and the tables to a reply and the tables; roles are checked before a handler runs
  (\<open>Accounts\<close>), and a request body is one its pydantic model accepted.
\<close>

section \<open>Tables\<close>

record app_row =
  ar_name :: string
  ar_repo_url :: string
  ar_integration_model :: string

record config_row =
  cr_yaml :: string
  cr_stamp :: string
  cr_updated_by :: string

record change_row =
  ch_app_id :: uuid
  ch_field :: string
  ch_old_value :: "string option"
  ch_new_value :: string
  ch_changed_by :: string
  ch_reason :: string

record trigger_row =
  tr_id :: uuid
  tr_app_id :: uuid
  tr_config :: trigger_config

record registry =
  rg_apps :: "(uuid \<times> app_row) list"
  rg_configs :: "(uuid \<times> config_row) list"
  rg_changes :: "change_row list"
  rg_triggers :: "trigger_row list"
  rg_credentials :: credential_table

text \<open>What a handler answers: a body, an \<open>HTTPException\<close>, or an exception nobody caught.\<close>

datatype 'a reply = Reply 'a | HttpStatus nat string | Unhandled error

section \<open>Applications\<close>

record register_request =
  rq_name :: string
  rq_scm_provider :: string
  rq_org :: string
  rq_repo :: string
  rq_project :: "string option"
  rq_integration_model :: integration_model

text \<open>What the request model accepts.\<close>

definition valid_register :: "register_request \<Rightarrow> bool" where
  "valid_register b \<longleftrightarrow> rq_name b \<noteq> [] \<and> length (rq_name b) \<le> 200 \<and>
     rq_scm_provider b \<in> {''github'', ''azure_repos''}"

definition repo_url_of :: "register_request \<Rightarrow> string" where
  "repo_url_of b =
    (if rq_scm_provider b = ''github'' then ''https://github.com/'' @ rq_org b @ ''/'' @ rq_repo b
     else ''https://dev.azure.com/'' @ rq_org b @ ''/''
       @ (case rq_project b of Some p \<Rightarrow> p | None \<Rightarrow> ''None'') @ ''/_git/'' @ rq_repo b)"

text \<open>\<open>app_id\<close> is the fresh UUID.\<close>

definition register_application :: "uuid \<Rightarrow> register_request \<Rightarrow> registry \<Rightarrow> uuid reply \<times> registry" where
  "register_application app_id b rg =
    (if rq_scm_provider b = ''azure_repos'' \<and> \<not> truthy (rq_project b)
     then (HttpStatus 422 ''azure_repos requires a project'', rg)
     else if list_ex (\<lambda>(i, r). ar_name r = rq_name b) (rg_apps rg)
     then (HttpStatus 409 (''an application named '' @ repr_str (rq_name b) @ '' is already registered''), rg)
     else (Reply app_id, rg\<lparr> rg_apps := rg_apps rg @ [(app_id, \<lparr> ar_name = rq_name b, ar_repo_url = repo_url_of b,
             ar_integration_model = model_str (rq_integration_model b) \<rparr>)] \<rparr>))"

definition set_model :: "uuid \<Rightarrow> string \<Rightarrow> (uuid \<times> app_row) list \<Rightarrow> (uuid \<times> app_row) list" where
  "set_model app_id m apps = map (\<lambda>(i, r). (i, if i = app_id then r\<lparr> ar_integration_model := m \<rparr> else r)) apps"

text \<open>The reply holds the model in force and how many runs predate the change, \<open>None\<close> when nothing changed.\<close>

definition change_control_point :: "uuid \<Rightarrow> integration_model \<Rightarrow> string \<Rightarrow> string \<Rightarrow> nat \<Rightarrow> registry
    \<Rightarrow> (string \<times> nat option) reply \<times> registry" where
  "change_control_point app_id model reason email runs rg =
    (case map_of (rg_apps rg) app_id of
       None \<Rightarrow> (HttpStatus 404 ''no such application'', rg)
     | Some r \<Rightarrow>
         if ar_integration_model r = model_str model then (Reply (ar_integration_model r, None), rg)
         else (Reply (model_str model, Some runs),
           rg\<lparr> rg_apps := set_model app_id (model_str model) (rg_apps rg),
               rg_changes := rg_changes rg @ [\<lparr> ch_app_id = app_id, ch_field = ''integration_model'',
                 ch_old_value = Some (ar_integration_model r), ch_new_value = model_str model,
                 ch_changed_by = email, ch_reason = reason \<rparr>] \<rparr>))"

definition list_changes :: "uuid \<Rightarrow> registry \<Rightarrow> change_row list" where
  "list_changes app_id rg = rev (filter (\<lambda>c. ch_app_id c = app_id) (rg_changes rg))"

text \<open>The \<open>DELETE\<close> with the cascades the tables declare.\<close>

definition delete_application :: "uuid \<Rightarrow> nat \<Rightarrow> registry \<Rightarrow> unit reply \<times> registry" where
  "delete_application app_id runs rg =
    (if runs \<noteq> 0 then
       (HttpStatus 409 (string_of_nat runs @ '' run(s) reference this application; its audit trail cannot be ''
         @ ''orphaned. Archive support is owed here.''), rg)
     else if map_of (rg_apps rg) app_id = None then (HttpStatus 404 ''no such application'', rg)
     else (Reply (), \<lparr> rg_apps = filter (\<lambda>(i, r). i \<noteq> app_id) (rg_apps rg),
             rg_configs = filter (\<lambda>(i, r). i \<noteq> app_id) (rg_configs rg),
             rg_changes = filter (\<lambda>c. ch_app_id c \<noteq> app_id) (rg_changes rg),
             rg_triggers = filter (\<lambda>t. tr_app_id t \<noteq> app_id) (rg_triggers rg),
             rg_credentials = filter (\<lambda>((a, k), r). a \<noteq> app_id) (rg_credentials rg) \<rparr>))"

section \<open>Credentials\<close>

definition list_credentials :: "credential_store \<Rightarrow> registry \<Rightarrow> (string list \<times> string list) res" where
  "list_credentials s rg =
     and_then (kinds_present s (cs_app_id s) (rg_credentials rg)) (\<lambda>present.
       Inr (map kind_str present, map kind_str ALL_KINDS))"

definition unknown_kind :: "string \<Rightarrow> 'a reply" where
  "unknown_kind kind = HttpStatus 422 (''unknown credential kind '' @ repr_str kind)"

definition store_credential :: "cipher \<Rightarrow> (string \<times> string) list \<Rightarrow> string \<Rightarrow> uuid \<Rightarrow> string \<Rightarrow> string \<Rightarrow> registry
    \<Rightarrow> unit reply \<times> registry" where
  "store_credential ca environ nonce app_id kind value rg =
    (case kind_of kind of
       Inl e \<Rightarrow> (unknown_kind kind, rg)
     | Inr k \<Rightarrow>
         if map_of (rg_apps rg) app_id = None then (HttpStatus 404 ''no such application'', rg)
         else case and_then (open_store ca environ app_id None)
                 (\<lambda>s. store_put ca s nonce app_id k (Secret value) (rg_credentials rg)) of
             Inl e \<Rightarrow> (HttpStatus 400 (err_msg e), rg)
           | Inr t \<Rightarrow> (Reply (), rg\<lparr> rg_credentials := t \<rparr>))"

definition forget_credential :: "cipher \<Rightarrow> (string \<times> string) list \<Rightarrow> uuid \<Rightarrow> string \<Rightarrow> registry \<Rightarrow> unit reply \<times> registry" where
  "forget_credential ca environ app_id kind rg =
    (case kind_of kind of
       Inl e \<Rightarrow> (unknown_kind kind, rg)
     | Inr k \<Rightarrow>
         (case open_store ca environ app_id None of
            Inl e \<Rightarrow> (Unhandled e, rg)
          | Inr s \<Rightarrow> (Reply (), rg\<lparr> rg_credentials := store_forget s app_id k (rg_credentials rg) \<rparr>)))"

section \<open>Triggers\<close>

definition declare_trigger :: "uuid \<Rightarrow> uuid \<Rightarrow> trigger_config \<Rightarrow> registry \<Rightarrow> uuid reply \<times> registry" where
  "declare_trigger trigger_id app_id b rg =
    (if tc_provider b = ''jira'' \<and> \<not> (truthy (tc_site b) \<and> truthy (tc_account_email b))
     then (HttpStatus 422 ''jira triggers need both a site URL and an account email'', rg)
     else if tc_provider b = ''azure_devops'' \<and> \<not> truthy (tc_organisation b)
     then (HttpStatus 422 ''azure_devops triggers need an organisation'', rg)
     else if map_of (rg_apps rg) app_id = None then (HttpStatus 404 ''no such application'', rg)
     else if list_ex (\<lambda>t. tr_app_id t = app_id \<and> tc_provider (tr_config t) = tc_provider b \<and>
         tc_project (tr_config t) = tc_project b) (rg_triggers rg)
     then (HttpStatus 409 (''a '' @ tc_provider b @ '' trigger for project '' @ repr_str (tc_project b)
       @ '' already exists; two rules for one project would make 'which rule admitted this ticket' ambiguous''), rg)
     else (Reply trigger_id,
       rg\<lparr> rg_triggers := rg_triggers rg @ [\<lparr> tr_id = trigger_id, tr_app_id = app_id, tr_config = b \<rparr>] \<rparr>))"

text \<open>A field is \<open>None\<close> when the request leaves it out and \<open>Some None\<close> when it is \<open>null\<close>.\<close>

record amend_request =
  am_label :: "string option option"
  am_ready_state :: "string option option"
  am_max_story_points :: "int option option"
  am_story_points_field :: "string option option"

definition or_keep :: "'a option \<Rightarrow> 'a \<Rightarrow> 'a" where
  "or_keep new old = (case new of None \<Rightarrow> old | Some v \<Rightarrow> v)"

definition amended :: "amend_request \<Rightarrow> trigger_config \<Rightarrow> trigger_config" where
  "amended b t = t\<lparr> tc_label := or_keep (am_label b) (tc_label t),
     tc_ready_state := or_keep (am_ready_state b) (tc_ready_state t),
     tc_max_story_points := or_keep (am_max_story_points b) (tc_max_story_points t),
     tc_story_points_field := or_keep (am_story_points_field b) (tc_story_points_field t) \<rparr>"

definition amend_trigger :: "uuid \<Rightarrow> uuid \<Rightarrow> amend_request \<Rightarrow> registry \<Rightarrow> trigger_row reply \<times> registry" where
  "amend_trigger app_id trigger_id b rg =
    (if am_label b = None \<and> am_ready_state b = None \<and> am_max_story_points b = None \<and> am_story_points_field b = None
     then (HttpStatus 422 ''no fields to change'', rg)
     else case find (\<lambda>t. tr_id t = trigger_id \<and> tr_app_id t = app_id) (rg_triggers rg) of
         None \<Rightarrow> (HttpStatus 404 ''no such trigger for this application'', rg)
       | Some t \<Rightarrow> (Reply (t\<lparr> tr_config := amended b (tr_config t) \<rparr>),
           rg\<lparr> rg_triggers := map (\<lambda>t. if tr_id t = trigger_id \<and> tr_app_id t = app_id
                 then t\<lparr> tr_config := amended b (tr_config t) \<rparr> else t) (rg_triggers rg) \<rparr>))"

definition remove_trigger :: "uuid \<Rightarrow> uuid \<Rightarrow> registry \<Rightarrow> registry" where
  "remove_trigger app_id trigger_id rg =
     rg\<lparr> rg_triggers := filter (\<lambda>t. \<not> (tr_id t = trigger_id \<and> tr_app_id t = app_id)) (rg_triggers rg) \<rparr>"

section \<open>Stored configuration\<close>

definition model_value :: "string \<Rightarrow> integration_model res" where
  "model_value text = (case find (\<lambda>m. model_str m = text) [KUWARDEN_DEPLOYS, GATED_MERGE, GATED_DEPLOYMENT] of
     Some m \<Rightarrow> Inr m
   | None \<Rightarrow> Inl (OtherError ''ValueError'' (repr_str text @ '' is not a valid IntegrationModel'')))"

text \<open>The upsert; \<open>stamp\<close> is the text of the time of the write.\<close>

definition put_config :: "uuid \<Rightarrow> config_row \<Rightarrow> registry \<Rightarrow> registry" where
  "put_config app_id row rg = rg\<lparr> rg_configs := filter (\<lambda>(i, r). i \<noteq> app_id) (rg_configs rg) @ [(app_id, row)] \<rparr>"

definition store_config :: "yaml_env \<Rightarrow> string \<Rightarrow> uuid \<Rightarrow> string \<Rightarrow> string \<Rightarrow> registry \<Rightarrow> string reply \<times> registry" where
  "store_config e stamp app_id text email rg =
    (case parse e text of
       Inl (ConfigError m) \<Rightarrow> (HttpStatus 422 (''this does not parse as a kuwarden.yaml: '' @ m), rg)
     | Inl exc \<Rightarrow> (Unhandled exc, rg)
     | Inr parsed \<Rightarrow>
         (case map_of (rg_apps rg) app_id of
            None \<Rightarrow> (HttpStatus 404 ''no such application'', rg)
          | Some r \<Rightarrow>
              (case model_value (ar_integration_model r) of
                 Inl exc \<Rightarrow> (Unhandled exc, rg)
               | Inr declared \<Rightarrow>
                   if ac_integration_model (ld_config parsed) \<noteq> declared then
                     (HttpStatus 409 (''this application's control point is '' @ repr_str (model_str declared)
                       @ '', but the configuration declares ''
                       @ repr_str (model_str (ac_integration_model (ld_config parsed)))
                       @ ''. The registry is authoritative '' @ [em_dash]
                       @ '' change the control point through the application page if that is what you meant.''), rg)
                   else (Reply (ac_name (ld_config parsed)),
                     put_config app_id \<lparr> cr_yaml = text, cr_stamp = stamp, cr_updated_by = email \<rparr> rg))))"

section \<open>Which verifiers may stop a change\<close>

definition lower_bool :: "bool \<Rightarrow> string" where
  "lower_bool b = (if b then ''true'' else ''false'')"

definition verifiers_lines :: "(string \<times> bool) list \<Rightarrow> string list" where
  "verifiers_lines wanted =
     [''verification:'',
      ''  # Which verifiers may stop a change. `false` makes one **advisory**: it still'',
      ''  # runs, still records its findings, and still reaches the audit trail '' @ [em_dash] @ '' it'',
      ''  # simply cannot abort the run. Managed from the application page.'',
      ''  verifiers:'']
     @ map (\<lambda>(name, value). ''    '' @ name @ '': '' @ lower_bool value) wanted"

definition rstrip_of :: "(char \<Rightarrow> bool) \<Rightarrow> string \<Rightarrow> string" where
  "rstrip_of p s = rev (dropWhile p (rev s))"

definition is_verification_line :: "string \<Rightarrow> bool" where
  "is_verification_line line \<longleftrightarrow> rstrip_of is_space line = ''verification:''"

definition in_block :: "string \<Rightarrow> bool" where
  "in_block line \<longleftrightarrow> py_strip line = [] \<or> starts_with '' '' line \<or> starts_with [CHR 0x09] line"

definition is_comment_line :: "string \<Rightarrow> bool" where
  "is_comment_line line \<longleftrightarrow> starts_with ''#'' (dropWhile is_space line)"

text \<open>\<open>_with_verifiers\<close>; the block ends in a line break, which the source strips before splitting it.\<close>

definition with_verifiers :: "string \<Rightarrow> (string \<times> bool) list \<Rightarrow> string" where
  "with_verifiers yaml_text wanted =
    (let ls = splitlines yaml_text;
         block = verifiers_lines wanted
     in if \<not> list_ex is_verification_line ls
        then rstrip_of (\<lambda>c. nl = [c]) yaml_text @ nl @ nl @ py_join nl block @ nl
        else
          let before = takeWhile (\<lambda>l. \<not> is_verification_line l) ls;
              after = dropWhile in_block (tl (dropWhile (\<lambda>l. \<not> is_verification_line l) ls));
              head = rev (dropWhile is_comment_line (rev before))
          in py_join nl (head @ block @ after) @ nl)"

text \<open>The reply lists each verifier with whether it blocks, then the advisory ones.\<close>

definition verifier_settings :: "string list \<Rightarrow> (string \<times> bool) list \<times> string list" where
  "verifier_settings blocking = (map (\<lambda>n. (n, n \<in> set blocking)) ALL_VERIFIERS,
     foldr insert_name_text (filter (\<lambda>n. n \<notin> set blocking) ALL_VERIFIERS) [])"

definition wanted_verifiers :: "(string \<times> bool) list \<Rightarrow> string list \<Rightarrow> (string \<times> bool) list" where
  "wanted_verifiers blocking now_blocking =
     map (\<lambda>name. (name, case map_of blocking name of Some b \<Rightarrow> b | None \<Rightarrow> name \<in> set now_blocking)) ALL_VERIFIERS"

definition set_verifiers :: "yaml_env \<Rightarrow> string \<Rightarrow> uuid \<Rightarrow> (string \<times> bool) list \<Rightarrow> string \<Rightarrow> registry
    \<Rightarrow> ((string \<times> bool) list \<times> string list) reply \<times> registry" where
  "set_verifiers e stamp app_id blocking email rg =
    (let unknown = filter (\<lambda>n. n \<notin> set ALL_VERIFIERS) (map fst blocking)
     in if unknown \<noteq> [] then
          (HttpStatus 422 (''unknown verifier(s) '' @ py_join '', '' (foldr insert_name_text unknown [])), rg)
        else case map_of (rg_configs rg) app_id of
          None \<Rightarrow> (HttpStatus 409 (''this application has no stored configuration yet. Save its kuwarden.yaml ''
            @ ''first, then arm or disarm its verifiers.''), rg)
        | Some row \<Rightarrow>
            (case parse e (cr_yaml row) of
               Inl exc \<Rightarrow> (Unhandled exc, rg)
             | Inr current \<Rightarrow>
                 let updated = with_verifiers (cr_yaml row)
                       (wanted_verifiers blocking (ac_blocking (ld_config current)))
                 in (case parse e updated of
                       Inl exc \<Rightarrow> (Unhandled exc, rg)
                     | Inr confirmed \<Rightarrow>
                         (Reply (verifier_settings (ac_blocking (ld_config confirmed))),
                          put_config app_id \<lparr> cr_yaml = updated, cr_stamp = stamp, cr_updated_by = email \<rparr> rg))))"

section \<open>What the tables keep\<close>

text \<open>The requests an operator can make, each run to its end; a UUID is one not in use.\<close>

inductive registry_step :: "yaml_env \<Rightarrow> cipher \<Rightarrow> (string \<times> string) list \<Rightarrow> registry \<Rightarrow> registry \<Rightarrow> bool"
  for e ca environ where
  register: "valid_register b \<Longrightarrow> app_id \<notin> fst ` set (rg_apps rg) \<Longrightarrow>
     registry_step e ca environ rg (snd (register_application app_id b rg))"
| change_model: "registry_step e ca environ rg (snd (change_control_point app_id m reason email runs rg))"
| delete: "registry_step e ca environ rg (snd (delete_application app_id runs rg))"
| credential: "registry_step e ca environ rg (snd (store_credential ca environ nonce app_id kind v rg))"
| forget: "registry_step e ca environ rg (snd (forget_credential ca environ app_id kind rg))"
| declare_it: "registry_step e ca environ rg (snd (declare_trigger trigger_id app_id b rg))"
| amend: "registry_step e ca environ rg (snd (amend_trigger app_id trigger_id c rg))"
| remove: "registry_step e ca environ rg (remove_trigger app_id trigger_id rg)"
| config: "registry_step e ca environ rg (snd (store_config e stamp app_id txt email rg))"
| verifiers: "registry_step e ca environ rg (snd (set_verifiers e stamp app_id blocking email rg))"

definition empty_registry :: registry where
  "empty_registry = \<lparr> rg_apps = [], rg_configs = [], rg_changes = [], rg_triggers = [], rg_credentials = [] \<rparr>"

inductive reachable_registry :: "yaml_env \<Rightarrow> cipher \<Rightarrow> (string \<times> string) list \<Rightarrow> registry \<Rightarrow> bool"
  for e ca environ where
  empty: "reachable_registry e ca environ empty_registry"
| step: "reachable_registry e ca environ rg \<Longrightarrow> registry_step e ca environ rg rg' \<Longrightarrow> reachable_registry e ca environ rg'"

inductive_cases registry_stepE: "registry_step e ca environ rg rg'"

text \<open>The changes recorded for an application, played over the model it was registered with.\<close>

fun played :: "string \<Rightarrow> change_row list \<Rightarrow> string option" where
  "played m [] = Some m"
| "played m (c # cs) =
     (if ch_old_value c = Some m \<and> ch_new_value c \<noteq> m then played (ch_new_value c) cs else None)"

lemma played_append: "played m (cs @ ds) = Option.bind (played m cs) (\<lambda>k. played k ds)"
  by (induction cs arbitrary: m) auto

definition known_apps :: "registry \<Rightarrow> uuid set" where
  "known_apps rg = fst ` set (rg_apps rg)"

definition trigger_key :: "trigger_row \<Rightarrow> uuid \<times> string \<times> string" where
  "trigger_key t = (tr_app_id t, tc_provider (tr_config t), tc_project (tr_config t))"

definition apps_ok :: "registry \<Rightarrow> bool" where
  "apps_ok rg \<longleftrightarrow> distinct (map fst (rg_apps rg)) \<and> distinct (map (ar_name \<circ> snd) (rg_apps rg)) \<and>
     (ar_integration_model \<circ> snd) ` set (rg_apps rg) \<subseteq> range model_str"

definition refs_ok :: "registry \<Rightarrow> bool" where
  "refs_ok rg \<longleftrightarrow> fst ` set (rg_configs rg) \<subseteq> known_apps rg \<and> ch_app_id ` set (rg_changes rg) \<subseteq> known_apps rg \<and>
     tr_app_id ` set (rg_triggers rg) \<subseteq> known_apps rg \<and> (fst \<circ> fst) ` set (rg_credentials rg) \<subseteq> known_apps rg"

definition triggers_ok :: "registry \<Rightarrow> bool" where
  "triggers_ok rg \<longleftrightarrow> distinct (map trigger_key (rg_triggers rg))"

definition configs_ok :: "yaml_env \<Rightarrow> registry \<Rightarrow> bool" where
  "configs_ok e rg \<longleftrightarrow> (\<forall>(i, row) \<in> set (rg_configs rg). \<exists>ld. parse e (cr_yaml row) = Inr ld)"

definition changes_of :: "uuid \<Rightarrow> registry \<Rightarrow> change_row list" where
  "changes_of app_id rg = filter (\<lambda>c. ch_app_id c = app_id) (rg_changes rg)"

definition history_ok :: "registry \<Rightarrow> bool" where
  "history_ok rg \<longleftrightarrow> (\<forall>(i, r) \<in> set (rg_apps rg).
     \<exists>m. played (model_str m) (changes_of i rg) = Some (ar_integration_model r))"

lemmas registry_defs = register_application_def change_control_point_def delete_application_def
  store_credential_def forget_credential_def declare_trigger_def amend_trigger_def remove_trigger_def
  store_config_def set_verifiers_def put_config_def Let_def unknown_kind_def

lemma model_str_inject: "model_str m = model_str k \<longleftrightarrow> m = k"
  by (cases m; cases k) auto

lemma set_model_maps [simp]:
  "map fst (set_model a m apps) = map fst apps"
  "map (ar_name \<circ> snd) (set_model a m apps) = map (ar_name \<circ> snd) apps"
  by (auto simp: set_model_def)

lemma set_model_keys [simp]: "fst ` set (set_model a m apps) = fst ` set apps"
  by (metis set_model_maps(1) set_map)

lemma in_set_model: "(i, r) \<in> set (set_model a m apps) \<longleftrightarrow>
    (\<exists>r0. (i, r0) \<in> set apps \<and> r = (if i = a then r0\<lparr> ar_integration_model := m \<rparr> else r0))"
  by (force simp: set_model_def)

lemma known_apps_simps [simp]:
  "known_apps (rg\<lparr> rg_configs := c \<rparr>) = known_apps rg" "known_apps (rg\<lparr> rg_triggers := t \<rparr>) = known_apps rg"
  "known_apps (rg\<lparr> rg_credentials := k \<rparr>) = known_apps rg"
  "known_apps (rg\<lparr> rg_apps := set_model a m (rg_apps rg), rg_changes := h \<rparr>) = known_apps rg"
  "known_apps (rg\<lparr> rg_apps := rg_apps rg @ [(i, r)] \<rparr>) = insert i (known_apps rg)"
  by (simp_all add: known_apps_def)

lemma map_of_known: "map_of (rg_apps rg) i = Some r \<Longrightarrow> i \<in> known_apps rg"
  by (force simp: known_apps_def dest: map_of_SomeD)

text \<open>What the handlers amount to: nothing, or one change of the tables under what they checked.\<close>

inductive table_change :: "yaml_env \<Rightarrow> registry \<Rightarrow> registry \<Rightarrow> bool" for e where
  same: "table_change e rg rg"
| new_app: "app_id \<notin> known_apps rg \<Longrightarrow> ar_name r \<notin> (ar_name \<circ> snd) ` set (rg_apps rg) \<Longrightarrow>
     ar_integration_model r = model_str m \<Longrightarrow> table_change e rg (rg\<lparr> rg_apps := rg_apps rg @ [(app_id, r)] \<rparr>)"
| moved: "map_of (rg_apps rg) app_id = Some r \<Longrightarrow> ar_integration_model r \<noteq> model_str m \<Longrightarrow>
     ch_app_id c = app_id \<Longrightarrow> ch_old_value c = Some (ar_integration_model r) \<Longrightarrow> ch_new_value c = model_str m \<Longrightarrow>
     table_change e rg (rg\<lparr> rg_apps := set_model app_id (model_str m) (rg_apps rg), rg_changes := rg_changes rg @ [c] \<rparr>)"
| dropped: "table_change e rg \<lparr> rg_apps = filter (\<lambda>(i, r). i \<noteq> app_id) (rg_apps rg),
             rg_configs = filter (\<lambda>(i, r). i \<noteq> app_id) (rg_configs rg),
             rg_changes = filter (\<lambda>c. ch_app_id c \<noteq> app_id) (rg_changes rg),
             rg_triggers = filter (\<lambda>t. tr_app_id t \<noteq> app_id) (rg_triggers rg),
             rg_credentials = filter (\<lambda>((a, k), r). a \<noteq> app_id) (rg_credentials rg) \<rparr>"
| credentials_of: "(fst \<circ> fst) ` set t \<subseteq> (fst \<circ> fst) ` set (rg_credentials rg) \<union> known_apps rg \<Longrightarrow>
     table_change e rg (rg\<lparr> rg_credentials := t \<rparr>)"
| new_trigger: "tr_app_id t \<in> known_apps rg \<Longrightarrow> trigger_key t \<notin> trigger_key ` set (rg_triggers rg) \<Longrightarrow>
     table_change e rg (rg\<lparr> rg_triggers := rg_triggers rg @ [t] \<rparr>)"
| same_keys: "map trigger_key ts = map trigger_key (rg_triggers rg) \<Longrightarrow> table_change e rg (rg\<lparr> rg_triggers := ts \<rparr>)"
| fewer_triggers: "table_change e rg (rg\<lparr> rg_triggers := filter p (rg_triggers rg) \<rparr>)"
| new_config: "app_id \<in> known_apps rg \<or> app_id \<in> fst ` set (rg_configs rg) \<Longrightarrow> parse e (cr_yaml row) = Inr ld \<Longrightarrow>
     table_change e rg (put_config app_id row rg)"

lemma store_put_apps: "store_put ca s n a k v t = Inr t' \<Longrightarrow> (fst \<circ> fst) ` set t' \<subseteq> insert a ((fst \<circ> fst) ` set t)"
  by (auto simp: store_put_def upsert_row_def drop_row_def split: if_splits)

lemma register_change:
  assumes "app_id \<notin> fst ` set (rg_apps rg)"
  shows "table_change e rg (snd (register_application app_id b rg))"
proof (cases "snd (register_application app_id b rg) = rg")
  case False
  then have "\<not> list_ex (\<lambda>(i, r). ar_name r = rq_name b) (rg_apps rg)"
    by (auto simp: register_application_def split: if_splits)
  with assms show ?thesis
    by (auto simp: register_application_def known_apps_def list_ex_iff split: if_splits
        intro!: table_change.intros)
qed (simp add: table_change.same)

lemma control_point_change: "table_change e rg (snd (change_control_point a m reason email runs rg))"
  by (auto simp: change_control_point_def split: option.split intro!: table_change.same table_change.moved)

lemma delete_change: "table_change e rg (snd (delete_application a runs rg))"
  by (auto simp: delete_application_def intro!: table_change.same table_change.dropped)

lemma credentials_put_change:
  assumes "map_of (rg_apps rg) a = Some r" "store_put ca s nonce a k v (rg_credentials rg) = Inr t"
  shows "table_change e rg (rg\<lparr> rg_credentials := t \<rparr>)"
  by (rule table_change.credentials_of) (use store_put_apps[OF assms(2)] map_of_known[OF assms(1)] in blast)

lemma credential_change: "table_change e rg (snd (store_credential ca environ nonce a kind v rg))"
  by (auto simp: store_credential_def and_then_Inr split: sum.split option.split
      intro!: table_change.same credentials_put_change)

lemma forget_change: "table_change e rg (snd (forget_credential ca environ a kind rg))"
  by (auto simp: forget_credential_def store_forget_def drop_row_def split: sum.split
      intro!: table_change.same table_change.credentials_of)

lemma declare_change: "table_change e rg (snd (declare_trigger i a b rg))"
proof -
  have "trigger_key \<lparr> tr_id = i, tr_app_id = a, tr_config = b \<rparr> \<notin> trigger_key ` set (rg_triggers rg)"
    if "\<not> list_ex (\<lambda>t. tr_app_id t = a \<and> tc_provider (tr_config t) = tc_provider b \<and>
         tc_project (tr_config t) = tc_project b) (rg_triggers rg)"
    using that by (auto simp: trigger_key_def list_ex_iff)
  then show ?thesis
    by (auto simp: declare_trigger_def dest: map_of_known intro!: table_change.same table_change.new_trigger)
qed

lemma amend_change: "table_change e rg (snd (amend_trigger a i b rg))"
  by (auto simp: amend_trigger_def trigger_key_def amended_def split: option.split
      intro!: table_change.same table_change.same_keys)

lemma store_config_change: "table_change e rg (snd (store_config e stamp a txt email rg))"
  by (auto simp: store_config_def split: sum.split option.split error.split dest: map_of_known
      intro!: table_change.same table_change.new_config)

lemma set_verifiers_change: "table_change e rg (snd (set_verifiers e stamp a blocking email rg))"
proof -
  have "a \<in> fst ` set (rg_configs rg)" if "map_of (rg_configs rg) a = Some row" for row
    using that by (force dest: map_of_SomeD)
  then show ?thesis
    by (auto simp: set_verifiers_def Let_def split: sum.split option.split
        intro!: table_change.same table_change.new_config)
qed

lemma registry_step_change: "registry_step e ca environ rg rg' \<Longrightarrow> table_change e rg rg'"
  by (induction rule: registry_step.induct)
    (auto simp: remove_trigger_def intro: register_change control_point_change delete_change credential_change
      forget_change declare_change amend_change store_config_change set_verifiers_change table_change.fewer_triggers)

lemma keys_without: "fst ` set (filter (\<lambda>(i, r). i \<noteq> a) xs) = fst ` set xs - {a}"
  by force

lemma apps_ok_change: "table_change e rg rg' \<Longrightarrow> apps_ok rg \<Longrightarrow> apps_ok rg'"
proof (induction rule: table_change.induct)
  case (moved rg app_id r m c)
  then have "(ar_integration_model \<circ> snd) ` set (set_model app_id (model_str m) (rg_apps rg)) \<subseteq> range model_str"
    by (fastforce simp: apps_ok_def in_set_model image_subset_iff)
  with moved show ?case by (simp add: apps_ok_def)
next
  case (dropped rg app_id)
  then show ?case by (auto simp: apps_ok_def distinct_map_filter)
qed (auto simp: apps_ok_def known_apps_def put_config_def)

lemma refs_ok_change: "table_change e rg rg' \<Longrightarrow> refs_ok rg \<Longrightarrow> refs_ok rg'"
proof (induction rule: table_change.induct)
  case (same_keys ts rg)
  have "tr_app_id ` set us = fst ` set (map trigger_key us)" for us
    by (force simp: trigger_key_def)
  with same_keys show ?case by (simp add: refs_ok_def del: set_map)
next
  case (moved rg app_id r m c)
  then show ?case by (auto simp: refs_ok_def dest: map_of_known)
next
  case (dropped rg app_id)
  define rg' where "rg' = \<lparr> rg_apps = filter (\<lambda>(i, r). i \<noteq> app_id) (rg_apps rg),
             rg_configs = filter (\<lambda>(i, r). i \<noteq> app_id) (rg_configs rg),
             rg_changes = filter (\<lambda>c. ch_app_id c \<noteq> app_id) (rg_changes rg),
             rg_triggers = filter (\<lambda>t. tr_app_id t \<noteq> app_id) (rg_triggers rg),
             rg_credentials = filter (\<lambda>((a, k), r). a \<noteq> app_id) (rg_credentials rg) \<rparr>"
  have "known_apps rg' = known_apps rg - {app_id}"
    unfolding known_apps_def rg'_def by (simp only: registry.simps keys_without)
  with dropped have "refs_ok rg'" by (auto simp: refs_ok_def rg'_def)
  then show ?case by (simp only: rg'_def)
next
  case (credentials_of t rg)
  then have "(fst \<circ> fst) ` set t \<subseteq> known_apps rg" unfolding refs_ok_def by (meson Un_least order_trans subset_refl)
  with credentials_of(2) show ?case by (simp add: refs_ok_def)
qed (auto simp: refs_ok_def put_config_def)

lemma triggers_ok_change: "table_change e rg rg' \<Longrightarrow> triggers_ok rg \<Longrightarrow> triggers_ok rg'"
  by (induction rule: table_change.induct) (auto simp: triggers_ok_def put_config_def distinct_map_filter)

lemma configs_ok_change: "table_change e rg rg' \<Longrightarrow> configs_ok e rg \<Longrightarrow> configs_ok e rg'"
  by (induction rule: table_change.induct) (auto simp: configs_ok_def put_config_def)

lemma history_ok_change:
  assumes "table_change e rg rg'" "history_ok rg" "apps_ok rg" "refs_ok rg"
  shows "history_ok rg'"
  using assms
proof (induction rule: table_change.induct)
  case (new_app app_id rg r m)
  then have "changes_of app_id rg = []"
    by (auto simp: changes_of_def refs_ok_def filter_empty_conv)
  with new_app show ?case by (auto simp: history_ok_def changes_of_def intro!: exI[of _ m])
next
  case (moved rg app_id r m c)
  have "\<exists>k. played (model_str k) (filter (\<lambda>c. ch_app_id c = i) (rg_changes rg @ [c])) = Some (ar_integration_model r')"
    if "(i, r') \<in> set (set_model app_id (model_str m) (rg_apps rg))" for i r'
  proof -
    from that obtain r0 where r0: "(i, r0) \<in> set (rg_apps rg)"
      "r' = (if i = app_id then r0\<lparr> ar_integration_model := model_str m \<rparr> else r0)"
      by (auto simp: in_set_model)
    obtain k where k: "played (model_str k) (changes_of i rg) = Some (ar_integration_model r0)"
      using moved(6) r0(1) by (auto simp: history_ok_def)
    have "i = app_id \<Longrightarrow> r0 = r"
      using moved(1,7) r0(1) by (auto simp: apps_ok_def)
    with k r0(2) moved(2-5) show ?thesis
      by (auto simp: changes_of_def played_append intro!: exI[of _ k])
  qed
  then show ?case by (auto simp: history_ok_def changes_of_def)
next
  case (dropped rg app_id)
  then show ?case by (auto simp: history_ok_def changes_of_def conj_commute cong: conj_cong)
qed (auto simp: history_ok_def changes_of_def put_config_def)

lemma reachable_registry_ok:
  "reachable_registry e ca environ rg \<Longrightarrow>
     apps_ok rg \<and> refs_ok rg \<and> triggers_ok rg \<and> configs_ok e rg \<and> history_ok rg"
proof (induction rule: reachable_registry.induct)
  case empty
  show ?case
    by (simp add: empty_registry_def apps_ok_def refs_ok_def triggers_ok_def configs_ok_def history_ok_def known_apps_def)
next
  case (step rg rg')
  have "table_change e rg rg'" using step(2) by (rule registry_step_change)
  with step.IH show ?case
    using apps_ok_change refs_ok_change triggers_ok_change configs_ok_change history_ok_change by blast
qed

section \<open>Properties\<close>


text \<open>
  What the tables keep under every sequence of requests: a stored configuration parses, every row
  of configuration, change, trigger and credential belongs to an application that is registered,
  and an application has one trigger for each project of a provider.
\<close>

theorem registry_rows_are_sound:
  assumes "reachable_registry e ca environ rg"
  shows "(\<forall>i row. map_of (rg_configs rg) i = Some row \<longrightarrow>
      (\<exists>r ld. map_of (rg_apps rg) i = Some r \<and> parse e (cr_yaml row) = Inr ld)) \<and>
    refs_ok rg \<and> distinct (map trigger_key (rg_triggers rg)) \<and> distinct (map (ar_name \<circ> snd) (rg_apps rg))"
proof -
  have ok: "apps_ok rg" "refs_ok rg" "triggers_ok rg" "configs_ok e rg"
    using reachable_registry_ok[OF assms] by blast+
  have "\<exists>r. map_of (rg_apps rg) i = Some r" if "(i, row) \<in> set (rg_configs rg)" for i row
  proof -
    have "i \<in> fst ` set (rg_apps rg)" using ok(2) that unfolding refs_ok_def known_apps_def by (metis fst_conv imageI subsetD)
    then show ?thesis by (metis map_of_eq_None_iff not_None_eq)
  qed
  with ok show ?thesis
    by (auto simp: apps_ok_def triggers_ok_def configs_ok_def dest!: map_of_SomeD)
qed

definition sample_application :: register_request where
  "sample_application = \<lparr> rq_name = ''shop'', rq_scm_provider = ''github'', rq_org = ''acme'', rq_repo = ''shop'',
     rq_project = None, rq_integration_model = GATED_MERGE \<rparr>"

definition sample_registry :: registry where
  "sample_registry = snd (change_control_point ''app-1'' KUWARDEN_DEPLOYS ''no CI'' ''ann@acme.com'' 0
     (snd (register_application ''app-1'' sample_application empty_registry)))"

lemma sample_registry_reachable: "reachable_registry e ca environ sample_registry"
proof -
  have "registry_step e ca environ empty_registry (snd (register_application ''app-1'' sample_application empty_registry))"
    by (rule registry_step.register) (simp_all add: valid_register_def sample_application_def empty_registry_def)
  with reachable_registry.empty have "reachable_registry e ca environ
      (snd (register_application ''app-1'' sample_application empty_registry))"
    by (rule reachable_registry.step)
  then show ?thesis
    unfolding sample_registry_def by (rule reachable_registry.step) (rule registry_step.change_model)
qed

lemma sample_registry_apps:
  "rg_apps sample_registry = [(''app-1'', \<lparr> ar_name = ''shop'', ar_repo_url = ''https://github.com/acme/shop'',
     ar_integration_model = ''kuwarden_deploys'' \<rparr>)]"
  by (simp add: sample_registry_def change_control_point_def register_application_def sample_application_def
      empty_registry_def set_model_def repo_url_of_def)


lemma registry_rows_are_sound_witness:
  "refs_ok sample_registry \<and> distinct (map (ar_name \<circ> snd) (rg_apps sample_registry))"
  using registry_rows_are_sound[OF sample_registry_reachable] by blast

section \<open>Rewriting the verification block\<close>

definition plain_line :: "string \<Rightarrow> bool" where
  "plain_line l \<longleftrightarrow> list_all (\<lambda>c. \<not> is_line_break c) l"

lemma cr_is_break: "\<not> is_line_break c \<Longrightarrow> c \<noteq> CHR 0x0D \<and> c \<noteq> CHR 0x0A"
  by (auto simp: is_line_break_def)

lemma splitlines_from_plain: "plain_line l \<Longrightarrow> splitlines_from acc (l @ nl @ s) = (rev acc @ l) # splitlines_from [] s"
proof (induction l arbitrary: acc)
  case Nil
  show ?case by (simp add: nl_def is_line_break_def)
next
  case (Cons c l)
  then have "plain_line l" "\<not> is_line_break c" by (simp_all add: plain_line_def)
  with Cons.IH[of "c # acc"] cr_is_break[of c] show ?case by simp
qed

lemma splitlines_cons: "plain_line l \<Longrightarrow> splitlines (l @ nl @ s) = l # splitlines s"
  by (simp add: splitlines_def splitlines_from_plain)

lemma splitlines_py_join: "list_all plain_line ls \<Longrightarrow> ls \<noteq> [] \<Longrightarrow> splitlines (py_join nl ls @ nl) = ls"
proof (induction ls rule: induct_list012)
  case (2 l)
  then have "plain_line l" by simp
  with splitlines_cons[of l "[]"] show ?case by (simp only: py_join.simps append_Nil2) (simp add: splitlines_def)
next
  case (3 l k ls)
  then have "plain_line l" "splitlines (py_join nl (k # ls) @ nl) = k # ls" by simp_all
  with splitlines_cons[of l "py_join nl (k # ls) @ nl"] show ?case by (simp only: py_join.simps append_assoc)
qed simp

text \<open>The same rewriting on the lines of the file.\<close>

definition rewrite_lines :: "string list \<Rightarrow> (string \<times> bool) list \<Rightarrow> string list" where
  "rewrite_lines ls wanted =
    (if \<not> list_ex is_verification_line ls then ls @ [[]] @ verifiers_lines wanted
     else rev (dropWhile is_comment_line (rev (takeWhile (\<lambda>l. \<not> is_verification_line l) ls)))
       @ verifiers_lines wanted
       @ dropWhile in_block (tl (dropWhile (\<lambda>l. \<not> is_verification_line l) ls)))"

lemma py_join_append: "xs \<noteq> [] \<Longrightarrow> ys \<noteq> [] \<Longrightarrow> py_join sep (xs @ ys) = py_join sep xs @ sep @ py_join sep ys"
proof (induction xs rule: induct_list012)
  case (2 x)
  then show ?case by (cases ys) auto
qed auto

lemma verifiers_lines_head: "verifiers_lines w \<noteq> []" "is_verification_line (hd (verifiers_lines w))"
  by (simp_all add: verifiers_lines_def is_verification_line_def rstrip_of_def is_space_def)

lemma verifiers_lines_tail: "list_all in_block (tl (verifiers_lines w))"
  by (simp add: verifiers_lines_def in_block_def starts_with_iff list_all_iff split: prod.split)

lemma with_verifiers_keyed:
  assumes "list_all plain_line ls" "ls \<noteq> []" "list_ex is_verification_line ls"
  shows "with_verifiers (py_join nl ls @ nl) w = py_join nl (rewrite_lines ls w) @ nl"
  using assms by (simp add: with_verifiers_def rewrite_lines_def splitlines_py_join Let_def)

lemma py_join_last: "ls \<noteq> [] \<Longrightarrow> last ls \<noteq> [] \<Longrightarrow> py_join nl ls \<noteq> [] \<and> last (py_join nl ls) = last (last ls)"
  by (induction ls rule: induct_list012) (auto simp: nl_def)

lemma with_verifiers_lines:
  assumes "list_all plain_line ls" "ls \<noteq> []" "last ls \<noteq> []"
  shows "with_verifiers (py_join nl ls @ nl) w = py_join nl (rewrite_lines ls w) @ nl"
proof (cases "list_ex is_verification_line ls")
  case False
  have "\<not> is_line_break (last (last ls))"
    using assms by (metis last_in_set list_all_iff plain_line_def)
  then have "rstrip_of (\<lambda>c. nl = [c]) (py_join nl ls @ nl) = py_join nl ls"
    using py_join_last[OF assms(2,3)] cr_is_break[of "last (last ls)"]
    by (cases "py_join nl ls" rule: rev_cases) (auto simp: rstrip_of_def nl_def)
  moreover have "py_join nl (ls @ [[]] @ verifiers_lines w) = py_join nl ls @ nl @ nl @ py_join nl (verifiers_lines w)"
    using assms(2) verifiers_lines_head(1)[of w] by (simp add: py_join_append py_join_append[of "[[]]", simplified])
  ultimately show ?thesis
    using False assms by (simp add: with_verifiers_def rewrite_lines_def splitlines_py_join Let_def)
qed (use assms with_verifiers_keyed in blast)

lemma takeWhile_before: "list_all (\<lambda>x. \<not> p x) xs \<Longrightarrow> ys \<noteq> [] \<Longrightarrow> p (hd ys) \<Longrightarrow>
    takeWhile (\<lambda>x. \<not> p x) (xs @ ys) = xs \<and> dropWhile (\<lambda>x. \<not> p x) (xs @ ys) = ys"
  by (induction xs) (auto simp: takeWhile_eq_Nil_iff dropWhile_eq_self_iff)

lemma dropWhile_past: "list_all p xs \<Longrightarrow> dropWhile p (xs @ ys) = dropWhile p ys"
  by (induction xs) auto

lemma rewrite_form:
  assumes "list_all (\<lambda>l. \<not> is_verification_line l) before" "rev (dropWhile is_comment_line (rev before)) = before"
    "dropWhile in_block after = after"
  shows "rewrite_lines (before @ verifiers_lines w @ after) w' = before @ verifiers_lines w' @ after"
proof -
  have t: "takeWhile (\<lambda>l. \<not> is_verification_line l) (before @ verifiers_lines w @ after) = before"
    "dropWhile (\<lambda>l. \<not> is_verification_line l) (before @ verifiers_lines w @ after) = verifiers_lines w @ after"
    using takeWhile_before[OF assms(1), of "verifiers_lines w @ after"] verifiers_lines_head[of w] by auto
  have "tl (verifiers_lines w @ after) = tl (verifiers_lines w) @ after"
    using verifiers_lines_head(1)[of w] by simp
  moreover have "list_ex is_verification_line (before @ verifiers_lines w @ after)"
    using verifiers_lines_head[of w] by (auto simp: list_ex_iff)
  ultimately show ?thesis
    using assms(2,3) by (simp add: rewrite_lines_def t dropWhile_past[OF verifiers_lines_tail])
qed

lemma rewrite_lines_twice: "rewrite_lines (rewrite_lines ls w) w' = rewrite_lines ls w'"
proof (cases "list_ex is_verification_line ls")
  case False
  then have "rewrite_lines ((ls @ [[]]) @ verifiers_lines w @ []) w' = (ls @ [[]]) @ verifiers_lines w' @ []"
    by (intro rewrite_form) (auto simp: list_ex_iff list_all_iff is_verification_line_def rstrip_of_def
        is_comment_line_def starts_with_iff)
  with False show ?thesis by (simp add: rewrite_lines_def)
next
  case True
  define before where "before = rev (dropWhile is_comment_line (rev (takeWhile (\<lambda>l. \<not> is_verification_line l) ls)))"
  define after where "after = dropWhile in_block (tl (dropWhile (\<lambda>l. \<not> is_verification_line l) ls))"
  have "rewrite_lines (before @ verifiers_lines w @ after) w' = before @ verifiers_lines w' @ after"
    by (intro rewrite_form) (auto simp: before_def after_def list_all_iff dest!: set_dropWhileD set_takeWhileD)
  with True show ?thesis by (simp add: rewrite_lines_def before_def after_def)
qed

lemma verifiers_lines_plain:
  assumes "fst ` set w \<subseteq> set ALL_VERIFIERS"
  shows "list_all plain_line (verifiers_lines w)"
proof -
  have "plain_line (''    '' @ name @ '': '' @ lower_bool value)" if "(name, value) \<in> set w" for name "value"
  proof -
    have "name \<in> set ALL_VERIFIERS" using assms that by force
    then show ?thesis
      by (cases "value") (auto simp: ALL_VERIFIERS_def lower_bool_def plain_line_def is_line_break_def)
  qed
  then show ?thesis
    by (auto simp: verifiers_lines_def list_all_iff) (simp_all add: plain_line_def is_line_break_def)
qed

lemma rewrite_lines_plain:
  assumes "list_all plain_line ls" "fst ` set w \<subseteq> set ALL_VERIFIERS"
  shows "list_all plain_line (rewrite_lines ls w)"
proof -
  have "set (tl (dropWhile p ls)) \<subseteq> set ls" for p
    by (metis list.set_sel(2) set_dropWhileD subsetI tl_Nil)
  then show ?thesis
    using assms verifiers_lines_plain[OF assms(2)]
    by (auto simp: rewrite_lines_def list_all_iff plain_line_def dest!: set_dropWhileD set_takeWhileD)
qed

text \<open>
  Arming or disarming verifiers rewrites one block of the stored file.  For a file of plain lines
  the result is the same lines with the old block, and the comment lines directly above it, replaced
  by the new one (or the new one appended after an empty line); and a second rewriting leaves no
  trace of the first.
\<close>

theorem verifier_rewrite_keeps_the_rest:
  assumes "list_all plain_line ls" "ls \<noteq> []" "last ls \<noteq> []"
    and "fst ` set w \<subseteq> set ALL_VERIFIERS"
  shows "splitlines (with_verifiers (py_join nl ls @ nl) w) = rewrite_lines ls w \<and>
    with_verifiers (with_verifiers (py_join nl ls @ nl) w) w' = with_verifiers (py_join nl ls @ nl) w'"
proof -
  have ne: "rewrite_lines ls w \<noteq> []" and key: "list_ex is_verification_line (rewrite_lines ls w)"
    using verifiers_lines_head[of w] by (auto simp: rewrite_lines_def list_ex_iff intro!: bexI[of _ "hd (verifiers_lines w)"])
  note plain = rewrite_lines_plain[OF assms(1,4)]
  show ?thesis
    by (simp add: with_verifiers_lines[OF assms(1-3)] splitlines_py_join[OF plain ne]
        with_verifiers_keyed[OF plain ne key] rewrite_lines_twice)
qed

lemma verifier_rewrite_keeps_the_rest_witness:
  "splitlines (with_verifiers (py_join nl [''version: 1'', ''# who may stop it'', ''verification:'', ''  verifiers: {}'', ''risk: {}''] @ nl)
      [(''security'', False)]) = [''version: 1''] @ verifiers_lines [(''security'', False)] @ [''risk: {}'']"
proof -
  let ?ls = "[''version: 1'', ''# who may stop it'', ''verification:'', ''  verifiers: {}'', ''risk: {}'']"
  have p: "list_all plain_line ?ls" by (simp add: plain_line_def is_line_break_def)
  have r: "rewrite_lines ?ls [(''security'', False)] =
      [''version: 1''] @ verifiers_lines [(''security'', False)] @ [''risk: {}'']"
    by (simp add: rewrite_lines_def is_verification_line_def rstrip_of_def is_space_def is_comment_line_def
        in_block_def py_strip_def)
  show ?thesis
    using verifier_rewrite_keeps_the_rest[OF p, of "[(''security'', False)]"] r
    by (simp add: ALL_VERIFIERS_def)
qed

end
