(* ===== verification/Config_Store.thy ===== *)
theory Config_Store
  imports Registry
begin

text \<open>
  engine/config_store.py: which configuration governs a run, looked up in the tables at most once
  per application and interval and kept in a cache of the process.  The file of the worker is its
  text, \<open>None\<close> when there is none; the clock is a parameter of each call.
\<close>

section \<open>Lookup\<close>

definition TTL_SECONDS :: rat where
  "TTL_SECONDS = 10"

type_synonym config_cache = "(uuid \<times> (loaded \<times> string \<times> rat)) list"

definition forget_config :: "uuid option \<Rightarrow> config_cache \<Rightarrow> config_cache" where
  "forget_config app cache = (case app of None \<Rightarrow> [] | Some a \<Rightarrow> filter (\<lambda>(i, c). i \<noteq> a) cache)"

definition cache_put :: "uuid \<Rightarrow> loaded \<times> string \<times> rat \<Rightarrow> config_cache \<Rightarrow> config_cache" where
  "cache_put app_id c cache = (app_id, c) # filter (\<lambda>(i, c). i \<noteq> app_id) cache"

definition from_file :: "yaml_env \<Rightarrow> string option \<Rightarrow> string option \<Rightarrow> loaded res" where
  "from_file e file name =
    (case file of
       None \<Rightarrow> Inl (PolicyDenied (''no configuration stored for '' @ (if truthy name then the name else ''this application'')
         @ '', and this worker has no fallback file. Add it on the application's page in the Workbench.''))
     | Some txt \<Rightarrow> parse e txt)"

definition file_or :: "yaml_env \<Rightarrow> string option \<Rightarrow> string option \<Rightarrow> loaded option \<Rightarrow> loaded res" where
  "file_or e file name fallback = (case fallback of Some c \<Rightarrow> Inr c | None \<Rightarrow> from_file e file name)"

text \<open>The configuration of a row, after it was found to have changed.\<close>

definition governed :: "yaml_env \<Rightarrow> app_row \<Rightarrow> string \<Rightarrow> loaded res" where
  "governed e r txt =
    (case parse e txt of
       Inl (ConfigError m) \<Rightarrow> Inl (PolicyDenied (''the stored configuration for '' @ repr_str (ar_name r)
         @ '' does not parse: '' @ m
         @ ''. Fix it in the Workbench; runs for this application cannot start until it does.''))
     | Inl exc \<Rightarrow> Inl exc
     | Inr config \<Rightarrow>
         and_then (model_value (ar_integration_model r)) (\<lambda>declared.
           if ac_integration_model (ld_config config) \<noteq> declared then
             Inl (PolicyDenied (repr_str (ar_name r) @ '' is registered with control point ''
               @ repr_str (model_str declared) @ '' but its stored kuwarden.yaml declares ''
               @ repr_str (model_str (ac_integration_model (ld_config config)))
               @ ''. The registry is authoritative '' @ [em_dash]
               @ '' it is the one changed through an audited endpoint '' @ [em_dash]
               @ '' so this is refused rather than silently resolved. Make them agree.''))
           else Inr config))"

definition config_resolve :: "yaml_env \<Rightarrow> string option \<Rightarrow> registry \<Rightarrow> rat \<Rightarrow> uuid option \<Rightarrow> loaded option \<Rightarrow> config_cache
    \<Rightarrow> loaded res \<times> config_cache" where
  "config_resolve e file rg now app fallback cache =
    (case app of
       None \<Rightarrow> (file_or e file None fallback, cache)
     | Some app_id \<Rightarrow>
         let cached = map_of cache app_id
         in if (case cached of Some (c, stamp, expires) \<Rightarrow> now < expires | None \<Rightarrow> False)
            then (Inr (fst (the cached)), cache)
            else (case map_of (rg_apps rg) app_id of
               None \<Rightarrow> (Inl (PolicyDenied (''no application '' @ app_id @ '' is registered'')), cache)
             | Some r \<Rightarrow>
                 (case map_of (rg_configs rg) app_id of
                    None \<Rightarrow> (file_or e file (Some (ar_name r)) fallback, cache)
                  | Some row \<Rightarrow>
                      if (case cached of Some (c, stamp, expires) \<Rightarrow> stamp = cr_stamp row | None \<Rightarrow> False)
                      then (Inr (fst (the cached)),
                            cache_put app_id (fst (the cached), cr_stamp row, now + TTL_SECONDS) cache)
                      else (case governed e r (cr_yaml row) of
                          Inl exc \<Rightarrow> (Inl exc, cache)
                        | Inr config \<Rightarrow> (Inr config,
                            cache_put app_id (config, cr_stamp row, now + TTL_SECONDS) cache)))))"

definition with_control_point :: "app_config \<Rightarrow> integration_model \<Rightarrow> app_config" where
  "with_control_point config declared = config\<lparr> ac_integration_model := declared \<rparr>"

text \<open>The page of an application's verifiers.\<close>

definition read_verifiers :: "loaded res \<Rightarrow> ((string \<times> bool) list \<times> string list) reply" where
  "read_verifiers resolved =
    (case resolved of
       Inr config \<Rightarrow> Reply (verifier_settings (ac_blocking (ld_config config)))
     | Inl (OtherError t m) \<Rightarrow> Unhandled (OtherError t m)
     | Inl exc \<Rightarrow> HttpStatus 409 (err_msg exc))"

text \<open>The tiering rules and blocking verifiers pinned when a run starts.\<close>

definition governing :: "loaded res \<Rightarrow> (risk_rules \<times> string list) res" where
  "governing resolved =
    (case resolved of
       Inr config \<Rightarrow>
         let k = ac_risk (ld_config config)
         in Inr (\<lparr> rr_high_paths = rk_high_paths k, rr_medium_paths = rk_medium_paths k,
                  rr_medium_changed_files = rk_medium_changed_files k,
                  rr_high_changed_files = rk_high_changed_files k \<rparr>,
                foldr insert_name_text (ac_blocking (ld_config config)) [])
     | Inl (OtherError t m) \<Rightarrow>
         if t = ''OSError'' then
           Inr (\<lparr> rr_high_paths = [], rr_medium_paths = [], rr_medium_changed_files = None,
                  rr_high_changed_files = None \<rparr>, ALL_VERIFIERS)
         else Inl (OtherError t m)
     | Inl exc \<Rightarrow>
         Inr (\<lparr> rr_high_paths = [], rr_medium_paths = [], rr_medium_changed_files = None,
                rr_high_changed_files = None \<rparr>, ALL_VERIFIERS))"

section \<open>How stale an answer can be\<close>

text \<open>
  A worker over time: the tables, its cache, and the configurations stored so far, newest first, with
  the time of each write; a removed application stores \<open>None\<close>.
\<close>

record config_world =
  cw_now :: rat
  cw_registry :: registry
  cw_cache :: config_cache
  cw_writes :: "(rat \<times> uuid \<times> config_row option) list"

definition stored_at :: "(rat \<times> uuid \<times> config_row option) list \<Rightarrow> uuid \<Rightarrow> rat \<Rightarrow> config_row option" where
  "stored_at writes app_id t =
    (case find (\<lambda>(s, i, row). i = app_id \<and> s \<le> t) writes of Some (s, i, row) \<Rightarrow> row | None \<Rightarrow> None)"

text \<open>
  A write is later than everything before it, and its stamp is one no earlier row had: it is the
  text of that time.
\<close>

inductive config_step :: "yaml_env \<Rightarrow> string option \<Rightarrow> config_world \<Rightarrow> config_world \<Rightarrow> bool" for e own where
  written: "cw_now w < t \<Longrightarrow> \<forall>(s, i, r) \<in> set (cw_writes w). i = app_id \<longrightarrow> (\<forall>row'. r = Some row' \<longrightarrow> cr_stamp row' \<noteq> cr_stamp row) \<Longrightarrow>
     rg' = put_config app_id row (cw_registry w) \<Longrightarrow>
     config_step e own w (w\<lparr> cw_now := t, cw_registry := rg', cw_writes := (t, app_id, Some row) # cw_writes w \<rparr>)"
| removed: "cw_now w < t \<Longrightarrow> app_id \<in> known_apps (cw_registry w) \<Longrightarrow>
     rg' = snd (delete_application app_id 0 (cw_registry w)) \<Longrightarrow>
     config_step e own w (w\<lparr> cw_now := t, cw_registry := rg', cw_writes := (t, app_id, None) # cw_writes w \<rparr>)"
| other: "cw_now w \<le> t \<Longrightarrow> rg_configs rg' = rg_configs (cw_registry w) \<Longrightarrow>
     config_step e own w (w\<lparr> cw_now := t, cw_registry := rg' \<rparr>)"
| resolved: "cw_now w \<le> t \<Longrightarrow>
     config_step e own w (w\<lparr> cw_now := t,
       cw_cache := snd (config_resolve e own (cw_registry w) t app fallback (cw_cache w)) \<rparr>)"
| forgotten: "config_step e own w (w\<lparr> cw_cache := forget_config app (cw_cache w) \<rparr>)"

inductive reachable_config :: "yaml_env \<Rightarrow> string option \<Rightarrow> config_world \<Rightarrow> bool" for e own where
  start: "reachable_config e own \<lparr> cw_now = t, cw_registry = empty_registry, cw_cache = [], cw_writes = [] \<rparr>"
| step: "reachable_config e own w \<Longrightarrow> config_step e own w w' \<Longrightarrow> reachable_config e own w'"

text \<open>
  The cache against the writes: an entry is the parse of the row stored at the moment the entry was
  taken or renewed, the tables hold the last write, and stamps tell rows apart.
\<close>

definition writes_ok :: "config_world \<Rightarrow> bool" where
  "writes_ok w \<longleftrightarrow> (\<forall>(s, i, r) \<in> set (cw_writes w). s \<le> cw_now w) \<and>
     (\<forall>i. map_of (rg_configs (cw_registry w)) i = stored_at (cw_writes w) i (cw_now w)) \<and>
     (\<forall>s i r s' r'. (s, i, Some r) \<in> set (cw_writes w) \<longrightarrow> (s', i, Some r') \<in> set (cw_writes w) \<longrightarrow>
        cr_stamp r = cr_stamp r' \<longrightarrow> r = r')"

definition cache_ok :: "yaml_env \<Rightarrow> config_world \<Rightarrow> bool" where
  "cache_ok e w \<longleftrightarrow> (\<forall>i c stamp expires. map_of (cw_cache w) i = Some (c, stamp, expires) \<longrightarrow>
     expires - TTL_SECONDS \<le> cw_now w \<and>
     (\<exists>row. stored_at (cw_writes w) i (expires - TTL_SECONDS) = Some row \<and> cr_stamp row = stamp \<and>
        parse e (cr_yaml row) = Inr c))"

lemma stored_at_in: "stored_at ws i t = Some row \<Longrightarrow> \<exists>s. (s, i, Some row) \<in> set ws \<and> s \<le> t"
  by (auto simp: stored_at_def find_Some_iff split: option.splits dest!: nth_mem)

lemma stored_at_cons:
  "stored_at ((s, j, r) # ws) i t = (if j = i \<and> s \<le> t then r else stored_at ws i t)"
  by (simp add: stored_at_def)

text \<open>Everything written so far is in force at any later moment.\<close>

lemma stored_at_late:
  assumes "\<forall>(s, i, r) \<in> set ws. s \<le> n" "n \<le> t"
  shows "stored_at ws i t = stored_at ws i n"
proof -
  have "find (\<lambda>(s, j, row). j = i \<and> s \<le> t) ws = find (\<lambda>(s, j, row). j = i \<and> s \<le> n) ws"
    using assms by (intro find_cong) (auto intro: order_trans)
  then show ?thesis by (simp add: stored_at_def)
qed

lemma map_of_without: "map_of (filter (\<lambda>(i, c). i \<noteq> a) xs) i = (if i = a then None else map_of xs i)"
  by (induction xs) auto

lemma map_of_cache_put: "map_of (cache_put a c cache) i = (if i = a then Some c else map_of cache i)"
  by (simp add: cache_put_def map_of_without)

lemma map_of_put_config: "map_of (rg_configs (put_config a row rg)) i = (if i = a then Some row else map_of (rg_configs rg) i)"
  by (auto simp: put_config_def map_of_without map_add_def split: option.split)

lemma governed_Inr: "governed e r txt = Inr c \<Longrightarrow> parse e txt = Inr c"
  by (auto simp: governed_def and_then_Inr split: sum.splits error.splits if_splits)

text \<open>What a lookup does to the cache.\<close>

lemma config_resolve_cache:
  "snd (config_resolve e own rg now app fallback cache) = cache \<or>
   (\<exists>a row c. app = Some a \<and> map_of (rg_configs rg) a = Some row \<and>
      snd (config_resolve e own rg now app fallback cache) = cache_put a (c, cr_stamp row, now + TTL_SECONDS) cache \<and>
      (parse e (cr_yaml row) = Inr c \<or> (\<exists>x. map_of cache a = Some (c, cr_stamp row, x))))"
  by (auto simp: config_resolve_def Let_def split: option.splits sum.splits prod.splits dest!: governed_Inr)

lemma writes_ok_step:
  assumes "config_step e own w w'" "writes_ok w"
  shows "writes_ok w'"
  using assms
proof (induction rule: config_step.induct)
  case (written w t app_id row rg')
  have late: "stored_at (cw_writes w) i t = stored_at (cw_writes w) i (cw_now w)" for i
    using written by (intro stored_at_late) (auto simp: writes_ok_def)
  show ?case
    using written(1-4) by (auto simp: writes_ok_def stored_at_cons map_of_put_config late intro: order_trans less_imp_le)
next
  case (removed w t app_id rg')
  have late: "stored_at (cw_writes w) i t = stored_at (cw_writes w) i (cw_now w)" for i
    using removed by (intro stored_at_late) (auto simp: writes_ok_def)
  have "map_of (rg_configs rg') i = (if i = app_id then None else map_of (rg_configs (cw_registry w)) i)" for i
    using removed(2,3) by (auto simp: delete_application_def known_apps_def map_of_eq_None_iff map_of_without)
  with removed(1,4) show ?case
    by (auto simp: writes_ok_def stored_at_cons late intro: order_trans less_imp_le)
next
  case (other w t rg')
  have late: "stored_at (cw_writes w) i t = stored_at (cw_writes w) i (cw_now w)" for i
    using other by (intro stored_at_late) (auto simp: writes_ok_def)
  with other show ?case by (auto simp: writes_ok_def intro: order_trans)
next
  case (resolved w t app fallback)
  have late: "stored_at (cw_writes w) i t = stored_at (cw_writes w) i (cw_now w)" for i
    using resolved by (intro stored_at_late) (auto simp: writes_ok_def)
  with resolved show ?case by (auto simp: writes_ok_def intro: order_trans)
qed (simp add: writes_ok_def)

text \<open>A later write does not change what was stored before it.\<close>

lemma stored_at_before: "t < s \<Longrightarrow> stored_at ((s, j, r) # ws) i t = stored_at ws i t"
  by (simp add: stored_at_cons)

lemma map_of_forget: "map_of (forget_config app cache) i = Some c \<Longrightarrow> map_of cache i = Some c"
  by (auto simp: forget_config_def map_of_without split: option.splits if_splits)

lemma stored_row:
  "writes_ok w \<Longrightarrow> cw_now w \<le> t \<Longrightarrow> map_of (rg_configs (cw_registry w)) i = stored_at (cw_writes w) i t"
  using stored_at_late[of "cw_writes w" "cw_now w" t i] by (simp add: writes_ok_def)

lemma stamp_tells_rows:
  assumes "writes_ok w" "stored_at (cw_writes w) i t = Some r" "stored_at (cw_writes w) i u = Some row" "cr_stamp r = cr_stamp row"
  shows "r = row"
  using stored_at_in[OF assms(2)] stored_at_in[OF assms(3)] assms(1,4) unfolding writes_ok_def by blast

lemma cache_ok_step:
  assumes "config_step e own w w'" "cache_ok e w" "writes_ok w"
  shows "cache_ok e w'"
  using assms
proof (induction rule: config_step.induct)
  case (resolved w t app fallback)
  let ?cache = "snd (config_resolve e own (cw_registry w) t app fallback (cw_cache w))"
  consider "?cache = cw_cache w"
    | a row c where "map_of (rg_configs (cw_registry w)) a = Some row"
      "?cache = cache_put a (c, cr_stamp row, t + TTL_SECONDS) (cw_cache w)"
      "parse e (cr_yaml row) = Inr c \<or> (\<exists>x. map_of (cw_cache w) a = Some (c, cr_stamp row, x))"
    using config_resolve_cache[of e own "cw_registry w" t app fallback "cw_cache w"] by blast
  then show ?case
  proof cases
    case 1
    then show ?thesis using resolved(1,2) by (fastforce simp: cache_ok_def intro: order_trans)
  next
    case (2 a row c)
    have now: "stored_at (cw_writes w) a (cw_now w) = Some row"
      using 2(1) resolved(3) by (auto simp: writes_ok_def)
    then have row: "stored_at (cw_writes w) a t = Some row"
      using resolved(1,3) stored_at_late[of "cw_writes w" "cw_now w" t a] by (simp add: writes_ok_def)
    have "parse e (cr_yaml row) = Inr c"
      using 2(3)
    proof
      assume "\<exists>x. map_of (cw_cache w) a = Some (c, cr_stamp row, x)"
      then obtain r t0 where old: "stored_at (cw_writes w) a t0 = Some r" "cr_stamp r = cr_stamp row" "parse e (cr_yaml r) = Inr c"
        using resolved(2) by (fastforce simp: cache_ok_def)
      have "r = row"
        using stored_at_in[OF old(1)] stored_at_in[OF now] old(2) resolved(3) unfolding writes_ok_def by blast
      with old(3) show ?thesis by simp
    qed
    with row show ?thesis
      using 2(2) resolved(1,2) by (fastforce simp: cache_ok_def map_of_cache_put intro: order_trans split: if_splits)
  qed
next
  case (written w t app_id row rg')
  then show ?case by (fastforce simp: cache_ok_def stored_at_cons intro: order_trans less_imp_le)
next
  case (removed w t app_id rg')
  then show ?case by (fastforce simp: cache_ok_def stored_at_cons intro: order_trans less_imp_le)
next
  case (other w t rg')
  then show ?case by (fastforce simp: cache_ok_def intro: order_trans)
next
  case (forgotten w app)
  then show ?case by (auto simp: cache_ok_def dest: map_of_forget)
qed

lemma reachable_config_ok: "reachable_config e own w \<Longrightarrow> writes_ok w \<and> cache_ok e w"
proof (induction rule: reachable_config.induct)
  case (start t)
  show ?case by (simp add: writes_ok_def cache_ok_def stored_at_def empty_registry_def)
qed (blast intro: writes_ok_step cache_ok_step)

section \<open>Properties\<close>

text \<open>
  How stale an answer can be.  Whatever was stored, removed and looked up before, a configuration
  the store answers for an application at time t, other than the worker's own file, is the parse of
  the text that was stored for it at some moment at most \<open>TTL_SECONDS\<close> before t.
\<close>

theorem config_is_at_most_the_ttl_old:
  assumes "reachable_config e own w" "cw_now w \<le> t"
    and "fst (config_resolve e own (cw_registry w) t (Some app_id) fallback (cw_cache w)) = Inr c"
  shows "(\<exists>t0 row. t - TTL_SECONDS \<le> t0 \<and> t0 \<le> t \<and> stored_at (cw_writes w) app_id t0 = Some row \<and>
      parse e (cr_yaml row) = Inr c)
    \<or> (stored_at (cw_writes w) app_id t = None \<and> file_or e own (map_option ar_name (map_of (rg_apps (cw_registry w)) app_id)) fallback = Inr c)"
proof -
  have ok: "writes_ok w" "cache_ok e w" using reachable_config_ok[OF assms(1)] by auto
  note late = stored_row[OF ok(1) assms(2)]
  show ?thesis
  proof (cases "map_of (cw_cache w) app_id")
    case None
    with assms(3) show ?thesis
      by (auto simp: config_resolve_def late TTL_SECONDS_def dest!: governed_Inr intro!: exI[of _ t]
          split: option.splits sum.splits)
  next
    case (Some entry)
    obtain d stamp x where entry: "entry = (d, stamp, x)" by (cases entry)
    obtain r where r: "stored_at (cw_writes w) app_id (x - TTL_SECONDS) = Some r" "cr_stamp r = stamp"
      "parse e (cr_yaml r) = Inr d" "x - TTL_SECONDS \<le> t"
      using ok(2) Some entry assms(2) unfolding cache_ok_def by (meson order_trans)
    show ?thesis
    proof (cases "t < x")
      case True
      with assms(3) Some entry have "c = d" by (simp add: config_resolve_def)
      with r True show ?thesis by (intro disjI1 exI[of _ "x - TTL_SECONDS"] exI[of _ r]) auto
    next
      case False
      have "parse e (cr_yaml row) = Inr d" if "stored_at (cw_writes w) app_id t = Some row" "cr_stamp row = stamp" for row
        using stamp_tells_rows[OF ok(1) r(1) that(1)] that(2) r(2,3) by simp
      with False assms(3) Some entry show ?thesis
        by (auto simp: config_resolve_def late TTL_SECONDS_def Let_def dest!: governed_Inr intro!: exI[of _ t]
            split: option.splits sum.splits if_splits)
    qed
  qed
qed

text \<open>
  A moved control point goes unnoticed.  While the stored row keeps its stamp, a worker that has
  the configuration in its cache answers it at every later time, although the registry now declares
  another control point; a worker without it refuses the same application.
\<close>

theorem moved_control_point_goes_unnoticed:
  assumes "map_of cache app_id = Some (c, cr_stamp row, expires)"
    and "map_of (rg_apps rg) app_id = Some r" "map_of (rg_configs rg) app_id = Some row"
    and "parse e (cr_yaml row) = Inr c" "model_value (ar_integration_model r) = Inr declared"
    and "ac_integration_model (ld_config c) \<noteq> declared"
  shows "fst (config_resolve e own rg now (Some app_id) fallback cache) = Inr c \<and>
    (\<exists>m. fst (config_resolve e own rg now (Some app_id) fallback []) = Inl (PolicyDenied m))"
  using assms by (simp add: config_resolve_def governed_def Let_def)

lemma no_rule_matches: "first_match [] paths = None"
  by (induction paths) simp_all

text \<open>
  A configuration that cannot be resolved is not the strict answer.  The run it starts has all four
  verifiers blocking, and no tiering rule at all: whatever it changes stays at the tier it began
  with.
\<close>

theorem unresolved_configuration_never_escalates:
  assumes "resolved = Inl (ConfigError m) \<or> resolved = Inl (PolicyDenied m)"
  shows "\<exists>rules. governing resolved = Inr (rules, ALL_VERIFIERS) \<and> (\<forall>tier d. fst (tier_for_diff tier d rules) = tier)"
  using assms by (auto simp: governing_def tier_for_diff_def above_def Let_def no_rule_matches split: option.split)

section \<open>A worker\<close>

lemma sample_model_parses:
  "case parse sample_yaml_env ''sample'' of Inl e \<Rightarrow> False
   | Inr ld \<Rightarrow> ac_integration_model (ld_config ld) = GATED_MERGE"
  by code_simp

definition gated_registry :: registry where
  "gated_registry = snd (register_application ''app-1'' sample_application empty_registry)"

definition sample_row :: config_row where
  "sample_row = \<lparr> cr_yaml = ''sample'', cr_stamp = ''s1'', cr_updated_by = ''ann@acme.com'' \<rparr>"

definition sample_world :: config_world where
  "sample_world = \<lparr> cw_now = 1, cw_registry = put_config ''app-1'' sample_row gated_registry, cw_cache = [],
     cw_writes = [(1, ''app-1'', Some sample_row)] \<rparr>"

lemma gated_registry_apps:
  "rg_apps gated_registry = [(''app-1'', \<lparr> ar_name = ''shop'', ar_repo_url = ''https://github.com/acme/shop'',
     ar_integration_model = ''gated_merge'' \<rparr>)]" "rg_configs gated_registry = []"
  by (simp_all add: gated_registry_def register_application_def sample_application_def empty_registry_def repo_url_of_def)

lemma sample_world_reachable: "reachable_config e own sample_world"
proof -
  let ?w0 = "\<lparr> cw_now = 0, cw_registry = empty_registry, cw_cache = [], cw_writes = [] \<rparr>"
  have "config_step e own ?w0 (?w0\<lparr> cw_now := 0, cw_registry := gated_registry \<rparr>)"
    by (rule config_step.other) (simp_all add: gated_registry_apps, simp add: empty_registry_def)
  with reachable_config.start have r: "reachable_config e own (?w0\<lparr> cw_now := 0, cw_registry := gated_registry \<rparr>)"
    by (rule reachable_config.step)
  have "config_step e own (?w0\<lparr> cw_now := 0, cw_registry := gated_registry \<rparr>) sample_world"
    using config_step.written[of "?w0\<lparr> cw_now := 0, cw_registry := gated_registry \<rparr>" 1 "''app-1''" sample_row
        "put_config ''app-1'' sample_row gated_registry"]
    by (simp add: sample_world_def)
  with r show ?thesis by (rule reachable_config.step)
qed

lemma sample_world_resolves:
  "\<exists>ld. parse sample_yaml_env ''sample'' = Inr ld \<and> ac_integration_model (ld_config ld) = GATED_MERGE \<and>
     fst (config_resolve sample_yaml_env None (cw_registry sample_world) 2 (Some ''app-1'') None (cw_cache sample_world)) = Inr ld"
proof -
  obtain ld where ld: "parse sample_yaml_env ''sample'' = Inr ld" "ac_integration_model (ld_config ld) = GATED_MERGE"
    using sample_model_parses by (cases "parse sample_yaml_env ''sample''") auto
  have "rg_apps (put_config a row rg) = rg_apps rg" for a row rg by (simp add: put_config_def)
  with ld show ?thesis
    by (simp add: config_resolve_def sample_world_def map_of_put_config gated_registry_apps governed_def sample_row_def
        model_value_def)
qed

lemma config_is_at_most_the_ttl_old_witness:
  "\<exists>ld t0. fst (config_resolve sample_yaml_env None (cw_registry sample_world) 2 (Some ''app-1'') None (cw_cache sample_world)) = Inr ld \<and>
     2 - TTL_SECONDS \<le> t0 \<and> t0 \<le> 2 \<and> stored_at (cw_writes sample_world) ''app-1'' t0 = Some sample_row"
proof -
  obtain ld where ld: "fst (config_resolve sample_yaml_env None (cw_registry sample_world) 2 (Some ''app-1'') None (cw_cache sample_world)) = Inr ld"
    using sample_world_resolves by blast
  have "cw_now sample_world \<le> 2" by (simp add: sample_world_def)
  from config_is_at_most_the_ttl_old[OF sample_world_reachable this ld] ld show ?thesis
    by (auto simp: sample_world_def stored_at_def split: if_splits)
qed

lemma moved_control_point_goes_unnoticed_witness:
  "\<exists>ld m. fst (config_resolve sample_yaml_env None (put_config ''app-1'' sample_row sample_registry) 2 (Some ''app-1'') None
       [(''app-1'', ld, ''s1'', 1)]) = Inr ld \<and>
     fst (config_resolve sample_yaml_env None (put_config ''app-1'' sample_row sample_registry) 2 (Some ''app-1'') None []) = Inl (PolicyDenied m)"
proof -
  obtain ld where ld: "parse sample_yaml_env ''sample'' = Inr ld" "ac_integration_model (ld_config ld) = GATED_MERGE"
    using sample_model_parses by (cases "parse sample_yaml_env ''sample''") auto
  have "rg_apps (put_config a row rg) = rg_apps rg" for a row rg by (simp add: put_config_def)
  with ld moved_control_point_goes_unnoticed[of "[(''app-1'', ld, ''s1'', 1)]" "''app-1''" ld sample_row 1
      "put_config ''app-1'' sample_row sample_registry" "snd (hd (rg_apps sample_registry))" sample_yaml_env KUWARDEN_DEPLOYS None 2 None]
  show ?thesis
    by (simp add: sample_row_def map_of_put_config sample_registry_apps model_value_def) blast
qed

lemma unresolved_configuration_never_escalates_witness:
  "\<exists>rules. governing (Inl (PolicyDenied ''no application a is registered'')) = Inr (rules, ALL_VERIFIERS) \<and>
     fst (tier_for_diff Low None rules) = Low"
  using unresolved_configuration_never_escalates[of "Inl (PolicyDenied ''no application a is registered'')"] by blast

end
