(* ===== verification/Engine.thy ===== *)
theory Engine
  imports Triage Planner Coder Ship_Nodes Build_Test Verifier_Nodes Config_Store
begin

text \<open>
  engine/activities/nodes.py and engine/nodes/__init__.py: the registry of nodes, the context a node
  is given, and \<open>run_node\<close>, the one way the flow runs a node.  Every node is the definition of its
  own theory; here they are put behind their identifiers, and what they may write, to the state
  and to the systems outside, is stated for all of them.
\<close>

section \<open>The registry\<close>

record node_spec =
  ns_id :: string
  ns_name :: string
  ns_class :: node_class

definition NODE_SPECS :: "node_spec list" where
  "NODE_SPECS =
    [\<lparr> ns_id = ''triage'', ns_name = ''Triage & Risk Router'', ns_class = DETERMINISTIC \<rparr>,
     \<lparr> ns_id = ''planner'', ns_name = ''Planner'', ns_class = GENERATIVE \<rparr>,
     \<lparr> ns_id = ''coder'', ns_name = ''Coder'', ns_class = GENERATIVE \<rparr>,
     \<lparr> ns_id = ''push'', ns_name = ''Push'', ns_class = DETERMINISTIC \<rparr>,
     \<lparr> ns_id = ''build_test'', ns_name = ''Build & Test'', ns_class = DETERMINISTIC \<rparr>,
     \<lparr> ns_id = ''verifier.correctness'', ns_name = ''Verifier '' @ [em_dash] @ '' correctness'', ns_class = VERIFIER \<rparr>,
     \<lparr> ns_id = ''verifier.security'', ns_name = ''Verifier '' @ [em_dash] @ '' security'', ns_class = VERIFIER \<rparr>,
     \<lparr> ns_id = ''verifier.test_evidence'', ns_name = ''Verifier '' @ [em_dash] @ '' test evidence'', ns_class = VERIFIER \<rparr>,
     \<lparr> ns_id = ''verifier.regression_risk'', ns_name = ''Verifier '' @ [em_dash] @ '' regression risk'', ns_class = VERIFIER \<rparr>,
     \<lparr> ns_id = ''release'', ns_name = ''Release'', ns_class = DETERMINISTIC \<rparr>,
     \<lparr> ns_id = ''compensate'', ns_name = ''Abort / Rollback / Cleanup'', ns_class = DETERMINISTIC \<rparr>,
     \<lparr> ns_id = ''reporter'', ns_name = ''Reporter'', ns_class = DETERMINISTIC \<rparr>]"

text \<open>Registering a node; an identifier is registered once.\<close>

definition register_node :: "node_spec \<Rightarrow> node_spec list \<Rightarrow> node_spec list res" where
  "register_node spec registered =
    (if ns_id spec \<in> ns_id ` set registered
     then Inl (OtherError ''ValueError'' (''duplicate node id '' @ repr_str (ns_id spec)))
     else Inr (registered @ [spec]))"

definition current_node :: "string \<Rightarrow> (string \<times> node_class) option" where
  "current_node node_id = map_option (\<lambda>s. (ns_id s, ns_class s)) (find (\<lambda>s. ns_id s = node_id) NODE_SPECS)"

text \<open>
  What a node did: the writes it asked for and how it ended.  \<open>None\<close> is a node that never returns,
  which only the wait for a pipeline can be.
\<close>

type_synonym node_result = "flow_state io option"

definition NODE_TABLE :: "(string \<Rightarrow> llm_backend) \<Rightarrow> coder_env \<Rightarrow> (string \<times> (node_ctx \<Rightarrow> flow_state \<Rightarrow> node_result)) list" where
  "NODE_TABLE backends ce =
    [(''triage'', \<lambda>ctx st. Some (triage ctx st)),
     (''planner'', \<lambda>ctx st. Some (io_pure (planner ctx (backends ''planner'') st))),
     (''coder'', \<lambda>ctx st. Some (io_pure (coder ctx ce st))),
     (''push'', \<lambda>ctx st. Some (push ctx st)),
     (''build_test'', \<lambda>ctx st. map_option io_pure (build_test ctx st)),
     (''verifier.correctness'', \<lambda>ctx st. Some (io_pure (correctness ctx (backends ''verifier.correctness'') st))),
     (''verifier.security'', \<lambda>ctx st. Some (io_pure (security ctx (backends ''verifier.security'') st))),
     (''verifier.test_evidence'', \<lambda>ctx st. Some (io_pure (test_evidence_node ctx (backends ''verifier.test_evidence'') st))),
     (''verifier.regression_risk'', \<lambda>ctx st. Some (io_pure (regression_risk ctx (backends ''verifier.regression_risk'') st))),
     (''release'', \<lambda>ctx st. Some (release ctx st)),
     (''compensate'', \<lambda>ctx st. Some (compensate ctx st)),
     (''reporter'', \<lambda>ctx st. Some (reporter ctx st))]"

definition NODES :: "(string \<Rightarrow> llm_backend) \<Rightarrow> coder_env \<Rightarrow> string \<Rightarrow> (node_ctx \<Rightarrow> flow_state \<Rightarrow> node_result) option" where
  "NODES backends ce node_id = map_of (NODE_TABLE backends ce) node_id"

section \<open>The worker\<close>

text \<open>
  Which broker resolves credentials: one a caller injected, the environment's, or the store of one
  application before the environment.
\<close>

datatype broker = InjectedBroker | EnvBroker | StoreThenEnv uuid

type_synonym sandbox_call = "(string \<times> string) list \<Rightarrow> string \<Rightarrow> string list \<Rightarrow> sandbox_limits \<Rightarrow> exec_result res"

record node_runtime =
  nr_config :: "loaded option"
  nr_injected_broker :: bool
  nr_sandbox :: "sandbox_call option"

definition configure :: "loaded option \<Rightarrow> bool \<Rightarrow> sandbox_call option \<Rightarrow> node_runtime \<Rightarrow> node_runtime" where
  "configure config injects sandbox rt =
     \<lparr> nr_config = config, nr_injected_broker = (injects \<or> nr_injected_broker rt), nr_sandbox = sandbox \<rparr>"

definition broker_for :: "node_runtime \<Rightarrow> uuid option \<Rightarrow> broker" where
  "broker_for rt app = (if nr_injected_broker rt then InjectedBroker
     else case app of None \<Rightarrow> EnvBroker | Some a \<Rightarrow> StoreThenEnv a)"

text \<open>
  The platforms as they answer under a broker and a configuration, and the sandbox of the host under
  the isolation the application asks for.
\<close>

record outside =
  ot_platforms :: "broker \<Rightarrow> app_config \<Rightarrow> node_ctx"
  ot_podman :: "bool \<Rightarrow> sandbox_call"

definition node_context :: "node_runtime \<Rightarrow> outside \<Rightarrow> uuid option \<Rightarrow> loaded option \<Rightarrow> node_ctx res" where
  "node_context rt out app config =
    (case (case config of Some c \<Rightarrow> Some c | None \<Rightarrow> nr_config rt) of
       None \<Rightarrow> Inl (OtherError ''RuntimeError'' ''worker has no kuwarden.yaml loaded; call configure() first'')
     | Some effective \<Rightarrow>
         let c = ld_config effective
         in Inr ((ot_platforms out (broker_for rt app) c)
              \<lparr> nc_config := c,
                nc_sandbox := Some (case nr_sandbox rt of Some s \<Rightarrow> s
                  | None \<Rightarrow> ot_podman out (sb_require_full_isolation (ac_sandbox c))) \<rparr>))"

text \<open>The lookup of the configuration, with the cache it leaves behind.\<close>

type_synonym lookup = "uuid option \<Rightarrow> loaded option \<Rightarrow> loaded res \<times> config_cache"

definition run_node :: "node_runtime \<Rightarrow> outside \<Rightarrow> lookup \<Rightarrow> (string \<Rightarrow> llm_backend) \<Rightarrow> coder_env
    \<Rightarrow> string \<Rightarrow> uuid option \<Rightarrow> flow_state \<Rightarrow> node_result" where
  "run_node rt out look backends ce node_id app st =
    (case NODES backends ce node_id of
       None \<Rightarrow> Some (io_pure (Inl (OtherError ''LookupError'' (''unknown node '' @ repr_str node_id))))
     | Some fn \<Rightarrow>
         (case and_then (fst (look app (nr_config rt))) (\<lambda>config. node_context rt out app (Some config)) of
            Inl e \<Rightarrow> Some (io_pure (Inl e))
          | Inr ctx \<Rightarrow> fn ctx st))"

text \<open>\<open>preview\<close> is the platform's answer for a repository and a commit.\<close>

definition read_preview_url :: "node_runtime \<Rightarrow> outside \<Rightarrow> lookup \<Rightarrow> (repo_ref \<Rightarrow> string \<Rightarrow> string option res)
    \<Rightarrow> uuid \<Rightarrow> string \<Rightarrow> string" where
  "read_preview_url rt out look preview app commit =
    (case and_then (fst (look (Some app) (nr_config rt))) (\<lambda>config.
          and_then (node_context rt out (Some app) (Some config)) (\<lambda>ctx.
          and_then (primary (ld_config config)) (\<lambda>repo.
          and_then (scm_adapter repo) (\<lambda>_. preview (repo_config_ref repo) commit)))) of
       Inl e \<Rightarrow> []
     | Inr None \<Rightarrow> []
     | Inr (Some url) \<Rightarrow> url)"

section \<open>What a node may write\<close>

text \<open>A state with the fields a node writes erased.\<close>

definition no_ticket :: ticket where
  "no_ticket = \<lparr> tk_id = [], tk_system = [], tk_title = [], tk_body = [], tk_state = None,
     tk_acceptance_criteria = [], tk_labels = [], tk_story_points = None \<rparr>"

definition erased :: "string \<Rightarrow> flow_state \<Rightarrow> flow_state" where
  "erased node_id st =
    (let s = st\<lparr> fs_notes := None \<rparr>
     in if node_id = ''triage'' then s\<lparr> fs_ticket := no_ticket, fs_risk_tier := Low,
          fs_provisional_risk_tier := None, fs_budget_cents_allowed := 0 \<rparr>
        else if node_id = ''planner'' then s\<lparr> fs_plan := None, fs_spend_micro_cents := None \<rparr>
        else if node_id = ''coder'' then s\<lparr> fs_base_branch := None, fs_base_commit := None, fs_branch := None,
          fs_proposed_edits := [], fs_diff := None, fs_spend_micro_cents := None, fs_retry_count := 0 \<rparr>
        else if node_id = ''push'' then s\<lparr> fs_head_commit := None, fs_artifacts := [] \<rparr>
        else if node_id = ''build_test'' then s\<lparr> fs_sandbox_isolation := None, fs_sandbox_gaps := [],
          fs_sandbox_result := None, fs_ci_result := None, fs_ci_detail := None \<rparr>
        else if node_id = ''release'' then s\<lparr> fs_artifacts := [], fs_merged_commit := None \<rparr>
        else if node_id = ''compensate'' then s\<lparr> fs_cleanup := None \<rparr>
        else if node_id = ''reporter'' then s
        else s\<lparr> fs_spend_micro_cents := None, fs_verifications := [] \<rparr>)"


definition VERIFIER_NODES :: "string list" where
  "VERIFIER_NODES = [''verifier.correctness'', ''verifier.security'', ''verifier.test_evidence'', ''verifier.regression_risk'']"

lemma erased_of:
  "erased ''triage'' st = st\<lparr> fs_notes := None, fs_ticket := no_ticket, fs_risk_tier := Low,
     fs_provisional_risk_tier := None, fs_budget_cents_allowed := 0 \<rparr>"
  "erased ''planner'' st = st\<lparr> fs_notes := None, fs_plan := None, fs_spend_micro_cents := None \<rparr>"
  "erased ''coder'' st = st\<lparr> fs_notes := None, fs_base_branch := None, fs_base_commit := None, fs_branch := None,
     fs_proposed_edits := [], fs_diff := None, fs_spend_micro_cents := None, fs_retry_count := 0 \<rparr>"
  "erased ''push'' st = st\<lparr> fs_notes := None, fs_head_commit := None, fs_artifacts := [] \<rparr>"
  "erased ''build_test'' st = st\<lparr> fs_notes := None, fs_sandbox_isolation := None, fs_sandbox_gaps := [],
     fs_sandbox_result := None, fs_ci_result := None, fs_ci_detail := None \<rparr>"
  "erased ''release'' st = st\<lparr> fs_notes := None, fs_artifacts := [], fs_merged_commit := None \<rparr>"
  "erased ''compensate'' st = st\<lparr> fs_notes := None, fs_cleanup := None \<rparr>"
  "erased ''reporter'' st = st\<lparr> fs_notes := None \<rparr>"
  by (simp_all add: erased_def)

lemma erased_verifier:
  "i \<in> set VERIFIER_NODES \<Longrightarrow> erased i st = st\<lparr> fs_notes := None, fs_spend_micro_cents := None, fs_verifications := [] \<rparr>"
  by (auto simp: erased_def VERIFIER_NODES_def)

lemma triage_frame: "snd (triage ctx st) = Inr st' \<Longrightarrow> erased ''triage'' st' = erased ''triage'' st"
  by (auto simp: triage_def Let_def io_bind_Inr intake_def erased_of split: if_splits)

lemma triage_raises:
  assumes "snd (triage ctx st) = Inr st'"
  shows "fs_risk_tier st \<le> fs_risk_tier st'"
proof -
  have "\<exists>t. fs_risk_tier st' = raise_to (fs_risk_tier st) t"
    using assms by (auto simp: triage_def Let_def io_bind_Inr intake_def split: if_splits)
  then show ?thesis by auto
qed

lemma planner_frame: "planner ctx b st = Inr st' \<Longrightarrow> erased ''planner'' st' = erased ''planner'' st"
  by (auto simp: planner_def Let_def and_then_Inr erased_of split: option.splits)

lemma coder_frame: "coder ctx ce st = Inr st' \<Longrightarrow> erased ''coder'' st' = erased ''coder'' st"
  by (auto simp: coder_def Let_def and_then_Inr coded_state_def erased_of split: option.splits if_splits)

lemma push_frame: "snd (push ctx st) = Inr st' \<Longrightarrow> erased ''push'' st' = erased ''push'' st"
  by (auto simp: push_def Let_def io_bind_Inr erased_of split: option.splits if_splits)

lemma release_frame:
  assumes "snd (release ctx st) = Inr st'"
  shows "erased ''release'' st' = erased ''release'' st"
proof -
  obtain repo where g: "truthy (fs_branch st)" "truthy (fs_head_commit st)" "truthy (fs_base_branch st)"
    "primary (nc_config ctx) = Inr repo" "scm_adapter repo = Inr ()"
    using assms by (auto simp: release_def Let_def io_bind_Inr split: if_splits)
  define op where "op = nc_open_pull_request ctx (repo_config_ref repo) (the (fs_branch st))
    (the (fs_base_branch st)) (release_title st) (release_description st)"
  obtain pr where pr: "op = Inr pr"
    using assms by (cases op) (auto simp: release_def g io_simps Let_def op_def[symmetric])
  let ?st1 = "st\<lparr> fs_artifacts := fs_artifacts st @
    [\<lparr> ar_kind = ''pull_request'', ar_uri = pr_url pr, ar_digest = pr_id pr \<rparr>] \<rparr>"
  obtain allowed reason where m: "may_merge (nc_config ctx) ?st1 = (allowed, reason)"
    by (cases "may_merge (nc_config ctx) ?st1")
  show ?thesis
    using assms
    by (cases allowed; cases "nc_merge_pull_request ctx (repo_config_ref repo) (pr_id pr) (the (fs_head_commit st))")
      (auto simp: release_def g io_simps Let_def m pr op_def[symmetric] erased_of)
qed

lemma record_cleanup_frame: "erased ''compensate'' (record_cleanup st c) = erased ''compensate'' st"
  by (simp add: record_cleanup_def Let_def erased_of split: prod.split option.split)

lemma io_catch_Inr:
  "snd (io_catch m h) = Inr x \<longleftrightarrow> snd m = Inr x \<or> (\<exists>e. snd m = Inl e \<and> snd (h e) = Inr x)"
  by (simp add: io_catch_snd split: sum.split)

lemma compensate_frame: "snd (compensate ctx st) = Inr st' \<Longrightarrow> erased ''compensate'' st' = erased ''compensate'' st"
  by (auto simp: compensate_def Let_def io_bind_Inr io_catch_Inr record_cleanup_frame split: if_splits)

lemma reporter_frame: "snd (reporter ctx st) = Inr st' \<Longrightarrow> erased ''reporter'' st' = erased ''reporter'' st"
  by (auto simp: reporter_def Let_def io_bind_Inr erased_of split: if_splits)

lemma note_isolation_frame: "erased ''build_test'' (note_isolation r st) = erased ''build_test'' st"
  by (auto simp: note_isolation_def erased_of split: option.split)

lemma anchor_frame:
  "anchor_to_ci ctx st = Some (Inr st') \<Longrightarrow> erased ''build_test'' st' = erased ''build_test'' st"
  by (auto simp: anchor_to_ci_def Let_def and_then_Inr erased_of split: option.splits if_splits sum.splits)

lemma after_exec_frame:
  assumes "after_exec ctx n r st = Some (Inr st')"
  shows "erased ''build_test'' st' = erased ''build_test'' st"
proof -
  define st2 where "st2 = (note_isolation r st)\<lparr> fs_sandbox_result := Some (sandbox_verdict r), fs_ci_result := Some (sandbox_verdict r) \<rparr>"
  have f: "erased ''build_test'' st2 = erased ''build_test'' (note_isolation r st)"
    by (simp add: st2_def erased_of)
  obtain st3 where "(if ex_exit_code r = 0 then anchor_to_ci ctx st2 else Some (Inr st2)) = Some (Inr st3)"
      "st' = st3\<lparr> fs_notes := Some (build_notes (nc_config ctx) r n st3) \<rparr>"
    using assms unfolding after_exec_def Let_def st2_def[symmetric] by (auto simp: and_then_Inr)
  then have "erased ''build_test'' st3 = erased ''build_test'' st2" "erased ''build_test'' st' = erased ''build_test'' st3"
    by (auto dest: anchor_frame split: if_splits) (simp_all add: erased_of)
  with f note_isolation_frame show ?thesis by simp
qed

lemma build_test_frame:
  assumes "build_test ctx st = Some (Inr st')"
  shows "erased ''build_test'' st' = erased ''build_test'' st"
proof -
  have "st' = nothing_executed ctx st \<or> (\<exists>n result. after_exec ctx n result st = Some (Inr st'))"
    using assms by (auto simp: build_test_def Let_def split: sum.splits option.splits if_splits)
  then show ?thesis
    by (elim disjE exE) (simp_all add: nothing_executed_def Let_def erased_of after_exec_frame[unfolded erased_of])
qed

lemma judge_frame:
  assumes "judge ctx b vid extra st = Inr (v, n, st1)" "i \<in> set VERIFIER_NODES"
  shows "erased i st1 = erased i st \<and> fs_verifications st1 = fs_verifications st \<and> vf_verifier v = vid"
  using judge_returns[OF assms(1)] erased_verifier[OF assms(2)] by fastforce

lemma erased_verdict:
  "i \<in> set VERIFIER_NODES \<Longrightarrow> erased i (st\<lparr> fs_verifications := vs, fs_notes := n \<rparr>) = erased i st"
  "i \<in> set VERIFIER_NODES \<Longrightarrow> erased i (st\<lparr> fs_notes := n, fs_verifications := vs \<rparr>) = erased i st"
  by (simp_all add: erased_verifier)

lemma plain_verifier_frame:
  assumes "plain_verifier vid ctx b st = Inr st'" "i \<in> set VERIFIER_NODES"
  shows "erased i st' = erased i st \<and> (\<exists>v. vf_verifier v = vid \<and> fs_verifications st' = fs_verifications st @ [v])"
  using assms by (auto simp: plain_verifier_def and_then_Inr erased_verdict dest: judge_frame)

lemma test_evidence_frame:
  assumes "test_evidence_node ctx b st = Inr st'" "i \<in> set VERIFIER_NODES"
  shows "erased i st' = erased i st \<and> (\<exists>v. vf_verifier v = ''test_evidence'' \<and> fs_verifications st' = fs_verifications st @ [v])"
  using assms by (auto simp: test_evidence_node_def and_then_Inr Let_def erased_verdict dest!: judge_frame)

lemmas verifier_frames = plain_verifier_frame test_evidence_frame

section \<open>What a node may ask of the systems outside\<close>

fun permitted :: "string \<Rightarrow> effect \<Rightarrow> bool" where
  "permitted node_id (PostComment ref body) \<longleftrightarrow> node_id = ''triage'' \<or> node_id = ''reporter''"
| "permitted node_id (PushChange ref base branch message edits parent) \<longleftrightarrow> node_id = ''push''"
| "permitted node_id (OpenPullRequest ref source target title description) \<longleftrightarrow> node_id = ''release''"
| "permitted node_id (MergePullRequest ref pr head) \<longleftrightarrow> node_id = ''release''"
| "permitted node_id (DeleteBranch ref branch) \<longleftrightarrow> node_id = ''compensate''"

lemma permitted_bind:
  "list_all (permitted i) (fst m) \<Longrightarrow> (\<And>x. snd m = Inr x \<Longrightarrow> list_all (permitted i) (fst (k x))) \<Longrightarrow>
   list_all (permitted i) (fst (io_bind m k))"
  by (simp add: io_bind_fst split: sum.split)

lemma permitted_catch:
  "list_all (permitted i) (fst m) \<Longrightarrow> (\<And>e. list_all (permitted i) (fst (h e))) \<Longrightarrow>
   list_all (permitted i) (fst (io_catch m h))"
  by (simp add: io_catch_fst split: sum.split)

lemma triage_effects: "list_all (permitted ''triage'') (fst (triage ctx st))"
  by (auto simp: triage_def acknowledge_def Let_def intro!: permitted_bind permitted_catch)

lemma push_effects: "list_all (permitted ''push'') (fst (push ctx st))"
  by (auto simp: push_def Let_def intro!: permitted_bind split: option.split)

lemma release_permitted: "list_all (permitted ''release'') (fst (release ctx st))"
  by (auto simp: release_def Let_def case_prod_beta intro!: permitted_bind)

lemma compensate_effects: "list_all (permitted ''compensate'') (fst (compensate ctx st))"
  by (auto simp: compensate_def Let_def intro!: permitted_bind permitted_catch)

lemma reporter_effects: "list_all (permitted ''reporter'') (fst (reporter ctx st))"
  by (auto simp: reporter_def Let_def intro!: permitted_bind)

lemmas node_effects = triage_effects push_effects release_permitted compensate_effects reporter_effects

section \<open>Properties\<close>

text \<open>What holds of every row of the registry holds of the node it finds.\<close>

lemma NODES_all:
  "list_all (\<lambda>row. P (fst row) (snd row)) (NODE_TABLE backends ce) \<Longrightarrow> NODES backends ce node_id = Some fn \<Longrightarrow> P node_id fn"
  by (force simp: NODES_def list_all_iff dest: map_of_SomeD)

lemma run_node_Inr:
  assumes "run_node rt out look backends ce node_id app st = Some (es, Inr st')"
  shows "\<exists>fn ctx. NODES backends ce node_id = Some fn \<and> fn ctx st = Some (es, Inr st')"
  using assms by (auto simp: run_node_def io_pure_def split: option.splits sum.splits)

lemma io_pure_eq: "io_pure r = (es, x) \<longleftrightarrow> es = [] \<and> r = x"
  by (auto simp: io_pure_def)

definition frames_ok :: "string \<Rightarrow> (node_ctx \<Rightarrow> flow_state \<Rightarrow> node_result) \<Rightarrow> bool" where
  "frames_ok i fn \<longleftrightarrow> (\<forall>ctx st es st'. fn ctx st = Some (es, Inr st') \<longrightarrow>
     erased i st' = erased i st \<and> fs_risk_tier st \<le> fs_risk_tier st')"

lemma frames_okI:
  assumes "\<And>ctx st es st'. fn ctx st = Some (es, Inr st') \<Longrightarrow> erased i st' = erased i st"
    and "\<And>ctx st es st'. fn ctx st = Some (es, Inr st') \<Longrightarrow> fs_risk_tier st \<le> fs_risk_tier st'"
  shows "frames_ok i fn"
  using assms by (auto simp: frames_ok_def)

lemma tier_of_frame: "i \<noteq> ''triage'' \<Longrightarrow> erased i st' = erased i st \<Longrightarrow> fs_risk_tier st \<le> fs_risk_tier st'"
proof -
  assume i: "i \<noteq> ''triage''" and e: "erased i st' = erased i st"
  have "fs_risk_tier (erased i s) = fs_risk_tier s" for s using i by (simp add: erased_def Let_def)
  with e show "fs_risk_tier st \<le> fs_risk_tier st'" by (metis order_refl)
qed

lemma frames_ok_other:
  assumes "\<And>ctx st es st'. fn ctx st = Some (es, Inr st') \<Longrightarrow> erased i st' = erased i st" "i \<noteq> ''triage''"
  shows "frames_ok i fn"
  by (rule frames_okI) (use assms tier_of_frame in blast)+

lemma verifier_ids:
  "''verifier.correctness'' \<in> set VERIFIER_NODES" "''verifier.security'' \<in> set VERIFIER_NODES"
  "''verifier.test_evidence'' \<in> set VERIFIER_NODES" "''verifier.regression_risk'' \<in> set VERIFIER_NODES"
  by (simp_all add: VERIFIER_NODES_def)

lemma frames_ok_rows:
  "frames_ok ''triage'' (\<lambda>ctx st. Some (triage ctx st))"
  "frames_ok ''planner'' (\<lambda>ctx st. Some (io_pure (planner ctx b st)))"
  "frames_ok ''coder'' (\<lambda>ctx st. Some (io_pure (coder ctx ce st)))"
  "frames_ok ''push'' (\<lambda>ctx st. Some (push ctx st))"
  "frames_ok ''build_test'' (\<lambda>ctx st. map_option io_pure (build_test ctx st))"
  "frames_ok ''release'' (\<lambda>ctx st. Some (release ctx st))"
  "frames_ok ''compensate'' (\<lambda>ctx st. Some (compensate ctx st))"
  "frames_ok ''reporter'' (\<lambda>ctx st. Some (reporter ctx st))"
  subgoal by (rule frames_okI) (metis option.inject snd_conv triage_frame, metis option.inject snd_conv triage_raises)
  subgoal by (rule frames_ok_other) (simp_all add: io_pure_eq planner_frame)
  subgoal by (rule frames_ok_other) (simp_all add: io_pure_eq coder_frame)
  subgoal by (rule frames_ok_other) (metis option.inject snd_conv push_frame, simp)
  subgoal by (rule frames_ok_other) (auto simp: io_pure_def build_test_frame)
  subgoal by (rule frames_ok_other) (metis option.inject snd_conv release_frame, simp)
  subgoal by (rule frames_ok_other) (metis option.inject snd_conv compensate_frame, simp)
  subgoal by (rule frames_ok_other) (metis option.inject snd_conv reporter_frame, simp)
  done

lemma verifier_rows:
  "frames_ok ''verifier.correctness'' (\<lambda>ctx st. Some (io_pure (correctness ctx b st)))"
  "frames_ok ''verifier.security'' (\<lambda>ctx st. Some (io_pure (security ctx b st)))"
  "frames_ok ''verifier.test_evidence'' (\<lambda>ctx st. Some (io_pure (test_evidence_node ctx b st)))"
  "frames_ok ''verifier.regression_risk'' (\<lambda>ctx st. Some (io_pure (regression_risk ctx b st)))"
  subgoal by (rule frames_ok_other)
      (simp add: io_pure_eq correctness_def plain_verifier_frame[OF _ verifier_ids(1), THEN conjunct1], simp)
  subgoal by (rule frames_ok_other)
      (simp add: io_pure_eq security_def plain_verifier_frame[OF _ verifier_ids(2), THEN conjunct1], simp)
  subgoal by (rule frames_ok_other)
      (simp add: io_pure_eq test_evidence_frame[OF _ verifier_ids(3), THEN conjunct1], simp)
  subgoal by (rule frames_ok_other)
      (simp add: io_pure_eq regression_risk_def plain_verifier_frame[OF _ verifier_ids(4), THEN conjunct1], simp)
  done

lemma all_frames_ok: "list_all (\<lambda>row. frames_ok (fst row) (snd row)) (NODE_TABLE backends ce)"
  by (simp only: NODE_TABLE_def list.pred_inject fst_conv snd_conv frames_ok_rows verifier_rows simp_thms)

definition effects_ok :: "string \<Rightarrow> (node_ctx \<Rightarrow> flow_state \<Rightarrow> node_result) \<Rightarrow> bool" where
  "effects_ok i fn \<longleftrightarrow> (\<forall>ctx st es r. fn ctx st = Some (es, r) \<longrightarrow> list_all (permitted i) es)"

lemma effects_ok_io: "(\<And>ctx st. list_all (permitted i) (fst (f ctx st))) \<Longrightarrow> effects_ok i (\<lambda>ctx st. Some (f ctx st))"
  unfolding effects_ok_def by (metis fst_conv option.inject)

lemma effects_ok_pure: "effects_ok i (\<lambda>ctx st. Some (io_pure (f ctx st)))" "effects_ok i (\<lambda>ctx st. map_option io_pure (g ctx st))"
  by (auto simp: effects_ok_def io_pure_def)

lemma all_effects_ok: "list_all (\<lambda>row. effects_ok (fst row) (snd row)) (NODE_TABLE backends ce)"
  by (simp only: NODE_TABLE_def list.pred_inject fst_conv snd_conv effects_ok_pure effects_ok_io node_effects simp_thms)

text \<open>A verifier's verdict.\<close>

definition one_verdict :: "string \<Rightarrow> (node_ctx \<Rightarrow> flow_state \<Rightarrow> node_result) \<Rightarrow> bool" where
  "one_verdict i fn \<longleftrightarrow> (\<forall>ctx st es st'. i \<in> set VERIFIER_NODES \<longrightarrow> fn ctx st = Some (es, Inr st') \<longrightarrow>
     es = [] \<and> (\<exists>v. ''verifier.'' @ vf_verifier v = i \<and> fs_verifications st' = fs_verifications st @ [v]))"

lemma one_verdict_other: "i \<notin> set VERIFIER_NODES \<Longrightarrow> one_verdict i fn"
  by (simp add: one_verdict_def)

lemma one_verdict_plain:
  assumes "i = ''verifier.'' @ vid" "\<And>ctx st es st'. fn ctx st = Some (es, Inr st') \<Longrightarrow> es = [] \<and> plain_verifier vid ctx b st = Inr st'"
  shows "one_verdict i fn"
  using assms plain_verifier_frame by (fastforce simp: one_verdict_def)

lemma one_verdict_evidence: "one_verdict ''verifier.test_evidence'' (\<lambda>ctx st. Some (io_pure (test_evidence_node ctx b st)))"
  using test_evidence_frame by (fastforce simp: one_verdict_def io_pure_eq)

lemma one_verdict_verifiers:
  "one_verdict ''verifier.correctness'' (\<lambda>ctx st. Some (io_pure (correctness ctx b st)))"
  "one_verdict ''verifier.security'' (\<lambda>ctx st. Some (io_pure (security ctx b st)))"
  "one_verdict ''verifier.regression_risk'' (\<lambda>ctx st. Some (io_pure (regression_risk ctx b st)))"
  subgoal by (rule one_verdict_plain[where vid = "''correctness''" and b = b]) (simp_all add: io_pure_eq correctness_def)
  subgoal by (rule one_verdict_plain[where vid = "''security''" and b = b]) (simp_all add: io_pure_eq security_def)
  subgoal by (rule one_verdict_plain[where vid = "''regression_risk''" and b = b])
      (simp_all add: io_pure_eq regression_risk_def)
  done

lemma all_one_verdict: "list_all (\<lambda>row. one_verdict (fst row) (snd row)) (NODE_TABLE backends ce)"
  by (simp add: NODE_TABLE_def one_verdict_verifiers one_verdict_evidence)
    (simp add: one_verdict_other VERIFIER_NODES_def)

text \<open>
  C11. A node writes its own fields.  Whatever the configuration, the model and the platforms answer,
  the state a node returns differs from the one it was given only in its notes and in the fields
  that belong to that node; the identity of the run, the ticket after Triage, the change after the
  Coder and the verdicts of others pass through, and no node lowers the risk tier.
\<close>

theorem nodes_write_their_own_fields:
  assumes "run_node rt out look backends ce node_id app st = Some (es, Inr st')"
  shows "erased node_id st' = erased node_id st \<and> fs_risk_tier st \<le> fs_risk_tier st'"
  using run_node_Inr[OF assms] NODES_all[OF all_frames_ok] unfolding frames_ok_def by blast

text \<open>
  What a node may ask of the systems outside.  Only Triage and the Reporter comment on the ticket,
  only Push writes commits, only Release opens and merges pull requests, only Compensate deletes a
  branch; the Planner, the Coder, Build and Test and the verifiers write to nothing outside.
\<close>

theorem only_its_node_asks_for_an_effect:
  assumes "run_node rt out look backends ce node_id app st = Some (es, r)"
  shows "list_all (permitted node_id) es"
proof (cases "NODES backends ce node_id")
  case None
  with assms show ?thesis by (auto simp: run_node_def io_pure_def)
next
  case (Some fn)
  with NODES_all[OF all_effects_ok Some] assms show ?thesis
    by (auto simp: run_node_def effects_ok_def io_pure_def split: sum.splits)
qed

text \<open>
  A verifier speaks for itself and once: each adds exactly one verdict, under its own name, behind
  those already there, and asks for no effect.
\<close>

theorem verifier_adds_its_own_verdict:
  assumes "run_node rt out look backends ce node_id app st = Some (es, Inr st')" "node_id \<in> set VERIFIER_NODES"
  shows "es = [] \<and> (\<exists>v. ''verifier.'' @ vf_verifier v = node_id \<and> fs_verifications st' = fs_verifications st @ [v])"
  using run_node_Inr[OF assms(1)] NODES_all[OF all_one_verdict] assms(2) unfolding one_verdict_def by blast

section \<open>The flow over these nodes\<close>

text \<open>
  What one attempt of an activity meets: the platforms, the configuration, the model behind each node
  and the Coder's sandbox.  An activity that never returns is cut off by its timeout.
\<close>

record attempt_world =
  aw_outside :: outside
  aw_lookup :: lookup
  aw_backends :: "string \<Rightarrow> llm_backend"
  aw_coder :: coder_env

definition engine_exec :: "node_runtime \<Rightarrow> uuid \<Rightarrow> (string \<Rightarrow> nat \<Rightarrow> nat \<Rightarrow> attempt_world)
    \<Rightarrow> string \<Rightarrow> nat \<Rightarrow> nat \<Rightarrow> flow_state \<Rightarrow> flow_state res" where
  "engine_exec rt app world node_id seq k st =
    (let w = world node_id seq k
     in case run_node rt (aw_outside w) (aw_lookup w) (aw_backends w) (aw_coder w) node_id (Some app) st of
          Some (es, r) \<Rightarrow> r
        | None \<Rightarrow> Inl (OtherError ''TimeoutError'' ''activity StartToClose timeout''))"

lemma execute_attempt: "execute env node_id seq st = r \<Longrightarrow> \<exists>k. en_exec env node_id seq k st = r"
proof -
  have "\<exists>k. f k = fst (retry_from f n i)" for f :: "nat \<Rightarrow> 'a res" and n i
    by (induction n arbitrary: i) (auto split: sum.split)
  then show "execute env node_id seq st = r \<Longrightarrow> ?thesis"
    by (metis execute_counted_def execute_def)
qed

text \<open>
  The flow can rely on its nodes.  When the flow's activities are the nodes of this program, an
  activity that succeeds, at whatever attempt, hands back the state it was given except for the
  fields of that node, at the same or a higher risk tier.
\<close>

theorem wired_activity_keeps_the_run:
  assumes "en_exec env = engine_exec rt app world" "execute env node_id seq st = Inr st'"
  shows "erased node_id st' = erased node_id st \<and> fs_risk_tier st \<le> fs_risk_tier st'"
proof -
  obtain k es where "run_node rt (aw_outside (world node_id seq k)) (aw_lookup (world node_id seq k))
      (aw_backends (world node_id seq k)) (aw_coder (world node_id seq k)) node_id (Some app) st = Some (es, Inr st')"
    using execute_attempt[OF assms(2)] unfolding assms(1)
    by (auto simp: engine_exec_def Let_def split: option.splits prod.splits)
  then show ?thesis
    using run_node_Inr NODES_all[OF all_frames_ok] unfolding frames_ok_def by blast
qed

lemma plain_nodes:
  assumes "vid \<in> {''correctness'', ''security'', ''regression_risk''}"
  shows "NODES backends ce (verifier_node_id vid) =
    Some (\<lambda>ctx st. Some (io_pure (plain_verifier vid ctx (backends (verifier_node_id vid)) st)))"
  using assms by (auto simp: NODES_def NODE_TABLE_def verifier_node_id_def correctness_def security_def regression_risk_def)

lemma context_config: "node_context rt out app (Some ld) = Inr ctx \<Longrightarrow> nc_config ctx = ld_config ld"
  by (auto simp: node_context_def Let_def)

lemma retry_same_error:
  assumes "\<And>k. f k = Inl e" "err_type e \<notin> set NON_RETRYABLE"
  shows "retry_from f r k = (Inl e, k + r)"
  using assms by (induction r arbitrary: k) simp_all

text \<open>
  C36. A review that could not happen fails the run.  When the model refuses or cannot be reached at every
  attempt, the verifier raises where it was meant to return a blocking verdict: the activity is
  attempted three times, fails with a \<open>NameError\<close>, and the flow is left without the verdict.
\<close>

theorem refused_review_fails_the_run:
  assumes "en_exec env = engine_exec rt app world" "vid \<in> {''correctness'', ''security'', ''regression_risk''}"
    and "\<And>k. let w = world (verifier_node_id vid) seq k in
      fst (aw_lookup w (Some app) (nr_config rt)) = Inr ld \<and>
      node_context rt (aw_outside w) (Some app) (Some ld) = Inr (ctx k) \<and>
      complete (aw_backends w (verifier_node_id vid)) (Some (verifier_node_id vid, VERIFIER)) (nm_model settings)
        (review_request settings (system_prompt vid)
          (prompt st (case repository_for (ctx k) st of None \<Rightarrow> [] | Some (t, n) \<Rightarrow> t) [])) = Inl (err k)"
    and "\<And>k. is_llm_error (err k)"
    and "ac_llm (ld_config ld) = Some llm" "for_node llm (verifier_node_id vid) = Inr settings" "lc_provider llm = ANTHROPIC"
  shows "execute_counted env (verifier_node_id vid) seq st = (Inl unbound_completion, 3) \<and>
    err_type unbound_completion = ''NameError''"
proof -
  have "en_exec env (verifier_node_id vid) seq k st = Inl unbound_completion" for k
  proof -
    have c: "nc_config (ctx k) = ld_config ld" using assms(3)[of k] context_config unfolding Let_def by blast
    have "judge (ctx k) (aw_backends (world (verifier_node_id vid) seq k) (verifier_node_id vid)) vid [] st = Inl unbound_completion"
      using unreviewed_judge[of "ctx k" llm vid settings _ st "[]" "err k"] assms(3)[of k] assms(4-7) by (simp add: c Let_def)
    then have "plain_verifier vid (ctx k) (aw_backends (world (verifier_node_id vid) seq k) (verifier_node_id vid)) st = Inl unbound_completion"
      by (simp add: plain_verifier_def)
    then show ?thesis
      using assms(3)[of k] by (simp add: assms(1) engine_exec_def run_node_def plain_nodes[OF assms(2)] Let_def io_pure_def)
  qed
  moreover have "err_type unbound_completion \<notin> set NON_RETRYABLE" by (simp add: unbound_completion_def NON_RETRYABLE_def)
  ultimately show ?thesis
    by (simp add: execute_counted_def retry_same_error[where e = unbound_completion] MAX_ATTEMPTS_def)
      (simp add: unbound_completion_def)
qed

section \<open>A worker\<close>

definition sample_outside :: outside where
  "sample_outside = \<lparr> ot_platforms = (\<lambda>b c. sample_ctx), ot_podman = (\<lambda>full. the (nc_sandbox sample_ctx)) \<rparr>"

definition sample_runtime :: node_runtime where
  "sample_runtime = \<lparr> nr_config = None, nr_injected_broker = False, nr_sandbox = None \<rparr>"

definition sample_governing :: loaded where
  "sample_governing = \<lparr> ld_config = sample_config\<lparr> ac_llm := Some sample_llm \<rparr>, ld_medium_changed_files = YNull,
     ld_high_changed_files = YNull, ld_max_story_points = [] \<rparr>"

definition sample_attempt :: attempt_world where
  "sample_attempt = \<lparr> aw_outside = sample_outside, aw_lookup = (\<lambda>a f. (Inr sample_governing, [])),
     aw_backends = (\<lambda>i. refusing_backend), aw_coder = sample_coder_env \<rparr>"

definition wired_env :: flow_env where
  "wired_env = sample_env\<lparr> en_exec := engine_exec sample_runtime ''app-1'' (\<lambda>i seq k. sample_attempt) \<rparr>"

lemma wired_exec: "en_exec wired_env = engine_exec sample_runtime ''app-1'' (\<lambda>i seq k. sample_attempt)"
  by (simp add: wired_env_def)

definition sample_node_ctx :: node_ctx where
  "sample_node_ctx = sample_ctx\<lparr> nc_config := sample_config\<lparr> ac_llm := Some sample_llm \<rparr>,
     nc_sandbox := Some (the (nc_sandbox sample_ctx)) \<rparr>"

lemma sample_context: "node_context sample_runtime sample_outside (Some a) (Some sample_governing) = Inr sample_node_ctx"
  by (simp add: node_context_def sample_runtime_def sample_outside_def sample_governing_def sample_node_ctx_def)

lemma sample_run_node:
  "NODES (\<lambda>i. refusing_backend) sample_coder_env i = Some fn \<Longrightarrow>
   run_node sample_runtime sample_outside (\<lambda>a f. (Inr sample_governing, [])) (\<lambda>i. refusing_backend) sample_coder_env i
     (Some ''app-1'') st = fn sample_node_ctx st"
  by (simp add: run_node_def sample_context)

lemma sample_reporter: "\<exists>es st'. reporter sample_node_ctx sample_state = (es, Inr st')"
  by (simp add: reporter_def sample_node_ctx_def sample_ctx_def sample_config_def sample_trigger_def Let_def io_simps
      report_trigger_def ticket_adapter_def io_pure_def io_call_def io_bind_def)

lemma sample_reports: "\<exists>es st'. run_node sample_runtime sample_outside (\<lambda>a f. (Inr sample_governing, []))
    (\<lambda>i. refusing_backend) sample_coder_env ''reporter'' (Some ''app-1'') sample_state = Some (es, Inr st')"
  using sample_reporter sample_run_node[of "''reporter''" "\<lambda>ctx st. Some (reporter ctx st)" sample_state]
  by (simp add: NODES_def NODE_TABLE_def)

lemma nodes_write_their_own_fields_witness:
  "\<exists>es st'. run_node sample_runtime sample_outside (\<lambda>a f. (Inr sample_governing, [])) (\<lambda>i. refusing_backend) sample_coder_env
     ''reporter'' (Some ''app-1'') sample_state = Some (es, Inr st') \<and> fs_run_id st' = fs_run_id sample_state"
proof -
  obtain es st' where r: "run_node sample_runtime sample_outside (\<lambda>a f. (Inr sample_governing, []))
    (\<lambda>i. refusing_backend) sample_coder_env ''reporter'' (Some ''app-1'') sample_state = Some (es, Inr st')"
    using sample_reports by blast
  have "fs_run_id (erased ''reporter'' s) = fs_run_id s" for s by (simp add: erased_of)
  with nodes_write_their_own_fields[OF r] r show ?thesis by metis
qed

lemma only_its_node_asks_for_an_effect_witness:
  "\<exists>es r. run_node sample_runtime sample_outside (\<lambda>a f. (Inr sample_governing, [])) (\<lambda>i. refusing_backend) sample_coder_env
     ''reporter'' (Some ''app-1'') sample_state = Some (es, r) \<and> list_all (permitted ''reporter'') es"
  using sample_reports only_its_node_asks_for_an_effect by blast

lemma wired_activity_keeps_the_run_witness:
  "\<exists>st'. execute wired_env ''reporter'' 1 sample_state = Inr st' \<and> fs_run_id st' = fs_run_id sample_state"
proof -
  obtain es st' where r: "run_node sample_runtime sample_outside (\<lambda>a f. (Inr sample_governing, []))
    (\<lambda>i. refusing_backend) sample_coder_env ''reporter'' (Some ''app-1'') sample_state = Some (es, Inr st')"
    using sample_reports by blast
  then have e: "execute wired_env ''reporter'' 1 sample_state = Inr st'"
    by (simp add: execute_def execute_counted_def wired_exec engine_exec_def sample_attempt_def MAX_ATTEMPTS_def numeral_2_eq_2)
  have "fs_run_id (erased ''reporter'' s) = fs_run_id s" for s by (simp add: erased_of)
  with wired_activity_keeps_the_run[OF wired_exec e] e show ?thesis by metis
qed

lemma sample_governing_llm: "ac_llm (ld_config sample_governing) = Some sample_llm"
  by (simp add: sample_governing_def)

lemma sample_llm_provider: "lc_provider sample_llm = ANTHROPIC"
  by (simp add: sample_llm_def)

lemma refused_review_fails_the_run_witness:
  "execute_counted wired_env (verifier_node_id ''security'') 1 sample_state = (Inl unbound_completion, 3)"
proof -
  obtain m where m: "\<And>q. complete refusing_backend (Some (verifier_node_id ''security'', VERIFIER)) (nm_model sample_model) q = Inl (LLMError (m q))"
    using refusing_complete by metis
  have f: "for_node sample_llm (verifier_node_id ''security'') = Inr sample_model" by (rule sample_for_node)
  show ?thesis
    using refused_review_fails_the_run[OF wired_exec, where vid = "''security''" and seq = 1 and ld = sample_governing
        and ctx = "\<lambda>k. sample_node_ctx" and settings = sample_model and st = sample_state and llm = sample_llm
        and err = "\<lambda>k. LLMError (m (review_request sample_model (system_prompt ''security'')
          (prompt sample_state (case repository_for sample_node_ctx sample_state of None \<Rightarrow> [] | Some (t, n) \<Rightarrow> t) [])))"]
    by (simp add: sample_attempt_def sample_context m f is_llm_error_def sample_governing_llm sample_llm_provider)
qed

end
