(* ===== verification/Json_Access.thy ===== *)
theory Json_Access
  imports Json_Values Config
begin

text \<open>
  How the code reads a payload it did not write: dictionary lookups that fail on anything else,
  \<open>int(...)\<close> of a value, and iteration with the errors Python raises.
\<close>

text \<open>\<open>value.get(key, fallback)\<close>, which only a dictionary has.\<close>

definition obj_get :: "json \<Rightarrow> string \<Rightarrow> json \<Rightarrow> json res" where
  "obj_get v key fallback =
    (case v of
       JObj kvs \<Rightarrow> Inr (case map_of kvs key of Some x \<Rightarrow> x | None \<Rightarrow> fallback)
     | _ \<Rightarrow> Inl (OtherError ''AttributeError'' (''object has no attribute '' @ repr_str ''get'')))"

definition json_int :: "json \<Rightarrow> int res" where
  "json_int v = (case v of
     JInt i \<Rightarrow> Inr i
   | JBool b \<Rightarrow> Inr (if b then 1 else 0)
   | JStr s \<Rightarrow> (case int_of_str s of Some i \<Rightarrow> Inr i
       | None \<Rightarrow> Inl (OtherError ''ValueError'' (''invalid literal for int() with base 10: '' @ repr_str s)))
   | _ \<Rightarrow> Inl (OtherError ''TypeError'' ''int() argument must be a string, a bytes-like object or a real number''))"

text \<open>\<open>isinstance(value, dict)\<close>, \<open>key in value\<close> for a dictionary, and \<open>value[key]\<close>.\<close>

fun is_obj :: "json \<Rightarrow> bool" where
  "is_obj (JObj kvs) = True"
| "is_obj v = False"

definition has_key :: "json \<Rightarrow> string \<Rightarrow> bool" where
  "has_key v key = (case v of JObj kvs \<Rightarrow> map_of kvs key \<noteq> None | _ \<Rightarrow> False)"

definition obj_item :: "json \<Rightarrow> string \<Rightarrow> json res" where
  "obj_item v key =
    (case v of
       JObj kvs \<Rightarrow> (case map_of kvs key of Some x \<Rightarrow> Inr x | None \<Rightarrow> Inl (OtherError ''KeyError'' (repr_str key)))
     | _ \<Rightarrow> Inl (OtherError ''TypeError'' ''object is not subscriptable''))"

text \<open>A comprehension whose parts may raise: the first exception ends it.\<close>

fun res_map :: "('a \<Rightarrow> 'b res) \<Rightarrow> 'a list \<Rightarrow> 'b list res" where
  "res_map f [] = Inr []"
| "res_map f (x # xs) = and_then (f x) (\<lambda>y. and_then (res_map f xs) (\<lambda>ys. Inr (y # ys)))"

fun res_filter :: "('a \<Rightarrow> bool res) \<Rightarrow> 'a list \<Rightarrow> 'a list res" where
  "res_filter f [] = Inr []"
| "res_filter f (x # xs) = and_then (f x) (\<lambda>b. and_then (res_filter f xs) (\<lambda>ys. Inr (if b then x # ys else ys)))"

section \<open>Facts\<close>

lemma res_map_Inr: "res_map f xs = Inr ys \<longleftrightarrow> list_all2 (\<lambda>x y. f x = Inr y) xs ys"
proof (induction xs arbitrary: ys)
  case (Cons x xs)
  then show ?case by (cases ys) (auto simp: res_simps)
qed auto

lemma res_filter_set: "res_filter f xs = Inr ys \<Longrightarrow> set ys = {x \<in> set xs. f x = Inr True}"
  by (induction xs arbitrary: ys) (auto simp: res_simps split: if_splits)

lemma json_get_or: "json_get (json_or x (JObj [])) k = json_get x k"
  by (cases x) (auto simp: json_or_def json_get_def)

lemma obj_get_null: "obj_get v k JNull = Inr x \<Longrightarrow> x = json_get v k"
  by (auto simp: obj_get_def json_get_def split: json.splits)

lemma obj_get_obj [simp]: "obj_get (JObj kvs) k d = Inr (case map_of kvs k of Some x \<Rightarrow> x | None \<Rightarrow> d)"
  by (simp add: obj_get_def)

end
