(* ===== verification/Trigger_Hook.thy ===== *)
theory Trigger_Hook
  imports Config_Store Json_Access
begin

text \<open>
  How runs begin (engine/api/main.py): the manual endpoint, the Azure DevOps service hook with its
  record of deliveries and its guard against replayed revisions, and the launch of a workflow.
  \<open>hook_world\<close> holds the rows of \<open>flow_runs\<close> and \<open>trigger_deliveries\<close> and every workflow Temporal was
  ever asked to start.  The foreign key of engine/db/migrations/010 is part of the model: a row of
  \<open>flow_runs\<close> is written by the worker, later or never.
\<close>

section \<open>State\<close>

record delivery =
  dl_app_id :: uuid
  dl_work_item :: string
  dl_revision :: int
  dl_started :: bool
  dl_reason :: "string option"
  dl_run_id :: "uuid option"

record hook_world =
  hw_runs :: "run_started list"
  hw_deliveries :: "delivery list"
  hw_workflows :: "(string \<times> flow_input) list"

text \<open>What the worker writes when it takes up a workflow.\<close>

definition run_row_of :: "string \<Rightarrow> flow_input \<Rightarrow> run_started" where
  "run_row_of wid p = \<lparr> rs_run_id = fi_run_id p,
     rs_root_run_id = (case fi_root_run_id p of Some r \<Rightarrow> r | None \<Rightarrow> fi_run_id p),
     rs_parent_run_id = fi_parent_run_id p, rs_app_id = fi_app_id p, rs_workflow_id = wid,
     rs_ticket_system = tk_system (fi_ticket p), rs_ticket_id = tk_id (fi_ticket p),
     rs_risk_tier = fi_provisional_risk_tier p, rs_schema_version = SCHEMA_VERSION,
     rs_policy_commit = fi_policy_commit p, rs_policy_bundle = fi_policy_bundle p \<rparr>"

definition write_run_row :: "string \<Rightarrow> flow_input \<Rightarrow> hook_world \<Rightarrow> hook_world" where
  "write_run_row wid p w =
    (if fi_run_id p \<in> rs_run_id ` set (hw_runs w) then w
     else w\<lparr> hw_runs := hw_runs w @ [run_row_of wid p] \<rparr>)"

section \<open>Workflow ids\<close>

definition hook_workflow_id :: "uuid \<Rightarrow> string \<Rightarrow> int \<Rightarrow> string" where
  "hook_workflow_id app_id work_item revision =
     ''kuwarden-ado-'' @ app_id @ ''-'' @ work_item @ ''-r'' @ string_of_int revision"

definition is_digit :: "char \<Rightarrow> bool" where
  "is_digit c \<longleftrightarrow> 48 \<le> (of_char c :: nat) \<and> (of_char c :: nat) \<le> 57"

text \<open>
  \<open>re.fullmatch(r"kuwarden-ado-.+-r(\d+)", workflow_id)\<close>: the digits at the end, before them \<open>-r\<close>, and
  between the prefix and that at least one character and no line feed.
\<close>

definition revision_of :: "string \<Rightarrow> nat option" where
  "revision_of workflow_id =
    (let digits = rev (takeWhile is_digit (rev workflow_id));
         front = rev (dropWhile is_digit (rev workflow_id));
         prefix = ''kuwarden-ado-'';
         between = take (length front - 2 - length prefix) (drop (length prefix) front)
     in if digits \<noteq> [] \<and> starts_with prefix front \<and> length prefix + 2 < length front \<and>
           drop (length front - 2) front = ''-r'' \<and> list_all (\<lambda>c. nl \<noteq> [c]) between
        then Some (digits_value digits) else None)"

section \<open>Reading a payload\<close>

definition tags_of :: "json \<Rightarrow> string list res" where
  "tags_of revision =
     and_then (obj_get revision ''fields'' (JObj [])) (\<lambda>fs.
     and_then (obj_get fs ''System.Tags'' JNull) (\<lambda>t.
       Inr (map (\<lambda>tag. casefold (py_strip tag))
         (filter (\<lambda>tag. py_strip tag \<noteq> []) (split_on (CHR '';'') (json_str (json_or t (JStr []))))))))"

section \<open>Recording and launching\<close>

definition fits_int4 :: "int \<Rightarrow> bool" where
  "fits_int4 i \<longleftrightarrow> - (2 ^ 31) \<le> i \<and> i < 2 ^ 31"

text \<open>The \<open>INSERT\<close>; \<open>None\<close> is a statement the database refused.\<close>

definition insert_delivery :: "registry \<Rightarrow> delivery \<Rightarrow> hook_world \<Rightarrow> hook_world option" where
  "insert_delivery rg d w =
    (if map_of (rg_apps rg) (dl_app_id d) = None \<or> \<not> fits_int4 (dl_revision d) \<or>
        (case dl_run_id d of None \<Rightarrow> False | Some r \<Rightarrow> r \<notin> rs_run_id ` set (hw_runs w))
     then None else Some (w\<lparr> hw_deliveries := hw_deliveries w @ [d] \<rparr>))"

record hook_answer =
  ha_started :: bool
  ha_reason :: "string option"
  ha_run_id :: "uuid option"
  ha_workflow_id :: "string option"

definition delivered :: "registry \<Rightarrow> uuid \<Rightarrow> string \<Rightarrow> int \<Rightarrow> hook_answer \<Rightarrow> hook_world \<Rightarrow> hook_answer reply \<times> hook_world" where
  "delivered rg app_id work_item revision a w =
    (Reply a, case insert_delivery rg \<lparr> dl_app_id = app_id, dl_work_item = work_item, dl_revision = revision,
        dl_started = ha_started a, dl_reason = ha_reason a, dl_run_id = ha_run_id a \<rparr> w of
       Some w' \<Rightarrow> w' | None \<Rightarrow> w)"

definition refused :: "string \<Rightarrow> hook_answer" where
  "refused m = \<lparr> ha_started = False, ha_reason = Some m, ha_run_id = None, ha_workflow_id = None \<rparr>"

definition seen_revisions :: "uuid \<Rightarrow> string \<Rightarrow> hook_world \<Rightarrow> int list" where
  "seen_revisions app_id work_item w =
     map int (List.map_filter (\<lambda>r. revision_of (rs_workflow_id r))
       (filter (\<lambda>r. rs_app_id r = app_id \<and> rs_ticket_id r = work_item) (hw_runs w)))
     @ (case map dl_revision (filter (\<lambda>d. dl_app_id d = app_id \<and> dl_work_item d = work_item \<and> dl_started d)
              (hw_deliveries w)) of
          [] \<Rightarrow> [] | x # xs \<Rightarrow> [Max (set (x # xs))])"

definition superseded_by :: "uuid \<Rightarrow> string \<Rightarrow> int \<Rightarrow> hook_world \<Rightarrow> int option" where
  "superseded_by app_id work_item revision w =
    (case seen_revisions app_id work_item w of
       [] \<Rightarrow> None
     | x # xs \<Rightarrow> let highest = Max (set (x # xs)) in if revision \<le> highest then Some highest else None)"

definition POLICY_COMMIT :: string where
  "POLICY_COMMIT = ''unpinned:no-policy-loader''"

text \<open>
  \<open>resolved\<close> is what the API's own lookup of the configuration gave.  A fresh id is never refused; an id
  the hook derives is refused for good once it was used.
\<close>

definition flow_input_for :: "uuid \<Rightarrow> uuid \<Rightarrow> string \<Rightarrow> string \<Rightarrow> string \<Rightarrow> risk_rules \<times> string list \<Rightarrow> flow_input" where
  "flow_input_for run_id app_id ticket_id provider app_name g =
     \<lparr> fi_run_id = run_id, fi_app_id = app_id,
       fi_ticket = \<lparr> tk_id = ticket_id, tk_system = provider, tk_title = [], tk_body = [], tk_state = None,
         tk_acceptance_criteria = [], tk_labels = [], tk_story_points = None \<rparr>,
       fi_policy_commit = POLICY_COMMIT, fi_policy_bundle = JObj [(''source'', JStr ''not-loaded'')],
       fi_app_name = app_name, fi_provisional_risk_tier = Low, fi_risk_rules = fst g,
       fi_blocking_verifiers = snd g, fi_budget_cents_allowed = 0, fi_max_coder_retries = 3,
       fi_parent_run_id = None, fi_root_run_id = None \<rparr>"

datatype launched = Launched flow_input | AlreadyStarted | LaunchFailed error

definition launch :: "loaded res \<Rightarrow> uuid \<Rightarrow> uuid \<Rightarrow> string \<Rightarrow> string \<Rightarrow> string \<Rightarrow> string \<Rightarrow> bool \<Rightarrow> hook_world
    \<Rightarrow> launched \<times> hook_world" where
  "launch resolved run_id app_id ticket_id provider workflow_id app_name reject_duplicate w =
    (case governing resolved of
       Inl e \<Rightarrow> (LaunchFailed e, w)
     | Inr g \<Rightarrow>
         let p = flow_input_for run_id app_id ticket_id provider app_name g
         in if reject_duplicate \<and> workflow_id \<in> fst ` set (hw_workflows w) then (AlreadyStarted, w)
            else (Launched p, w\<lparr> hw_workflows := hw_workflows w @ [(workflow_id, p)] \<rparr>))"

section \<open>The endpoints\<close>

text \<open>What a request meets besides the tables: ids drawn, Temporal, and the configuration.\<close>

record launch_env =
  le_run_id :: uuid
  le_manual_id :: uuid
  le_unreachable :: "string option"
  le_resolved :: "loaded res"

definition manual_launch :: "launch_env \<Rightarrow> uuid \<Rightarrow> string \<Rightarrow> string \<Rightarrow> string \<Rightarrow> string \<Rightarrow> hook_world
    \<Rightarrow> (uuid \<times> string \<times> string) reply \<times> hook_world" where
  "manual_launch le app_id ticket_id provider app_name email w =
    (case le_unreachable le of
       Some m \<Rightarrow> (HttpStatus 503 (''the Flow Engine is unreachable: '' @ m), w)
     | None \<Rightarrow>
         let wid = ''kuwarden-'' @ le_manual_id le
         in (case launch (le_resolved le) (le_run_id le) app_id ticket_id provider wid app_name False w of
               (Launched p, w1) \<Rightarrow> (Reply (fi_run_id p, wid, email), w1)
             | (AlreadyStarted, w1) \<Rightarrow>
                 (Unhandled (OtherError ''WorkflowAlreadyStartedError'' ''Workflow execution already started''), w1)
             | (LaunchFailed e, w1) \<Rightarrow> (Unhandled e, w1)))"

definition start_run :: "registry \<Rightarrow> launch_env \<Rightarrow> uuid \<Rightarrow> string \<Rightarrow> string option \<Rightarrow> string \<Rightarrow> hook_world
    \<Rightarrow> (uuid \<times> string \<times> string) reply \<times> hook_world" where
  "start_run rg le app_id ticket_id provider email w =
    (case map_of (rg_apps rg) app_id of
       None \<Rightarrow> (HttpStatus 404 ''no such application'', w)
     | Some r \<Rightarrow>
         let triggers = filter (\<lambda>t. tr_app_id t = app_id) (rg_triggers rg)
         in if triggers = [] then
              (HttpStatus 409 (ar_name r @ '' has no ticketing configured, so there is no rule that admits ''
                 @ ''this ticket. Add a trigger first.''), w)
            else case find (\<lambda>t. provider \<in> {None, Some (tc_provider (tr_config t))}) triggers of
                None \<Rightarrow> (HttpStatus 422 (''no '' @ (case provider of Some p \<Rightarrow> p | None \<Rightarrow> ''None'')
                  @ '' trigger is configured''), w)
              | Some chosen \<Rightarrow>
                  manual_launch le app_id ticket_id (tc_provider (tr_config chosen)) (ar_name r) email w)"

text \<open>
  The part of the hook after the work item is known.  \<open>raced\<close> says that the worker took the workflow
  up and wrote its row before the delivery was recorded.
\<close>

definition admit_delivery :: "registry \<Rightarrow> launch_env \<Rightarrow> bool \<Rightarrow> uuid \<Rightarrow> string \<Rightarrow> string \<Rightarrow> int \<Rightarrow> hook_world
    \<Rightarrow> hook_answer reply \<times> hook_world" where
  "admit_delivery rg le raced app_id app_name item revision w =
    (case superseded_by app_id item revision w of
       Some r \<Rightarrow> delivered rg app_id item revision (refused (''revision '' @ string_of_int revision
         @ '' is not newer than r'' @ string_of_int r @ '', already run'')) w
     | None \<Rightarrow>
         (case le_unreachable le of
            Some m \<Rightarrow> (HttpStatus 503 (''the Flow Engine is unreachable: '' @ m), w)
          | None \<Rightarrow>
              let wid = hook_workflow_id app_id item revision
              in (case launch (le_resolved le) (le_run_id le) app_id item ''azure_devops'' wid app_name True w of
                    (LaunchFailed e, w1) \<Rightarrow> (Unhandled e, w1)
                  | (AlreadyStarted, w1) \<Rightarrow> delivered rg app_id item revision (refused ''already started for this revision'') w1
                  | (Launched p, w1) \<Rightarrow>
                      delivered rg app_id item revision \<lparr> ha_started = True, ha_reason = None,
                          ha_run_id = Some (fi_run_id p), ha_workflow_id = Some wid \<rparr>
                        (if raced then write_run_row wid p w1 else w1))))"

text \<open>The checks between the payload and that: which item, which transition, which tag.\<close>

datatype hook_reading =
    Ignore string string int
  | Turned nat string
  | Broken error
  | Admit string int

definition res_reading :: "'a res \<Rightarrow> ('a \<Rightarrow> hook_reading) \<Rightarrow> hook_reading" where
  "res_reading r k = (case r of Inl e \<Rightarrow> Broken e | Inr x \<Rightarrow> k x)"

definition read_payload :: "trigger_config \<Rightarrow> (string \<times> json) list \<Rightarrow> hook_reading" where
  "read_payload t payload =
    (let resource = json_or (json_get (JObj payload) ''resource'') (JObj [])
     in res_reading (obj_get resource ''revision'' JNull) (\<lambda>rb0.
        let block = json_or rb0 (JObj [])
        in res_reading (obj_get resource ''workItemId'' JNull) (\<lambda>wi.
           res_reading (if json_truthy wi then Inr wi else obj_get block ''id'' JNull) (\<lambda>work_item.
           if \<not> json_truthy work_item then Turned 422 ''payload carried neither workItemId nor revision.id''
           else
             res_reading (obj_get resource ''rev'' JNull) (\<lambda>r1.
             res_reading (if json_truthy r1 then Inr r1 else obj_get block ''rev'' JNull) (\<lambda>r2.
             res_reading (json_int (json_or r2 (JInt 0))) (\<lambda>revision.
             res_reading (obj_get resource ''fields'' JNull) (\<lambda>ch0.
             res_reading (obj_get (json_or ch0 (JObj [])) ''System.State'' JNull) (\<lambda>sc0.
             res_reading (obj_get (json_or sc0 (JObj [])) ''newValue'' JNull) (\<lambda>nv.
               let item = json_str work_item; new_state = json_str (json_or nv (JStr [])); label = or_else (tc_label t) []
               in if new_state = [] then Ignore ''not a state change'' item revision
                  else if casefold new_state \<noteq> casefold (the (tc_ready_state t)) then
                    Ignore (''moved to '' @ repr_str new_state @ '', which does not admit'') item revision
                  else if label = [] then Admit item revision
                  else res_reading (tags_of block) (\<lambda>tags.
                    if casefold label \<notin> set tags then
                      Ignore (''does not carry the '' @ repr_str label @ '' tag'') item revision
                    else Admit item revision)))))))))))"

definition azure_devops_hook :: "registry \<Rightarrow> launch_env \<Rightarrow> bool \<Rightarrow> string \<Rightarrow> string \<Rightarrow> uuid \<Rightarrow> (string \<times> json) list
    \<Rightarrow> hook_world \<Rightarrow> hook_answer reply \<times> hook_world" where
  "azure_devops_hook rg le raced secret presented app_id payload w =
    (if secret = [] then
       (HttpStatus 503 (''KUWARDEN_WEBHOOK_SECRET is not set, so this endpoint cannot tell Azure DevOps ''
         @ ''from anyone else who found the URL. Set it and restart the API.''), w)
     else if presented \<noteq> secret then (HttpStatus 401 ''bad or missing X-KuWarden-Token'', w)
     else
       let kind = json_get (JObj payload) ''eventType''
       in if json_str (json_or kind (JStr [])) \<noteq> ''workitem.updated'' then
            delivered rg app_id [] 0 (refused (''ignoring '' @ json_repr kind)) w
          else case (map_of (rg_apps rg) app_id,
                     find (\<lambda>t. tr_app_id t = app_id \<and> tc_provider (tr_config t) = ''azure_devops'') (rg_triggers rg)) of
            (Some r, Some t) \<Rightarrow>
              if \<not> truthy (tc_ready_state (tr_config t)) then
                (HttpStatus 409 (''this trigger has no ready_state, so there is no transition to fire on. Set one ''
                  @ ''in the Workbench before pointing a service hook here.''), w)
              else (case read_payload (tr_config t) payload of
                  Broken e \<Rightarrow> (Unhandled e, w)
                | Turned status m \<Rightarrow> (HttpStatus status m, w)
                | Ignore m item revision \<Rightarrow> delivered rg app_id item revision (refused m) w
                | Admit item revision \<Rightarrow> admit_delivery rg le raced app_id (ar_name r) item revision w)
          | _ \<Rightarrow> (HttpStatus 404 ''no azure_devops trigger is configured for this application'', w))"

section \<open>Runs over time\<close>

text \<open>
  A person starts a run under a fresh id (a hexadecimal UUID, so never \<open>ado-\<close>...), a delivery comes in,
  or the worker takes up a workflow.  The registry may have changed between any two steps.
\<close>

inductive hook_step :: "hook_world \<Rightarrow> hook_world \<Rightarrow> bool" where
  pressed: "\<not> starts_with ''ado-'' (le_manual_id le) \<Longrightarrow>
    hook_step w (snd (start_run rg le app_id ticket_id provider email w))"
| called: "hook_step w (snd (azure_devops_hook rg le raced secret presented app_id payload w))"
| taken_up: "(wid, p) \<in> set (hw_workflows w) \<Longrightarrow> hook_step w (write_run_row wid p w)"

inductive hook_steps :: "hook_world \<Rightarrow> hook_world \<Rightarrow> bool" where
  no_step: "hook_steps w w"
| one_more: "hook_steps w w1 \<Longrightarrow> hook_step w1 w2 \<Longrightarrow> hook_steps w w2"

definition empty_hook_world :: hook_world where
  "empty_hook_world = \<lparr> hw_runs = [], hw_deliveries = [], hw_workflows = [] \<rparr>"

section \<open>Reading the revision back\<close>

lemma digits_string_of_nat: "list_all is_digit (string_of_nat n)"
proof (induction n rule: string_of_nat.induct)
  case (1 n)
  have d: "is_digit (digit_char d)" if "d < 10" for d using that by (simp add: is_digit_def)
  from 1 show ?case
    by (subst string_of_nat.simps) (simp add: d del: digit_char.simps)
qed

lemma trailing_digits:
  assumes "list_all is_digit ds"
  shows "rev (takeWhile is_digit (rev (a @ ''-r'' @ ds))) = ds"
    "rev (dropWhile is_digit (rev (a @ ''-r'' @ ds))) = a @ ''-r''"
proof -
  have a: "\<forall>c \<in> set (rev ds). is_digit c" using assms by (simp add: list_all_iff)
  have n: "\<not> is_digit (CHR ''r'')" by (simp add: is_digit_def)
  show "rev (takeWhile is_digit (rev (a @ ''-r'' @ ds))) = ds"
    using a n takeWhile_append2[of "rev ds" is_digit "CHR ''r'' # CHR ''-'' # rev a"] by simp
  show "rev (dropWhile is_digit (rev (a @ ''-r'' @ ds))) = a @ ''-r''"
    using a n dropWhile_append2[of "rev ds" is_digit "CHR ''r'' # CHR ''-'' # rev a"] by simp
qed

lemma revision_of_hook_id:
  assumes "list_all (\<lambda>c. nl \<noteq> [c]) app_id" "list_all (\<lambda>c. nl \<noteq> [c]) item"
  shows "revision_of (hook_workflow_id app_id item (int n)) = Some n"
proof -
  let ?f = "''kuwarden-ado-'' @ app_id @ ''-'' @ item"
  have w: "hook_workflow_id app_id item (int n) = ?f @ ''-r'' @ string_of_nat n"
    by (simp add: hook_workflow_id_def string_of_int_def)
  have nl: "nl \<noteq> ''-''" by (simp add: nl_def)
  have b: "take (length (?f @ ''-r'') - 2 - length ''kuwarden-ado-'') (drop (length ''kuwarden-ado-'') (?f @ ''-r''))
      = app_id @ ''-'' @ item"
    by simp
  have p: "starts_with ''kuwarden-ado-'' (?f @ ''-r'')" "length ''kuwarden-ado-'' + 2 < length (?f @ ''-r'')"
    "drop (length (?f @ ''-r'') - 2) (?f @ ''-r'') = ''-r''"
    by simp_all
  show ?thesis
    using assms nl
    by (simp only: w revision_of_def trailing_digits[OF digits_string_of_nat] Let_def b p digits_value_string_of_nat
        list_all_append list.pred_inject) simp
qed

section \<open>What the operations leave alone\<close>

lemma delivered_world [simp]:
  "hw_runs (snd (delivered rg app_id item revision a w)) = hw_runs w"
  "hw_workflows (snd (delivered rg app_id item revision a w)) = hw_workflows w"
  by (simp_all add: delivered_def insert_delivery_def)

lemma fst_delivered [simp]: "fst (delivered rg app_id item revision a w) = Reply a"
  by (simp add: delivered_def)

lemma refused_started [simp]: "\<not> ha_started (refused m)"
  by (simp add: refused_def)

lemma write_run_row_workflows [simp]: "hw_workflows (write_run_row wid p w) = hw_workflows w"
  by (simp add: write_run_row_def)

lemma write_run_row_keeps: "set (hw_runs w) \<subseteq> set (hw_runs (write_run_row wid p w))"
  by (auto simp: write_run_row_def)

lemma launch_cases:
  assumes "launch resolved run_id app_id ticket_id provider wid app_name reject w = (r, w1)"
  obtains (started) p where "r = Launched p" "w1 = w\<lparr> hw_workflows := hw_workflows w @ [(wid, p)] \<rparr>"
      "fi_run_id p = run_id" "fi_app_id p = app_id" "tk_id (fi_ticket p) = ticket_id"
      "tk_system (fi_ticket p) = provider" "reject \<Longrightarrow> wid \<notin> fst ` set (hw_workflows w)"
    | (refused_id) "r = AlreadyStarted" "w1 = w" "wid \<in> fst ` set (hw_workflows w)"
    | (failed) e where "r = LaunchFailed e" "w1 = w"
  using assms by (auto simp: launch_def flow_input_for_def Let_def split: sum.splits if_splits)

text \<open>A delivery either leaves runs and workflows alone, or adds one workflow under an unused id.\<close>

lemma admit_delivery_cases:
  obtains (idle) "hw_runs (snd (admit_delivery rg le raced app_id app_name item revision w)) = hw_runs w"
      "hw_workflows (snd (admit_delivery rg le raced app_id app_name item revision w)) = hw_workflows w"
      "\<And>a. fst (admit_delivery rg le raced app_id app_name item revision w) = Reply a \<Longrightarrow> \<not> ha_started a"
    | (started) p where "superseded_by app_id item revision w = None"
      "hook_workflow_id app_id item revision \<notin> fst ` set (hw_workflows w)"
      "fi_run_id p = le_run_id le" "fi_app_id p = app_id" "tk_id (fi_ticket p) = item"
      "tk_system (fi_ticket p) = ''azure_devops''"
      "fst (admit_delivery rg le raced app_id app_name item revision w)
        = Reply \<lparr> ha_started = True, ha_reason = None, ha_run_id = Some (fi_run_id p),
            ha_workflow_id = Some (hook_workflow_id app_id item revision) \<rparr>"
      "hw_workflows (snd (admit_delivery rg le raced app_id app_name item revision w))
        = hw_workflows w @ [(hook_workflow_id app_id item revision, p)]"
      "set (hw_runs w) \<subseteq> set (hw_runs (snd (admit_delivery rg le raced app_id app_name item revision w)))"
proof (cases "superseded_by app_id item revision w \<noteq> None \<or> le_unreachable le \<noteq> None")
  case True
  then show ?thesis by (intro idle) (auto simp: admit_delivery_def split: option.splits)
next
  case False
  obtain r w1 where l: "launch (le_resolved le) (le_run_id le) app_id item ''azure_devops''
      (hook_workflow_id app_id item revision) app_name True w = (r, w1)" by fastforce
  from l show ?thesis
  proof (cases rule: launch_cases)
    case (started p)
    then show ?thesis using False l write_run_row_keeps[of w1 "hook_workflow_id app_id item revision" p]
      by (intro that(2)[of p]) (simp_all add: admit_delivery_def Let_def)
  next
    case refused_id
    then show ?thesis using False l by (intro idle) (auto simp: admit_delivery_def Let_def)
  next
    case failed
    then show ?thesis using False l by (intro idle) (auto simp: admit_delivery_def Let_def)
  qed
qed

text \<open>The hook is either idle or it admits a delivery, and then every check before that passed.\<close>

lemma azure_devops_hook_cases:
  obtains (idle) "hw_runs (snd (azure_devops_hook rg le raced secret presented app_id payload w)) = hw_runs w"
      "hw_workflows (snd (azure_devops_hook rg le raced secret presented app_id payload w)) = hw_workflows w"
      "\<And>a. fst (azure_devops_hook rg le raced secret presented app_id payload w) = Reply a \<Longrightarrow> \<not> ha_started a"
    | (admitted) r t item revision where
      "secret \<noteq> []" "presented = secret"
      "json_str (json_or (json_get (JObj payload) ''eventType'') (JStr [])) = ''workitem.updated''"
      "map_of (rg_apps rg) app_id = Some r"
      "find (\<lambda>t. tr_app_id t = app_id \<and> tc_provider (tr_config t) = ''azure_devops'') (rg_triggers rg) = Some t"
      "truthy (tc_ready_state (tr_config t))"
      "read_payload (tr_config t) payload = Admit item revision"
      "azure_devops_hook rg le raced secret presented app_id payload w
        = admit_delivery rg le raced app_id (ar_name r) item revision w"
proof (cases "\<exists>r t item revision. secret \<noteq> [] \<and> presented = secret \<and>
    json_str (json_or (json_get (JObj payload) ''eventType'') (JStr [])) = ''workitem.updated'' \<and>
    map_of (rg_apps rg) app_id = Some r \<and>
    find (\<lambda>t. tr_app_id t = app_id \<and> tc_provider (tr_config t) = ''azure_devops'') (rg_triggers rg) = Some t \<and>
    truthy (tc_ready_state (tr_config t)) \<and> read_payload (tr_config t) payload = Admit item revision")
  case True
  then show ?thesis by (elim exE conjE, intro that(2)) (auto simp: azure_devops_hook_def Let_def)
next
  case False
  then show ?thesis
    by (intro idle)
      (auto simp: azure_devops_hook_def Let_def split: option.splits hook_reading.splits if_splits)
qed

lemma manual_launch_cases:
  obtains (idle) "snd (manual_launch le app_id ticket_id provider app_name email w) = w"
    | (started) p where "snd (manual_launch le app_id ticket_id provider app_name email w)
        = w\<lparr> hw_workflows := hw_workflows w @ [(''kuwarden-'' @ le_manual_id le, p)] \<rparr>"
proof (cases "le_unreachable le")
  case None
  obtain x w1 where l: "launch (le_resolved le) (le_run_id le) app_id ticket_id provider
      (''kuwarden-'' @ le_manual_id le) app_name False w = (x, w1)" by fastforce
  with None have "snd (manual_launch le app_id ticket_id provider app_name email w) = w1"
    by (cases x) (simp_all add: manual_launch_def Let_def)
  with l that show ?thesis by (cases rule: launch_cases) blast+
qed (auto simp: manual_launch_def intro: idle)

lemma start_run_cases:
  obtains (idle) "snd (start_run rg le app_id ticket_id provider email w) = w"
    | (started) p where "snd (start_run rg le app_id ticket_id provider email w)
        = w\<lparr> hw_workflows := hw_workflows w @ [(''kuwarden-'' @ le_manual_id le, p)] \<rparr>"
proof -
  let ?triggers = "filter (\<lambda>t. tr_app_id t = app_id) (rg_triggers rg)"
  let ?chosen = "find (\<lambda>t. provider \<in> {None, Some (tc_provider (tr_config t))}) ?triggers"
  have "snd (start_run rg le app_id ticket_id provider email w) = w \<or>
      (\<exists>prov name. start_run rg le app_id ticket_id provider email w
        = manual_launch le app_id ticket_id prov name email w)"
    by (cases "map_of (rg_apps rg) app_id"; cases "?triggers = []"; cases ?chosen)
      (fastforce simp: start_run_def Let_def)+
  then show ?thesis using that by (elim disjE exE) (metis manual_launch_cases)+
qed

section \<open>One run for a revision\<close>

definition hook_ids :: "hook_world \<Rightarrow> string list" where
  "hook_ids w = filter (starts_with ''kuwarden-ado-'') (map fst (hw_workflows w))"

lemma hook_workflow_id_prefix [simp]: "starts_with ''kuwarden-ado-'' (hook_workflow_id app_id item revision)"
  by (simp add: hook_workflow_id_def)

lemma distinct_hook_ids_step:
  assumes "hook_step w w'" "distinct (hook_ids w)"
  shows "distinct (hook_ids w')"
  using assms
proof (cases rule: hook_step.cases)
  case (pressed le rg app_id ticket_id provider email)
  then show ?thesis using assms(2)
    by (cases rg le app_id ticket_id provider email w rule: start_run_cases) (simp_all add: hook_ids_def)
next
  case (called rg le raced secret presented app_id payload)
  show ?thesis
  proof (cases rg le raced secret presented app_id payload w rule: azure_devops_hook_cases)
    case idle
    then show ?thesis using assms(2) called by (simp add: hook_ids_def)
  next
    case (admitted r t item revision)
    then show ?thesis using assms(2) called
      by (cases rg le raced app_id "ar_name r" item revision w rule: admit_delivery_cases)
        (auto simp: hook_ids_def)
  qed
next
  case (taken_up wid p)
  then show ?thesis using assms(2) by (simp add: hook_ids_def)
qed

lemma distinct_hook_ids:
  "hook_steps empty_hook_world w \<Longrightarrow> distinct (hook_ids w)"
  by (induction empty_hook_world w rule: hook_steps.induct)
    (auto simp: hook_ids_def empty_hook_world_def intro: distinct_hook_ids_step[unfolded hook_ids_def])

lemma count_distinct: "distinct (filter P (map f xs)) \<Longrightarrow> P k \<Longrightarrow> length (filter (\<lambda>x. f x = k) xs) \<le> 1"
proof (induction xs)
  case (Cons x xs)
  have "f x = k \<Longrightarrow> filter (\<lambda>y. f y = k) xs = []" using Cons.prems by (auto simp: filter_empty_conv) (metis imageI)
  with Cons show ?case by (cases "P (f x)") auto
qed simp

section \<open>Replays\<close>

lemma hook_step_keeps_rows: "hook_step w w' \<Longrightarrow> set (hw_runs w) \<subseteq> set (hw_runs w')"
proof (induction rule: hook_step.induct)
  case (pressed le w rg app_id ticket_id provider email)
  then show ?case by (cases rg le app_id ticket_id provider email w rule: start_run_cases) simp_all
next
  case (called w rg le raced secret presented app_id payload)
  then show ?case
  proof (cases rg le raced secret presented app_id payload w rule: azure_devops_hook_cases)
    case (admitted r t item revision)
    then show ?thesis
      by (cases rg le raced app_id "ar_name r" item revision w rule: admit_delivery_cases) simp_all
  qed simp
qed (rule write_run_row_keeps)

lemma hook_steps_keep_rows: "hook_steps w w' \<Longrightarrow> set (hw_runs w) \<subseteq> set (hw_runs w')"
  by (induction rule: hook_steps.induct) (auto dest: hook_step_keeps_rows)

lemma row_supersedes:
  assumes "r \<in> set (hw_runs w)" "rs_app_id r = app_id" "rs_ticket_id r = item"
    "revision_of (rs_workflow_id r) = Some n" "revision \<le> int n"
  shows "superseded_by app_id item revision w \<noteq> None"
proof -
  have i: "int n \<in> set (seen_revisions app_id item w)"
    using assms(1-4) by (force simp: seen_revisions_def List.map_filter_def)
  then obtain x xs where s: "seen_revisions app_id item w = x # xs"
    by (cases "seen_revisions app_id item w") auto
  with i have "int n \<le> Max (set (x # xs))" by simp
  then show ?thesis using s assms(5) by (simp add: superseded_by_def Let_def)
qed

lemma superseded_starts_nothing:
  assumes "superseded_by app_id item revision w \<noteq> None"
  shows "hw_workflows (snd (admit_delivery rg le raced app_id app_name item revision w)) = hw_workflows w"
  using assms by (auto simp: admit_delivery_def)


text \<open>
  Once the worker has written the row of a run the hook started, no later delivery of that
  revision or of an older one starts anything, whatever happened in between.
\<close>

theorem replay_of_a_recorded_run_is_refused:
  assumes "row \<in> set (hw_runs w)" "rs_workflow_id row = hook_workflow_id app_id item (int n)"
    "rs_app_id row = app_id" "rs_ticket_id row = item"
    "list_all (\<lambda>c. nl \<noteq> [c]) app_id" "list_all (\<lambda>c. nl \<noteq> [c]) item"
    "hook_steps w w'" "revision \<le> int n"
  shows "hw_workflows (snd (admit_delivery rg le raced app_id app_name item revision w')) = hw_workflows w'"
proof (rule superseded_starts_nothing, rule row_supersedes)
  show "row \<in> set (hw_runs w')" using assms(1,7) hook_steps_keep_rows by blast
  show "revision_of (rs_workflow_id row) = Some n" using assms(2,5,6) by (simp add: revision_of_hook_id)
qed (use assms in simp_all)

section \<open>What an admitted payload carries\<close>

definition moved_to :: "(string \<times> json) list \<Rightarrow> json" where
  "moved_to payload = json_get (json_get (json_get (json_get (JObj payload) ''resource'') ''fields'')
     ''System.State'') ''newValue''"

definition revision_block :: "(string \<times> json) list \<Rightarrow> json" where
  "revision_block payload = json_or (json_get (json_get (JObj payload) ''resource'') ''revision'') (JObj [])"

lemma json_str_or_nonempty: "json_str (json_or x (JStr [])) \<noteq> [] \<Longrightarrow> json_or x (JStr []) = x"
  by (auto simp: json_or_def)

lemma res_reading_Admit: "res_reading r k = Admit item revision \<longleftrightarrow> (\<exists>x. r = Inr x \<and> k x = Admit item revision)"
  by (cases r) (simp_all add: res_reading_def)

lemma admitted_payload:
  assumes "read_payload t payload = Admit item revision"
  shows "json_str (moved_to payload) \<noteq> []"
    "casefold (json_str (moved_to payload)) = casefold (the (tc_ready_state t))"
    "truthy (tc_label t) \<Longrightarrow> \<exists>tags. tags_of (revision_block payload) = Inr tags \<and> casefold (the (tc_label t)) \<in> set tags"
proof -
  let ?resource = "json_or (json_get (JObj payload) ''resource'') (JObj [])"
  obtain rb ch sc nv where g: "obj_get ?resource ''revision'' JNull = Inr rb" "obj_get ?resource ''fields'' JNull = Inr ch"
      "obj_get (json_or ch (JObj [])) ''System.State'' JNull = Inr sc"
      "obj_get (json_or sc (JObj [])) ''newValue'' JNull = Inr nv"
    and c: "json_str (json_or nv (JStr [])) \<noteq> []"
      "casefold (json_str (json_or nv (JStr []))) = casefold (the (tc_ready_state t))"
      "or_else (tc_label t) [] \<noteq> [] \<Longrightarrow> \<exists>tags. tags_of (json_or rb (JObj [])) = Inr tags
        \<and> casefold (or_else (tc_label t) []) \<in> set tags"
    using assms unfolding read_payload_def Let_def res_reading_Admit
    by (fastforce simp: res_reading_Admit split: if_splits)
  have n: "nv = moved_to payload" "json_or rb (JObj []) = revision_block payload"
    using g[THEN obj_get_null] by (simp_all add: moved_to_def revision_block_def json_get_or)
  have "json_or nv (JStr []) = nv" using c(1) by (rule json_str_or_nonempty)
  with c n show "json_str (moved_to payload) \<noteq> []"
    "casefold (json_str (moved_to payload)) = casefold (the (tc_ready_state t))"
    "truthy (tc_label t) \<Longrightarrow> \<exists>tags. tags_of (revision_block payload) = Inr tags \<and> casefold (the (tc_label t)) \<in> set tags"
    by (auto simp: truthy_iff)
qed


section \<open>An outage\<close>

text \<open>No row of a run, no record of a started delivery: the hook knows nothing of the item.\<close>

definition item_unknown :: "uuid \<Rightarrow> string \<Rightarrow> hook_world \<Rightarrow> bool" where
  "item_unknown app_id item w \<longleftrightarrow>
     list_all (\<lambda>r. \<not> (rs_app_id r = app_id \<and> rs_ticket_id r = item)) (hw_runs w) \<and>
     list_all (\<lambda>d. \<not> (dl_app_id d = app_id \<and> dl_work_item d = item \<and> dl_started d)) (hw_deliveries w)"

lemma unknown_item_not_superseded: "item_unknown app_id item w \<Longrightarrow> superseded_by app_id item revision w = None"
  by (auto simp: item_unknown_def superseded_by_def seen_revisions_def list_all_iff filter_empty_conv
      List.map_filter_def split: list.splits)

lemma unrecorded_start:
  assumes "governing (le_resolved le) = Inr g" "le_unreachable le = None" "item_unknown app_id item w"
    "hook_workflow_id app_id item revision \<notin> fst ` set (hw_workflows w)"
    "le_run_id le \<notin> rs_run_id ` set (hw_runs w)"
  shows "snd (admit_delivery rg le False app_id app_name item revision w)
    = w\<lparr> hw_workflows := hw_workflows w @ [(hook_workflow_id app_id item revision,
        flow_input_for (le_run_id le) app_id item ''azure_devops'' app_name g)] \<rparr>"
  using assms
  by (simp add: admit_delivery_def unknown_item_not_superseded launch_def Let_def delivered_def insert_delivery_def
      flow_input_for_def image_iff)

text \<open>
  C37. While the worker is down, every revision of a replayed backlog starts a run of its own, in
  whatever order the revisions come, and no delivery is recorded: the row of a started delivery names a
  run whose own row the worker has not written.
\<close>

theorem outage_admits_the_whole_backlog:
  assumes "governing (le_resolved le) = Inr g" "le_unreachable le = None" "item_unknown app_id item w"
    "distinct (map snd backlog)" "fst ` set backlog \<inter> rs_run_id ` set (hw_runs w) = {}"
    "fst ` set (hw_workflows w) \<inter> (hook_workflow_id app_id item \<circ> snd) ` set backlog = {}"
  shows "foldl (\<lambda>w (run_id, revision).
      snd (admit_delivery rg (le\<lparr> le_run_id := run_id \<rparr>) False app_id app_name item revision w)) w backlog
    = w\<lparr> hw_workflows := hw_workflows w @ map (\<lambda>(run_id, revision). (hook_workflow_id app_id item revision,
        flow_input_for run_id app_id item ''azure_devops'' app_name g)) backlog \<rparr>"
  using assms(3-)
proof (induction backlog arbitrary: w)
  case (Cons b backlog)
  obtain run_id revision where b: "b = (run_id, revision)" by fastforce
  let ?w = "w\<lparr> hw_workflows := hw_workflows w @ [(hook_workflow_id app_id item revision,
        flow_input_for run_id app_id item ''azure_devops'' app_name g)] \<rparr>"
  have s: "snd (admit_delivery rg (le\<lparr> le_run_id := run_id \<rparr>) False app_id app_name item revision w) = ?w"
    using assms(1,2) Cons.prems b unrecorded_start[of "le\<lparr> le_run_id := run_id \<rparr>"] by auto
  have u: "item_unknown app_id item ?w" using Cons.prems by (simp add: item_unknown_def)
  have i: "hook_workflow_id app_id item revision \<noteq> hook_workflow_id app_id item r" if "r \<in> snd ` set backlog" for r
    using that Cons.prems b by (auto simp: hook_workflow_id_def string_of_int_eq)
  show ?case using Cons.IH[of ?w] Cons.prems u i b by (auto simp: s)
qed simp

section \<open>Instances\<close>

definition hook_registry :: registry where
  "hook_registry = \<lparr> rg_apps = [(''a'', \<lparr> ar_name = ''shop'', ar_repo_url = ''u'', ar_integration_model = ''merge'' \<rparr>)],
     rg_configs = [], rg_changes = [],
     rg_triggers = [\<lparr> tr_id = ''t'', tr_app_id = ''a'', tr_config = \<lparr> tc_provider = ''azure_devops'', tc_project = ''p'',
        tc_site = None, tc_account_email = None, tc_organisation = None, tc_label = None,
        tc_ready_state = Some ''Ready'', tc_max_story_points = None, tc_story_points_field = None \<rparr> \<rparr>],
     rg_credentials = [] \<rparr>"

definition hook_env :: launch_env where
  "hook_env = \<lparr> le_run_id = ''r1'', le_manual_id = ''m'', le_unreachable = None,
     le_resolved = Inl (PolicyDenied ''no application a is registered'') \<rparr>"

definition ready_payload :: "(string \<times> json) list" where
  "ready_payload = [(''eventType'', JStr ''workitem.updated''),
     (''resource'', JObj [(''workItemId'', JInt 7), (''rev'', JInt 3),
       (''fields'', JObj [(''System.State'', JObj [(''newValue'', JStr ''ready'')])])])]"

definition weakest_rules :: "risk_rules \<times> string list" where
  "weakest_rules = (\<lparr> rr_high_paths = [], rr_medium_paths = [], rr_medium_changed_files = None,
     rr_high_changed_files = None \<rparr>, ALL_VERIFIERS)"

lemma hook_env_governing: "governing (le_resolved hook_env) = Inr weakest_rules"
  by (simp add: hook_env_def governing_def weakest_rules_def)

lemma sample_reading: "read_payload (tr_config (hd (rg_triggers hook_registry))) ready_payload = Admit ''7'' 3"
  by code_simp

definition sample_hooked :: "hook_answer reply \<times> hook_world" where
  "sample_hooked = azure_devops_hook hook_registry hook_env True ''s'' ''s'' ''a'' ready_payload empty_hook_world"

lemma sample_is_admitted:
  "sample_hooked = admit_delivery hook_registry hook_env True ''a'' ''shop'' ''7'' 3 empty_hook_world"
  using sample_reading
  by (simp add: sample_hooked_def azure_devops_hook_def Let_def hook_registry_def)
    (simp add: ready_payload_def json_get_def json_or_def )

lemma sample_hooked_run:
  defines "p \<equiv> flow_input_for ''r1'' ''a'' ''7'' ''azure_devops'' ''shop'' weakest_rules"
  shows "fst sample_hooked = Reply \<lparr> ha_started = True, ha_reason = None, ha_run_id = Some ''r1'',
      ha_workflow_id = Some (hook_workflow_id ''a'' ''7'' 3) \<rparr>"
    "hw_runs (snd sample_hooked) = [run_row_of (hook_workflow_id ''a'' ''7'' 3) p]"
    "hw_workflows (snd sample_hooked) = [(hook_workflow_id ''a'' ''7'' 3, p)]"
proof -
  have l: "launch (le_resolved hook_env) (le_run_id hook_env) ''a'' ''7'' ''azure_devops'' (hook_workflow_id ''a'' ''7'' 3)
      ''shop'' True empty_hook_world = (Launched p, empty_hook_world\<lparr> hw_workflows := [(hook_workflow_id ''a'' ''7'' 3, p)] \<rparr>)"
    by (simp add: launch_def hook_env_governing empty_hook_world_def p_def Let_def) (simp add: hook_env_def)
  have n: "superseded_by ''a'' ''7'' 3 empty_hook_world = None"
    by (rule unknown_item_not_superseded) (simp add: item_unknown_def empty_hook_world_def)
  have u: "le_unreachable hook_env = None" by (simp add: hook_env_def)
  have i: "fi_run_id p = ''r1''" by (simp add: p_def flow_input_for_def)
  show "fst sample_hooked = Reply \<lparr> ha_started = True, ha_reason = None, ha_run_id = Some ''r1'',
      ha_workflow_id = Some (hook_workflow_id ''a'' ''7'' 3) \<rparr>"
    "hw_runs (snd sample_hooked) = [run_row_of (hook_workflow_id ''a'' ''7'' 3) p]"
    "hw_workflows (snd sample_hooked) = [(hook_workflow_id ''a'' ''7'' 3, p)]"
    by (simp_all add: sample_is_admitted admit_delivery_def l n u i Let_def write_run_row_def)
      (simp_all add: empty_hook_world_def)
qed


lemma replay_of_a_recorded_run_is_refused_witness:
  "hw_workflows (snd (admit_delivery hook_registry hook_env False ''a'' ''shop'' ''7'' 2 (snd sample_hooked)))
    = hw_workflows (snd sample_hooked)"
  by (rule replay_of_a_recorded_run_is_refused[OF _ _ _ _ _ _ no_step, of _ _ _ _ 3])
    (simp_all add: sample_hooked_run, simp_all add: run_row_of_def flow_input_for_def nl_def)


lemma outage_admits_the_whole_backlog_witness:
  "map fst (hw_workflows (foldl (\<lambda>w (run_id, revision).
      snd (admit_delivery hook_registry (hook_env\<lparr> le_run_id := run_id \<rparr>) False ''a'' ''shop'' ''52'' revision w))
      empty_hook_world [(''r1'', 6), (''r2'', 2), (''r3'', 4)]))
    = [''kuwarden-ado-a-52-r6'', ''kuwarden-ado-a-52-r2'', ''kuwarden-ado-a-52-r4'']"
proof -
  have [simp]: "string_of_nat 6 = ''6''" "string_of_nat 2 = ''2''" "string_of_nat 4 = ''4''" by code_simp+
  show ?thesis
    by (subst outage_admits_the_whole_backlog[OF hook_env_governing])
      (simp_all add: hook_env_def empty_hook_world_def item_unknown_def hook_workflow_id_def string_of_int_def)
qed

end
