(* ===== verification/Base64.thy ===== *)
theory Base64
  imports Flow_Types
begin

text \<open>
  The \<open>base64\<close> calls of engine/adapters/scm/github.py and engine/adapters/http.py: the encoder, and the
  decoder in its default mode, which skips every character outside the alphabet and stops at complete
  padding.  Bytes are strings.
\<close>

definition b64_char :: "nat \<Rightarrow> char" where
  "b64_char n =
    (if n < 26 then char_of (65 + n) else if n < 52 then char_of (71 + n) else if n < 62 then char_of (n - 4)
     else if n = 62 then CHR ''+'' else CHR ''/'')"

definition b64_value :: "char \<Rightarrow> nat option" where
  "b64_value c =
    (let n = (of_char c :: nat)
     in if 65 \<le> n \<and> n \<le> 90 then Some (n - 65) else if 97 \<le> n \<and> n \<le> 122 then Some (n - 71)
        else if 48 \<le> n \<and> n \<le> 57 then Some (n + 4) else if c = CHR ''+'' then Some 62
        else if c = CHR ''/'' then Some 63 else None)"

fun b64encode :: "string \<Rightarrow> string" where
  "b64encode [] = []"
| "b64encode [a] =
    (let x = (of_char a :: nat) in [b64_char (x div 4), b64_char (x mod 4 * 16), CHR ''='', CHR ''=''])"
| "b64encode [a, b] =
    (let x = (of_char a :: nat); y = (of_char b :: nat)
     in [b64_char (x div 4), b64_char (x mod 4 * 16 + y div 16), b64_char (y mod 16 * 4), CHR ''=''])"
| "b64encode (a # b # c # rest) =
    (let x = (of_char a :: nat); y = (of_char b :: nat); z = (of_char c :: nat)
     in [b64_char (x div 4), b64_char (x mod 4 * 16 + y div 16), b64_char (y mod 16 * 4 + z div 64), b64_char (z mod 64)]
        @ b64encode rest)"

text \<open>
  \<open>b64_read quad left pads out s\<close>: \<open>quad\<close> characters of a group are read and leave the bits \<open>left\<close>, \<open>pads\<close>
  padding characters followed, and \<open>out\<close> bytes were written before \<open>s\<close>.
\<close>

fun b64_read :: "nat \<Rightarrow> nat \<Rightarrow> nat \<Rightarrow> nat \<Rightarrow> string \<Rightarrow> string res" where
  "b64_read quad left pads out [] =
    (if quad = 0 then Inr []
     else if quad = 1 then Inl (OtherError ''Error'' (''Invalid base64-encoded string: number of data characters (''
       @ string_of_nat (out div 3 * 4 + 1) @ '') cannot be 1 more than a multiple of 4''))
     else Inl (OtherError ''Error'' ''Incorrect padding''))"
| "b64_read quad left pads out (c # cs) =
    (if c = CHR ''='' then
       (if 2 \<le> quad \<and> 4 \<le> quad + Suc pads then Inr []
        else b64_read quad left (if 2 \<le> quad then Suc pads else pads) out cs)
     else case b64_value c of
         None \<Rightarrow> b64_read quad left pads out cs
       | Some v \<Rightarrow>
           if quad = 0 then b64_read 1 v 0 out cs
           else let byte = (if quad = 1 then left * 4 + v div 16 else if quad = 2 then left * 16 + v div 4 else left * 64 + v);
                    kept = (if quad = 1 then v mod 16 else if quad = 2 then v mod 4 else 0)
                in map_sum id ((#) (char_of byte))
                     (b64_read (if quad = 3 then 0 else Suc quad) kept 0 (Suc out) cs))"

definition b64decode :: "string \<Rightarrow> string res" where
  "b64decode s = b64_read 0 0 0 0 s"

section \<open>Round trip\<close>

definition b64_relevant :: "char \<Rightarrow> bool" where
  "b64_relevant c \<longleftrightarrow> c = CHR ''='' \<or> b64_value c \<noteq> None"

lemma b64_read_filter: "b64_read quad left pads out (filter b64_relevant s) = b64_read quad left pads out s"
  by (induction s arbitrary: quad left pads out) (auto simp: b64_relevant_def Let_def split: option.splits)

lemma of_char_of_small: "n < 256 \<Longrightarrow> (of_char (char_of n :: char) :: nat) = n"
  by simp

lemma b64_value_char: "n < 64 \<Longrightarrow> b64_value (b64_char n) = Some n"
  by (cases "n = 62"; cases "n = 63") (auto simp: b64_char_def b64_value_def Let_def)

lemma b64_char_pad: "n < 64 \<Longrightarrow> b64_char n \<noteq> CHR ''=''"
  using b64_value_char[of n] by (auto simp: b64_value_def)

lemma b64_read_any:
  "n < 64 \<Longrightarrow> b64_read quad left pads out (b64_char n # cs) =
    (if quad = 0 then b64_read 1 n 0 out cs
     else map_sum id ((#) (char_of (if quad = 1 then left * 4 + n div 16 else if quad = 2 then left * 16 + n div 4 else left * 64 + n)))
       (b64_read (if quad = 3 then 0 else Suc quad) (if quad = 1 then n mod 16 else if quad = 2 then n mod 4 else 0)
         0 (Suc out) cs))"
  by (simp only: b64_read.simps b64_char_pad if_False b64_value_char option.case Let_def)

lemma b64_read_char:
  assumes "n < 64"
  shows "b64_read 0 left pads out (b64_char n # cs) = b64_read 1 n 0 out cs"
    "b64_read 1 left pads out (b64_char n # cs)
      = map_sum id ((#) (char_of (left * 4 + n div 16))) (b64_read 2 (n mod 16) 0 (Suc out) cs)"
    "b64_read 2 left pads out (b64_char n # cs)
      = map_sum id ((#) (char_of (left * 16 + n div 4))) (b64_read 3 (n mod 4) 0 (Suc out) cs)"
    "b64_read 3 left pads out (b64_char n # cs)
      = map_sum id ((#) (char_of (left * 64 + n))) (b64_read 0 0 0 (Suc out) cs)"
  by (simp_all only: b64_read_any[OF assms]) (simp_all add: numeral_2_eq_2 numeral_3_eq_3)

lemma sextets:
  fixes x y :: nat
  assumes "x < 256" "y < 256"
  shows "x div 4 < 64" "x mod 4 * 16 < 64" "x mod 4 * 16 + y div 16 < 64" "y mod 16 * 4 < 64"
    "x mod 16 * 4 + y div 64 < 64" "(x mod 4 * 16 + y div 16) div 16 = x mod 4" "(x mod 4 * 16 + y div 16) mod 16 = y div 16"
    "(x mod 16 * 4 + y div 64) div 4 = x mod 16" "(x mod 16 * 4 + y div 64) mod 4 = y div 64"
proof -
  have b: "x mod 4 < 4" "y div 16 < 16" "x mod 16 < 16" "y div 64 < 4" using assms by (simp_all add: div_less_iff_less_mult)
  then show "(x mod 4 * 16 + y div 16) div 16 = x mod 4" "(x mod 4 * 16 + y div 16) mod 16 = y div 16"
    "(x mod 16 * 4 + y div 64) div 4 = x mod 16" "(x mod 16 * 4 + y div 64) mod 4 = y div 64"
    by simp_all
  show "x div 4 < 64" "x mod 4 * 16 < 64" "x mod 4 * 16 + y div 16 < 64" "y mod 16 * 4 < 64" "x mod 16 * 4 + y div 64 < 64"
    using b assms by (simp_all add: div_less_iff_less_mult)
qed

lemma of_char_less: "(of_char c :: nat) < 256"
  by simp

lemmas b64_group = sextets[OF of_char_less of_char_less]

lemma b64_read_encode: "b64_read 0 0 0 out (b64encode s) = Inr s"
proof (induction s arbitrary: out rule: b64encode.induct)
  case (2 a)
  have "of_char a mod 4 * 16 div 16 = (of_char a mod 4 :: nat)" by simp
  then show ?case
    by (simp only: b64encode.simps Let_def b64_read_char b64_group) simp
next
  case (3 a b)
  have "of_char b mod 16 * 4 div 4 = (of_char b mod 16 :: nat)" by simp
  then show ?case
    by (simp only: b64encode.simps Let_def b64_read_char b64_group) simp
next
  case (4 a b c rest)
  have "(of_char c :: nat) mod 64 < 64" by simp
  with 4 show ?case
    by (simp only: b64encode.simps Let_def b64_read_char b64_group append_Cons append_Nil) simp
qed simp

lemma b64_relevant_encode: "filter b64_relevant (b64encode s) = b64encode s"
proof (induction s rule: b64encode.induct)
  case (4 a b c rest)
  have "(of_char c :: nat) mod 64 < 64" by simp
  with 4 show ?case by (simp add: Let_def b64_relevant_def b64_value_char b64_group)
qed (simp_all add: Let_def b64_relevant_def b64_value_char b64_group sextets(2)[OF of_char_less of_char_less])

text \<open>
  What is written to a blob is what is read back from it, whatever characters outside the
  alphabet (the line breaks of a wrapped encoding) the platform puts between.
\<close>

theorem b64decode_wrapped:
  assumes "filter b64_relevant wrapped = b64encode s"
  shows "b64decode wrapped = Inr s"
  using assms b64_read_filter[of 0 0 0 0 wrapped] by (simp add: b64decode_def b64_read_encode)

lemma b64decode_wrapped_witness: "b64decode (''aGVs'' @ [CHR 0x0A] @ ''bG8='' @ [CHR 0x0A]) = Inr ''hello''"
  by (rule b64decode_wrapped) code_simp

end
