(* ===== verification/Rest.thy ===== *)
theory Rest
  imports Json_Access Credentials Base64
begin

text \<open>
  engine/adapters/http.py: the one place that attaches a credential to a request and turns an answer
  into a typed error.  A platform is a parameter: a function from a request and the platform's state to
  an answer and its next state.  \<open>wire\<close> keeps that state and every request sent, in order.
\<close>

section \<open>Requests and answers\<close>

record http_request =
  hq_method :: string
  hq_base :: string
  hq_url :: string
  hq_params :: "(string \<times> string) list"
  hq_json :: "json option"
  hq_headers :: "(string \<times> string) list"

text \<open>A fault of the transport carries the name of its exception; a response its status, its text, and
  the value the text parses to when it is JSON.\<close>

datatype http_outcome = HttpFault string | HttpResponse nat string "json option"

type_synonym 's platform = "http_request \<Rightarrow> 's \<Rightarrow> http_outcome \<times> 's"

record 's wire =
  w_host :: 's
  w_sent :: "http_request list"

type_synonym ('s, 'a) rest = "'s wire \<Rightarrow> 'a res \<times> 's wire"

section \<open>Computations over the wire\<close>

definition rest_pure :: "'a res \<Rightarrow> ('s, 'a) rest" where
  "rest_pure r = (\<lambda>w. (r, w))"

definition rest_bind :: "('s, 'a) rest \<Rightarrow> ('a \<Rightarrow> ('s, 'b) rest) \<Rightarrow> ('s, 'b) rest" where
  "rest_bind m f = (\<lambda>w. case m w of (Inl e, w1) \<Rightarrow> (Inl e, w1) | (Inr x, w1) \<Rightarrow> f x w1)"

text \<open>\<open>try: m except T as exc: h(exc)\<close>, where \<open>h\<close> answers \<open>None\<close> for an exception that is no \<open>T\<close>.\<close>

definition rest_catch :: "('s, 'a) rest \<Rightarrow> (error \<Rightarrow> ('s, 'a) rest option) \<Rightarrow> ('s, 'a) rest" where
  "rest_catch m h = (\<lambda>w. case m w of
     (Inr x, w1) \<Rightarrow> (Inr x, w1)
   | (Inl e, w1) \<Rightarrow> (case h e of None \<Rightarrow> (Inl e, w1) | Some k \<Rightarrow> k w1))"

fun rest_map :: "('a \<Rightarrow> ('s, 'b) rest) \<Rightarrow> 'a list \<Rightarrow> ('s, 'b list) rest" where
  "rest_map f [] = rest_pure (Inr [])"
| "rest_map f (x # xs) = rest_bind (f x) (\<lambda>y. rest_bind (rest_map f xs) (\<lambda>ys. rest_pure (Inr (y # ys))))"

text \<open>\<open>except AdapterError\<close>: the class and its subclasses.\<close>

fun is_adapter_error :: "error \<Rightarrow> bool" where
  "is_adapter_error (AdapterError m) = True"
| "is_adapter_error (PermissionDenied m) = True"
| "is_adapter_error (NotFound m) = True"
| "is_adapter_error (OtherError t m) = (t = ''TreeTooLarge'')"
| "is_adapter_error e = False"

section \<open>The client\<close>

definition basic_auth_header :: "string \<Rightarrow> secret \<Rightarrow> string" where
  "basic_auth_header username token = ''Basic '' @ b64encode (username @ '':'' @ reveal token)"

definition bearer_auth_header :: "secret \<Rightarrow> string" where
  "bearer_auth_header token = ''Bearer '' @ reveal token"

record rest_client =
  rcl_base_url :: string
  rcl_auth :: string
  rcl_headers :: "(string \<times> string) list"

definition new_client :: "string \<Rightarrow> string \<Rightarrow> (string \<times> string) list \<Rightarrow> rest_client" where
  "new_client base_url auth headers = \<lparr> rcl_base_url = base_url, rcl_auth = auth,
     rcl_headers = dict_of ((''Accept'', ''application/json'') # headers) \<rparr>"

definition request_of :: "rest_client \<Rightarrow> string \<Rightarrow> string \<Rightarrow> (string \<times> string) list \<Rightarrow> json option \<Rightarrow> string \<Rightarrow> http_request" where
  "request_of c verb url params body content_type =
     \<lparr> hq_method = verb, hq_base = rcl_base_url c, hq_url = url, hq_params = params, hq_json = body,
       hq_headers = rcl_headers c @ (''Authorization'', rcl_auth c)
         # (if body = None then [] else [(''Content-Type'', content_type)]) \<rparr>"

definition answer_of :: "string \<Rightarrow> string \<Rightarrow> http_outcome \<Rightarrow> json res" where
  "answer_of verb url answer =
    (let what = verb @ '' '' @ url
     in case answer of
          HttpFault name \<Rightarrow> Inl (AdapterError (what @ '' failed: '' @ name))
        | HttpResponse status txt parsed \<Rightarrow>
            if status = 404 then Inl (NotFound (what @ '' returned 404: '' @ take 200 txt))
            else if status = 403 then Inl (PermissionDenied (what @ '' returned 403: '' @ take 300 txt))
            else if 400 \<le> status then
              Inl (AdapterError (what @ '' returned '' @ string_of_nat status @ '': '' @ take 500 txt))
            else if txt = [] then Inr JNull
            else case parsed of
                Some v \<Rightarrow> Inr v
              | None \<Rightarrow> Inl (AdapterError (what @ '' returned a non-JSON body'')))"

definition rest_request :: "'s platform \<Rightarrow> rest_client \<Rightarrow> string \<Rightarrow> string \<Rightarrow> (string \<times> string) list \<Rightarrow> json option
    \<Rightarrow> string \<Rightarrow> ('s, json) rest" where
  "rest_request host c verb url params body content_type = (\<lambda>w.
     let q = request_of c verb url params body content_type;
         (answer, s) = host q (w_host w)
     in (answer_of verb url answer, w\<lparr> w_host := s, w_sent := w_sent w @ [q] \<rparr>))"

definition rest_get :: "'s platform \<Rightarrow> rest_client \<Rightarrow> string \<Rightarrow> (string \<times> string) list \<Rightarrow> ('s, json) rest" where
  "rest_get host c url params = rest_request host c ''GET'' url params None ''application/json''"

definition rest_post :: "'s platform \<Rightarrow> rest_client \<Rightarrow> string \<Rightarrow> (string \<times> string) list \<Rightarrow> json \<Rightarrow> ('s, json) rest" where
  "rest_post host c url params body = rest_request host c ''POST'' url params (Some body) ''application/json''"

definition rest_put :: "'s platform \<Rightarrow> rest_client \<Rightarrow> string \<Rightarrow> json \<Rightarrow> ('s, json) rest" where
  "rest_put host c url body = rest_request host c ''PUT'' url [] (Some body) ''application/json''"

definition rest_patch :: "'s platform \<Rightarrow> rest_client \<Rightarrow> string \<Rightarrow> json \<Rightarrow> ('s, json) rest" where
  "rest_patch host c url body = rest_request host c ''PATCH'' url [] (Some body) ''application/json''"

definition rest_delete :: "'s platform \<Rightarrow> rest_client \<Rightarrow> string \<Rightarrow> ('s, json) rest" where
  "rest_delete host c url = rest_request host c ''DELETE'' url [] None ''application/json''"

text \<open>What an adapter resolves its credential with: the node it runs in, and the broker.\<close>

record adapter_env =
  ae_current :: "(string \<times> node_class) option"
  ae_broker :: "credential_request \<Rightarrow> secret res"

definition adapter_token :: "adapter_env \<Rightarrow> credential_kind \<Rightarrow> string \<Rightarrow> secret res" where
  "adapter_token ae kind realm = and_then (new_request (ae_current ae) kind realm) (ae_broker ae)"

section \<open>Running\<close>

named_theorems rest_simps \<open>running a computation over the wire\<close>

lemma rest_pure_run [rest_simps]: "rest_pure r w = (r, w)"
  by (simp add: rest_pure_def)

lemma rest_bind_run [rest_simps]:
  "m w = (Inl e, w1) \<Longrightarrow> rest_bind m f w = (Inl e, w1)"
  "m w = (Inr x, w1) \<Longrightarrow> rest_bind m f w = f x w1"
  by (simp_all add: rest_bind_def)

lemma rest_bind_pure [rest_simps]:
  "rest_bind (rest_pure (Inr x)) f = f x" "rest_bind (rest_pure (Inl e)) f = rest_pure (Inl e)"
  by (simp_all add: rest_bind_def rest_pure_def)

lemma rest_bind_Inr:
  "rest_bind m f w = (Inr y, w2) \<longleftrightarrow> (\<exists>x w1. m w = (Inr x, w1) \<and> f x w1 = (Inr y, w2))"
  by (cases "m w"; cases "fst (m w)") (auto simp: rest_bind_def)

lemma rest_bind_cases:
  assumes "rest_bind m f w = (r, w2)"
  obtains (stopped) e where "m w = (Inl e, w2)" "r = Inl e"
    | (went_on) x w1 where "m w = (Inr x, w1)" "f x w1 = (r, w2)"
  using assms by (cases "m w"; cases "fst (m w)") (auto simp: rest_bind_def)

text \<open>
  Contracts of a computation: \<open>sends P m\<close> says that \<open>m\<close> sends only requests with the property \<open>P\<close>, and
  \<open>silent m\<close> that it sends none.
\<close>

definition sends :: "(http_request \<Rightarrow> bool) \<Rightarrow> ('s, 'a) rest \<Rightarrow> bool" where
  "sends P m \<longleftrightarrow> (\<forall>w. \<exists>qs. w_sent (snd (m w)) = w_sent w @ qs \<and> list_all P qs)"

named_theorems sends_intros \<open>what a computation sends\<close>

lemma sends_pure [sends_intros]: "sends P (rest_pure r)"
  by (simp add: sends_def rest_pure_def)

lemma sends_bind [sends_intros]:
  assumes "sends P m" "\<And>x. sends P (f x)"
  shows "sends P (rest_bind m f)"
  unfolding sends_def
proof
  fix w
  obtain r w1 where m: "m w = (r, w1)" by fastforce
  with assms(1) obtain qs where q: "w_sent w1 = w_sent w @ qs" "list_all P qs"
    unfolding sends_def by (metis snd_conv)
  show "\<exists>qs. w_sent (snd (rest_bind m f w)) = w_sent w @ qs \<and> list_all P qs"
  proof (cases r)
    case (Inl e)
    then show ?thesis using m q by (auto simp: rest_bind_def)
  next
    case (Inr x)
    obtain qs' where "w_sent (snd (f x w1)) = w_sent w1 @ qs'" "list_all P qs'"
      using assms(2)[of x] unfolding sends_def by blast
    then show ?thesis using m q Inr by (auto simp: rest_bind_def)
  qed
qed

lemma sends_catch [sends_intros]:
  assumes "sends P m" "\<And>e k. h e = Some k \<Longrightarrow> sends P k"
  shows "sends P (rest_catch m h)"
  unfolding sends_def
proof
  fix w
  obtain r w1 where m: "m w = (r, w1)" by fastforce
  with assms(1) obtain qs where q: "w_sent w1 = w_sent w @ qs" "list_all P qs"
    unfolding sends_def by (metis snd_conv)
  show "\<exists>qs. w_sent (snd (rest_catch m h w)) = w_sent w @ qs \<and> list_all P qs"
  proof (cases "\<exists>e k. r = Inl e \<and> h e = Some k")
    case True
    then obtain e k where r: "r = Inl e" "h e = Some k" by blast
    obtain qs' where "w_sent (snd (k w1)) = w_sent w1 @ qs'" "list_all P qs'"
      using assms(2)[OF r(2)] unfolding sends_def by blast
    then show ?thesis using m q r by (auto simp: rest_catch_def)
  next
    case False
    then show ?thesis using m q by (cases r) (auto simp: rest_catch_def split: option.splits)
  qed
qed

lemma sends_map [sends_intros]: "(\<And>x. x \<in> set xs \<Longrightarrow> sends P (f x)) \<Longrightarrow> sends P (rest_map f xs)"
  by (induction xs) (auto intro!: sends_intros)

lemma sends_request [sends_intros]:
  "P (request_of c verb url params body ct) \<Longrightarrow> sends P (rest_request host c verb url params body ct)"
  by (simp add: sends_def rest_request_def Let_def case_prod_unfold)

lemma sends_mono: "sends P m \<Longrightarrow> (\<And>q. P q \<Longrightarrow> Q q) \<Longrightarrow> sends Q m"
  unfolding sends_def by (metis list.pred_mono_strong)

lemma sends_if [sends_intros]: "(b \<Longrightarrow> sends P m) \<Longrightarrow> (\<not> b \<Longrightarrow> sends P m') \<Longrightarrow> sends P (if b then m else m')"
  by simp

lemma sends_option [sends_intros]:
  "(x = None \<Longrightarrow> sends P m) \<Longrightarrow> (\<And>y. x = Some y \<Longrightarrow> sends P (f y)) \<Longrightarrow> sends P (case x of None \<Rightarrow> m | Some y \<Rightarrow> f y)"
  by (cases x) simp_all

text \<open>
  An error of the client says what was asked and what was answered, and nothing of the
  credential: two clients that differ in it, answered alike, return the same result.
\<close>

theorem errors_say_nothing_of_the_credential:
  assumes "fst (host (request_of c verb url params body ct) (w_host w)) = fst (host' (request_of (c\<lparr> rcl_auth := a \<rparr>) verb url params body ct) (w_host w'))"
  shows "fst (rest_request host c verb url params body ct w) = fst (rest_request host' (c\<lparr> rcl_auth := a \<rparr>) verb url params body ct w')"
  using assms by (simp add: rest_request_def Let_def case_prod_unfold)

lemma errors_say_nothing_of_the_credential_witness:
  "fst (rest_request (\<lambda>q s. (HttpResponse 403 ''no'' None, s)) (new_client ''u'' ''Bearer a'' []) ''GET'' ''/x'' [] None ''-''
      \<lparr> w_host = (), w_sent = [] \<rparr>)
    = fst (rest_request (\<lambda>q s. (HttpResponse 403 ''no'' None, s)) ((new_client ''u'' ''Bearer a'' [])\<lparr> rcl_auth := ''Bearer b'' \<rparr>)
      ''GET'' ''/x'' [] None ''-'' \<lparr> w_host = (), w_sent = [] \<rparr>)"
  by (rule errors_say_nothing_of_the_credential) simp

end
