(* ===== verification/Tree_Cache.thy ===== *)
theory Tree_Cache
  imports Globs Node_World
begin

text \<open>
  The bounds on a repository tree (engine/adapters/scm/tree.py) and the cache in front of every fetch
  (engine/adapters/scm/tree_cache.py), as a step relation: the code between two awaits is one step, so
  callers, the fetch they share, its end and the cancellation of a caller interleave as asyncio lets
  them.  What a fetch gives in the end is a parameter.
\<close>

section \<open>Bounds\<close>

record tree_limits =
  tl_max_files :: int
  tl_max_file_bytes :: int
  tl_max_total_bytes :: int
  tl_exclude :: "string list"

definition default_tree_limits :: tree_limits where
  "default_tree_limits = \<lparr> tl_max_files = 4000, tl_max_file_bytes = 1000000, tl_max_total_bytes = 64000000,
     tl_exclude = [''.git/**'', ''**/node_modules/**'', ''**/.venv/**'', ''**/venv/**'', ''**/__pycache__/**'',
       ''**/dist/**'', ''**/build/**'', ''**/target/**'', ''**/*.lock''] \<rparr>"

record repo_tree =
  rt_commit :: string
  rt_files :: "(string \<times> string) list"

definition total_bytes :: "repo_tree \<Rightarrow> int" where
  "total_bytes t = sum_list (map (\<lambda>(p, content). int (length content)) (rt_files t))"

definition excluded :: "string \<Rightarrow> tree_limits \<Rightarrow> bool" where
  "excluded path limits \<longleftrightarrow> matches_any (tl_exclude limits) path \<noteq> None"

definition tree_too_large :: "string \<Rightarrow> 'a res" where
  "tree_too_large m = Inl (OtherError ''TreeTooLarge'' m)"

definition check_file_count :: "nat \<Rightarrow> tree_limits \<Rightarrow> string \<Rightarrow> unit res" where
  "check_file_count n limits repo =
    (if int n > tl_max_files limits then
       tree_too_large (repo @ '' has '' @ string_of_nat n @ '' files after exclusions, over the ''
         @ string_of_int (tl_max_files limits) @ '' limit. ''
         @ ''Raise sandbox tree limits deliberately, or narrow workspace.repos '' @ [em_dash] @ '' a partial ''
         @ ''tree is worse than a refused one.'')
     else Inr ())"

definition check_file_size :: "string \<Rightarrow> int \<Rightarrow> tree_limits \<Rightarrow> unit res" where
  "check_file_size path bytes limits =
    (if bytes > tl_max_file_bytes limits then
       tree_too_large (path @ '' is '' @ string_of_int bytes @ '' bytes, over the ''
         @ string_of_int (tl_max_file_bytes limits) @ '' per-file limit'')
     else Inr ())"

definition finish_tree :: "string \<Rightarrow> (string \<times> string) list \<Rightarrow> tree_limits \<Rightarrow> string \<Rightarrow> repo_tree res" where
  "finish_tree commit files limits repo =
    (let tree = \<lparr> rt_commit = commit, rt_files = files \<rparr>
     in if total_bytes tree > tl_max_total_bytes limits then
          tree_too_large (repo @ '' is '' @ string_of_int (total_bytes tree) @ '' bytes at '' @ take 8 commit
            @ '', over the '' @ string_of_int (tl_max_total_bytes limits) @ '' total limit'')
        else Inr tree)"

section \<open>The cache\<close>

type_synonym tree_key = "string list"

definition MAX_ENTRIES :: nat where
  "MAX_ENTRIES = 4"

definition fetch_key :: "repo_ref \<Rightarrow> string \<Rightarrow> tree_limits \<Rightarrow> tree_key" where
  "fetch_key ref commit limits =
     [rref_host ref, rref_org ref, rref_repo ref, or_else (rref_project ref) [], commit,
      string_of_int (tl_max_files limits), string_of_int (tl_max_file_bytes limits),
      string_of_int (tl_max_total_bytes limits), py_join ''|'' (tl_exclude limits)]"

datatype task_state = Fetching | Fetched repo_tree | FetchFailed error | FetchCancelled

text \<open>
  A caller that started the fetch awaits its task; one that joined awaits a shield over it.  \<open>Cancelled\<close>
  is a \<open>CancelledError\<close> raised in the caller.
\<close>

datatype caller_state =
    Owner tree_key nat
  | Joined tree_key nat
  | Returned tree_key repo_tree
  | Raised tree_key error
  | Cancelled tree_key

text \<open>\<open>cw_trees\<close> is the ordered dictionary, the most recently used entry last; \<open>cw_fetches\<close> names the key
  each task fetches, and \<open>cw_asked\<close> the callers that were cancelled from outside.\<close>

record cache_world =
  cw_trees :: "(tree_key \<times> repo_tree) list"
  cw_inflight :: "(tree_key \<times> nat) list"
  cw_tasks :: "task_state list"
  cw_callers :: "caller_state list"
  cw_fetches :: "tree_key list"
  cw_asked :: "nat list"

definition empty_cache :: cache_world where
  "empty_cache = \<lparr> cw_trees = [], cw_inflight = [], cw_tasks = [], cw_callers = [], cw_fetches = [], cw_asked = [] \<rparr>"

definition move_to_end :: "tree_key \<Rightarrow> (tree_key \<times> 'a) list \<Rightarrow> (tree_key \<times> 'a) list" where
  "move_to_end k d = filter (\<lambda>(k', v). k' \<noteq> k) d @ filter (\<lambda>(k', v). k' = k) d"

definition pop_key :: "tree_key \<Rightarrow> (tree_key \<times> 'a) list \<Rightarrow> (tree_key \<times> 'a) list" where
  "pop_key k d = filter (\<lambda>(k', v). k' \<noteq> k) d"

text \<open>\<open>_TREES[key] = tree\<close> keeps the place of a key that is there, and appends otherwise.\<close>

fun put_key :: "tree_key \<Rightarrow> 'a \<Rightarrow> (tree_key \<times> 'a) list \<Rightarrow> (tree_key \<times> 'a) list" where
  "put_key k v [] = [(k, v)]"
| "put_key k v ((k', v') # d) = (if k' = k then (k, v) # d else (k', v') # put_key k v d)"

text \<open>\<open>while len(_TREES) > _MAX_ENTRIES: popitem(last=False)\<close>.\<close>

definition evict :: "(tree_key \<times> 'a) list \<Rightarrow> (tree_key \<times> 'a) list" where
  "evict d = drop (length d - MAX_ENTRIES) d"

text \<open>The part of \<open>cached\<close> before its first await, for a new caller.\<close>

definition call_cached :: "tree_key \<Rightarrow> cache_world \<Rightarrow> cache_world" where
  "call_cached key w =
    (case map_of (cw_trees w) key of
       Some hit \<Rightarrow> w\<lparr> cw_trees := move_to_end key (cw_trees w), cw_callers := cw_callers w @ [Returned key hit] \<rparr>
     | None \<Rightarrow>
         (case map_of (cw_inflight w) key of
            Some t \<Rightarrow> w\<lparr> cw_callers := cw_callers w @ [Joined key t] \<rparr>
          | None \<Rightarrow>
              let t = length (cw_tasks w)
              in w\<lparr> cw_tasks := cw_tasks w @ [Fetching], cw_inflight := put_key key t (cw_inflight w),
                    cw_callers := cw_callers w @ [Owner key t], cw_fetches := cw_fetches w @ [key] \<rparr>))"

text \<open>After the await: \<open>cancelled\<close> says that the caller itself was cancelled while the task was done.\<close>

definition resume_owner :: "nat \<Rightarrow> tree_key \<Rightarrow> nat \<Rightarrow> bool \<Rightarrow> cache_world \<Rightarrow> cache_world" where
  "resume_owner c key t cancelled w =
    (let w1 = w\<lparr> cw_inflight := pop_key key (cw_inflight w) \<rparr>
     in if cancelled then w1\<lparr> cw_callers := (cw_callers w)[c := Cancelled key] \<rparr>
        else case cw_tasks w ! t of
            Fetched tree \<Rightarrow> w1\<lparr> cw_trees := evict (put_key key tree (cw_trees w)),
                cw_callers := (cw_callers w)[c := Returned key tree] \<rparr>
          | FetchFailed e \<Rightarrow> w1\<lparr> cw_callers := (cw_callers w)[c := Raised key e] \<rparr>
          | _ \<Rightarrow> w1\<lparr> cw_callers := (cw_callers w)[c := Cancelled key] \<rparr>)"

definition resume_joined :: "nat \<Rightarrow> tree_key \<Rightarrow> nat \<Rightarrow> cache_world \<Rightarrow> cache_world" where
  "resume_joined c key t w =
     w\<lparr> cw_callers := (cw_callers w)[c := (case cw_tasks w ! t of
       Fetched tree \<Rightarrow> Returned key tree | FetchFailed e \<Rightarrow> Raised key e | _ \<Rightarrow> Cancelled key)] \<rparr>"

text \<open>
  Cancelling an owner whose task is still running cancels the task it awaits, and the owner goes on when
  the task has ended; cancelling a caller that joined ends its shield and leaves the task alone.
\<close>

inductive cache_step :: "(tree_key \<Rightarrow> repo_tree) \<Rightarrow> cache_world \<Rightarrow> cache_world \<Rightarrow> bool" for content where
  asked: "cache_step content w (call_cached key w)"
| fetch_ends: "t < length (cw_tasks w) \<Longrightarrow> cw_tasks w ! t = Fetching \<Longrightarrow>
    cache_step content w (w\<lparr> cw_tasks := (cw_tasks w)[t := Fetched (content (cw_fetches w ! t))] \<rparr>)"
| fetch_fails: "t < length (cw_tasks w) \<Longrightarrow> cw_tasks w ! t = Fetching \<Longrightarrow>
    cache_step content w (w\<lparr> cw_tasks := (cw_tasks w)[t := FetchFailed e] \<rparr>)"
| owner_goes_on: "c < length (cw_callers w) \<Longrightarrow> cw_callers w ! c = Owner key t \<Longrightarrow> cw_tasks w ! t \<noteq> Fetching \<Longrightarrow>
    cache_step content w (resume_owner c key t False w)"
| joined_goes_on: "c < length (cw_callers w) \<Longrightarrow> cw_callers w ! c = Joined key t \<Longrightarrow> cw_tasks w ! t \<noteq> Fetching \<Longrightarrow>
    cache_step content w (resume_joined c key t w)"
| owner_cancelled: "c < length (cw_callers w) \<Longrightarrow> cw_callers w ! c = Owner key t \<Longrightarrow> cw_tasks w ! t = Fetching \<Longrightarrow>
    cache_step content w (w\<lparr> cw_tasks := (cw_tasks w)[t := FetchCancelled], cw_asked := c # cw_asked w \<rparr>)"
| owner_cancelled_late: "c < length (cw_callers w) \<Longrightarrow> cw_callers w ! c = Owner key t \<Longrightarrow> cw_tasks w ! t \<noteq> Fetching \<Longrightarrow>
    cache_step content w (resume_owner c key t True (w\<lparr> cw_asked := c # cw_asked w \<rparr>))"
| joined_cancelled: "c < length (cw_callers w) \<Longrightarrow> cw_callers w ! c = Joined key t \<Longrightarrow>
    cache_step content w (w\<lparr> cw_callers := (cw_callers w)[c := Cancelled key], cw_asked := c # cw_asked w \<rparr>)"

inductive cache_reaches :: "(tree_key \<Rightarrow> repo_tree) \<Rightarrow> cache_world \<Rightarrow> bool" for content where
  cache_empty: "cache_reaches content empty_cache"
| cache_next: "cache_reaches content w \<Longrightarrow> cache_step content w w' \<Longrightarrow> cache_reaches content w'"

section \<open>Ordered dictionaries\<close>

lemma map_of_pop_key [simp]: "map_of (pop_key k d) = (map_of d)(k := None)"
  by (induction d) (auto simp: pop_key_def)

lemma set_pop_key: "(k', v) \<in> set (pop_key k d) \<longleftrightarrow> (k', v) \<in> set d \<and> k' \<noteq> k"
  by (auto simp: pop_key_def)

lemma distinct_pop_key: "distinct (map fst d) \<Longrightarrow> distinct (map fst (pop_key k d))"
  by (induction d) (auto simp: pop_key_def)

lemma set_put_key: "set (put_key k v d) \<subseteq> insert (k, v) (set d)"
  by (induction k v d rule: put_key.induct) auto

lemma put_key_in: "(k, v) \<in> set (put_key k v d)"
  by (induction k v d rule: put_key.induct) auto

lemma put_key_other: "(k', x) \<in> set d \<Longrightarrow> k' \<noteq> k \<Longrightarrow> (k', x) \<in> set (put_key k v d)"
  by (induction k v d rule: put_key.induct) auto

lemma fst_put_key: "fst ` set (put_key k v d) = insert k (fst ` set d)"
  by (induction k v d rule: put_key.induct) auto

lemma distinct_put_key: "distinct (map fst d) \<Longrightarrow> distinct (map fst (put_key k v d))"
proof (induction k v d rule: put_key.induct)
  case (2 k v k' v' d)
  then show ?case using fst_put_key[of k v d] by (auto simp flip: set_map)
qed simp

lemma set_move_to_end [simp]: "set (move_to_end k d) = set d"
  by (auto simp: move_to_end_def)

lemma move_to_end_unique: "distinct (map fst d) \<Longrightarrow> map_of d k = Some v \<Longrightarrow> move_to_end k d = pop_key k d @ [(k, v)]"
proof (induction d)
  case (Cons x d)
  have "filter (\<lambda>(k', v). k' = k) d = []" if "fst x = k"
    using Cons.prems that by (auto simp: filter_empty_conv) (metis fst_conv image_eqI)
  with Cons show ?case by (cases x) (auto simp: move_to_end_def pop_key_def filter_id_conv split: if_splits)
qed simp

lemma distinct_move_to_end:
  assumes "distinct (map fst d)" "map_of d k = Some v"
  shows "distinct (map fst (move_to_end k d))"
  using assms distinct_pop_key[of d k] by (auto simp: move_to_end_unique pop_key_def)

lemma length_move_to_end [simp]: "length (move_to_end k d) = length d"
  using sum_length_filter_compl[of "\<lambda>(k', v). k' = k" d] by (simp add: move_to_end_def case_prod_unfold)

lemma evict_bound: "length (evict d) \<le> MAX_ENTRIES"
  by (simp add: evict_def)

lemma set_evict: "set (evict d) \<subseteq> set d"
  by (simp add: evict_def set_drop_subset)

lemma distinct_evict: "distinct (map fst d) \<Longrightarrow> distinct (map fst (evict d))"
  by (simp add: evict_def flip: drop_map)

section \<open>The invariant\<close>

text \<open>What the table holds, what is in flight, and what each caller is waiting for.\<close>

definition trees_ok :: "(tree_key \<Rightarrow> repo_tree) \<Rightarrow> cache_world \<Rightarrow> bool" where
  "trees_ok content w \<longleftrightarrow> distinct (map fst (cw_trees w)) \<and> length (cw_trees w) \<le> MAX_ENTRIES \<and>
     (\<forall>(k, v) \<in> set (cw_trees w). v = content k)"

definition tasks_ok :: "(tree_key \<Rightarrow> repo_tree) \<Rightarrow> cache_world \<Rightarrow> bool" where
  "tasks_ok content w \<longleftrightarrow> length (cw_fetches w) = length (cw_tasks w) \<and> distinct (map fst (cw_inflight w)) \<and>
     (\<forall>(k, t) \<in> set (cw_inflight w). t < length (cw_tasks w) \<and> cw_fetches w ! t = k \<and> Owner k t \<in> set (cw_callers w)) \<and>
     (\<forall>t < length (cw_tasks w). cw_tasks w ! t = Fetching \<longrightarrow> (cw_fetches w ! t, t) \<in> set (cw_inflight w)) \<and>
     (\<forall>t v. t < length (cw_tasks w) \<longrightarrow> cw_tasks w ! t = Fetched v \<longrightarrow> v = content (cw_fetches w ! t))"

fun caller_ok :: "(tree_key \<Rightarrow> repo_tree) \<Rightarrow> cache_world \<Rightarrow> caller_state \<Rightarrow> bool" where
  "caller_ok content w (Owner k t) \<longleftrightarrow> (k, t) \<in> set (cw_inflight w)"
| "caller_ok content w (Joined k t) \<longleftrightarrow> t < length (cw_tasks w) \<and> cw_fetches w ! t = k"
| "caller_ok content w (Returned k v) \<longleftrightarrow> v = content k"
| "caller_ok content w (Raised k e) = True"
| "caller_ok content w (Cancelled k) = True"

definition one_owner :: "caller_state list \<Rightarrow> bool" where
  "one_owner cs \<longleftrightarrow> (\<forall>c c' k t t'. c < length cs \<longrightarrow> c' < length cs \<longrightarrow> cs ! c = Owner k t \<longrightarrow> cs ! c' = Owner k t' \<longrightarrow> c = c')"

lemma one_owner_update:
  assumes "one_owner cs" "\<And>k t. x \<noteq> Owner k t"
  shows "one_owner (cs[c := x])"
  unfolding one_owner_def
proof (intro allI impI)
  fix i j k t t'
  assume i: "i < length (cs[c := x])" "cs[c := x] ! i = Owner k t" and j: "j < length (cs[c := x])" "cs[c := x] ! j = Owner k t'"
  then have "i \<noteq> c" "j \<noteq> c" using assms(2) by (auto simp: nth_list_update)
  with i j have "cs ! i = Owner k t" "cs ! j = Owner k t'" by simp_all
  then show "i = j" using i(1) j(1) assms(1) by (auto simp: one_owner_def)
qed

definition cache_inv :: "(tree_key \<Rightarrow> repo_tree) \<Rightarrow> cache_world \<Rightarrow> bool" where
  "cache_inv content w \<longleftrightarrow> trees_ok content w \<and> tasks_ok content w \<and>
     (\<forall>x \<in> set (cw_callers w). caller_ok content w x) \<and> one_owner (cw_callers w)"

lemma caller_ok_mono:
  assumes "caller_ok content w x" "set (cw_inflight w) \<subseteq> set (cw_inflight w')"
    "length (cw_tasks w) \<le> length (cw_tasks w')" "\<And>t. t < length (cw_tasks w) \<Longrightarrow> cw_fetches w' ! t = cw_fetches w ! t"
  shows "caller_ok content w' x"
  using assms by (cases x) auto

lemma empty_cache_inv: "cache_inv content empty_cache"
  by (simp add: cache_inv_def trees_ok_def tasks_ok_def one_owner_def empty_cache_def)

lemma call_cached_inv:
  assumes "cache_inv content w"
  shows "cache_inv content (call_cached key w)"
proof (cases "map_of (cw_trees w) key")
  case (Some hit)
  then have "hit = content key" using assms by (auto simp: cache_inv_def trees_ok_def dest: map_of_SomeD)
  then show ?thesis
    using assms Some distinct_move_to_end[of "cw_trees w" key hit]
    by (auto simp: cache_inv_def trees_ok_def tasks_ok_def one_owner_def call_cached_def nth_append
        intro: caller_ok_mono split: if_splits)
next
  case None
  note miss = None
  show ?thesis
  proof (cases "map_of (cw_inflight w) key")
    case (Some t)
    then have "(key, t) \<in> set (cw_inflight w)" by (rule map_of_SomeD)
    then show ?thesis using assms miss Some
      by (auto simp: cache_inv_def trees_ok_def tasks_ok_def one_owner_def call_cached_def nth_append
          intro: caller_ok_mono split: if_splits)
  next
    case None
    let ?w = "call_cached key w"
    have w: "?w = w\<lparr> cw_tasks := cw_tasks w @ [Fetching], cw_inflight := put_key key (length (cw_tasks w)) (cw_inflight w),
        cw_callers := cw_callers w @ [Owner key (length (cw_tasks w))], cw_fetches := cw_fetches w @ [key] \<rparr>"
      using miss None by (simp add: call_cached_def Let_def)
    have new: "key \<notin> fst ` set (cw_inflight w)" using None by (simp add: map_of_eq_None_iff)
    have others: "(k, t) \<in> set (put_key key n (cw_inflight w)) \<longleftrightarrow> (k, t) = (key, n) \<or> (k, t) \<in> set (cw_inflight w)" for k t n
      using set_put_key[of key n "cw_inflight w"] put_key_in[of key n "cw_inflight w"] new
        put_key_other[of k t "cw_inflight w" key n] by force
    have inv: "trees_ok content w" "tasks_ok content w" "\<forall>x \<in> set (cw_callers w). caller_ok content w x" "one_owner (cw_callers w)"
      using assms by (simp_all add: cache_inv_def)
    have "trees_ok content ?w" using inv(1) by (simp add: w trees_ok_def)
    moreover have "tasks_ok content ?w"
      unfolding tasks_ok_def
    proof (intro conjI)
      show "distinct (map fst (cw_inflight ?w))" using inv(2) by (simp add: w tasks_ok_def distinct_put_key)
      show "\<forall>(k, t) \<in> set (cw_inflight ?w). t < length (cw_tasks ?w) \<and> cw_fetches ?w ! t = k \<and> Owner k t \<in> set (cw_callers ?w)"
      proof (rule ballI, clarify)
        fix k t assume "(k, t) \<in> set (cw_inflight ?w)"
        then have "(k, t) = (key, length (cw_tasks w)) \<or> (k, t) \<in> set (cw_inflight w)" by (simp add: w others)
        then show "t < length (cw_tasks ?w) \<and> cw_fetches ?w ! t = k \<and> Owner k t \<in> set (cw_callers ?w)"
          using inv(2) by (auto simp: w tasks_ok_def nth_append)
      qed
      show "\<forall>t < length (cw_tasks ?w). cw_tasks ?w ! t = Fetching \<longrightarrow> (cw_fetches ?w ! t, t) \<in> set (cw_inflight ?w)"
        using inv(2) by (simp add: w tasks_ok_def others nth_append less_Suc_eq)
    qed (use inv(2) in \<open>auto simp: w tasks_ok_def nth_append less_Suc_eq\<close>)
    moreover have "\<forall>x \<in> set (cw_callers ?w). caller_ok content ?w x"
    proof
      fix x assume x: "x \<in> set (cw_callers ?w)"
      show "caller_ok content ?w x"
      proof (cases "x = Owner key (length (cw_tasks w))")
        case False
        then have "caller_ok content w x" using x inv(3) by (simp add: w)
        moreover have "length (cw_fetches w) = length (cw_tasks w)" using inv(2) by (simp add: tasks_ok_def)
        moreover have "set (cw_inflight w) \<subseteq> set (cw_inflight ?w)" using others by (auto simp: w)
        ultimately show ?thesis by (intro caller_ok_mono[of content w x ?w]) (simp_all add: w nth_append)
      qed (simp add: w put_key_in)
    qed
    moreover have "one_owner (cw_callers ?w)"
    proof -
      have "cw_callers w ! c \<noteq> Owner key t" if "c < length (cw_callers w)" for c t
        using inv(3) new that nth_mem[OF that] by force
      then show ?thesis using inv(4) by (auto simp: w one_owner_def nth_append less_Suc_eq)
    qed
    ultimately show ?thesis by (simp add: cache_inv_def)
  qed
qed

text \<open>A task ends: only tasks that were fetching change, and none starts to.\<close>

lemma task_ends_inv:
  assumes "cache_inv content w" "t < length (cw_tasks w)" "end \<noteq> Fetching"
    "\<And>v. end = Fetched v \<Longrightarrow> v = content (cw_fetches w ! t)"
  shows "cache_inv content (w\<lparr> cw_tasks := (cw_tasks w)[t := end] \<rparr>)"
proof -
  let ?w = "w\<lparr> cw_tasks := (cw_tasks w)[t := end] \<rparr>"
  have inv: "trees_ok content w" "tasks_ok content w" "\<forall>x \<in> set (cw_callers w). caller_ok content w x" "one_owner (cw_callers w)"
    using assms(1) by (simp_all add: cache_inv_def)
  have "tasks_ok content ?w"
    using inv(2) assms(2-) unfolding tasks_ok_def by (simp add: nth_list_update)
  moreover have "\<forall>x \<in> set (cw_callers ?w). caller_ok content ?w x"
    using inv(3) by (auto intro: caller_ok_mono[of content w])
  ultimately show ?thesis using inv(1,4) by (simp add: cache_inv_def trees_ok_def one_owner_def)
qed

lemma asked_inv [simp]: "cache_inv content (w\<lparr> cw_asked := a \<rparr>) = cache_inv content w"
proof -
  have "caller_ok content (w\<lparr> cw_asked := a \<rparr>) x = caller_ok content w x" for x by (cases x) simp_all
  then show ?thesis by (simp add: cache_inv_def trees_ok_def tasks_ok_def one_owner_def)
qed

lemma other_kept: "c < length xs \<Longrightarrow> xs ! c \<noteq> y \<Longrightarrow> y \<in> set xs \<Longrightarrow> y \<in> set (xs[c := x])"
  by (metis in_set_conv_nth length_list_update nth_list_update_neq)

text \<open>A caller that waits no longer: its place takes a state that asks nothing of the tables.\<close>

fun settled :: "(tree_key \<Rightarrow> repo_tree) \<Rightarrow> caller_state \<Rightarrow> bool" where
  "settled content (Owner k t) = False"
| "settled content (Joined k t) = False"
| "settled content (Returned k v) = (v = content k)"
| "settled content (Raised k e) = True"
| "settled content (Cancelled k) = True"

lemma settled_ok: "settled content x \<Longrightarrow> caller_ok content w x"
  by (cases x) simp_all

lemma joined_settles_inv:
  assumes "cache_inv content w" "c < length (cw_callers w)" "cw_callers w ! c = Joined key t" "settled content x"
  shows "cache_inv content (w\<lparr> cw_callers := (cw_callers w)[c := x] \<rparr>)"
proof -
  let ?w = "w\<lparr> cw_callers := (cw_callers w)[c := x] \<rparr>"
  have inv: "trees_ok content w" "tasks_ok content w" "\<forall>x \<in> set (cw_callers w). caller_ok content w x" "one_owner (cw_callers w)"
    using assms(1) by (simp_all add: cache_inv_def)
  have ow: "Owner k t' \<in> set (cw_callers w) \<Longrightarrow> Owner k t' \<in> set (cw_callers ?w)" for k t'
    using assms(2,3) by (simp add: other_kept)
  have nx: "x \<noteq> Owner k t'" for k t' using assms(4) by auto
  have "tasks_ok content ?w" using inv(2) ow by (auto simp: tasks_ok_def)
  moreover have "\<forall>y \<in> set (cw_callers ?w). caller_ok content ?w y"
  proof
    fix y assume "y \<in> set (cw_callers ?w)"
    then have "y = x \<or> y \<in> set (cw_callers w)"
      using set_update_subset_insert[of "cw_callers w" c x] by auto
    then show "caller_ok content ?w y"
      using inv(3) settled_ok[OF assms(4)] by (auto intro: caller_ok_mono[of content w])
  qed
  moreover have "one_owner (cw_callers ?w)" using inv(4) nx by (simp add: one_owner_update)
  ultimately show ?thesis using inv(1) by (simp add: cache_inv_def trees_ok_def)
qed

lemma owner_settles_inv:
  assumes "cache_inv content w" "c < length (cw_callers w)" "cw_callers w ! c = Owner key t" "settled content x"
    "cw_tasks w ! t \<noteq> Fetching" "trees_ok content (w\<lparr> cw_trees := d \<rparr>)"
  shows "cache_inv content (w\<lparr> cw_inflight := pop_key key (cw_inflight w), cw_trees := d, cw_callers := (cw_callers w)[c := x] \<rparr>)"
proof -
  let ?w = "w\<lparr> cw_inflight := pop_key key (cw_inflight w), cw_trees := d, cw_callers := (cw_callers w)[c := x] \<rparr>"
  have inv: "tasks_ok content w" "\<forall>x \<in> set (cw_callers w). caller_ok content w x" "one_owner (cw_callers w)"
    using assms(1) by (simp_all add: cache_inv_def)
  have mine: "(key, t) \<in> set (cw_inflight w)" using inv(2) assms(2,3) nth_mem[OF assms(2)] by force
  have only: "t' = t" if "(key, t') \<in> set (cw_inflight w)" for t'
    using inv(1) mine that by (meson eq_key_imp_eq_value tasks_ok_def)
  have nx: "x \<noteq> Owner k t'" for k t' using assms(4) by auto
  have ow: "Owner k t' \<in> set (cw_callers w) \<Longrightarrow> k \<noteq> key \<Longrightarrow> Owner k t' \<in> set (cw_callers ?w)" for k t'
    using assms(2,3) by (simp add: other_kept)
  have "tasks_ok content ?w"
    unfolding tasks_ok_def
  proof (intro conjI)
    show "distinct (map fst (cw_inflight ?w))" using inv(1) by (simp add: tasks_ok_def distinct_pop_key)
    show "\<forall>(k, t') \<in> set (cw_inflight ?w). t' < length (cw_tasks ?w) \<and> cw_fetches ?w ! t' = k \<and> Owner k t' \<in> set (cw_callers ?w)"
      using inv(1) ow by (fastforce simp: tasks_ok_def set_pop_key)
    show "\<forall>t' < length (cw_tasks ?w). cw_tasks ?w ! t' = Fetching \<longrightarrow> (cw_fetches ?w ! t', t') \<in> set (cw_inflight ?w)"
      using inv(1) assms(5) only by (fastforce simp: tasks_ok_def set_pop_key)
  qed (use inv(1) in \<open>auto simp: tasks_ok_def\<close>)
  moreover have "caller_ok content ?w y" if "y \<in> set (cw_callers ?w)" for y
  proof (cases "y = x")
    case True
    then show ?thesis using assms(4) by (simp add: settled_ok)
  next
    case False
    from that obtain i where j: "i < length (cw_callers w)" "(cw_callers w)[c := x] ! i = y"
      by (auto simp: in_set_conv_nth)
    with False assms(2) have i: "i < length (cw_callers w)" "cw_callers w ! i = y" "i \<noteq> c"
      by (auto simp: nth_list_update split: if_splits)
    have "y \<noteq> Owner key t'" for t' using inv(3) i assms(2,3) by (auto simp: one_owner_def)
    moreover have "caller_ok content w y" using inv(2) i nth_mem by auto
    ultimately show ?thesis by (cases y) (auto simp: set_pop_key)
  qed
  moreover have "one_owner (cw_callers ?w)" using inv(3) nx by (simp add: one_owner_update)
  ultimately show ?thesis using assms(6) by (simp add: cache_inv_def trees_ok_def)
qed

lemma trees_ok_store:
  assumes "trees_ok content w"
  shows "trees_ok content (w\<lparr> cw_trees := evict (put_key key (content key) (cw_trees w)) \<rparr>)"
  using assms evict_bound[of "put_key key (content key) (cw_trees w)"] set_evict[of "put_key key (content key) (cw_trees w)"]
    set_put_key[of key "content key" "cw_trees w"]
  by (auto simp: trees_ok_def distinct_evict distinct_put_key)

lemma resume_owner_inv:
  assumes "cache_inv content w" "c < length (cw_callers w)" "cw_callers w ! c = Owner key t" "cw_tasks w ! t \<noteq> Fetching"
  shows "cache_inv content (resume_owner c key t cancelled w)"
proof -
  have inv: "trees_ok content w" "tasks_ok content w" "\<forall>x \<in> set (cw_callers w). caller_ok content w x"
    using assms(1) by (simp_all add: cache_inv_def)
  have t: "t < length (cw_tasks w) \<and> cw_fetches w ! t = key"
    using inv assms(2,3) nth_mem[OF assms(2)] by (force simp: tasks_ok_def)
  have same: "trees_ok content (w\<lparr> cw_trees := cw_trees w \<rparr>)" using inv(1) by simp
  note settle = owner_settles_inv[OF assms(1-3) _ assms(4)]
  show ?thesis
  proof (cases "\<exists>tree. cw_tasks w ! t = Fetched tree \<and> \<not> cancelled")
    case True
    then obtain tree where f: "cw_tasks w ! t = Fetched tree" "\<not> cancelled" by blast
    then have tree: "tree = content key" using inv(2) t by (auto simp: tasks_ok_def)
    show ?thesis
      using settle[OF _ trees_ok_store[OF inv(1), of key], of "Returned key tree"] f
      by (simp add: resume_owner_def tree)
  next
    case False
    then show ?thesis
      using settle[OF _ same, of "Cancelled key"] settle[OF _ same, of "Raised key e" for e]
      by (auto simp: resume_owner_def Let_def split: task_state.splits)
  qed
qed

lemma resume_joined_inv:
  assumes "cache_inv content w" "c < length (cw_callers w)" "cw_callers w ! c = Joined key t"
  shows "cache_inv content (resume_joined c key t w)"
proof -
  have "t < length (cw_tasks w) \<and> cw_fetches w ! t = key"
    using assms nth_mem[OF assms(2)] by (force simp: cache_inv_def)
  then have "cw_tasks w ! t = Fetched v \<Longrightarrow> v = content key" for v
    using assms(1) by (auto simp: cache_inv_def tasks_ok_def)
  then show ?thesis unfolding resume_joined_def
    by (intro joined_settles_inv[OF assms]) (auto split: task_state.split)
qed

lemma cache_step_inv: "cache_step content w w' \<Longrightarrow> cache_inv content w \<Longrightarrow> cache_inv content w'"
proof (induction rule: cache_step.induct)
  case (owner_cancelled c w key t)
  then have "t < length (cw_tasks w)" using nth_mem[OF owner_cancelled(1)] by (force simp: cache_inv_def tasks_ok_def)
  then show ?case using task_ends_inv[OF owner_cancelled(4), of t FetchCancelled]
    asked_inv[of content "c # cw_asked w" "w\<lparr> cw_tasks := (cw_tasks w)[t := FetchCancelled] \<rparr>"] by simp
next
  case (owner_cancelled_late c w key t)
  then show ?case by (intro resume_owner_inv) simp_all
next
  case (joined_cancelled c w key t)
  then show ?case using joined_settles_inv[OF joined_cancelled(3,1,2), of "Cancelled key"]
    asked_inv[of content "c # cw_asked w" "w\<lparr> cw_callers := (cw_callers w)[c := Cancelled key] \<rparr>"] by simp
qed (auto intro: call_cached_inv task_ends_inv resume_owner_inv resume_joined_inv)

lemma cache_reaches_inv: "cache_reaches content w \<Longrightarrow> cache_inv content w"
  by (induction rule: cache_reaches.induct) (auto intro: empty_cache_inv cache_step_inv)

section \<open>What the cache promises\<close>

text \<open>
  C14. However callers, fetches, failures and cancellations interleave, a caller that gets a tree gets
  the tree of the key it asked for, the table holds at most four trees, each under its own key, and of
  one key there is never more than one fetch at work.
\<close>

theorem cache_serves_what_was_asked:
  assumes "cache_reaches content w"
  shows "(Returned key tree \<in> set (cw_callers w) \<longrightarrow> tree = content key) \<and>
    length (cw_trees w) \<le> 4 \<and> distinct (map fst (cw_trees w)) \<and>
    (\<forall>t t'. t < length (cw_tasks w) \<longrightarrow> t' < length (cw_tasks w) \<longrightarrow> cw_tasks w ! t = Fetching \<longrightarrow>
      cw_tasks w ! t' = Fetching \<longrightarrow> cw_fetches w ! t = cw_fetches w ! t' \<longrightarrow> t = t')"
proof -
  have inv: "trees_ok content w" "tasks_ok content w" "\<forall>x \<in> set (cw_callers w). caller_ok content w x"
    using cache_reaches_inv[OF assms] by (simp_all add: cache_inv_def)
  have "t = t'" if "t < length (cw_tasks w)" "t' < length (cw_tasks w)" "cw_tasks w ! t = Fetching"
      "cw_tasks w ! t' = Fetching" "cw_fetches w ! t = cw_fetches w ! t'" for t t'
  proof -
    have "(cw_fetches w ! t, t) \<in> set (cw_inflight w)" "(cw_fetches w ! t, t') \<in> set (cw_inflight w)"
      using inv(2) that by (auto simp: tasks_ok_def)
    then show ?thesis using inv(2) by (meson eq_key_imp_eq_value tasks_ok_def)
  qed
  then show ?thesis using inv(1,3) by (auto simp: trees_ok_def MAX_ENTRIES_def)
qed

text \<open>
  A failed fetch is not kept: once the caller that owned it has seen the failure, the next caller
  of the key starts a fetch of its own.
\<close>

theorem failure_is_not_cached:
  assumes "cache_reaches content w" "c < length (cw_callers w)" "cw_callers w ! c = Owner key t"
    "cw_tasks w ! t = FetchFailed e" "map_of (cw_trees w) key = None"
  shows "cw_callers (resume_owner c key t False w) ! c = Raised key e \<and>
    cw_fetches (call_cached key (resume_owner c key t False w)) = cw_fetches w @ [key]"
  using assms(2-) by (simp add: resume_owner_def call_cached_def Let_def)

text \<open>
  The caller that started the fetch does not shield it: cancelling that one caller ends the fetch,
  and every caller that had joined it is cancelled with it, although nobody cancelled them.
\<close>

theorem owner_cancellation_reaches_the_others:
  assumes "cache_reaches content w" "c < length (cw_callers w)" "cw_callers w ! c = Owner key t"
    "cw_tasks w ! t = Fetching" "j < length (cw_callers w)" "cw_callers w ! j = Joined key t" "j \<notin> set (cw_asked w)"
  shows "\<exists>w'. cache_reaches content w' \<and> cw_callers w' ! j = Cancelled key \<and> j \<notin> set (cw_asked w')"
proof -
  let ?w = "w\<lparr> cw_tasks := (cw_tasks w)[t := FetchCancelled], cw_asked := c # cw_asked w \<rparr>"
  have t: "t < length (cw_tasks w)"
    using cache_reaches_inv[OF assms(1)] nth_mem[OF assms(5)] assms(6) by (force simp: cache_inv_def)
  have 1: "cache_reaches content ?w" using assms(1-4) by (auto intro: cache_next owner_cancelled)
  have 2: "cache_step content ?w (resume_joined j key t ?w)" using assms(5,6) t by (intro joined_goes_on) simp_all
  have "c \<noteq> j" using assms(3,6) by auto
  then have "cw_callers (resume_joined j key t ?w) ! j = Cancelled key" "j \<notin> set (cw_asked (resume_joined j key t ?w))"
    using assms(5,7) t by (simp_all add: resume_joined_def)
  with cache_next[OF 1 2] show ?thesis by blast
qed

text \<open>Two sets of exclusions that differ can share a key.\<close>

lemma fetch_keys_collide:
  "fetch_key ref commit (limits\<lparr> tl_exclude := [''a|b''] \<rparr>) = fetch_key ref commit (limits\<lparr> tl_exclude := [''a'', ''b''] \<rparr>)"
  by (simp add: fetch_key_def)

section \<open>Instances\<close>

definition two_callers :: cache_world where
  "two_callers = call_cached [''k''] (call_cached [''k''] empty_cache)"

lemma two_callers_reached: "cache_reaches content two_callers"
  unfolding two_callers_def by (intro cache_next[OF _ asked] cache_empty)

lemma two_callers_simps:
  "cw_callers two_callers = [Owner [''k''] 0, Joined [''k''] 0]" "cw_tasks two_callers = [Fetching]"
  "cw_asked two_callers = []" "cw_trees two_callers = []" "cw_fetches two_callers = [[''k'']]"
  by (simp_all add: two_callers_def call_cached_def empty_cache_def Let_def)

lemma cache_serves_what_was_asked_witness: "length (cw_trees two_callers) \<le> 4 \<and> cw_fetches two_callers = [[''k'']]"
  using cache_serves_what_was_asked[OF two_callers_reached] by (simp add: two_callers_simps)

lemma failure_is_not_cached_witness:
  "cw_fetches (call_cached [''k''] (resume_owner 0 [''k''] 0 False
     (two_callers\<lparr> cw_tasks := (cw_tasks two_callers)[0 := FetchFailed (AdapterError ''down'')] \<rparr>))) = [[''k''], [''k'']]"
proof -
  have r: "cache_reaches (\<lambda>k. \<lparr> rt_commit = [], rt_files = [] \<rparr>)
      (two_callers\<lparr> cw_tasks := (cw_tasks two_callers)[0 := FetchFailed (AdapterError ''down'')] \<rparr>)"
    by (rule cache_next[OF two_callers_reached], rule fetch_fails) (simp_all add: two_callers_simps)
  show ?thesis using failure_is_not_cached[OF r, of 0 "[''k'']" 0 "AdapterError ''down''"]
    by (simp add: two_callers_simps)
qed

lemma owner_cancellation_reaches_the_others_witness:
  "\<exists>w'. cache_reaches (\<lambda>k. \<lparr> rt_commit = [], rt_files = [] \<rparr>) w' \<and> cw_callers w' ! 1 = Cancelled [''k''] \<and> 1 \<notin> set (cw_asked w')"
  by (rule owner_cancellation_reaches_the_others[OF two_callers_reached, of 0 _ 0]) (simp_all add: two_callers_simps)

end
