(* ===== verification/Github.thy ===== *)
theory Github
  imports Rest Tree_Cache
begin

text \<open>
  engine/adapters/scm/github.py over an HTTP platform that is a parameter: what each operation asks, in
  which order, under which credential, and what it makes of the answers.  \<open>read_tree\<close> is the fetch
  behind Tree_Cache.
\<close>

section \<open>The adapter\<close>

record github =
  gh_base_url :: string
  gh_web_url :: string
  gh_env :: adapter_env

definition rstrip_slash :: "string \<Rightarrow> string" where
  "rstrip_slash s = rev (dropWhile (\<lambda>c. c = CHR ''/'') (rev s))"

definition lstrip_slash :: "string \<Rightarrow> string" where
  "lstrip_slash s = dropWhile (\<lambda>c. c = CHR ''/'') s"

definition GITHUB_API_VERSION :: string where
  "GITHUB_API_VERSION = ''2022-11-28''"

definition new_github :: "adapter_env \<Rightarrow> string \<Rightarrow> string \<Rightarrow> github" where
  "new_github env base_url web_url =
     \<lparr> gh_base_url = rstrip_slash base_url, gh_web_url = rstrip_slash web_url, gh_env = env \<rparr>"

definition gh_client :: "github \<Rightarrow> repo_ref \<Rightarrow> credential_kind \<Rightarrow> rest_client res" where
  "gh_client g ref kind =
     and_then (adapter_token (gh_env g) kind (repo_realm ref)) (\<lambda>token.
       Inr (new_client (gh_base_url g) (bearer_auth_header token)
         [(''Accept'', ''application/vnd.github+json''), (''X-GitHub-Api-Version'', GITHUB_API_VERSION)]))"

text \<open>\<open>async with await self._client(ref, kind) as client\<close>.\<close>

definition gh_with :: "github \<Rightarrow> repo_ref \<Rightarrow> credential_kind \<Rightarrow> (rest_client \<Rightarrow> ('s, 'a) rest) \<Rightarrow> ('s, 'a) rest" where
  "gh_with g ref kind k = rest_bind (rest_pure (gh_client g ref kind)) k"

definition gh_repo :: "repo_ref \<Rightarrow> string" where
  "gh_repo ref = ''/repos/'' @ rref_org ref @ ''/'' @ rref_repo ref"

definition repo_name :: "repo_ref \<Rightarrow> string" where
  "repo_name ref = rref_org ref @ ''/'' @ rref_repo ref"

definition adapter_error :: "string \<Rightarrow> ('s, 'a) rest" where
  "adapter_error m = rest_pure (Inl (AdapterError m))"

text \<open>\<open>head.get("object", {}).get("sha") if isinstance(head, dict) else None\<close>.\<close>

definition nested_sha :: "string \<Rightarrow> json \<Rightarrow> json res" where
  "nested_sha key v = (if is_obj v then and_then (obj_get v key (JObj [])) (\<lambda>ob. obj_get ob ''sha'' JNull) else Inr JNull)"

section \<open>Reading\<close>

definition gh_default_branch :: "'s platform \<Rightarrow> github \<Rightarrow> repo_ref \<Rightarrow> ('s, branch_ref) rest" where
  "gh_default_branch host g ref =
     gh_with g ref SCM_READ (\<lambda>client.
       rest_bind (rest_get host client (gh_repo ref) []) (\<lambda>repo.
       if \<not> has_key repo ''default_branch'' then
         adapter_error (''repository '' @ repo_name ref @ '' returned no default branch'')
       else let name = json_str (json_get repo ''default_branch'')
       in rest_bind (rest_catch (rest_get host client (gh_repo ref @ ''/git/ref/heads/'' @ name) [])
            (\<lambda>e. case e of
               NotFound m \<Rightarrow> Some (adapter_error (repo_name ref @ '' has no commit on '' @ name
                 @ '': the repository is empty. KuWarden pins a base commit before it edits anything, so there must be ''
                 @ ''at least one commit to branch from.''))
             | _ \<Rightarrow> None)) (\<lambda>head.
          rest_bind (rest_pure (nested_sha ''object'' head)) (\<lambda>sha.
          if \<not> json_truthy sha then
            adapter_error (''branch '' @ name @ '' of '' @ rref_repo ref @ '' resolved to no commit'')
          else rest_pure (Inr \<lparr> br_name = name, br_commit = json_str sha \<rparr>)))))"

text \<open>\<open>str(exc)\<close> of an adapter error, which carries its message.\<close>

fun error_text :: "error \<Rightarrow> string" where
  "error_text (AdapterError m) = m"
| "error_text (PermissionDenied m) = m"
| "error_text (NotFound m) = m"
| "error_text (OtherError t m) = m"
| "error_text e = []"

text \<open>The answer of a probe and what it adds to \<open>detail\<close>.\<close>

definition gh_environment_count :: "'s platform \<Rightarrow> github \<Rightarrow> repo_ref \<Rightarrow> ('s, int \<times> string) rest" where
  "gh_environment_count host g ref =
     rest_bind (rest_catch
       (rest_bind (gh_with g ref SCM_READ (\<lambda>client. rest_get host client (gh_repo ref @ ''/environments'') []))
          (\<lambda>payload. rest_pure (Inr (Inr payload))))
       (\<lambda>e. if is_adapter_error e then Some (rest_pure (Inr (Inl (''unavailable: '' @ error_text e)))) else None)) (\<lambda>got.
     case got of
       Inl m \<Rightarrow> rest_pure (Inr (0, m))
     | Inr payload \<Rightarrow>
         rest_bind (rest_pure (if is_obj payload then and_then (obj_get payload ''total_count'' (JInt 0)) json_int else Inr 0))
           (\<lambda>n. rest_pure (Inr (n, if n \<noteq> 0 then string_of_int n @ '' configured''
             else ''endpoint reachable, but no environment is configured - there is no ''
               @ ''deployment for a protection rule to pause''))))"

definition gh_probe_endpoint :: "'s platform \<Rightarrow> github \<Rightarrow> repo_ref \<Rightarrow> string \<Rightarrow> ('s, bool \<times> string) rest" where
  "gh_probe_endpoint host g ref path =
     rest_catch
       (rest_bind (gh_with g ref SCM_READ (\<lambda>client. rest_get host client path [])) (\<lambda>v. rest_pure (Inr (True, ''available''))))
       (\<lambda>e. if \<not> is_adapter_error e then None
            else Some (rest_pure (Inr (False, ''unavailable: '' @ error_text e
              @ (case e of
                   NotFound m \<Rightarrow> '' - a 404 means either no rule is configured or the token ''
                     @ ''lacks admin scope; GitHub does not distinguish them''
                 | _ \<Rightarrow> [])))))"

definition gh_probe :: "'s platform \<Rightarrow> github \<Rightarrow> repo_ref \<Rightarrow> ('s, scm_capabilities) rest" where
  "gh_probe host g ref =
     rest_bind (gh_environment_count host g ref) (\<lambda>(environments, environments_detail).
     rest_bind (gh_default_branch host g ref) (\<lambda>branch.
     rest_bind (gh_probe_endpoint host g ref (gh_repo ref @ ''/branches/'' @ br_name branch @ ''/protection''))
       (\<lambda>(protection, protection_detail).
     rest_pure (Inr \<lparr> sc_deployment_protection = (environments > 0), sc_required_status_checks = protection,
       sc_restrictable_pipeline_triggers = False,
       sc_detail = [(''environments'', environments_detail), (''branch_protection'', protection_detail),
         (''workflow_triggers'', ''not probed - requires operator attestation that merge does not deploy'')] \<rparr>))))"

text \<open>The keys with a true value, sorted.\<close>

definition insert_code :: "string \<Rightarrow> string list \<Rightarrow> string list" where
  "insert_code x xs = takeWhile (\<lambda>y. \<not> code_le x y) xs @ x # dropWhile (\<lambda>y. \<not> code_le x y) xs"

definition granted_of :: "json \<Rightarrow> string list" where
  "granted_of permissions = (case permissions of
     JObj kvs \<Rightarrow> foldr insert_code (map fst (filter (\<lambda>(k, v). json_truthy v) kvs)) []
   | _ \<Rightarrow> [])"

definition gh_write_access :: "'s platform \<Rightarrow> github \<Rightarrow> repo_ref \<Rightarrow> ('s, bool option \<times> string) rest" where
  "gh_write_access host g ref =
     rest_bind (rest_catch
       (rest_bind (gh_with g ref SCM_READ (\<lambda>client. rest_get host client (gh_repo ref) [])) (\<lambda>v. rest_pure (Inr (Inr v))))
       (\<lambda>e. if is_adapter_error e then Some (rest_pure (Inr (Inl (error_text e)))) else None)) (\<lambda>got.
     case got of
       Inl m \<Rightarrow> rest_pure (Inr (Some False, m))
     | Inr repo \<Rightarrow>
         let permissions = json_get repo ''permissions''
         in if \<not> is_obj permissions then rest_pure (Inr (None, ''GitHub returned no permissions block''))
            else if \<not> json_truthy (json_get permissions ''push'') then
              rest_pure (Inr (Some False, ''this account has no push role on the repository (granted: ''
                @ (if granted_of permissions = [] then ''none'' else py_join '', '' (granted_of permissions)) @ '')''))
            else rest_pure (Inr (None,
              ''not verifiable without writing. GitHub reports the account's role, not the ''
              @ ''token's grant, so a fine-grained token scoped to Contents: Read looks identical ''
              @ ''here. Confirm Contents: Read and write on the token itself'')))"

text \<open>The loop over the listing's entries; each blob costs one request.\<close>

definition wanted_blob :: "tree_limits \<Rightarrow> json \<Rightarrow> bool res" where
  "wanted_blob limits entry =
     and_then (obj_get entry ''type'' JNull) (\<lambda>t.
       if t \<noteq> JStr ''blob'' then Inr False
       else and_then (obj_item entry ''path'') (\<lambda>p. Inr (\<not> excluded (json_str p) limits)))"

definition decode_content :: "json \<Rightarrow> string res" where
  "decode_content v = (case v of
     JStr s \<Rightarrow> b64decode s
   | _ \<Rightarrow> Inl (OtherError ''TypeError'' ''argument should be a bytes-like object or ASCII string''))"

definition fetch_blob :: "'s platform \<Rightarrow> rest_client \<Rightarrow> repo_ref \<Rightarrow> tree_limits \<Rightarrow> json \<Rightarrow> ('s, string \<times> string) rest" where
  "fetch_blob host client ref limits entry =
     rest_bind (rest_pure (obj_item entry ''path'')) (\<lambda>p.
     rest_bind (rest_pure (and_then (obj_get entry ''size'' (JInt 0)) json_int)) (\<lambda>bytes.
     rest_bind (rest_pure (check_file_size (json_str p) bytes limits)) (\<lambda>u.
     rest_bind (rest_pure (obj_item entry ''sha'')) (\<lambda>sha.
     rest_bind (rest_get host client (gh_repo ref @ ''/git/blobs/'' @ json_str sha) []) (\<lambda>blob.
     rest_bind (rest_pure (and_then (obj_get blob ''content'' (JStr [])) decode_content)) (\<lambda>content.
     rest_pure (Inr (json_str p, content))))))))"

definition gh_read_tree :: "'s platform \<Rightarrow> github \<Rightarrow> repo_ref \<Rightarrow> string \<Rightarrow> tree_limits \<Rightarrow> ('s, repo_tree) rest" where
  "gh_read_tree host g ref commit bounds =
     rest_bind (gh_with g ref SCM_READ (\<lambda>client.
       rest_bind (rest_get host client (gh_repo ref @ ''/git/trees/'' @ commit) [(''recursive'', ''1'')]) (\<lambda>listing.
       if \<not> is_obj listing then adapter_error (''unexpected tree payload for '' @ commit)
       else if json_truthy (json_get listing ''truncated'') then
         rest_pure (tree_too_large (''GitHub truncated the tree for '' @ repo_name ref @ '' at '' @ take 8 commit
           @ ''; the repository is too large to read in one request and a partial tree must not reach a Coder''))
       else
         rest_bind (rest_pure (and_then (obj_get listing ''tree'' (JList [])) json_iter)) (\<lambda>entries.
         rest_bind (rest_pure (res_filter (wanted_blob bounds) entries)) (\<lambda>blobs.
         rest_bind (rest_pure (check_file_count (length blobs) bounds (repo_name ref))) (\<lambda>u.
         rest_map (fetch_blob host client ref bounds) blobs)))))) (\<lambda>files.
     rest_pure (finish_tree commit (dict_of files) bounds (repo_name ref)))"

definition gh_branch_tip :: "'s platform \<Rightarrow> rest_client \<Rightarrow> repo_ref \<Rightarrow> string \<Rightarrow> ('s, branch_ref option) rest" where
  "gh_branch_tip host client ref branch =
     rest_bind (rest_catch (rest_bind (rest_get host client (gh_repo ref @ ''/git/ref/heads/'' @ branch) [])
         (\<lambda>head. rest_pure (Inr (Some head))))
       (\<lambda>e. case e of NotFound m \<Rightarrow> Some (rest_pure (Inr None)) | _ \<Rightarrow> None)) (\<lambda>found.
     case found of
       None \<Rightarrow> rest_pure (Inr None)
     | Some head \<Rightarrow>
         rest_bind (rest_pure (nested_sha ''object'' head)) (\<lambda>sha.
         if \<not> json_truthy sha then adapter_error (''branch '' @ branch @ '' exists but resolved to no commit'')
         else rest_pure (Inr (Some \<lparr> br_name = branch, br_commit = json_str sha \<rparr>))))"

definition gh_commit_message :: "'s platform \<Rightarrow> rest_client \<Rightarrow> repo_ref \<Rightarrow> string \<Rightarrow> ('s, string) rest" where
  "gh_commit_message host client ref commit =
     rest_bind (rest_get host client (gh_repo ref @ ''/git/commits/'' @ commit) []) (\<lambda>payload.
     rest_pure (Inr (case payload of JObj kvs \<Rightarrow> get_str kvs ''message'' | _ \<Rightarrow> [])))"

section \<open>Pushing\<close>

text \<open>
  \<open>gh_push_check\<close> is \<open>_push\<close> up to its first write: the tip it found, and whether the push has landed
  already.  \<open>gh_push_write\<close> is the rest.
\<close>

datatype push_check = AlreadyPushed branch_ref | ToPush "branch_ref option"

definition gh_push_check :: "'s platform \<Rightarrow> rest_client \<Rightarrow> repo_ref \<Rightarrow> branch_ref \<Rightarrow> string \<Rightarrow> string \<Rightarrow> string option
    \<Rightarrow> ('s, push_check) rest" where
  "gh_push_check host client ref base branch message parent =
     rest_bind (gh_branch_tip host client ref branch) (\<lambda>existing.
     case existing of
       None \<Rightarrow> rest_pure (Inr (ToPush None))
     | Some tip \<Rightarrow>
         rest_bind (gh_commit_message host client ref (br_commit tip)) (\<lambda>m.
         if m = message then rest_pure (Inr (AlreadyPushed tip))
         else let expected = or_else parent (br_commit base)
         in if br_commit tip \<noteq> expected then
              adapter_error (''branch '' @ branch @ '' is at '' @ take 8 (br_commit tip) @ '', not the ''
                @ take 8 expected @ '' this push was built on; refusing to overwrite work this run did not do'')
            else rest_pure (Inr (ToPush (Some tip)))))"

definition tree_entry :: "string \<Rightarrow> json \<Rightarrow> json" where
  "tree_entry path sha = JObj [(''path'', JStr (lstrip_slash path)), (''mode'', JStr ''100644''),
     (''type'', JStr ''blob''), (''sha'', sha)]"

definition gh_tree_entry :: "'s platform \<Rightarrow> rest_client \<Rightarrow> repo_ref \<Rightarrow> file_edit \<Rightarrow> ('s, json) rest" where
  "gh_tree_entry host client ref edit =
     (if fe_deleted edit then rest_pure (Inr (tree_entry (fe_path edit) JNull))
      else
        rest_bind (rest_post host client (gh_repo ref @ ''/git/blobs'') []
          (JObj [(''content'', JStr (b64encode (fe_content edit))), (''encoding'', JStr ''base64'')])) (\<lambda>blob.
        rest_bind (rest_pure (obj_item blob ''sha'')) (\<lambda>sha. rest_pure (Inr (tree_entry (fe_path edit) sha)))))"

text \<open>Up to the commit, and then the branch.\<close>

definition gh_push_commit :: "'s platform \<Rightarrow> rest_client \<Rightarrow> repo_ref \<Rightarrow> branch_ref \<Rightarrow> string \<Rightarrow> file_edit list
    \<Rightarrow> string option \<Rightarrow> ('s, json) rest" where
  "gh_push_commit host client ref base message edits parent =
     rest_bind (rest_get host client (gh_repo ref @ ''/git/commits/'' @ br_commit base) []) (\<lambda>base_commit.
     rest_bind (rest_pure (nested_sha ''tree'' base_commit)) (\<lambda>base_tree.
     if \<not> json_truthy base_tree then adapter_error (''commit '' @ br_commit base @ '' has no tree'')
     else
       rest_bind (rest_map (gh_tree_entry host client ref) edits) (\<lambda>entries.
       rest_bind (rest_post host client (gh_repo ref @ ''/git/trees'') []
         (JObj [(''base_tree'', base_tree), (''tree'', JList entries)])) (\<lambda>tree.
       rest_bind (rest_pure (obj_item tree ''sha'')) (\<lambda>tree_sha.
       rest_bind (rest_post host client (gh_repo ref @ ''/git/commits'') []
         (JObj [(''message'', JStr message), (''tree'', tree_sha),
            (''parents'', JList [JStr (or_else parent (br_commit base))])])) (\<lambda>commit.
       rest_pure (obj_item commit ''sha'')))))))"

definition gh_move_branch :: "'s platform \<Rightarrow> rest_client \<Rightarrow> repo_ref \<Rightarrow> string \<Rightarrow> branch_ref option \<Rightarrow> json \<Rightarrow> ('s, json) rest" where
  "gh_move_branch host client ref branch existing commit_sha =
    (case existing of
       None \<Rightarrow> rest_post host client (gh_repo ref @ ''/git/refs'') []
         (JObj [(''ref'', JStr (''refs/heads/'' @ branch)), (''sha'', commit_sha)])
     | Some tip \<Rightarrow> rest_patch host client (gh_repo ref @ ''/git/refs/heads/'' @ branch)
         (JObj [(''sha'', commit_sha), (''force'', JBool False)]))"

definition gh_push_write :: "'s platform \<Rightarrow> rest_client \<Rightarrow> repo_ref \<Rightarrow> branch_ref \<Rightarrow> string \<Rightarrow> string \<Rightarrow> file_edit list
    \<Rightarrow> string option \<Rightarrow> branch_ref option \<Rightarrow> ('s, branch_ref) rest" where
  "gh_push_write host client ref base branch message edits parent existing =
     rest_bind (gh_push_commit host client ref base message edits parent) (\<lambda>commit_sha.
     rest_bind (gh_move_branch host client ref branch existing commit_sha) (\<lambda>moved.
     rest_pure (Inr \<lparr> br_name = branch, br_commit = json_str commit_sha \<rparr>)))"

definition permission_hint :: "string \<Rightarrow> error \<Rightarrow> ('s, 'a) rest option" where
  "permission_hint hint e = (case e of
     PermissionDenied m \<Rightarrow> Some (rest_pure (Inl (PermissionDenied (m @ nl @ nl @ hint))))
   | _ \<Rightarrow> None)"

definition gh_push :: "'s platform \<Rightarrow> github \<Rightarrow> repo_ref \<Rightarrow> branch_ref \<Rightarrow> string \<Rightarrow> string \<Rightarrow> file_edit list
    \<Rightarrow> string option \<Rightarrow> ('s, branch_ref) rest" where
  "gh_push host g ref base branch message edits parent =
     gh_with g ref SCM_WRITE_BRANCH (\<lambda>client.
       rest_bind (gh_push_check host client ref base branch message parent) (\<lambda>checked.
       case checked of
         AlreadyPushed tip \<Rightarrow> rest_pure (Inr tip)
       | ToPush existing \<Rightarrow> gh_push_write host client ref base branch message edits parent existing))"

definition push_grant :: "repo_ref \<Rightarrow> string" where
  "push_grant ref = ''This needs Contents: Read and write on '' @ repo_name ref
     @ ''. A token with Contents: Read can fetch the tree '' @ [em_dash]
     @ '' which is why the earlier nodes succeeded '' @ [em_dash] @ '' but cannot write a branch.''"

definition gh_push_change :: "'s platform \<Rightarrow> github \<Rightarrow> repo_ref \<Rightarrow> branch_ref \<Rightarrow> string \<Rightarrow> string \<Rightarrow> file_edit list
    \<Rightarrow> string option \<Rightarrow> ('s, branch_ref) rest" where
  "gh_push_change host g ref base branch message edits parent =
    (if edits = [] then adapter_error ''refusing to push an empty change''
     else rest_catch (gh_push host g ref base branch message edits parent) (permission_hint (push_grant ref)))"

lemma permission_hint_run:
  "snd (rest_catch m (permission_hint hint) w) = snd (m w)"
  "fst (rest_catch m (permission_hint hint) w) = Inr x \<longleftrightarrow> fst (m w) = Inr x"
  by (auto simp: rest_catch_def permission_hint_def rest_pure_def split: prod.splits sum.splits option.splits error.splits)

section \<open>Pull requests, branches, previews\<close>

definition gh_delete_branch :: "'s platform \<Rightarrow> github \<Rightarrow> repo_ref \<Rightarrow> string \<Rightarrow> ('s, bool) rest" where
  "gh_delete_branch host g ref branch =
     rest_catch
       (rest_bind (gh_with g ref SCM_WRITE_BRANCH (\<lambda>client.
          rest_delete host client (gh_repo ref @ ''/git/refs/heads/'' @ branch))) (\<lambda>v. rest_pure (Inr True)))
       (\<lambda>e. case e of NotFound m \<Rightarrow> Some (rest_pure (Inr False)) | _ \<Rightarrow> None)"

definition gh_merge_pull_request :: "'s platform \<Rightarrow> github \<Rightarrow> repo_ref \<Rightarrow> string \<Rightarrow> string \<Rightarrow> ('s, string) rest" where
  "gh_merge_pull_request host g ref number commit =
     rest_bind (rest_catch
       (gh_with g ref SCM_MERGE (\<lambda>client.
          rest_put host client (gh_repo ref @ ''/pulls/'' @ number @ ''/merge'')
            (JObj [(''sha'', JStr commit), (''merge_method'', JStr ''squash'')])))
       (permission_hint (''This needs Contents: Read and write on '' @ repo_name ref
          @ '', and the branch protection rules on the target branch must admit this account.''))) (\<lambda>merged.
     if \<not> is_obj merged \<or> \<not> json_truthy (json_get merged ''merged'') then
       adapter_error (''pull request '' @ number @ '' was not merged: ''
         @ json_repr (if is_obj merged then json_get merged ''message'' else merged))
     else rest_pure (Inr (json_str (json_or (json_get merged ''sha'') (JStr [])))))"

definition gh_open_pull_request :: "'s platform \<Rightarrow> github \<Rightarrow> repo_ref \<Rightarrow> string \<Rightarrow> string \<Rightarrow> string \<Rightarrow> string
    \<Rightarrow> ('s, pull_request) rest" where
  "gh_open_pull_request host g ref source target title description =
     rest_bind (rest_catch
       (gh_with g ref SCM_PULL_REQUEST (\<lambda>client.
          rest_post host client (gh_repo ref @ ''/pulls'') []
            (JObj [(''head'', JStr source), (''base'', JStr target), (''title'', JStr title), (''body'', JStr description)])))
       (permission_hint (''This needs Pull requests: Read and write on '' @ repo_name ref @ ''.''))) (\<lambda>created.
     if \<not> has_key created ''number'' then adapter_error ''pull request creation returned no number''
     else let number = json_str (json_get created ''number'')
     in rest_pure (Inr \<lparr> pr_id = number,
          pr_url = json_str (json_or (json_get created ''html_url'')
            (JStr (gh_web_url g @ ''/'' @ repo_name ref @ ''/pull/'' @ number))),
          pr_source_branch = source \<rparr>))"

text \<open>The first successful status that carries an address.\<close>

fun first_url :: "json list \<Rightarrow> string option res" where
  "first_url [] = Inr None"
| "first_url (status # rest) =
     and_then (obj_get status ''state'' JNull) (\<lambda>st.
       if st \<noteq> JStr ''success'' then first_url rest
       else and_then (obj_get status ''environment_url'' JNull) (\<lambda>url.
         if json_truthy url then Inr (Some (json_str url)) else first_url rest))"

definition gh_preview_url :: "'s platform \<Rightarrow> github \<Rightarrow> repo_ref \<Rightarrow> string \<Rightarrow> ('s, string option) rest" where
  "gh_preview_url host g ref commit =
     rest_catch
       (gh_with g ref SCM_READ (\<lambda>client.
          rest_bind (rest_get host client (gh_repo ref @ ''/deployments'') [(''sha'', commit), (''per_page'', ''1'')])
            (\<lambda>deployments.
          case json_items deployments of
            [] \<Rightarrow> rest_pure (Inr None)
          | row # rows \<Rightarrow>
              rest_bind (rest_pure (obj_item row ''id'')) (\<lambda>i.
              rest_bind (rest_get host client (gh_repo ref @ ''/deployments/'' @ json_str i @ ''/statuses'') [(''per_page'', ''10'')])
                (\<lambda>statuses. rest_pure (first_url (json_items statuses)))))))
       (\<lambda>e. Some (rest_pure (Inr None)))"

section \<open>What each operation sends\<close>

definition is_get :: "http_request \<Rightarrow> bool" where
  "is_get q \<longleftrightarrow> hq_method q = ''GET''"

lemma is_get_request [simp]:
  "is_get (request_of c ''GET'' url params body ct)" "hq_method (request_of c verb url params body ct) = verb"
  "hq_json (request_of c verb url params body ct) = body" "hq_url (request_of c verb url params body ct) = url"
  by (simp_all add: is_get_def request_of_def)

lemma sends_with [sends_intros]: "(\<And>c. sends P (k c)) \<Longrightarrow> sends P (gh_with g ref kind k)"
  by (simp add: gh_with_def sends_intros)

lemma sends_get [sends_intros]: "sends is_get (rest_get host c url params)"
  by (simp add: rest_get_def sends_intros)

lemma sends_adapter_error [sends_intros]: "sends P (adapter_error m)"
  by (simp add: adapter_error_def sends_intros)

lemma sends_hint: "permission_hint hint e = Some k \<Longrightarrow> sends P k"
  by (auto simp: permission_hint_def intro: sends_intros split: error.splits)

lemma sends_branch_tip: "sends is_get (gh_branch_tip host c ref branch)"
  unfolding gh_branch_tip_def
  by (intro sends_intros) (auto intro: sends_intros split: error.splits)

lemma sends_push_check: "sends is_get (gh_push_check host c ref base branch message parent)"
  unfolding gh_push_check_def gh_commit_message_def Let_def
  by (intro sends_intros sends_branch_tip)

text \<open>The reading operations.\<close>

lemma sends_reading:
  "sends is_get (gh_default_branch host g ref)" "sends is_get (gh_read_tree host g ref commit bounds)"
  "sends is_get (gh_preview_url host g ref commit)" "sends is_get (gh_write_access host g ref)"
  "sends is_get (gh_probe host g ref)"
proof -
  show d: "sends is_get (gh_default_branch host g ref)"
    unfolding gh_default_branch_def Let_def by (intro sends_intros) (auto intro: sends_intros split: error.splits)
  show "sends is_get (gh_read_tree host g ref commit bounds)"
    unfolding gh_read_tree_def fetch_blob_def by (intro sends_intros)
  show "sends is_get (gh_preview_url host g ref commit)"
    unfolding gh_preview_url_def by (intro sends_intros) (auto intro: sends_intros split: list.splits)
  show "sends is_get (gh_write_access host g ref)"
    unfolding gh_write_access_def Let_def by (intro sends_intros) (auto intro: sends_intros split: sum.splits if_splits)
  show "sends is_get (gh_probe host g ref)"
    unfolding gh_probe_def gh_environment_count_def gh_probe_endpoint_def case_prod_unfold
    by (intro sends_intros d) (auto intro: sends_intros split: sum.splits if_splits)
qed

end
