(* ===== verification/Git_Api.thy ===== *)
theory Git_Api
  imports Github
begin

text \<open>
  What GitHub documents of the Git Data API, as a law on the platform parameter: an answer that is no
  error tells the truth about the store and has the documented effect on it; after an error the effect
  may or may not have happened.  \<open>view\<close> reads the store out of the platform's state.
\<close>

section \<open>The store\<close>

record git_commit =
  gc_tree :: string
  gc_parents :: "string list"
  gc_message :: string

record git_store =
  gs_blobs :: "string \<Rightarrow> string option"
  gs_trees :: "string \<Rightarrow> (string \<Rightarrow> string option) option"
  gs_commits :: "string \<Rightarrow> git_commit option"
  gs_refs :: "string \<Rightarrow> string option"

text \<open>The content of a path of a tree, and of a path at a commit.\<close>

definition tree_content :: "git_store \<Rightarrow> string \<Rightarrow> string \<Rightarrow> string option" where
  "tree_content st tree path = Option.bind (Option.bind (gs_trees st tree) (\<lambda>m. m path)) (gs_blobs st)"

definition commit_content :: "git_store \<Rightarrow> string \<Rightarrow> string \<Rightarrow> string option" where
  "commit_content st commit path =
     Option.bind (gs_commits st commit) (\<lambda>c. tree_content st (gc_tree c) path)"

text \<open>One entry of a \<open>tree\<close> request: a blob, or \<open>null\<close> to remove the path.\<close>

definition lay_entry :: "json \<Rightarrow> (string \<Rightarrow> string option) \<Rightarrow> string \<Rightarrow> string option" where
  "lay_entry e m =
    (case (json_get e ''path'', json_get e ''sha'') of
       (JStr p, JStr s) \<Rightarrow> m(p := Some s)
     | (JStr p, JNull) \<Rightarrow> m(p := None)
     | _ \<Rightarrow> m)"

text \<open>The listing of a tree: one blob entry for each path.\<close>

definition lists_tree :: "(string \<Rightarrow> string option) \<Rightarrow> json list \<Rightarrow> bool" where
  "lists_tree m es \<longleftrightarrow>
     (\<forall>e \<in> set es. json_get e ''type'' = JStr ''blob'' \<longrightarrow>
        (\<exists>p s. json_get e ''path'' = JStr p \<and> json_get e ''sha'' = JStr s \<and> m p = Some s)) \<and>
     (\<forall>p s. m p = Some s \<longrightarrow> (\<exists>e \<in> set es. json_get e ''type'' = JStr ''blob'' \<and> json_get e ''path'' = JStr p))"

section \<open>Documented effects\<close>

inductive git_effect :: "string \<Rightarrow> http_request \<Rightarrow> git_store \<Rightarrow> json \<Rightarrow> git_store \<Rightarrow> bool" for R q st where
  read_ref: "hq_method q = ''GET'' \<Longrightarrow> hq_url q = R @ ''/git/ref/heads/'' @ b \<Longrightarrow> gs_refs st b = Some c \<Longrightarrow> c \<noteq> [] \<Longrightarrow>
    nested_sha ''object'' v = Inr (JStr c) \<Longrightarrow> git_effect R q st v st"
| read_commit: "hq_method q = ''GET'' \<Longrightarrow> hq_url q = R @ ''/git/commits/'' @ c \<Longrightarrow> gs_commits st c = Some cm \<Longrightarrow>
    gc_tree cm \<noteq> [] \<Longrightarrow> nested_sha ''tree'' v = Inr (JStr (gc_tree cm)) \<Longrightarrow> v = JObj kvs \<Longrightarrow>
    get_str kvs ''message'' = gc_message cm \<Longrightarrow> git_effect R q st v st"
| read_listing: "hq_method q = ''GET'' \<Longrightarrow> hq_url q = R @ ''/git/trees/'' @ c \<Longrightarrow> gs_commits st c = Some cm \<Longrightarrow>
    gs_trees st (gc_tree cm) = Some m \<Longrightarrow> json_truthy (json_get v ''truncated'') \<or>
      (\<exists>es. json_get v ''tree'' = JList es \<and> lists_tree m es) \<Longrightarrow> git_effect R q st v st"
| read_blob: "hq_method q = ''GET'' \<Longrightarrow> hq_url q = R @ ''/git/blobs/'' @ s \<Longrightarrow> gs_blobs st s = Some content \<Longrightarrow>
    json_get v ''content'' = JStr wrapped \<Longrightarrow> filter b64_relevant wrapped = b64encode content \<Longrightarrow> git_effect R q st v st"
| new_blob: "hq_method q = ''POST'' \<Longrightarrow> hq_url q = R @ ''/git/blobs'' \<Longrightarrow> hq_json q = Some body \<Longrightarrow>
    json_get body ''encoding'' = JStr ''base64'' \<Longrightarrow> json_get body ''content'' = JStr text \<Longrightarrow> b64decode text = Inr content \<Longrightarrow>
    obj_item v ''sha'' = Inr (JStr s) \<Longrightarrow> gs_blobs st s = None \<or> gs_blobs st s = Some content \<Longrightarrow>
    git_effect R q st v (st\<lparr> gs_blobs := (gs_blobs st)(s := Some content) \<rparr>)"
| new_tree: "hq_method q = ''POST'' \<Longrightarrow> hq_url q = R @ ''/git/trees'' \<Longrightarrow> hq_json q = Some body \<Longrightarrow>
    json_get body ''base_tree'' = JStr bt \<Longrightarrow> gs_trees st bt = Some m \<Longrightarrow> json_get body ''tree'' = JList es \<Longrightarrow>
    obj_item v ''sha'' = Inr (JStr s) \<Longrightarrow> gs_trees st s = None \<or> gs_trees st s = Some (fold lay_entry es m) \<Longrightarrow>
    git_effect R q st v (st\<lparr> gs_trees := (gs_trees st)(s := Some (fold lay_entry es m)) \<rparr>)"
| new_commit: "hq_method q = ''POST'' \<Longrightarrow> hq_url q = R @ ''/git/commits'' \<Longrightarrow> hq_json q = Some body \<Longrightarrow>
    json_get body ''message'' = JStr msg \<Longrightarrow> json_get body ''tree'' = JStr t \<Longrightarrow>
    json_get body ''parents'' = JList (map JStr ps) \<Longrightarrow> obj_item v ''sha'' = Inr (JStr s) \<Longrightarrow>
    gs_commits st s = None \<or> gs_commits st s = Some \<lparr> gc_tree = t, gc_parents = ps, gc_message = msg \<rparr> \<Longrightarrow>
    git_effect R q st v (st\<lparr> gs_commits := (gs_commits st)(s := Some \<lparr> gc_tree = t, gc_parents = ps, gc_message = msg \<rparr>) \<rparr>)"
| new_ref: "hq_method q = ''POST'' \<Longrightarrow> hq_url q = R @ ''/git/refs'' \<Longrightarrow> hq_json q = Some body \<Longrightarrow>
    json_get body ''ref'' = JStr (''refs/heads/'' @ b) \<Longrightarrow> json_get body ''sha'' = JStr c \<Longrightarrow> gs_refs st b = None \<Longrightarrow>
    git_effect R q st v (st\<lparr> gs_refs := (gs_refs st)(b := Some c) \<rparr>)"
| move_ref: "hq_method q = ''PATCH'' \<Longrightarrow> hq_url q = R @ ''/git/refs/heads/'' @ b \<Longrightarrow> hq_json q = Some body \<Longrightarrow>
    json_get body ''sha'' = JStr c \<Longrightarrow> gs_refs st b = Some old \<Longrightarrow> gs_commits st c = Some cm \<Longrightarrow>
    json_get body ''force'' = JBool True \<or> old \<in> set (gc_parents cm) \<Longrightarrow>
    git_effect R q st v (st\<lparr> gs_refs := (gs_refs st)(b := Some c) \<rparr>)"
| drop_ref: "hq_method q = ''DELETE'' \<Longrightarrow> hq_url q = R @ ''/git/refs/heads/'' @ b \<Longrightarrow>
    git_effect R q st v (st\<lparr> gs_refs := (gs_refs st)(b := None) \<rparr>)"
| elsewhere: "\<not> starts_with (R @ ''/git/'') (hq_url q) \<Longrightarrow> git_effect R q st v st"

text \<open>
  The law: truthful when it answers, at most the documented effect when it does not, reading changes
  nothing, and a 404 for a branch means there is none.
\<close>

definition git_api :: "'s platform \<Rightarrow> ('s \<Rightarrow> git_store) \<Rightarrow> string \<Rightarrow> bool" where
  "git_api host view R \<longleftrightarrow>
    (\<forall>q s. case answer_of (hq_method q) (hq_url q) (fst (host q s)) of
       Inr v \<Rightarrow> git_effect R q (view s) v (view (snd (host q s)))
     | Inl e \<Rightarrow>
         (view (snd (host q s)) = view s \<or> (hq_method q \<noteq> ''GET'' \<and> (\<exists>v. git_effect R q (view s) v (view (snd (host q s)))))) \<and>
         (\<forall>m b. e = NotFound m \<longrightarrow> hq_method q = ''GET'' \<longrightarrow> hq_url q = R @ ''/git/ref/heads/'' @ b \<longrightarrow> gs_refs (view s) b = None))"

section \<open>Using the law\<close>

lemma rest_request_answers:
  assumes "git_api host view R" "rest_request host c verb url params body ct w = (Inr v, w')"
  shows "git_effect R (request_of c verb url params body ct) (view (w_host w)) v (view (w_host w'))"
proof -
  let ?q = "request_of c verb url params body ct"
  have a: "answer_of (hq_method ?q) (hq_url ?q) (fst (host ?q (w_host w))) = Inr v" "w_host w' = snd (host ?q (w_host w))"
    using assms(2) by (auto simp: rest_request_def Let_def case_prod_unfold)
  show ?thesis
    using assms(1)[unfolded git_api_def, THEN spec, THEN spec, of ?q "w_host w"] unfolding a by simp
qed

lemma rest_request_fails:
  assumes "git_api host view R" "rest_request host c verb url params body ct w = (Inl e, w')"
  shows "view (w_host w') = view (w_host w) \<or> (verb \<noteq> ''GET'' \<and>
      (\<exists>v. git_effect R (request_of c verb url params body ct) (view (w_host w)) v (view (w_host w'))))"
    "e = NotFound m \<Longrightarrow> verb = ''GET'' \<Longrightarrow> url = R @ ''/git/ref/heads/'' @ b \<Longrightarrow> gs_refs (view (w_host w)) b = None"
proof -
  let ?q = "request_of c verb url params body ct"
  have a: "answer_of (hq_method ?q) (hq_url ?q) (fst (host ?q (w_host w))) = Inl e" "w_host w' = snd (host ?q (w_host w))"
    using assms(2) by (auto simp: rest_request_def Let_def case_prod_unfold)
  have law: "(view (w_host w') = view (w_host w) \<or> (hq_method ?q \<noteq> ''GET'' \<and>
        (\<exists>v. git_effect R ?q (view (w_host w)) v (view (w_host w'))))) \<and>
      (\<forall>m b. e = NotFound m \<longrightarrow> hq_method ?q = ''GET'' \<longrightarrow> hq_url ?q = R @ ''/git/ref/heads/'' @ b \<longrightarrow>
        gs_refs (view (w_host w)) b = None)"
    using assms(1)[unfolded git_api_def, THEN spec, THEN spec, of ?q "w_host w"] unfolding a by simp
  then show "view (w_host w') = view (w_host w) \<or> (verb \<noteq> ''GET'' \<and>
      (\<exists>v. git_effect R ?q (view (w_host w)) v (view (w_host w'))))"
    "e = NotFound m \<Longrightarrow> verb = ''GET'' \<Longrightarrow> url = R @ ''/git/ref/heads/'' @ b \<Longrightarrow> gs_refs (view (w_host w)) b = None"
    by auto
qed

lemma starts_with_append [simp]: "starts_with (p @ q) (p @ r) = starts_with q r"
  by (simp add: starts_with_iff)

lemmas git_effect_elim = git_effect.cases

text \<open>What each request the adapter makes can have done.\<close>

lemma effect_get:
  "git_effect R q st v st' \<Longrightarrow> hq_method q = ''GET'' \<Longrightarrow> st' = st"
  by (auto elim: git_effect.cases)

lemma effect_read_ref:
  "git_effect R q st v st' \<Longrightarrow> hq_method q = ''GET'' \<Longrightarrow> hq_url q = R @ ''/git/ref/heads/'' @ b \<Longrightarrow>
    \<exists>c. gs_refs st b = Some c \<and> c \<noteq> [] \<and> nested_sha ''object'' v = Inr (JStr c)"
  by (auto elim: git_effect.cases)

lemma effect_read_commit:
  "git_effect R q st v st' \<Longrightarrow> hq_method q = ''GET'' \<Longrightarrow> hq_url q = R @ ''/git/commits/'' @ c \<Longrightarrow>
    \<exists>cm kvs. gs_commits st c = Some cm \<and> gc_tree cm \<noteq> [] \<and> nested_sha ''tree'' v = Inr (JStr (gc_tree cm)) \<and>
      v = JObj kvs \<and> get_str kvs ''message'' = gc_message cm"
  by (auto elim: git_effect.cases)

lemma effect_new_blob:
  "git_effect R q st v st' \<Longrightarrow> hq_method q = ''POST'' \<Longrightarrow> hq_url q = R @ ''/git/blobs'' \<Longrightarrow>
    hq_json q = Some (JObj [(''content'', JStr (b64encode x)), (''encoding'', JStr ''base64'')]) \<Longrightarrow>
    \<exists>s. obj_item v ''sha'' = Inr (JStr s) \<and> (gs_blobs st s = None \<or> gs_blobs st s = Some x) \<and>
      st' = st\<lparr> gs_blobs := (gs_blobs st)(s := Some x) \<rparr>"
  by (erule git_effect.cases) (auto simp: json_get_def b64decode_def b64_read_encode)

lemma effect_new_tree:
  "git_effect R q st v st' \<Longrightarrow> hq_method q = ''POST'' \<Longrightarrow> hq_url q = R @ ''/git/trees'' \<Longrightarrow>
    hq_json q = Some (JObj [(''base_tree'', JStr bt), (''tree'', JList es)]) \<Longrightarrow>
    \<exists>s m. obj_item v ''sha'' = Inr (JStr s) \<and> gs_trees st bt = Some m \<and>
      (gs_trees st s = None \<or> gs_trees st s = Some (fold lay_entry es m)) \<and>
      st' = st\<lparr> gs_trees := (gs_trees st)(s := Some (fold lay_entry es m)) \<rparr>"
  by (erule git_effect.cases) (auto simp: json_get_def)

lemma effect_new_commit:
  "git_effect R q st v st' \<Longrightarrow> hq_method q = ''POST'' \<Longrightarrow> hq_url q = R @ ''/git/commits'' \<Longrightarrow>
    hq_json q = Some (JObj [(''message'', JStr msg), (''tree'', JStr t), (''parents'', JList [JStr p])]) \<Longrightarrow>
    \<exists>s. obj_item v ''sha'' = Inr (JStr s) \<and>
      (gs_commits st s = None \<or> gs_commits st s = Some \<lparr> gc_tree = t, gc_parents = [p], gc_message = msg \<rparr>) \<and>
      st' = st\<lparr> gs_commits := (gs_commits st)(s := Some \<lparr> gc_tree = t, gc_parents = [p], gc_message = msg \<rparr>) \<rparr>"
  by (erule git_effect.cases) (auto simp: json_get_def)

lemma effect_new_ref:
  "git_effect R q st v st' \<Longrightarrow> hq_method q = ''POST'' \<Longrightarrow> hq_url q = R @ ''/git/refs'' \<Longrightarrow>
    hq_json q = Some (JObj [(''ref'', JStr (''refs/heads/'' @ b)), (''sha'', JStr c)]) \<Longrightarrow>
    gs_refs st b = None \<and> st' = st\<lparr> gs_refs := (gs_refs st)(b := Some c) \<rparr>"
  by (erule git_effect.cases) (auto simp: json_get_def)

lemma effect_move_ref:
  "git_effect R q st v st' \<Longrightarrow> hq_method q = ''PATCH'' \<Longrightarrow> hq_url q = R @ ''/git/refs/heads/'' @ b \<Longrightarrow>
    hq_json q = Some (JObj [(''sha'', JStr c), (''force'', JBool False)]) \<Longrightarrow>
    \<exists>old cm. gs_refs st b = Some old \<and> gs_commits st c = Some cm \<and> old \<in> set (gc_parents cm) \<and>
      st' = st\<lparr> gs_refs := (gs_refs st)(b := Some c) \<rparr>"
  by (erule git_effect.cases) (auto simp: json_get_def)

end
