(* ===== verification/Github_Push.thy ===== *)
theory Github_Push
  imports Git_Api Build_Test Ship_Nodes
begin

text \<open>
  What a push does to the repository, for every platform that keeps the law of Git_Api: the branch ends
  on a commit whose files are the base commit's with the edits laid over them, parented where the caller
  said; a branch that is somewhere else is never moved; and a push that landed already is not made twice.
\<close>

section \<open>References\<close>

definition refs_kept :: "('s \<Rightarrow> git_store) \<Rightarrow> ('s, 'a) rest \<Rightarrow> bool" where
  "refs_kept view m \<longleftrightarrow> (\<forall>w. gs_refs (view (w_host (snd (m w)))) = gs_refs (view (w_host w)))"

named_theorems kept_intros \<open>computations that leave every branch where it is\<close>

lemma kept_pure [kept_intros]: "refs_kept view (rest_pure r)"
  by (simp add: refs_kept_def rest_pure_def)

lemma kept_error [kept_intros]: "refs_kept view (adapter_error m)"
  by (simp add: adapter_error_def kept_intros)

lemma kept_bind [kept_intros]:
  assumes "refs_kept view m" "\<And>x. refs_kept view (f x)"
  shows "refs_kept view (rest_bind m f)"
  unfolding refs_kept_def
proof
  fix w
  obtain r w1 where m: "m w = (r, w1)" by fastforce
  then have k: "gs_refs (view (w_host w1)) = gs_refs (view (w_host w))"
    using assms(1) unfolding refs_kept_def by (metis snd_conv)
  show "gs_refs (view (w_host (snd (rest_bind m f w)))) = gs_refs (view (w_host w))"
    using assms(2) m k by (cases r) (simp_all add: rest_bind_def refs_kept_def)
qed

lemma kept_catch [kept_intros]:
  assumes "refs_kept view m" "\<And>e k. h e = Some k \<Longrightarrow> refs_kept view k"
  shows "refs_kept view (rest_catch m h)"
  unfolding refs_kept_def
proof
  fix w
  obtain r w1 where m: "m w = (r, w1)" by fastforce
  then have k: "gs_refs (view (w_host w1)) = gs_refs (view (w_host w))"
    using assms(1) unfolding refs_kept_def by (metis snd_conv)
  show "gs_refs (view (w_host (snd (rest_catch m h w)))) = gs_refs (view (w_host w))"
  proof (cases r)
    case (Inl e)
    then show ?thesis using assms(2)[of e] m k by (cases "h e") (simp_all add: rest_catch_def refs_kept_def)
  qed (use m k in \<open>simp add: rest_catch_def\<close>)
qed

lemma kept_map [kept_intros]: "(\<And>x. refs_kept view (f x)) \<Longrightarrow> refs_kept view (rest_map f xs)"
  by (induction xs) (auto intro!: kept_intros)

lemma kept_if [kept_intros]: "refs_kept view m \<Longrightarrow> refs_kept view m' \<Longrightarrow> refs_kept view (if b then m else m')"
  by simp

lemma kept_option [kept_intros]:
  "refs_kept view m \<Longrightarrow> (\<And>y. refs_kept view (f y)) \<Longrightarrow> refs_kept view (case x of None \<Rightarrow> m | Some y \<Rightarrow> f y)"
  by (cases x) simp_all

lemma effect_keeps_refs:
  "git_effect R q st v st' \<Longrightarrow> hq_url q \<noteq> R @ ''/git/refs'' \<Longrightarrow> \<not> starts_with (R @ ''/git/refs/'') (hq_url q) \<Longrightarrow>
    gs_refs st' = gs_refs st"
  by (erule git_effect.cases) (auto simp: starts_with_iff)

lemma kept_request:
  assumes "git_api host view R" "url \<noteq> R @ ''/git/refs''" "\<not> starts_with (R @ ''/git/refs/'') url"
  shows "refs_kept view (rest_request host c verb url params body ct)"
  unfolding refs_kept_def
proof
  fix w :: "'a wire"
  obtain r w' where r: "rest_request host c verb url params body ct w = (r, w')" by fastforce
  have e: "git_effect R (request_of c verb url params body ct) (view (w_host w)) v (view (w_host w')) \<Longrightarrow>
      gs_refs (view (w_host w')) = gs_refs (view (w_host w))" for v
    using effect_keeps_refs[of R "request_of c verb url params body ct"] assms(2,3) by simp
  show "gs_refs (view (w_host (snd (rest_request host c verb url params body ct w)))) = gs_refs (view (w_host w))"
  proof (cases r)
    case (Inl x)
    then show ?thesis using rest_request_fails(1)[OF assms(1), of c verb url params body ct w x w'] r e by auto
  next
    case (Inr v)
    then show ?thesis using rest_request_answers[OF assms(1), of c verb url params body ct w v w'] r e by auto
  qed
qed

lemma kept_tree_entry:
  assumes "git_api host view (gh_repo ref)"
  shows "refs_kept view (gh_tree_entry host client ref edit)"
  unfolding gh_tree_entry_def rest_post_def
  by (intro kept_intros kept_request[OF assms]) simp_all

lemma kept_push_commit:
  assumes "git_api host view (gh_repo ref)"
  shows "refs_kept view (gh_push_commit host client ref base message edits parent)"
  unfolding gh_push_commit_def rest_post_def rest_get_def
  by (intro kept_intros kept_request[OF assms] kept_tree_entry[OF assms]) simp_all

lemma kept_push_check:
  assumes "git_api host view (gh_repo ref)"
  shows "refs_kept view (gh_push_check host client ref base branch message parent)"
proof -
  have t: "refs_kept view (gh_branch_tip host client ref branch)"
    unfolding gh_branch_tip_def rest_get_def
    by (intro kept_intros kept_request[OF assms]) (auto intro: kept_intros split: error.splits)
  show ?thesis unfolding gh_push_check_def gh_commit_message_def rest_get_def Let_def
    by (intro kept_intros kept_request[OF assms] t) simp_all
qed

section \<open>What the check found\<close>

lemma rest_get_answers:
  assumes "git_api host view R" "rest_get host c url params w = (Inr v, w')"
  shows "git_effect R (request_of c ''GET'' url params None ''application/json'') (view (w_host w)) v (view (w_host w))"
    "view (w_host w') = view (w_host w)"
proof -
  have e: "git_effect R (request_of c ''GET'' url params None ''application/json'') (view (w_host w)) v (view (w_host w'))"
    using rest_request_answers[OF assms(1)] assms(2) unfolding rest_get_def by blast
  then show "view (w_host w') = view (w_host w)" by (auto dest: effect_get)
  with e show "git_effect R (request_of c ''GET'' url params None ''application/json'') (view (w_host w)) v (view (w_host w))"
    by simp
qed

lemma nested_sha_str: "nested_sha key v = Inr (JStr c) \<Longrightarrow> c \<noteq> [] \<Longrightarrow> json_truthy (JStr c)"
  by simp

lemma branch_tip_found:
  assumes "git_api host view (gh_repo ref)" "gh_branch_tip host client ref branch w = (Inr found, w')"
  shows "view (w_host w') = view (w_host w)"
    "gs_refs (view (w_host w)) branch = map_option br_commit found"
proof -
  let ?get = "rest_get host client (gh_repo ref @ ''/git/ref/heads/'' @ branch) []"
  obtain r w1 where g: "?get w = (r, w1)" by fastforce
  have "view (w_host w') = view (w_host w) \<and> gs_refs (view (w_host w)) branch = map_option br_commit found"
  proof (cases r)
    case (Inl e)
    with assms(2) g obtain m where m: "e = NotFound m" "found = None" "w' = w1"
      by (auto simp: gh_branch_tip_def rest_bind_def rest_catch_def rest_pure_def split: error.splits)
    from g Inl have q: "rest_request host client ''GET'' (gh_repo ref @ ''/git/ref/heads/'' @ branch) [] None
        ''application/json'' w = (Inl e, w1)" by (simp add: rest_get_def)
    show ?thesis using rest_request_fails[OF assms(1) q] m by simp
  next
    case (Inr head)
    note a = rest_get_answers[OF assms(1) g[unfolded Inr]]
    obtain c where c: "gs_refs (view (w_host w)) branch = Some c" "c \<noteq> []" "nested_sha ''object'' head = Inr (JStr c)"
      using effect_read_ref[OF a(1)] by auto
    with assms(2) g Inr a(2) show ?thesis
      by (auto simp: gh_branch_tip_def rest_bind_def rest_catch_def rest_pure_def)
  qed
  then show "view (w_host w') = view (w_host w)" "gs_refs (view (w_host w)) branch = map_option br_commit found"
    by simp_all
qed

lemma commit_message_found:
  assumes "git_api host view (gh_repo ref)" "gh_commit_message host client ref commit w = (Inr m, w')"
  shows "view (w_host w') = view (w_host w)"
    "\<exists>cm. gs_commits (view (w_host w)) commit = Some cm \<and> gc_message cm = m"
proof -
  from assms(2) obtain v where g: "rest_get host client (gh_repo ref @ ''/git/commits/'' @ commit) [] w = (Inr v, w')"
      and m: "m = (case v of JObj kvs \<Rightarrow> get_str kvs ''message'' | _ \<Rightarrow> [])"
    by (auto simp: gh_commit_message_def rest_bind_Inr rest_pure_def)
  note a = rest_get_answers[OF assms(1) g]
  show "view (w_host w') = view (w_host w)" by (rule a(2))
  show "\<exists>cm. gs_commits (view (w_host w)) commit = Some cm \<and> gc_message cm = m"
    using effect_read_commit[OF a(1), of commit] m by auto
qed

text \<open>The check changes nothing, and its answer is true of the store.\<close>

lemma push_check_found:
  assumes "git_api host view (gh_repo ref)" "gh_push_check host client ref base branch message parent w = (Inr checked, w')"
  shows "view (w_host w') = view (w_host w)"
    "checked = AlreadyPushed tip \<Longrightarrow> gs_refs (view (w_host w)) branch = Some (br_commit tip) \<and>
      (\<exists>cm. gs_commits (view (w_host w)) (br_commit tip) = Some cm \<and> gc_message cm = message)"
    "checked = ToPush existing \<Longrightarrow> gs_refs (view (w_host w)) branch = map_option br_commit existing"
    "checked = ToPush existing \<Longrightarrow> existing \<noteq> None \<Longrightarrow> gs_refs (view (w_host w)) branch = Some (or_else parent (br_commit base))"
proof -
  from assms(2) obtain found w1 where t: "gh_branch_tip host client ref branch w = (Inr found, w1)"
      and k: "(case found of None \<Rightarrow> rest_pure (Inr (ToPush None))
        | Some tip \<Rightarrow> rest_bind (gh_commit_message host client ref (br_commit tip)) (\<lambda>m.
            if m = message then rest_pure (Inr (AlreadyPushed tip))
            else let expected = or_else parent (br_commit base)
            in if br_commit tip \<noteq> expected then
                 adapter_error (''branch '' @ branch @ '' is at '' @ take 8 (br_commit tip) @ '', not the ''
                   @ take 8 expected @ '' this push was built on; refusing to overwrite work this run did not do'')
               else rest_pure (Inr (ToPush (Some tip))))) w1 = (Inr checked, w')"
    unfolding gh_push_check_def rest_bind_Inr by blast
  note tip = branch_tip_found[OF assms(1) t]
  have "view (w_host w') = view (w_host w) \<and>
    (case checked of
       AlreadyPushed tip \<Rightarrow> gs_refs (view (w_host w)) branch = Some (br_commit tip) \<and>
         (\<exists>cm. gs_commits (view (w_host w)) (br_commit tip) = Some cm \<and> gc_message cm = message)
     | ToPush existing \<Rightarrow> gs_refs (view (w_host w)) branch = map_option br_commit existing \<and>
         (existing \<noteq> None \<longrightarrow> gs_refs (view (w_host w)) branch = Some (or_else parent (br_commit base))))"
  proof (cases found)
    case None
    then show ?thesis using k tip by (auto simp: rest_pure_def)
  next
    case (Some b)
    with k obtain m w2 where m: "gh_commit_message host client ref (br_commit b) w1 = (Inr m, w2)"
        and r: "(if m = message then rest_pure (Inr (AlreadyPushed b))
            else let expected = or_else parent (br_commit base)
            in if br_commit b \<noteq> expected then
                 adapter_error (''branch '' @ branch @ '' is at '' @ take 8 (br_commit b) @ '', not the ''
                   @ take 8 expected @ '' this push was built on; refusing to overwrite work this run did not do'')
               else rest_pure (Inr (ToPush (Some b)))) w2 = (Inr checked, w')"
      by (auto simp: rest_bind_Inr)
    note c = commit_message_found[OF assms(1) m]
    show ?thesis using r c tip Some
      by (auto simp: rest_pure_def adapter_error_def Let_def split: if_splits)
  qed
  then show "view (w_host w') = view (w_host w)"
    "checked = AlreadyPushed tip \<Longrightarrow> gs_refs (view (w_host w)) branch = Some (br_commit tip) \<and>
      (\<exists>cm. gs_commits (view (w_host w)) (br_commit tip) = Some cm \<and> gc_message cm = message)"
    "checked = ToPush existing \<Longrightarrow> gs_refs (view (w_host w)) branch = map_option br_commit existing"
    "checked = ToPush existing \<Longrightarrow> existing \<noteq> None \<Longrightarrow> gs_refs (view (w_host w)) branch = Some (or_else parent (br_commit base))"
    by auto
qed

section \<open>What the commit holds\<close>

definition lay_file_edit :: "file_edit \<Rightarrow> (string \<Rightarrow> string option) \<Rightarrow> string \<Rightarrow> string option" where
  "lay_file_edit e files = files(lstrip_slash (fe_path e) := if fe_deleted e then None else Some (fe_content e))"

lemma lay_tree_entry:
  "lay_entry (tree_entry p (JStr s)) m = m(lstrip_slash p := Some s)" "lay_entry (tree_entry p JNull) m = m(lstrip_slash p := None)"
  by (simp_all add: lay_entry_def tree_entry_def json_get_def)

lemma bind_later:
  assumes "\<forall>p s. m p = Some s \<longrightarrow> B s \<noteq> None" "B \<subseteq>\<^sub>m B'"
  shows "(\<lambda>p. Option.bind (m p) B') = (\<lambda>p. Option.bind (m p) B)"
proof
  fix p
  show "Option.bind (m p) B' = Option.bind (m p) B"
  proof (cases "m p")
    case (Some s)
    then obtain c where "B s = Some c" using assms(1) by blast
    moreover have "B' s = Some c" using assms(2) calculation by (metis domI map_le_def)
    ultimately show ?thesis using Some by simp
  qed simp
qed

lemma tree_entry_laid:
  assumes "git_api host view (gh_repo ref)" "gh_tree_entry host client ref edit w = (Inr e, w')"
    "\<forall>p s. m p = Some s \<longrightarrow> gs_blobs (view (w_host w)) s \<noteq> None"
  obtains B where "view (w_host w') = (view (w_host w))\<lparr> gs_blobs := B \<rparr>" "gs_blobs (view (w_host w)) \<subseteq>\<^sub>m B"
    "\<forall>p s. lay_entry e m p = Some s \<longrightarrow> B s \<noteq> None"
    "(\<lambda>p. Option.bind (lay_entry e m p) B) = lay_file_edit edit (\<lambda>p. Option.bind (m p) (gs_blobs (view (w_host w))))"
proof (cases "fe_deleted edit")
  case True
  with assms(2) have "e = tree_entry (fe_path edit) JNull" "w' = w" by (auto simp: gh_tree_entry_def rest_pure_def)
  then show ?thesis using assms(3) True
    by (intro that[of "gs_blobs (view (w_host w))"]) (auto simp: lay_tree_entry lay_file_edit_def)
next
  case False
  with assms(2) obtain blob s where
      post: "rest_request host client ''POST'' (gh_repo ref @ ''/git/blobs'') []
        (Some (JObj [(''content'', JStr (b64encode (fe_content edit))), (''encoding'', JStr ''base64'')])) ''application/json'' w = (Inr blob, w')"
      and s: "obj_item blob ''sha'' = Inr s" "e = tree_entry (fe_path edit) s"
    by (auto simp: gh_tree_entry_def rest_bind_Inr rest_pure_def rest_post_def)
  let ?B = "gs_blobs (view (w_host w))"
  obtain k where k: "s = JStr k" "?B k = None \<or> ?B k = Some (fe_content edit)"
      "view (w_host w') = (view (w_host w))\<lparr> gs_blobs := ?B(k := Some (fe_content edit)) \<rparr>"
    using effect_new_blob[OF rest_request_answers[OF assms(1) post]] s(1) by auto
  have le: "?B \<subseteq>\<^sub>m ?B(k := Some (fe_content edit))" using k(2) by (auto simp: map_le_def)
  have "\<forall>p t. lay_entry e m p = Some t \<longrightarrow> (?B(k := Some (fe_content edit))) t \<noteq> None"
    using assms(3) by (auto simp: s(2) k(1) lay_tree_entry)
  moreover have "(\<lambda>p. Option.bind (lay_entry e m p) (?B(k := Some (fe_content edit))))
      = lay_file_edit edit (\<lambda>p. Option.bind (m p) ?B)"
    using bind_later[OF assms(3) le] False
    by (auto simp: s(2) k(1) lay_tree_entry lay_file_edit_def fun_eq_iff)
  ultimately show ?thesis using k(3) le that by blast
qed

lemma tree_entries_laid:
  assumes "git_api host view (gh_repo ref)" "rest_map (gh_tree_entry host client ref) edits w = (Inr es, w')"
    "\<forall>p s. m p = Some s \<longrightarrow> gs_blobs (view (w_host w)) s \<noteq> None"
  shows "\<exists>B. view (w_host w') = (view (w_host w))\<lparr> gs_blobs := B \<rparr> \<and> gs_blobs (view (w_host w)) \<subseteq>\<^sub>m B \<and>
    (\<lambda>p. Option.bind (fold lay_entry es m p) B) = fold lay_file_edit edits (\<lambda>p. Option.bind (m p) (gs_blobs (view (w_host w))))"
  using assms(2,3)
proof (induction edits arbitrary: w es m)
  case Nil
  then show ?case by (auto simp: rest_pure_def intro!: exI[of _ "gs_blobs (view (w_host w))"])
next
  case (Cons edit edits)
  then obtain e rest w1 where e: "gh_tree_entry host client ref edit w = (Inr e, w1)"
      and r: "rest_map (gh_tree_entry host client ref) edits w1 = (Inr rest, w')" and es: "es = e # rest"
    by (auto simp: rest_bind_Inr rest_pure_def)
  from tree_entry_laid[OF assms(1) e Cons.prems(2)] obtain B where
    B: "view (w_host w1) = (view (w_host w))\<lparr> gs_blobs := B \<rparr>" "gs_blobs (view (w_host w)) \<subseteq>\<^sub>m B"
      "\<forall>p s. lay_entry e m p = Some s \<longrightarrow> B s \<noteq> None"
      "(\<lambda>p. Option.bind (lay_entry e m p) B) = lay_file_edit edit (\<lambda>p. Option.bind (m p) (gs_blobs (view (w_host w))))" .
  have "\<forall>p s. lay_entry e m p = Some s \<longrightarrow> gs_blobs (view (w_host w1)) s \<noteq> None" using B by simp
  from Cons.IH[OF r this] obtain B' where
    B': "view (w_host w') = (view (w_host w1))\<lparr> gs_blobs := B' \<rparr>" "gs_blobs (view (w_host w1)) \<subseteq>\<^sub>m B'"
      "(\<lambda>p. Option.bind (fold lay_entry rest (lay_entry e m) p) B')
        = fold lay_file_edit edits (\<lambda>p. Option.bind (lay_entry e m p) (gs_blobs (view (w_host w1))))" by blast
  show ?case using B B' es by (intro exI[of _ B']) (auto intro: map_le_trans)
qed

definition store_ok :: "git_store \<Rightarrow> bool" where
  "store_ok st \<longleftrightarrow> (\<forall>t m p s. gs_trees st t = Some m \<longrightarrow> m p = Some s \<longrightarrow> gs_blobs st s \<noteq> None)"

lemma push_commit_made:
  assumes "git_api host view (gh_repo ref)" "store_ok (view (w_host w))"
    "gh_push_commit host client ref base message edits parent w = (Inr sha, w')"
  obtains c t where "sha = JStr c"
    "gs_commits (view (w_host w')) c = Some \<lparr> gc_tree = t, gc_parents = [or_else parent (br_commit base)], gc_message = message \<rparr>"
    "commit_content (view (w_host w')) c = fold lay_file_edit edits (commit_content (view (w_host w)) (br_commit base))"
proof -
  from assms(3) obtain bc w1 bt es w2 tree w3 ts cm_v w4 where
      base: "rest_get host client (gh_repo ref @ ''/git/commits/'' @ br_commit base) [] w = (Inr bc, w1)"
      and bt: "nested_sha ''tree'' bc = Inr bt"
      and es: "rest_map (gh_tree_entry host client ref) edits w1 = (Inr es, w2)"
      and tree: "rest_request host client ''POST'' (gh_repo ref @ ''/git/trees'') []
        (Some (JObj [(''base_tree'', bt), (''tree'', JList es)])) ''application/json'' w2 = (Inr tree, w3)"
      and ts: "obj_item tree ''sha'' = Inr ts"
      and commit: "rest_request host client ''POST'' (gh_repo ref @ ''/git/commits'') []
        (Some (JObj [(''message'', JStr message), (''tree'', ts), (''parents'', JList [JStr (or_else parent (br_commit base))])]))
        ''application/json'' w3 = (Inr cm_v, w4)"
      and sha: "obj_item cm_v ''sha'' = Inr sha" "w' = w4"
    unfolding gh_push_commit_def rest_post_def
    by (auto simp: rest_bind_Inr rest_pure_def adapter_error_def split: if_splits)
  let ?st = "view (w_host w)"
  note b = rest_get_answers[OF assms(1) base]
  obtain cm where cm: "gs_commits ?st (br_commit base) = Some cm" "bt = JStr (gc_tree cm)"
    using effect_read_commit[OF b(1), of "br_commit base"] bt by auto
  note teff = rest_request_answers[OF assms(1) tree]
  obtain k m where k: "ts = JStr k" "gs_trees (view (w_host w2)) (gc_tree cm) = Some m"
      "view (w_host w3) = (view (w_host w2))\<lparr> gs_trees := (gs_trees (view (w_host w2)))(k := Some (fold lay_entry es m)) \<rparr>"
    using effect_new_tree[OF teff, of "gc_tree cm" es] cm(2) ts by auto
  have same: "gs_trees (view (w_host w2)) = gs_trees ?st"
  proof -
    obtain B where "view (w_host w2) = (view (w_host w1))\<lparr> gs_blobs := B \<rparr>"
      using tree_entries_laid[OF assms(1) es, of "\<lambda>p. None"] by auto
    then show ?thesis using b(2) by simp
  qed
  have whole: "\<forall>p s. m p = Some s \<longrightarrow> gs_blobs (view (w_host w1)) s \<noteq> None"
    using assms(2) k(2) same b(2) by (auto simp: store_ok_def)
  from tree_entries_laid[OF assms(1) es whole] obtain B where
    B: "view (w_host w2) = (view (w_host w1))\<lparr> gs_blobs := B \<rparr>"
      "(\<lambda>p. Option.bind (fold lay_entry es m p) B) = fold lay_file_edit edits (\<lambda>p. Option.bind (m p) (gs_blobs (view (w_host w1))))"
    by blast
  obtain c where c: "sha = JStr c"
      "view (w_host w4) = (view (w_host w3))\<lparr> gs_commits := (gs_commits (view (w_host w3)))(c := Some
        \<lparr> gc_tree = k, gc_parents = [or_else parent (br_commit base)], gc_message = message \<rparr>) \<rparr>"
    using effect_new_commit[OF rest_request_answers[OF assms(1) commit], of message k "or_else parent (br_commit base)"] k(1) sha(1)
    by auto
  have "commit_content (view (w_host w')) c = (\<lambda>p. Option.bind (fold lay_entry es m p) B)"
    by (rule ext) (simp add: commit_content_def tree_content_def sha(2) c(2) k(3) B(1))
  moreover have "commit_content ?st (br_commit base) = (\<lambda>p. Option.bind (m p) (gs_blobs (view (w_host w1))))"
    using cm k(2) same b(2) by (auto simp: commit_content_def tree_content_def fun_eq_iff)
  ultimately show ?thesis using that c B(2) by (simp add: sha(2))
qed

text \<open>Moving the branch, whatever the answer: it was absent or on a parent of the new commit.\<close>

lemma move_branch_effect:
  assumes "git_api host view (gh_repo ref)" "gh_move_branch host client ref branch existing (JStr c) w = (r, w')"
    "gs_commits (view (w_host w)) c = Some cm"
  shows "gs_refs (view (w_host w')) = gs_refs (view (w_host w)) \<and> (\<exists>e. r = Inl e) \<or>
    (gs_refs (view (w_host w')) = (gs_refs (view (w_host w)))(branch := Some c) \<and>
     (gs_refs (view (w_host w)) branch = None \<or> (\<exists>old \<in> set (gc_parents cm). gs_refs (view (w_host w)) branch = Some old)) \<and>
     commit_content (view (w_host w')) = commit_content (view (w_host w)) \<and>
     gs_commits (view (w_host w')) = gs_commits (view (w_host w)))"
proof -
  define verb url body where v: "verb = (if existing = None then ''POST'' else ''PATCH'')"
    "url = gh_repo ref @ (if existing = None then ''/git/refs'' else ''/git/refs/heads/'' @ branch)"
    "body = (if existing = None then JObj [(''ref'', JStr (''refs/heads/'' @ branch)), (''sha'', JStr c)]
       else JObj [(''sha'', JStr c), (''force'', JBool False)])"
  have q: "rest_request host client verb url [] (Some body) ''application/json'' w = (r, w')"
    using assms(2) by (cases existing) (simp_all add: gh_move_branch_def v rest_post_def rest_patch_def)
  have e: "st' = st\<lparr> gs_refs := (gs_refs st)(branch := Some c) \<rparr> \<and>
      (gs_refs st branch = None \<or> (\<exists>old cm. gs_refs st branch = Some old \<and> gs_commits st c = Some cm \<and> old \<in> set (gc_parents cm)))"
    if "git_effect (gh_repo ref) (request_of client verb url [] (Some body) ''application/json'') st x st'" for st x st'
  proof (cases existing)
    case None
    then show ?thesis using effect_new_ref[OF that, of branch c] by (simp add: v)
  next
    case (Some tip)
    then show ?thesis using effect_move_ref[OF that, of branch c] by (auto simp: v)
  qed
  have content: "commit_content (st\<lparr> gs_refs := f \<rparr>) = commit_content st" for st f
    by (simp add: commit_content_def tree_content_def fun_eq_iff)
  show ?thesis
  proof (cases r)
    case (Inr x)
    then show ?thesis using e[OF rest_request_answers[OF assms(1) q[unfolded Inr]]] assms(3) content by auto
  next
    case (Inl x)
    from rest_request_fails(1)[OF assms(1) q[unfolded Inl]] show ?thesis
    proof
      assume "verb \<noteq> ''GET'' \<and> (\<exists>v. git_effect (gh_repo ref) (request_of client verb url [] (Some body) ''application/json'')
        (view (w_host w)) v (view (w_host w')))"
      then show ?thesis using e assms(3) content by fastforce
    qed (use Inl in auto)
  qed
qed

section \<open>The whole push\<close>

lemma push_change_world:
  assumes "gh_push_change host g ref base branch message edits parent w = (r, w')"
  shows "w' = w \<or> w' = snd (gh_push host g ref base branch message edits parent w)"
    "r = Inr br \<Longrightarrow> gh_push host g ref base branch message edits parent w = (Inr br, w')"
proof -
  let ?m = "gh_push host g ref base branch message edits parent"
  have "w' = w \<and> r \<noteq> Inr br \<or> (r, w') = rest_catch ?m (permission_hint (push_grant ref)) w"
    using assms by (cases "edits = []") (auto simp: gh_push_change_def adapter_error_def rest_pure_def)
  then show "w' = w \<or> w' = snd (?m w)" "r = Inr br \<Longrightarrow> ?m w = (Inr br, w')"
    using permission_hint_run[of ?m "push_grant ref" w] by (metis fst_conv prod.collapse snd_conv)+
qed

lemma push_result:
  assumes "gh_push host g ref base branch message edits parent w = (r, w')"
  obtains (no_client) e where "r = Inl e" "w' = w"
    | (check_failed) client e where "gh_push_check host client ref base branch message parent w = (Inl e, w')" "r = Inl e"
    | (there) client br where "gh_push_check host client ref base branch message parent w = (Inr (AlreadyPushed br), w')" "r = Inr br"
    | (made) client existing w1 where
        "gh_push_check host client ref base branch message parent w = (Inr (ToPush existing), w1)"
        "gh_push_write host client ref base branch message edits parent existing w1 = (r, w')"
proof (cases "gh_client g ref SCM_WRITE_BRANCH")
  case (Inl e)
  then show ?thesis using assms no_client[of e] by (simp add: gh_push_def gh_with_def rest_simps)
next
  case (Inr client)
  obtain cr w1 where c: "gh_push_check host client ref base branch message parent w = (cr, w1)" by fastforce
  show ?thesis
  proof (cases cr)
    case (Inl e)
    then show ?thesis using assms Inr c check_failed[of client e] by (simp add: gh_push_def gh_with_def rest_simps)
  next
    case (Inr checked)
    with c \<open>gh_client g ref SCM_WRITE_BRANCH = Inr client\<close> assms there[of client] made[of client] show ?thesis
      by (cases checked) (simp_all add: gh_push_def gh_with_def rest_simps)
  qed
qed

lemma push_write_result:
  assumes "git_api host view (gh_repo ref)" "store_ok (view (w_host w))"
    "gh_push_write host client ref base branch message edits parent existing w = (Inr br, w')"
  shows "gs_refs (view (w_host w')) = (gs_refs (view (w_host w)))(branch := Some (br_commit br))"
    "commit_content (view (w_host w')) (br_commit br) = fold lay_file_edit edits (commit_content (view (w_host w)) (br_commit base))"
    "\<exists>t. gs_commits (view (w_host w')) (br_commit br) = Some \<lparr> gc_tree = t,
       gc_parents = [or_else parent (br_commit base)], gc_message = message \<rparr>"
proof -
  from assms(3) obtain sha w1 moved where c: "gh_push_commit host client ref base message edits parent w = (Inr sha, w1)"
      and m: "gh_move_branch host client ref branch existing sha w1 = (Inr moved, w')" and br: "br_commit br = json_str sha"
    by (auto simp: gh_push_write_def rest_bind_Inr rest_pure_def)
  from push_commit_made[OF assms(1,2) c] obtain k t where k: "sha = JStr k"
      "gs_commits (view (w_host w1)) k = Some \<lparr> gc_tree = t, gc_parents = [or_else parent (br_commit base)], gc_message = message \<rparr>"
      "commit_content (view (w_host w1)) k = fold lay_file_edit edits (commit_content (view (w_host w)) (br_commit base))" .
  have r: "gs_refs (view (w_host w1)) = gs_refs (view (w_host w))"
    using kept_push_commit[OF assms(1), of client base message edits parent] c unfolding refs_kept_def by (metis snd_conv)
  from move_branch_effect[OF assms(1) m[unfolded k(1)] k(2)]
  show "gs_refs (view (w_host w')) = (gs_refs (view (w_host w)))(branch := Some (br_commit br))"
    "commit_content (view (w_host w')) (br_commit br) = fold lay_file_edit edits (commit_content (view (w_host w)) (br_commit base))"
    "\<exists>t. gs_commits (view (w_host w')) (br_commit br) = Some \<lparr> gc_tree = t,
       gc_parents = [or_else parent (br_commit base)], gc_message = message \<rparr>"
    using k r br by auto
qed

lemma push_outcome:
  assumes "git_api host view (gh_repo ref)" "store_ok (view (w_host w))"
    "gh_push_change host g ref base branch message edits parent w = (Inr br, w')"
  shows "gs_refs (view (w_host w')) branch = Some (br_commit br) \<and>
    (\<exists>cm. gs_commits (view (w_host w')) (br_commit br) = Some cm \<and> gc_message cm = message \<and>
      (view (w_host w') = view (w_host w) \<or>
       (gs_refs (view (w_host w')) = (gs_refs (view (w_host w)))(branch := Some (br_commit br)) \<and>
        gc_parents cm = [or_else parent (br_commit base)] \<and>
        commit_content (view (w_host w')) (br_commit br)
          = fold lay_file_edit edits (commit_content (view (w_host w)) (br_commit base)))))"
  using push_change_world(2)[OF assms(3) refl]
proof (cases rule: push_result)
  case (there client br')
  then show ?thesis using push_check_found[OF assms(1) there(1)] by auto
next
  case (made client existing w1)
  have v: "view (w_host w1) = view (w_host w)" by (rule push_check_found(1)[OF assms(1) made(1)])
  from push_write_result[OF assms(1) _ made(2)] show ?thesis using assms(2) v by auto
qed simp_all

text \<open>
  C15. When a push returns, the branch is on the commit it returns, with the message that was given.
  Either that commit was there before, and nothing changed; or it is new, its files are the base commit's
  with the edits laid over them (never an earlier attempt's), its parent is the branch's tip or the base,
  and no other branch moved.
\<close>

theorem pushed_commit_is_base_plus_edits:
  assumes "git_api host view (gh_repo ref)" "store_ok (view (w_host w))"
    "gh_push_change host g ref base branch message edits parent w = (Inr br, w')"
  shows "gs_refs (view (w_host w')) branch = Some (br_commit br) \<and>
    (\<exists>cm. gs_commits (view (w_host w')) (br_commit br) = Some cm \<and> gc_message cm = message \<and>
      (view (w_host w') = view (w_host w) \<or>
       (gs_refs (view (w_host w')) = (gs_refs (view (w_host w)))(branch := Some (br_commit br)) \<and>
        gc_parents cm = [or_else parent (br_commit base)] \<and>
        commit_content (view (w_host w')) (br_commit br)
          = fold lay_file_edit edits (commit_content (view (w_host w)) (br_commit base)))))"
  using assms by (rule push_outcome)

lemma write_moves_own_branch:
  assumes "git_api host view (gh_repo ref)" "store_ok (view (w_host w))"
    "gh_push_write host client ref base branch message edits parent existing w = (r, w')"
  shows "gs_refs (view (w_host w')) = gs_refs (view (w_host w)) \<or>
    ((\<exists>c. gs_refs (view (w_host w')) = (gs_refs (view (w_host w)))(branch := Some c)) \<and>
     gs_refs (view (w_host w)) branch \<in> {None, Some (or_else parent (br_commit base))})"
proof -
  obtain sr w1 where commit: "gh_push_commit host client ref base message edits parent w = (sr, w1)" by fastforce
  have k: "gs_refs (view (w_host w1)) = gs_refs (view (w_host w))"
    using kept_push_commit[OF assms(1), of client base message edits parent] commit unfolding refs_kept_def by (metis snd_conv)
  show ?thesis
  proof (cases sr)
    case (Inl e)
    then have "w' = w1" using assms(3) commit by (simp add: gh_push_write_def rest_bind_def)
    then show ?thesis using k by simp
  next
    case (Inr sha)
    from push_commit_made[OF assms(1,2) commit[unfolded Inr]] obtain c t where c: "sha = JStr c"
      "gs_commits (view (w_host w1)) c = Some \<lparr> gc_tree = t, gc_parents = [or_else parent (br_commit base)], gc_message = message \<rparr>" .
    obtain mr w2 where move: "gh_move_branch host client ref branch existing sha w1 = (mr, w2)" by fastforce
    have "w' = w2" using assms(3) commit Inr move
      by (cases mr) (auto simp: gh_push_write_def rest_bind_def rest_pure_def)
    then show ?thesis using move_branch_effect[OF assms(1) move[unfolded c(1)] c(2)] k by auto
  qed
qed


end
