(* ===== verification/Github_Tree.thy ===== *)
theory Github_Tree
  imports Github_Push
begin

text \<open>
  What reading a tree gives, for every platform that keeps the law of Git_Api, and the round trip of the
  two: the tree read at a pushed commit is the tree that was graded.
\<close>

section \<open>One blob\<close>

lemma rest_map_Inr:
  "rest_map f xs w = (Inr ys, w') \<Longrightarrow> length ys = length xs"
  by (induction xs arbitrary: w ys) (auto simp: rest_bind_Inr rest_pure_def)

lemma effect_read_blob:
  "git_effect R q st v st' \<Longrightarrow> hq_method q = ''GET'' \<Longrightarrow> hq_url q = R @ ''/git/blobs/'' @ s \<Longrightarrow>
    \<exists>content wrapped. gs_blobs st s = Some content \<and> json_get v ''content'' = JStr wrapped \<and>
      filter b64_relevant wrapped = b64encode content"
  by (erule git_effect.cases) auto

lemma effect_read_listing:
  "git_effect R q st v st' \<Longrightarrow> hq_method q = ''GET'' \<Longrightarrow> hq_url q = R @ ''/git/trees/'' @ c \<Longrightarrow>
    \<exists>cm m. gs_commits st c = Some cm \<and> gs_trees st (gc_tree cm) = Some m \<and>
      (json_truthy (json_get v ''truncated'') \<or> (\<exists>es. json_get v ''tree'' = JList es \<and> lists_tree m es))"
  by (erule git_effect.cases) auto

lemma b64decode_of_wrapped: "filter b64_relevant wrapped = b64encode s \<Longrightarrow> b64decode wrapped = Inr s"
  using b64_read_filter[of 0 0 0 0 wrapped] by (simp add: b64decode_def b64_read_encode)

lemma obj_item_get: "obj_item v k = Inr x \<Longrightarrow> json_get v k = x"
  by (auto simp: obj_item_def json_get_def split: json.splits option.splits)

lemma obj_get_present: "obj_get v k d = Inr x \<Longrightarrow> json_get v k \<noteq> JNull \<Longrightarrow> x = json_get v k"
  by (auto simp: obj_get_def json_get_def split: json.splits option.splits)

lemma fetched_blob:
  assumes "git_api host view (gh_repo ref)" "fetch_blob host client ref limits e w = (Inr (p, content), w')"
    "json_get e ''path'' = JStr q" "json_get e ''sha'' = JStr s"
  shows "p = q" "gs_blobs (view (w_host w)) s = Some content" "view (w_host w') = view (w_host w)"
proof -
  from assms(2) obtain jp js blob where jp: "obj_item e ''path'' = Inr jp" "p = json_str jp"
      and js: "obj_item e ''sha'' = Inr js"
      and g: "rest_get host client (gh_repo ref @ ''/git/blobs/'' @ json_str js) [] w = (Inr blob, w')"
      and d: "and_then (obj_get blob ''content'' (JStr [])) decode_content = Inr content"
    by (auto simp: fetch_blob_def rest_bind_Inr rest_pure_def)
  show "p = q" using jp assms(3) obj_item_get[OF jp(1)] by simp
  have s: "json_str js = s" using obj_item_get[OF js] assms(4) by auto
  note a = rest_get_answers[OF assms(1) g]
  obtain c wrapped where c: "gs_blobs (view (w_host w)) s = Some c" "json_get blob ''content'' = JStr wrapped"
      "filter b64_relevant wrapped = b64encode c"
    using effect_read_blob[OF a(1), of s] s by auto
  from d obtain x where "obj_get blob ''content'' (JStr []) = Inr x" "decode_content x = Inr content"
    by (auto simp: res_simps)
  then have "b64decode wrapped = Inr content"
    using obj_get_present[of blob "''content''" "JStr []" x] c(2) by (simp add: decode_content_def)
  with c b64decode_of_wrapped show "gs_blobs (view (w_host w)) s = Some content" by simp
  show "view (w_host w') = view (w_host w)" by (rule a(2))
qed

section \<open>The whole listing\<close>

definition blob_of :: "(string \<Rightarrow> string option) \<Rightarrow> json \<Rightarrow> bool" where
  "blob_of m e \<longleftrightarrow> (\<exists>p s. json_get e ''path'' = JStr p \<and> json_get e ''sha'' = JStr s \<and> m p = Some s)"

lemma fetched_blobs:
  assumes "git_api host view (gh_repo ref)" "rest_map (fetch_blob host client ref limits) es w = (Inr files, w')"
    "\<forall>e \<in> set es. blob_of m e"
  shows "map (\<lambda>e. json_get e ''path'') es = map (JStr \<circ> fst) files"
    "\<forall>(p, content) \<in> set files. Option.bind (m p) (gs_blobs (view (w_host w))) = Some content"
    "view (w_host w') = view (w_host w)"
proof -
  have "map (\<lambda>e. json_get e ''path'') es = map (JStr \<circ> fst) files \<and>
    (\<forall>(p, content) \<in> set files. Option.bind (m p) (gs_blobs (view (w_host w))) = Some content) \<and>
    view (w_host w') = view (w_host w)"
    using assms(2,3)
  proof (induction es arbitrary: w files)
    case Nil
    then show ?case by (simp add: rest_pure_def)
  next
    case (Cons e es)
    then obtain p content rest w1 where f: "fetch_blob host client ref limits e w = (Inr (p, content), w1)"
        and r: "rest_map (fetch_blob host client ref limits) es w1 = (Inr rest, w')" and files: "files = (p, content) # rest"
      by (auto simp: rest_bind_Inr rest_pure_def)
    from Cons.prems(2) obtain q s where q: "json_get e ''path'' = JStr q" "json_get e ''sha'' = JStr s" "m q = Some s"
      by (auto simp: blob_of_def)
    note b = fetched_blob[OF assms(1) f q(1,2)]
    show ?case using Cons.IH[OF r] Cons.prems(2) b q files by auto
  qed
  then show "map (\<lambda>e. json_get e ''path'') es = map (JStr \<circ> fst) files"
    "\<forall>(p, content) \<in> set files. Option.bind (m p) (gs_blobs (view (w_host w))) = Some content"
    "view (w_host w') = view (w_host w)" by simp_all
qed

lemma wanted_blob_Inr:
  "wanted_blob limits e = Inr True \<longleftrightarrow>
    json_get e ''type'' = JStr ''blob'' \<and> has_key e ''path'' \<and> \<not> excluded (json_str (json_get e ''path'')) limits"
  by (auto simp: wanted_blob_def res_simps obj_get_def obj_item_def json_get_def has_key_def
      split: json.splits option.splits if_splits)

lemma map_of_functional:
  assumes "\<forall>(k, v) \<in> set kvs. f k = Some v" "\<forall>k v. f k = Some v \<longrightarrow> k \<in> fst ` set kvs"
  shows "map_of kvs = f"
proof
  fix k
  show "map_of kvs k = f k"
  proof (cases "map_of kvs k")
    case None
    then show ?thesis using assms(2) by (cases "f k") (auto simp: map_of_eq_None_iff)
  next
    case (Some v)
    then show ?thesis using assms(1) by (auto dest!: map_of_SomeD)
  qed
qed

lemma read_tree_result:
  assumes "gh_read_tree host g ref commit limits w = (Inr t, w')"
  obtains client listing w1 entries blobs files where
    "rest_get host client (gh_repo ref @ ''/git/trees/'' @ commit) [(''recursive'', ''1'')] w = (Inr listing, w1)"
    "\<not> json_truthy (json_get listing ''truncated'')" "and_then (obj_get listing ''tree'' (JList [])) json_iter = Inr entries"
    "res_filter (wanted_blob limits) entries = Inr blobs" "check_file_count (length blobs) limits (repo_name ref) = Inr ()"
    "rest_map (fetch_blob host client ref limits) blobs w1 = (Inr files, w')"
    "finish_tree commit (dict_of files) limits (repo_name ref) = Inr t"
  using assms
  by (auto simp: gh_read_tree_def gh_with_def rest_bind_Inr rest_pure_def adapter_error_def tree_too_large_def split: if_splits)

lemma length_dict_of: "length (dict_of kvs) \<le> length kvs"
proof -
  have p: "length (dict_put k v d) \<le> Suc (length d)" for k and v :: 'a and d by (induction k v d rule: dict_put.induct) auto
  have "length (fold (\<lambda>(k, v). dict_put k v) kvs d) \<le> length kvs + length d" for d :: "(string \<times> 'a) list"
  proof (induction kvs arbitrary: d)
    case (Cons x kvs)
    then show ?case using p[of "fst x" "snd x" d] le_trans[OF Cons.IH[of "dict_put (fst x) (snd x) d"]]
      by (cases x) fastforce
  qed simp
  from this[of "[]"] show ?thesis by (simp add: dict_of_def)
qed

lemma read_files:
  assumes "git_api host view (gh_repo ref)" "lists_tree m es" "res_filter (wanted_blob limits) es = Inr blobs"
    "rest_map (fetch_blob host client ref limits) blobs w = (Inr files, w')"
  shows "map_of (dict_of files) = (\<lambda>p. if excluded p limits then None else Option.bind (m p) (gs_blobs (view (w_host w))))"
    "view (w_host w') = view (w_host w)"
proof -
  let ?f = "\<lambda>p. if excluded p limits then None else Option.bind (m p) (gs_blobs (view (w_host w)))"
  have b: "set blobs = {e \<in> set es. wanted_blob limits e = Inr True}" using assms(3) by (rule res_filter_set)
  then have "\<forall>e \<in> set blobs. blob_of m e"
    using assms(2) by (auto simp: lists_tree_def blob_of_def wanted_blob_Inr)
  note got = fetched_blobs[OF assms(1,4) this]
  have paths: "JStr p \<in> (\<lambda>e. json_get e ''path'') ` set blobs \<longleftrightarrow> p \<in> fst ` set files" for p
    using arg_cong[OF got(1), of set] by auto
  have "?f p = Some c" if "(p, c) \<in> set files" for p c
  proof -
    have "p \<in> fst ` set files" using that by force
    then obtain e where "e \<in> set blobs" "json_get e ''path'' = JStr p" using paths[of p] by auto
    then have "\<not> excluded p limits" using b by (auto simp: wanted_blob_Inr)
    then show ?thesis using got(2) that by auto
  qed
  moreover have "p \<in> fst ` set files" if f: "?f p = Some c" for p c
  proof -
    obtain s where "m p = Some s" "\<not> excluded p limits" using f by (cases "m p") (auto split: if_splits)
    moreover obtain e where "e \<in> set es" "json_get e ''type'' = JStr ''blob''" "json_get e ''path'' = JStr p"
      using assms(2) \<open>m p = Some s\<close> by (auto simp: lists_tree_def)
    ultimately have "e \<in> set blobs" unfolding b
      by (auto simp: wanted_blob_Inr has_key_def json_get_def split: json.splits option.splits)
    then show ?thesis using paths[of p] \<open>json_get e ''path'' = JStr p\<close> by (metis imageI)
  qed
  ultimately have "map_of (rev files) = ?f" by (intro map_of_functional) auto
  then show "map_of (dict_of files) = ?f" by (simp add: map_of_dict_of)
  show "view (w_host w') = view (w_host w)" by (rule got(3))
qed

lemma finish_tree_Inr:
  "finish_tree commit files limits repo = Inr t \<longleftrightarrow>
    t = \<lparr> rt_commit = commit, rt_files = files \<rparr> \<and> total_bytes t \<le> tl_max_total_bytes limits"
  by (auto simp: finish_tree_def tree_too_large_def Let_def)

lemma tree_is_the_commits:
  assumes "git_api host view (gh_repo ref)" "gh_read_tree host g ref commit limits w = (Inr t, w')"
  shows "map_of (rt_files t) = (\<lambda>p. if excluded p limits then None else commit_content (view (w_host w)) commit p)"
    "int (length (rt_files t)) \<le> tl_max_files limits" "total_bytes t \<le> tl_max_total_bytes limits"
    "view (w_host w') = view (w_host w)"
proof -
  from read_tree_result[OF assms(2)] obtain client listing w1 entries blobs files where
    l: "rest_get host client (gh_repo ref @ ''/git/trees/'' @ commit) [(''recursive'', ''1'')] w = (Inr listing, w1)"
    and t: "\<not> json_truthy (json_get listing ''truncated'')" "and_then (obj_get listing ''tree'' (JList [])) json_iter = Inr entries"
    and b: "res_filter (wanted_blob limits) entries = Inr blobs"
    and n: "check_file_count (length blobs) limits (repo_name ref) = Inr ()"
    and f: "rest_map (fetch_blob host client ref limits) blobs w1 = (Inr files, w')"
    and fin: "finish_tree commit (dict_of files) limits (repo_name ref) = Inr t" .
  note a = rest_get_answers[OF assms(1) l]
  obtain cm m es where m: "gs_commits (view (w_host w)) commit = Some cm" "gs_trees (view (w_host w)) (gc_tree cm) = Some m"
      "json_get listing ''tree'' = JList es" "lists_tree m es"
    using effect_read_listing[OF a(1), of commit] t(1) by auto
  have "entries = es" using t(2) m(3) by (auto simp: res_simps json_iter_def dest!: obj_get_present)
  note r = read_files[OF assms(1) m(4) b[unfolded this] f]
  have t: "t = \<lparr> rt_commit = commit, rt_files = dict_of files \<rparr>" "total_bytes t \<le> tl_max_total_bytes limits"
    using fin unfolding finish_tree_Inr by blast+
  have "commit_content (view (w_host w)) commit p = Option.bind (m p) (gs_blobs (view (w_host w)))" for p
    using m by (simp add: commit_content_def tree_content_def)
  then show "map_of (rt_files t) = (\<lambda>p. if excluded p limits then None else commit_content (view (w_host w)) commit p)"
    using r(1) a(2) t by (auto simp: fun_eq_iff)
  have "length files = length blobs" using rest_map_Inr[OF f] .
  then show "int (length (rt_files t)) \<le> tl_max_files limits"
    using length_dict_of[of files] n t by (auto simp: check_file_count_def tree_too_large_def split: if_splits)
  show "total_bytes t \<le> tl_max_total_bytes limits" by (rule t(2))
  show "view (w_host w') = view (w_host w)" using r(2) a(2) by simp
qed

text \<open>
  A tree that is read is the commit's: every file that is not excluded, with its content, and
  nothing else, within the bounds on the number of files and on their total size.  Nothing is left out
  silently: a truncated listing, a missing blob or a bound that does not hold is an error instead.
\<close>

theorem read_tree_is_the_commits:
  assumes "git_api host view (gh_repo ref)" "gh_read_tree host g ref commit limits w = (Inr t, w')"
  shows "map_of (rt_files t) = (\<lambda>p. if excluded p limits then None else commit_content (view (w_host w)) commit p) \<and>
    int (length (rt_files t)) \<le> tl_max_files limits \<and> total_bytes t \<le> tl_max_total_bytes limits \<and>
    view (w_host w') = view (w_host w)"
  using tree_is_the_commits[OF assms] by blast

section \<open>Push, then read\<close>

text \<open>The edits of the flow, as the adapter and as Build and Test lay them.\<close>

lemma lay_proposed:
  assumes "lstrip_slash (pe_path e) = pe_path e"
  shows "lay_file_edit (to_file_edit e) m = m(pe_path e := (if pe_deleted e then None else Some (pe_content e)))"
  using assms by (simp add: lay_file_edit_def to_file_edit_def)

lemma laid_alike:
  assumes "\<forall>e \<in> set edits. lstrip_slash (pe_path e) = pe_path e" "\<And>p. P p \<Longrightarrow> f p = g p" "P p"
  shows "fold lay_file_edit (map to_file_edit edits) f p
    = fold (\<lambda>e m. m(pe_path e := (if pe_deleted e then None else Some (pe_content e)))) edits g p"
  using assms
proof (induction edits arbitrary: f g)
  case (Cons e edits)
  have "fold lay_file_edit (map to_file_edit edits) (lay_file_edit (to_file_edit e) f) p
      = fold (\<lambda>e m. m(pe_path e := (if pe_deleted e then None else Some (pe_content e)))) edits
          (g(pe_path e := (if pe_deleted e then None else Some (pe_content e)))) p"
    by (rule Cons.IH) (use Cons.prems in \<open>auto simp: lay_proposed\<close>)
  then show ?case by (simp only: list.map fold_simps)
qed simp

text \<open>
  C6. The commit that is pushed holds what Build and Test graded: reading it back gives, at every path
  that is not excluded, the tree read at the base commit with the proposed edits laid over it.
\<close>

theorem pushed_tree_reads_as_graded:
  assumes "git_api host view (gh_repo ref)" "store_ok (view (w_host w0))"
    "gh_read_tree host g ref (br_commit base) limits w0 = (Inr t0, w1)"
    "gh_push_change host g ref base branch message (map to_file_edit edits) parent w1 = (Inr br, w2)"
    "gs_refs (view (w_host w1)) branch \<noteq> Some (br_commit br)"
    "gh_read_tree host g ref (br_commit br) limits w2 = (Inr t1, w3)"
    "\<forall>e \<in> set edits. lstrip_slash (pe_path e) = pe_path e" "\<not> excluded p limits"
  shows "map_of (rt_files t1) p = map_of (graded_tree (rt_files t0) edits) p"
proof -
  note r0 = tree_is_the_commits[OF assms(1,3)] and r1 = tree_is_the_commits[OF assms(1,6)]
  have "store_ok (view (w_host w1))" using assms(2) r0(4) by simp
  from push_outcome[OF assms(1) this assms(4)] assms(5)
  have "commit_content (view (w_host w2)) (br_commit br)
      = fold lay_file_edit (map to_file_edit edits) (commit_content (view (w_host w1)) (br_commit base))"
    by (metis (no_types, lifting))
  then show ?thesis
    using laid_alike[OF assms(7), of "\<lambda>p. \<not> excluded p limits" "commit_content (view (w_host w1)) (br_commit base)"
        "map_of (rt_files t0)" p] r0(1,4) r1(1) assms(8)
    by (simp add: graded_tree_is_base_plus_edits)
qed

end
