(* ===== verification/Git_Sample.thy ===== *)
theory Git_Sample
  imports Github_Tree
begin

text \<open>
  A small platform that keeps the law of Git_Api, so that the properties of Github_Push and Github_Tree
  are seen to hold of something: object ids are counters, the tables are association lists, and every
  request it does not know is a fault.
\<close>

record git_tables =
  gt_blobs :: "(string \<times> string) list"
  gt_trees :: "(string \<times> (string \<times> string) list) list"
  gt_commits :: "(string \<times> git_commit) list"
  gt_refs :: "(string \<times> string) list"

definition store_of :: "git_tables \<Rightarrow> git_store" where
  "store_of g = \<lparr> gs_blobs = map_of (gt_blobs g), gs_trees = map_option map_of \<circ> map_of (gt_trees g),
     gs_commits = map_of (gt_commits g), gs_refs = map_of (gt_refs g) \<rparr>"

definition json_answer :: "json \<Rightarrow> http_outcome" where
  "json_answer v = HttpResponse 200 ''-'' (Some v)"

definition sha_answer :: "string \<Rightarrow> http_outcome" where
  "sha_answer s = json_answer (JObj [(''sha'', JStr s)])"

definition git_fault :: http_outcome where
  "git_fault = HttpFault ''ConnectError''"

definition lay_entry_list :: "json \<Rightarrow> (string \<times> string) list \<Rightarrow> (string \<times> string) list" where
  "lay_entry_list e m =
    (case (json_get e ''path'', json_get e ''sha'') of
       (JStr p, JStr s) \<Rightarrow> dict_put p s m
     | (JStr p, JNull) \<Rightarrow> dict_pop p m
     | _ \<Rightarrow> m)"

definition answer_get :: "string \<Rightarrow> git_tables \<Rightarrow> http_outcome" where
  "answer_get path g =
    (if starts_with ''ref/heads/'' path then
       (case map_of (gt_refs g) (drop 10 path) of
          None \<Rightarrow> HttpResponse 404 ''Not Found'' None
        | Some c \<Rightarrow> if c = [] then git_fault else json_answer (JObj [(''object'', JObj [(''sha'', JStr c)])]))
     else if starts_with ''commits/'' path then
       (case map_of (gt_commits g) (drop 8 path) of
          None \<Rightarrow> git_fault
        | Some cm \<Rightarrow> if gc_tree cm = [] then git_fault
            else json_answer (JObj [(''tree'', JObj [(''sha'', JStr (gc_tree cm))]), (''message'', JStr (gc_message cm))]))
     else if starts_with ''trees/'' path then
       (case Option.bind (map_of (gt_commits g) (drop 6 path)) (\<lambda>cm. map_of (gt_trees g) (gc_tree cm)) of
          None \<Rightarrow> git_fault
        | Some m \<Rightarrow> if \<not> distinct (map fst m) then git_fault
            else json_answer (JObj [(''tree'', JList (map (\<lambda>(p, s). JObj [(''path'', JStr p), (''type'', JStr ''blob''),
              (''sha'', JStr s)]) m))]))
     else if starts_with ''blobs/'' path then
       (case map_of (gt_blobs g) (drop 6 path) of
          None \<Rightarrow> git_fault
        | Some content \<Rightarrow> json_answer (JObj [(''content'', JStr (b64encode content @ nl))]))
     else git_fault)"

fun as_str :: "json \<Rightarrow> string option" where
  "as_str (JStr s) = Some s"
| "as_str v = None"

lemma as_str_Some: "as_str v = Some s \<longleftrightarrow> v = JStr s"
  by (cases v) auto

fun as_result :: "'a res \<Rightarrow> 'a option" where
  "as_result (Inr x) = Some x"
| "as_result (Inl e) = None"

lemma as_result_Some: "as_result r = Some x \<longleftrightarrow> r = Inr x"
  by (cases r) auto

text \<open>A request that does not fit is a fault and changes nothing.\<close>

definition post_blob :: "json \<Rightarrow> git_tables \<Rightarrow> (string \<times> git_tables) option" where
  "post_blob body g =
    (let s = ''b'' @ string_of_nat (length (gt_blobs g))
     in Option.bind (as_str (json_get body ''content'')) (\<lambda>enc.
        Option.bind (as_result (b64decode enc)) (\<lambda>content.
          if json_get body ''encoding'' = JStr ''base64'' \<and> map_of (gt_blobs g) s = None
          then Some (s, g\<lparr> gt_blobs := (s, content) # gt_blobs g \<rparr>) else None)))"

definition post_tree :: "json \<Rightarrow> git_tables \<Rightarrow> (string \<times> git_tables) option" where
  "post_tree body g =
    (let s = ''t'' @ string_of_nat (length (gt_trees g)); es = json_items (json_get body ''tree'')
     in Option.bind (as_str (json_get body ''base_tree'')) (\<lambda>bt.
        Option.bind (map_of (gt_trees g) bt) (\<lambda>m.
          if json_get body ''tree'' = JList es \<and> map_of (gt_trees g) s = None
          then Some (s, g\<lparr> gt_trees := (s, fold lay_entry_list es m) # gt_trees g \<rparr>) else None)))"

definition post_commit :: "json \<Rightarrow> git_tables \<Rightarrow> (string \<times> git_tables) option" where
  "post_commit body g =
    (let s = ''c'' @ string_of_nat (length (gt_commits g)); ps = map json_str (json_items (json_get body ''parents''))
     in Option.bind (as_str (json_get body ''message'')) (\<lambda>m.
        Option.bind (as_str (json_get body ''tree'')) (\<lambda>t.
          if json_get body ''parents'' = JList (map JStr ps) \<and> map_of (gt_commits g) s = None
          then Some (s, g\<lparr> gt_commits := (s, \<lparr> gc_tree = t, gc_parents = ps, gc_message = m \<rparr>) # gt_commits g \<rparr>)
          else None)))"

definition post_ref :: "json \<Rightarrow> git_tables \<Rightarrow> (string \<times> git_tables) option" where
  "post_ref body g =
     Option.bind (as_str (json_get body ''ref'')) (\<lambda>r.
     Option.bind (as_str (json_get body ''sha'')) (\<lambda>c.
       if starts_with ''refs/heads/'' r \<and> map_of (gt_refs g) (drop 11 r) = None
       then Some (c, g\<lparr> gt_refs := (drop 11 r, c) # gt_refs g \<rparr>) else None))"

definition patch_ref :: "string \<Rightarrow> json \<Rightarrow> git_tables \<Rightarrow> (string \<times> git_tables) option" where
  "patch_ref b body g =
     Option.bind (as_str (json_get body ''sha'')) (\<lambda>c.
     Option.bind (map_of (gt_refs g) b) (\<lambda>old.
     Option.bind (map_of (gt_commits g) c) (\<lambda>cm.
       if old \<in> set (gc_parents cm) then Some (c, g\<lparr> gt_refs := (b, c) # gt_refs g \<rparr>) else None)))"

definition git_write :: "string \<Rightarrow> string \<Rightarrow> json \<Rightarrow> git_tables \<Rightarrow> (string \<times> git_tables) option" where
  "git_write verb path body g =
    (if verb = ''POST'' \<and> path = ''blobs'' then post_blob body g
     else if verb = ''POST'' \<and> path = ''trees'' then post_tree body g
     else if verb = ''POST'' \<and> path = ''commits'' then post_commit body g
     else if verb = ''POST'' \<and> path = ''refs'' then post_ref body g
     else if verb = ''PATCH'' \<and> starts_with ''refs/heads/'' path then patch_ref (drop 11 path) body g
     else None)"

definition git_host :: "string \<Rightarrow> git_tables platform" where
  "git_host R q g =
    (let path = drop (length (R @ ''/git/'')) (hq_url q)
     in if \<not> starts_with (R @ ''/git/'') (hq_url q) then (git_fault, g)
        else if hq_method q = ''GET'' then (answer_get path g, g)
        else case Option.bind (hq_json q) (\<lambda>body. git_write (hq_method q) path body g) of
            Some (s, g') \<Rightarrow> (sha_answer s, g')
          | None \<Rightarrow> (git_fault, g))"

section \<open>It keeps the law\<close>

lemma map_of_lay_entry_list: "map_of (fold lay_entry_list es m) = fold lay_entry es (map_of m)"
proof (induction es arbitrary: m)
  case (Cons e es)
  have "map_of (lay_entry_list e m) = lay_entry e (map_of m)"
    by (simp add: lay_entry_list_def lay_entry_def map_of_dict_put map_of_dict_pop split: json.split)
  with Cons show ?case by simp
qed simp

lemma answers_run [simp]:
  "answer_of verb url (json_answer v) = Inr v" "answer_of verb url (sha_answer s) = Inr (JObj [(''sha'', JStr s)])"
  "\<exists>m. answer_of verb url git_fault = Inl (AdapterError m)"
  by (simp_all add: json_answer_def sha_answer_def git_fault_def answer_of_def Let_def)

lemma prefix_rest: "starts_with p s \<Longrightarrow> s = p @ drop (length p) s"
  by (auto simp: starts_with_iff)

lemma heads_rest: "starts_with ''refs/heads/'' s \<Longrightarrow> s = ''refs/heads/'' @ drop 11 s"
  unfolding starts_with_iff by auto

text \<open>The law for one request.\<close>

definition obeys :: "string \<Rightarrow> http_request \<Rightarrow> git_store \<Rightarrow> http_outcome \<Rightarrow> git_store \<Rightarrow> bool" where
  "obeys R q st answer st' \<longleftrightarrow>
    (case answer_of (hq_method q) (hq_url q) answer of
       Inr v \<Rightarrow> git_effect R q st v st'
     | Inl e \<Rightarrow>
         (st' = st \<or> (hq_method q \<noteq> ''GET'' \<and> (\<exists>v. git_effect R q st v st'))) \<and>
         (\<forall>m b. e = NotFound m \<longrightarrow> hq_method q = ''GET'' \<longrightarrow> hq_url q = R @ ''/git/ref/heads/'' @ b \<longrightarrow> gs_refs st b = None))"

lemma git_api_obeys: "git_api host view R \<longleftrightarrow> (\<forall>q s. obeys R q (view s) (fst (host q s)) (view (snd (host q s))))"
  by (simp add: git_api_def obeys_def)

lemma obeys_fault [simp]: "obeys R q st git_fault st"
  by (simp add: obeys_def git_fault_def answer_of_def Let_def)

lemma obeys_sha: "git_effect R q st (JObj [(''sha'', JStr s)]) st' \<Longrightarrow> obeys R q st (sha_answer s) st'"
  by (simp add: obeys_def)

lemma obeys_json: "git_effect R q st v st \<Longrightarrow> obeys R q st (json_answer v) st"
  by (simp add: obeys_def)

lemma lists_sample:
  assumes "distinct (map fst m)"
  shows "lists_tree (map_of m) (map (\<lambda>(p, s). JObj [(''path'', JStr p), (''type'', JStr ''blob''), (''sha'', JStr s)]) m)"
  using assms by (auto simp: lists_tree_def json_get_def dest: map_of_SomeD) (force dest: map_of_SomeD)

lemma get_obeys:
  assumes "hq_method q = ''GET''" "hq_url q = R @ ''/git/'' @ path"
  shows "obeys R q (store_of g) (answer_get path g) (store_of g)"
proof -
  consider b where "path = ''ref/heads/'' @ b" | c where "path = ''commits/'' @ c" | c where "path = ''trees/'' @ c"
    | s where "path = ''blobs/'' @ s" | "answer_get path g = git_fault"
  proof -
    consider "starts_with ''ref/heads/'' path" | "starts_with ''commits/'' path" | "starts_with ''trees/'' path"
      | "starts_with ''blobs/'' path" | "answer_get path g = git_fault"
      unfolding answer_get_def by argo
    then show thesis using that unfolding starts_with_iff by cases blast+
  qed
  then show ?thesis
  proof cases
    case (1 b)
    show ?thesis
    proof (cases "map_of (gt_refs g) b")
      case None
      with 1 assms show ?thesis by (auto simp: answer_get_def obeys_def answer_of_def store_of_def)
    next
      case (Some c)
      then show ?thesis using 1 assms
        by (cases "c = []") (auto simp: answer_get_def store_of_def nested_sha_def intro!: obeys_json read_ref)
    qed
  next
    case (2 c)
    show ?thesis
    proof (cases "map_of (gt_commits g) c")
      case (Some cm)
      then show ?thesis using 2 assms
        by (cases "gc_tree cm = []")
          (auto simp: answer_get_def store_of_def nested_sha_def get_str_def intro!: obeys_json read_commit[where c = c and cm = cm])
    qed (use 2 in \<open>simp add: answer_get_def\<close>)
  next
    case (3 c)
    show ?thesis
    proof (cases "Option.bind (map_of (gt_commits g) c) (\<lambda>cm. map_of (gt_trees g) (gc_tree cm))")
      case (Some m)
      then obtain cm where cm: "map_of (gt_commits g) c = Some cm" "map_of (gt_trees g) (gc_tree cm) = Some m"
        by (auto simp: bind_eq_Some_conv)
      show ?thesis
      proof (cases "distinct (map fst m)")
        case True
        have "json_get (JObj [(''tree'', JList es)]) ''tree'' = JList es" for es by (simp add: json_get_def)
        then show ?thesis using 3 assms Some cm True lists_sample[OF True]
          by (simp add: answer_get_def)
            (intro obeys_json read_listing[where c = c and cm = cm and m = "map_of m"] disjI2 exI conjI, simp_all add: store_of_def)
      qed (use 3 Some in \<open>simp add: answer_get_def\<close>)
    qed (use 3 in \<open>simp add: answer_get_def\<close>)
  next
    case (4 s)
    show ?thesis
    proof (cases "map_of (gt_blobs g) s")
      case (Some content)
      have "filter b64_relevant (b64encode content @ nl) = b64encode content"
        by (simp add: b64_relevant_encode nl_def) (simp add: b64_relevant_def b64_value_def)
      then show ?thesis using 4 assms Some
        by (simp add: answer_get_def)
          (intro obeys_json read_blob[where s = s and content = content and wrapped = "b64encode content @ nl"],
            simp_all add: store_of_def json_get_def)
    qed (use 4 in \<open>simp add: answer_get_def\<close>)
  qed simp
qed

text \<open>A write that is made has its documented effect.\<close>

lemma post_blob_effect:
  assumes "hq_method q = ''POST''" "hq_url q = R @ ''/git/blobs''" "hq_json q = Some body" "post_blob body g = Some (s, g')"
  shows "git_effect R q (store_of g) (JObj [(''sha'', JStr s)]) (store_of g')"
proof -
  obtain enc content where c: "json_get body ''content'' = JStr enc" "b64decode enc = Inr content"
      "json_get body ''encoding'' = JStr ''base64''" "map_of (gt_blobs g) s = None" "g' = g\<lparr> gt_blobs := (s, content) # gt_blobs g \<rparr>"
    using assms(4) by (auto simp: post_blob_def Let_def bind_eq_Some_conv as_str_Some as_result_Some split: if_splits)
  have "store_of g' = (store_of g)\<lparr> gs_blobs := (gs_blobs (store_of g))(s := Some content) \<rparr>" by (simp add: c(5) store_of_def)
  moreover have "git_effect R q (store_of g) (JObj [(''sha'', JStr s)])
      ((store_of g)\<lparr> gs_blobs := (gs_blobs (store_of g))(s := Some content) \<rparr>)"
    using c(4) by (intro new_blob[OF assms(1-3) c(3,1,2)]) (simp_all add: obj_item_def store_of_def)
  ultimately show ?thesis by simp
qed

lemma post_tree_effect:
  assumes "hq_method q = ''POST''" "hq_url q = R @ ''/git/trees''" "hq_json q = Some body" "post_tree body g = Some (s, g')"
  shows "git_effect R q (store_of g) (JObj [(''sha'', JStr s)]) (store_of g')"
proof -
  obtain bt es m where c: "json_get body ''base_tree'' = JStr bt" "json_get body ''tree'' = JList es"
      "map_of (gt_trees g) bt = Some m" "map_of (gt_trees g) s = None" "g' = g\<lparr> gt_trees := (s, fold lay_entry_list es m) # gt_trees g \<rparr>"
    using assms(4) by (auto simp: post_tree_def Let_def bind_eq_Some_conv as_str_Some split: if_splits)
  have "store_of g' = (store_of g)\<lparr> gs_trees := (gs_trees (store_of g))(s := Some (fold lay_entry es (map_of m))) \<rparr>"
    by (simp add: c(5) store_of_def map_of_lay_entry_list fun_eq_iff)
  moreover have "git_effect R q (store_of g) (JObj [(''sha'', JStr s)])
      ((store_of g)\<lparr> gs_trees := (gs_trees (store_of g))(s := Some (fold lay_entry es (map_of m))) \<rparr>)"
    using c(3,4) by (intro new_tree[OF assms(1-3) c(1) _ c(2)]) (simp_all add: obj_item_def store_of_def)
  ultimately show ?thesis by simp
qed

lemma post_commit_effect:
  assumes "hq_method q = ''POST''" "hq_url q = R @ ''/git/commits''" "hq_json q = Some body" "post_commit body g = Some (s, g')"
  shows "git_effect R q (store_of g) (JObj [(''sha'', JStr s)]) (store_of g')"
proof -
  define ps where "ps = map json_str (json_items (json_get body ''parents''))"
  obtain m t where c: "json_get body ''message'' = JStr m" "json_get body ''tree'' = JStr t"
      "json_get body ''parents'' = JList (map JStr ps)" "map_of (gt_commits g) s = None"
      "g' = g\<lparr> gt_commits := (s, \<lparr> gc_tree = t, gc_parents = ps, gc_message = m \<rparr>) # gt_commits g \<rparr>"
    using assms(4) unfolding post_commit_def Let_def ps_def[symmetric]
    by (auto simp: bind_eq_Some_conv as_str_Some split: if_splits)
  have "store_of g' = (store_of g)\<lparr> gs_commits := (gs_commits (store_of g))(s := Some
      \<lparr> gc_tree = t, gc_parents = ps, gc_message = m \<rparr>) \<rparr>" by (simp add: c(5) store_of_def)
  moreover have "git_effect R q (store_of g) (JObj [(''sha'', JStr s)]) ((store_of g)\<lparr> gs_commits :=
      (gs_commits (store_of g))(s := Some \<lparr> gc_tree = t, gc_parents = ps, gc_message = m \<rparr>) \<rparr>)"
    using c(4) by (intro new_commit[OF assms(1-3) c(1-3)]) (simp_all add: obj_item_def store_of_def)
  ultimately show ?thesis by simp
qed

lemma refs_store: "store_of (g\<lparr> gt_refs := (b, c) # gt_refs g \<rparr>) = (store_of g)\<lparr> gs_refs := (gs_refs (store_of g))(b := Some c) \<rparr>"
  by (simp add: store_of_def)

lemma post_ref_effect:
  assumes "hq_method q = ''POST''" "hq_url q = R @ ''/git/refs''" "hq_json q = Some body" "post_ref body g = Some (s, g')"
  shows "git_effect R q (store_of g) v (store_of g')"
proof -
  obtain r c where c: "json_get body ''ref'' = JStr r" "json_get body ''sha'' = JStr c" "starts_with ''refs/heads/'' r"
      "map_of (gt_refs g) (drop 11 r) = None" "g' = g\<lparr> gt_refs := (drop 11 r, c) # gt_refs g \<rparr>"
    using assms(4) by (auto simp: post_ref_def bind_eq_Some_conv as_str_Some simp del: starts_with.simps split: if_splits)
  have r: "r = ''refs/heads/'' @ drop 11 r" using heads_rest[OF c(3)] .
  have ref: "json_get body ''ref'' = JStr (''refs/heads/'' @ drop 11 r)" using c(1) arg_cong[OF r, of JStr] by (rule trans)
  show ?thesis unfolding c(5) refs_store
    by (rule new_ref[OF assms(1-3) ref c(2)]) (simp add: store_of_def c(4))
qed

lemma patch_ref_effect:
  assumes "hq_method q = ''PATCH''" "hq_url q = R @ ''/git/refs/heads/'' @ b" "hq_json q = Some body" "patch_ref b body g = Some (s, g')"
  shows "git_effect R q (store_of g) v (store_of g')"
proof -
  obtain c old cm where c: "json_get body ''sha'' = JStr c" "map_of (gt_refs g) b = Some old"
      "map_of (gt_commits g) c = Some cm" "old \<in> set (gc_parents cm)" "g' = g\<lparr> gt_refs := (b, c) # gt_refs g \<rparr>"
    using assms(4) by (auto simp: patch_ref_def bind_eq_Some_conv as_str_Some split: if_splits)
  show ?thesis unfolding c(5) refs_store
    using c(2-4) by (intro move_ref[OF assms(1-3) c(1), where old = old and cm = cm]) (simp_all add: store_of_def)
qed

lemma git_write_cases:
  assumes "git_write verb path body g = Some r"
  shows "verb = ''POST'' \<and> path = ''blobs'' \<and> post_blob body g = Some r
    \<or> verb = ''POST'' \<and> path = ''trees'' \<and> post_tree body g = Some r
    \<or> verb = ''POST'' \<and> path = ''commits'' \<and> post_commit body g = Some r
    \<or> verb = ''POST'' \<and> path = ''refs'' \<and> post_ref body g = Some r
    \<or> verb = ''PATCH'' \<and> starts_with ''refs/heads/'' path \<and> patch_ref (drop 11 path) body g = Some r"
proof -
  have "None \<noteq> Some r" by simp
  then show ?thesis using assms unfolding git_write_def by argo
qed

lemma git_write_effect:
  assumes "hq_url q = R @ ''/git/'' @ path" "hq_json q = Some body" "git_write (hq_method q) path body g = Some (s, g')"
  shows "git_effect R q (store_of g) (JObj [(''sha'', JStr s)]) (store_of g')"
proof -
  consider "hq_method q = ''POST''" "path = ''blobs''" "post_blob body g = Some (s, g')"
    | "hq_method q = ''POST''" "path = ''trees''" "post_tree body g = Some (s, g')"
    | "hq_method q = ''POST''" "path = ''commits''" "post_commit body g = Some (s, g')"
    | "hq_method q = ''POST''" "path = ''refs''" "post_ref body g = Some (s, g')"
    | "hq_method q = ''PATCH''" "starts_with ''refs/heads/'' path" "patch_ref (drop 11 path) body g = Some (s, g')"
    using git_write_cases[OF assms(3)] by blast
  then show ?thesis
  proof cases
    case 1
    then have "hq_url q = R @ ''/git/blobs''" using assms(1) by simp
    then show ?thesis using 1 assms(2) post_blob_effect by blast
  next
    case 2
    then have "hq_url q = R @ ''/git/trees''" using assms(1) by simp
    then show ?thesis using 2 assms(2) post_tree_effect by blast
  next
    case 3
    then have "hq_url q = R @ ''/git/commits''" using assms(1) by simp
    then show ?thesis using 3 assms(2) post_commit_effect by blast
  next
    case 4
    then have "hq_url q = R @ ''/git/refs''" using assms(1) by simp
    then show ?thesis using 4 assms(2) post_ref_effect by blast
  next
    case 5
    obtain b where b: "path = ''refs/heads/'' @ b" using heads_rest[OF 5(2)] by blast
    then have "drop 11 path = b" by simp
    moreover have "hq_url q = R @ ''/git/refs/heads/'' @ b" using assms(1) b by simp
    ultimately show ?thesis using 5 assms(2) patch_ref_effect by metis
  qed
qed

lemma git_host_lawful: "git_api (git_host R) store_of R"
  unfolding git_api_obeys
proof (intro allI)
  fix q g
  show "obeys R q (store_of g) (fst (git_host R q g)) (store_of (snd (git_host R q g)))"
  proof (cases "starts_with (R @ ''/git/'') (hq_url q)")
    case False
    then show ?thesis by (simp add: git_host_def)
  next
    case True
    then obtain path where p: "hq_url q = R @ ''/git/'' @ path" unfolding starts_with_iff by auto
    then have d: "drop (length (R @ ''/git/'')) (hq_url q) = path" by simp
    show ?thesis
    proof (cases "Option.bind (hq_json q) (\<lambda>body. git_write (hq_method q) path body g)")
      case None
      then show ?thesis using True get_obeys[OF _ p] by (simp add: git_host_def d del: length_append)
    next
      case (Some r)
      then obtain body s g' where b: "hq_json q = Some body" "git_write (hq_method q) path body g = Some (s, g')" "r = (s, g')"
        by (cases r) (auto simp: bind_eq_Some_conv)
      then show ?thesis using True get_obeys[OF _ p] obeys_sha[OF git_write_effect[OF p b(1,2)]]
        by (simp add: git_host_def d del: length_append)
    qed
  qed
qed

section \<open>A push and the reads around it\<close>

definition s_tables :: git_tables where
  "s_tables = \<lparr> gt_blobs = [(''b0'', ''x = 1'')], gt_trees = [(''t0'', [(''a.py'', ''b0'')])],
     gt_commits = [(''c0'', \<lparr> gc_tree = ''t0'', gc_parents = [], gc_message = ''init'' \<rparr>)], gt_refs = [(''main'', ''c0'')] \<rparr>"

definition s_ref :: repo_ref where
  "s_ref = \<lparr> rref_host = ''github.com'', rref_org = ''o'', rref_repo = ''r'', rref_project = None \<rparr>"

definition s_github :: github where
  "s_github = new_github \<lparr> ae_current = None, ae_broker = \<lambda>q. Inr (Secret ''k'') \<rparr> ''https://api.github.com/'' ''https://github.com''"

definition s_base :: branch_ref where
  "s_base = \<lparr> br_name = ''main'', br_commit = ''c0'' \<rparr>"

definition s_limits :: tree_limits where
  "s_limits = \<lparr> tl_max_files = 10, tl_max_file_bytes = 100, tl_max_total_bytes = 1000, tl_exclude = [''.git/**''] \<rparr>"

definition s_edits :: "proposed_edit list" where
  "s_edits = [\<lparr> pe_path = ''a.py'', pe_content = ''x = 2'', pe_deleted = False \<rparr>,
     \<lparr> pe_path = ''b.py'', pe_content = ''y'', pe_deleted = False \<rparr>]"

definition s_wire :: "git_tables wire" where
  "s_wire = \<lparr> w_host = s_tables, w_sent = [] \<rparr>"

abbreviation s_host :: "git_tables platform" where
  "s_host \<equiv> git_host (gh_repo s_ref)"

definition s_read :: "repo_tree res \<times> git_tables wire" where
  "s_read = gh_read_tree s_host s_github s_ref (br_commit s_base) s_limits s_wire"

definition s_push :: "branch_ref res \<times> git_tables wire" where
  "s_push = gh_push_change s_host s_github s_ref s_base ''kuwarden/1'' ''msg'' (map to_file_edit s_edits) None (snd s_read)"

definition s_again :: "repo_tree res \<times> git_tables wire" where
  "s_again = gh_read_tree s_host s_github s_ref ''c1'' s_limits (snd s_push)"

lemma s_read_result: "fst s_read = Inr \<lparr> rt_commit = ''c0'', rt_files = [(''a.py'', ''x = 1'')] \<rparr>"
  by code_simp

lemma s_read_keeps: "w_host (snd s_read) = s_tables"
  by code_simp

lemma s_push_result: "fst s_push = Inr \<lparr> br_name = ''kuwarden/1'', br_commit = ''c1'' \<rparr>"
  by code_simp

lemma s_again_result: "fst s_again = Inr \<lparr> rt_commit = ''c1'', rt_files = [(''a.py'', ''x = 2''), (''b.py'', ''y'')] \<rparr>"
  by code_simp

lemma s_tables_ok: "store_ok (store_of s_tables)"
  by (auto simp: store_ok_def store_of_def s_tables_def split: if_splits)

lemma s_tables_refs: "gs_refs (store_of s_tables) = [''main'' \<mapsto> ''c0'']"
  by (simp add: store_of_def s_tables_def)

lemma s_start: "w_host s_wire = s_tables" "br_commit s_base = ''c0''"
  by (simp_all add: s_wire_def s_base_def)

text \<open>The results as equations the theorems take.\<close>

lemma s_reading: "gh_read_tree s_host s_github s_ref (br_commit s_base) s_limits s_wire
    = (Inr \<lparr> rt_commit = ''c0'', rt_files = [(''a.py'', ''x = 1'')] \<rparr>, snd s_read)"
  using s_read_result by (simp add: s_read_def prod_eq_iff)

lemma s_pushing: "gh_push_change s_host s_github s_ref s_base ''kuwarden/1'' ''msg'' (map to_file_edit s_edits) None (snd s_read)
    = (Inr \<lparr> br_name = ''kuwarden/1'', br_commit = ''c1'' \<rparr>, snd s_push)"
  using s_push_result by (simp add: s_push_def prod_eq_iff)

lemma s_reading_again: "gh_read_tree s_host s_github s_ref ''c1'' s_limits (snd s_push)
    = (Inr \<lparr> rt_commit = ''c1'', rt_files = [(''a.py'', ''x = 2''), (''b.py'', ''y'')] \<rparr>, snd s_again)"
  using s_again_result by (simp add: s_again_def prod_eq_iff)

lemma read_tree_is_the_commits_witness:
  "map_of [(''a.py'', ''x = 1'')] = (\<lambda>p. if excluded p s_limits then None else commit_content (store_of s_tables) ''c0'' p)"
  using read_tree_is_the_commits[OF git_host_lawful s_reading] unfolding s_start repo_tree.select_convs by (rule conjunct1)

lemma pushed_commit_is_base_plus_edits_witness:
  "gs_refs (store_of (w_host (snd s_push))) ''kuwarden/1'' = Some ''c1'' \<and>
    commit_content (store_of (w_host (snd s_push))) ''c1'' = fold lay_file_edit (map to_file_edit s_edits)
      (commit_content (store_of s_tables) ''c0'')"
proof -
  have "gs_refs (store_of s_tables) ''kuwarden/1'' \<noteq> Some ''c1''" by (simp add: s_tables_refs)
  then show ?thesis
    using pushed_commit_is_base_plus_edits[OF git_host_lawful _ s_pushing] s_tables_ok
    unfolding s_read_keeps by (auto simp: s_base_def)
qed


lemma pushed_tree_reads_as_graded_witness:
  "map_of [(''a.py'', ''x = 2''), (''b.py'', ''y'')] ''b.py'' = map_of (graded_tree [(''a.py'', ''x = 1'')] s_edits) ''b.py''"
proof -
  have "\<not> excluded ''b.py'' s_limits" by code_simp
  moreover have "\<forall>e \<in> set s_edits. lstrip_slash (pe_path e) = pe_path e" by (simp add: s_edits_def lstrip_slash_def)
  moreover have "gs_refs (store_of (w_host (snd s_read))) ''kuwarden/1'' \<noteq> Some ''c1''"
    by (simp add: s_read_keeps s_tables_refs)
  ultimately show ?thesis
    using pushed_tree_reads_as_graded[OF git_host_lawful _ s_reading s_pushing, of _ "snd s_again" "''b.py''"]
      s_reading_again s_tables_ok by (simp add: s_wire_def)
qed

end
