(* ===== verification/Accounts.thy ===== *)
theory Accounts
  imports Registry
begin

text \<open>
  engine/api/auth.py, the session and user endpoints of engine/api/main.py and the bootstrap command of
  engine/api/__main__.py.  A statement of SQL is atomic and a request is not: \<open>disable_user\<close> is also given as
  its statements, so that two requests can overlap.  The password hasher (Argon2) is a parameter.
\<close>

section \<open>Roles\<close>

datatype role = VIEWER | APPROVER | ADMIN

fun role_str :: "role \<Rightarrow> string" where
  "role_str VIEWER = ''viewer''"
| "role_str APPROVER = ''approver''"
| "role_str ADMIN = ''admin''"

fun role_rank :: "role \<Rightarrow> nat" where
  "role_rank VIEWER = 0"
| "role_rank APPROVER = 1"
| "role_rank ADMIN = 2"

text \<open>Each role includes the ones before it: the order of roles is the order of their ranks.\<close>

instantiation role :: linorder
begin
definition less_eq_role :: "role \<Rightarrow> role \<Rightarrow> bool" where
  "less_eq_role a b \<longleftrightarrow> role_rank a \<le> role_rank b"
definition less_role :: "role \<Rightarrow> role \<Rightarrow> bool" where
  "less_role a b \<longleftrightarrow> role_rank a < role_rank b"
instance
proof
  fix a b :: role
  show "a \<le> b \<Longrightarrow> b \<le> a \<Longrightarrow> a = b" by (cases a; cases b) (simp_all add: less_eq_role_def)
qed (auto simp: less_eq_role_def less_role_def)
end

record account =
  ac_id :: uuid
  ac_email :: string
  ac_display_name :: string
  ac_role :: role

definition can :: "account \<Rightarrow> role \<Rightarrow> bool" where
  "can p required \<longleftrightarrow> role_rank (ac_role p) \<ge> role_rank required"

lemma can_iff: "can p required \<longleftrightarrow> required \<le> ac_role p"
  by (simp add: can_def less_eq_role_def)

lemma admin_only [simp]: "ADMIN \<le> r \<longleftrightarrow> r = ADMIN"
  by (cases r) (simp_all add: less_eq_role_def)

section \<open>The table of users\<close>

text \<open>\<open>us_disabled\<close> and \<open>us_last_login\<close> are moments; \<open>token_version\<close> is a column of 32 bits.\<close>

record user_row =
  us_id :: uuid
  us_email :: string
  us_display_name :: string
  us_hash :: string
  us_role :: role
  us_version :: int
  us_disabled :: "nat option"
  us_last_login :: "nat option"

type_synonym users = "user_row list"

definition account_of :: "user_row \<Rightarrow> account" where
  "account_of u = \<lparr> ac_id = us_id u, ac_email = us_email u, ac_display_name = us_display_name u, ac_role = us_role u \<rparr>"

definition user_by_id :: "uuid \<Rightarrow> users \<Rightarrow> user_row option" where
  "user_by_id i us = find (\<lambda>u. us_id u = i) us"

definition user_by_email :: "string \<Rightarrow> users \<Rightarrow> user_row option" where
  "user_by_email e us = find (\<lambda>u. us_email u = e) us"

definition update_user :: "uuid \<Rightarrow> (user_row \<Rightarrow> user_row) \<Rightarrow> users \<Rightarrow> users" where
  "update_user i f us = map (\<lambda>u. if us_id u = i then f u else u) us"

definition normal_email :: "string \<Rightarrow> string" where
  "normal_email e = casefold (py_strip e)"

section \<open>Passwords\<close>

datatype verified = Matches | NoMatch | HasherFault error

text \<open>\<open>h_hash\<close> takes the salt it draws; \<open>NoMatch\<close> is a mismatch or a hash it cannot read.\<close>

record hasher =
  h_hash :: "nat \<Rightarrow> string \<Rightarrow> string"
  h_verify :: "string \<Rightarrow> string \<Rightarrow> verified"
  h_needs_rehash :: "string \<Rightarrow> bool"

definition hash_password :: "hasher \<Rightarrow> nat \<Rightarrow> string \<Rightarrow> string res" where
  "hash_password h salt password =
    (if length password < 12 then Inl (OtherError ''ValueError'' ''password must be at least 12 characters'')
     else Inr (h_hash h salt password))"

definition DUMMY_HASH :: "hasher \<Rightarrow> string" where
  "DUMMY_HASH h = h_hash h 0 ''a-password-that-matches-nothing''"

text \<open>
  \<open>authenticate\<close>: the hashes a password was verified against, the answer, and the table.  \<open>salt\<close> is
  for a hash that is renewed.
\<close>

definition authenticate :: "hasher \<Rightarrow> nat \<Rightarrow> nat \<Rightarrow> string \<Rightarrow> string \<Rightarrow> users
    \<Rightarrow> string list \<times> account option res \<times> users" where
  "authenticate h salt now email password us =
    (case user_by_email (normal_email email) us of
       None \<Rightarrow> ([DUMMY_HASH h],
         (case h_verify h (DUMMY_HASH h) password of HasherFault e \<Rightarrow> Inl e | _ \<Rightarrow> Inr None), us)
     | Some u \<Rightarrow> ([us_hash u],
         (case h_verify h (us_hash u) password of
            HasherFault e \<Rightarrow> (Inl e, us)
          | NoMatch \<Rightarrow> (Inr None, us)
          | Matches \<Rightarrow>
              if us_disabled u \<noteq> None then (Inr None, us)
              else let renewed = (if h_needs_rehash h (us_hash u)
                         then update_user (us_id u) (\<lambda>r. r\<lparr> us_hash := h_hash h salt password \<rparr>) us else us)
              in (Inr (Some (account_of u)), update_user (us_id u) (\<lambda>r. r\<lparr> us_last_login := Some now \<rparr>) renewed))))"

section \<open>Sessions\<close>

text \<open>What the signed cookie carries.  The browser cannot forge one, only present one it was given.\<close>

record session =
  se_user :: "uuid option"
  se_version :: "int option"

definition no_session :: session where
  "no_session = \<lparr> se_user = None, se_version = None \<rparr>"

definition sign_in :: "hasher \<Rightarrow> nat \<Rightarrow> nat \<Rightarrow> string \<Rightarrow> string \<Rightarrow> session \<Rightarrow> users
    \<Rightarrow> account reply \<times> session \<times> users" where
  "sign_in h salt now email password se us =
    (case authenticate h salt now email password us of
       (work, Inl e, us') \<Rightarrow> (Unhandled e, se, us')
     | (work, Inr None, us') \<Rightarrow> (HttpStatus 401 ''email or password is incorrect'', se, us')
     | (work, Inr (Some p), us') \<Rightarrow>
         (Reply p, \<lparr> se_user = Some (ac_id p), se_version = map_option us_version (user_by_id (ac_id p) us') \<rparr>, us'))"

definition sign_out :: "session \<Rightarrow> unit reply \<times> session" where
  "sign_out se = (Reply (), no_session)"

definition current_principal :: "session \<Rightarrow> users \<Rightarrow> account reply \<times> session" where
  "current_principal se us =
    (case se_user se of
       None \<Rightarrow> (HttpStatus 401 ''not signed in'', se)
     | Some i \<Rightarrow>
         (case user_by_id i us of
            None \<Rightarrow> (HttpStatus 401 ''account is not active'', no_session)
          | Some u \<Rightarrow>
              if us_disabled u \<noteq> None then (HttpStatus 401 ''account is not active'', no_session)
              else if Some (us_version u) \<noteq> se_version se then (HttpStatus 401 ''session has been revoked'', no_session)
              else (Reply (account_of u), se)))"

text \<open>\<open>requires\<close>, in front of a handler.\<close>

definition guard :: "role \<Rightarrow> session \<Rightarrow> users \<Rightarrow> account reply" where
  "guard required se us =
    (case fst (current_principal se us) of
       Reply p \<Rightarrow> if \<not> can p required
         then HttpStatus 403 (''this action requires the '' @ role_str required @ '' role; '' @ ac_email p
           @ '' is '' @ role_str (ac_role p)) else Reply p
     | r \<Rightarrow> r)"

definition behind_guard :: "role \<Rightarrow> session \<Rightarrow> users \<Rightarrow> (account \<Rightarrow> 'b reply \<times> users) \<Rightarrow> 'b reply \<times> users" where
  "behind_guard required se us handler =
    (case guard required se us of
       Reply p \<Rightarrow> handler p
     | HttpStatus n m \<Rightarrow> (HttpStatus n m, us)
     | Unhandled e \<Rightarrow> (Unhandled e, us))"

section \<open>Accounts\<close>

definition unique_violation :: "string \<Rightarrow> error" where
  "unique_violation column = OtherError ''UniqueViolationError'' (''duplicate key value violates unique constraint on '' @ column)"

text \<open>The hash is computed before the row is written; the constraints of the table are checked last.\<close>

definition create_user :: "hasher \<Rightarrow> nat \<Rightarrow> uuid \<Rightarrow> string \<Rightarrow> string \<Rightarrow> string \<Rightarrow> role \<Rightarrow> users \<Rightarrow> uuid res \<times> users" where
  "create_user h salt new_id email display_name password r us =
    (case hash_password h salt password of
       Inl e \<Rightarrow> (Inl e, us)
     | Inr hashed \<Rightarrow>
         if user_by_id new_id us \<noteq> None then (Inl (unique_violation ''id''), us)
         else if user_by_email (normal_email email) us \<noteq> None then (Inl (unique_violation ''email''), us)
         else (Inr new_id, us @ [\<lparr> us_id = new_id, us_email = normal_email email, us_display_name = display_name,
           us_hash = hashed, us_role = r, us_version = 1, us_disabled = None, us_last_login = None \<rparr>]))"

definition user_count :: "users \<Rightarrow> int" where
  "user_count us = int (length us)"

definition bootstrap_state :: "users \<Rightarrow> bool" where
  "bootstrap_state us \<longleftrightarrow> user_count us > 0"

record new_user =
  nu_email :: string
  nu_display_name :: string
  nu_password :: string
  nu_role :: role

definition valid_new_user :: "new_user \<Rightarrow> bool" where
  "valid_new_user b \<longleftrightarrow> 3 \<le> length (nu_email b) \<and> 1 \<le> length (nu_display_name b) \<and> 12 \<le> length (nu_password b)"

definition add_user :: "hasher \<Rightarrow> nat \<Rightarrow> uuid \<Rightarrow> new_user \<Rightarrow> users \<Rightarrow> uuid reply \<times> users" where
  "add_user h salt new_id b us =
    (if user_by_email (normal_email (nu_email b)) us \<noteq> None then (HttpStatus 409 (nu_email b @ '' already has an account''), us)
     else case create_user h salt new_id (nu_email b) (nu_display_name b) (nu_password b) (nu_role b) us of
            (Inr i, us') \<Rightarrow> (Reply i, us')
          | (Inl e, us') \<Rightarrow> (if err_type e = ''ValueError'' then HttpStatus 422 (err_msg e) else Unhandled e, us'))"

definition list_users :: "users \<Rightarrow> (account \<times> nat option \<times> nat option) list" where
  "list_users us = map (\<lambda>u. (account_of u, us_disabled u, us_last_login u)) us"

text \<open>\<open>disable_user\<close>: its two reads and its write, each one statement.\<close>

definition active_admins :: "users \<Rightarrow> nat" where
  "active_admins us = length (filter (\<lambda>u. us_role u = ADMIN \<and> us_disabled u = None) us)"

definition is_active_admin :: "uuid \<Rightarrow> users \<Rightarrow> bool" where
  "is_active_admin i us \<longleftrightarrow> (\<exists>u \<in> set us. us_id u = i \<and> us_role u = ADMIN \<and> us_disabled u = None)"

definition disable_row :: "nat \<Rightarrow> uuid \<Rightarrow> users \<Rightarrow> users" where
  "disable_row now i = update_user i (\<lambda>u. u\<lparr> us_disabled := Some now, us_version := us_version u + 1 \<rparr>)"

definition version_fits :: "uuid \<Rightarrow> users \<Rightarrow> bool" where
  "version_fits i us \<longleftrightarrow> (\<forall>u \<in> set us. us_id u = i \<longrightarrow> us_version u < 2147483647)"

definition out_of_range :: error where
  "out_of_range = OtherError ''NumericValueOutOfRangeError'' ''integer out of range''"

definition disable_user :: "nat \<Rightarrow> uuid \<Rightarrow> account \<Rightarrow> users \<Rightarrow> unit reply \<times> users" where
  "disable_user now i p us =
    (if i = ac_id p then (HttpStatus 409 ''you cannot disable your own account'', us)
     else if is_active_admin i us \<and> active_admins us \<le> 1 then (HttpStatus 409 ''this is the only active admin'', us)
     else if \<not> version_fits i us then (Unhandled out_of_range, us)
     else (Reply (), disable_row now i us))"

definition role_named :: "string \<Rightarrow> role option" where
  "role_named s = map_of (map (\<lambda>r. (role_str r, r)) [VIEWER, APPROVER, ADMIN]) s"

text \<open>The bootstrap command: the exit status, and what it printed is left out.\<close>

definition cli_create :: "hasher \<Rightarrow> nat \<Rightarrow> uuid \<Rightarrow> string list \<Rightarrow> string \<Rightarrow> string \<Rightarrow> string \<Rightarrow> users \<Rightarrow> int \<times> users" where
  "cli_create h salt new_id argv display password repeated us =
    (if length argv < 4 then (2, us)
     else case role_named (argv ! 3) of
            None \<Rightarrow> (2, us)
          | Some r \<Rightarrow>
              if user_count us = 0 \<and> r \<noteq> ADMIN then (2, us)
              else let display_name = (if py_strip display = [] then argv ! 2 else py_strip display)
              in if password \<noteq> repeated then (1, us)
                 else case create_user h salt new_id (argv ! 2) display_name password r us of
                        (Inl e, us') \<Rightarrow> (1, us')
                      | (Inr i, us') \<Rightarrow> (0, us'))"

text \<open>\<open>python -m engine.api create-user\<close>.\<close>

definition cli_main :: "hasher \<Rightarrow> nat \<Rightarrow> uuid \<Rightarrow> string list \<Rightarrow> string \<Rightarrow> string \<Rightarrow> string \<Rightarrow> users \<Rightarrow> int \<times> users" where
  "cli_main h salt new_id argv display password repeated us =
    (if length argv > 1 \<and> argv ! 1 = ''create-user'' then cli_create h salt new_id argv display password repeated us
     else (2, us))"

section \<open>Requests over time\<close>

text \<open>
  A request to disable an account is admitted by the guard, and then runs its three statements, between
  which anything else may happen.
\<close>

datatype disable_phase = ToCount | ToCheck nat | ToWrite

record account_world =
  aw_users :: users
  aw_pending :: "(uuid \<times> disable_phase) list"

definition empty_accounts :: account_world where
  "empty_accounts = \<lparr> aw_users = [], aw_pending = [] \<rparr>"

text \<open>The next statement of a request: what becomes of it, and the table.\<close>

definition disable_statement :: "nat \<Rightarrow> uuid \<Rightarrow> disable_phase \<Rightarrow> users \<Rightarrow> disable_phase option \<times> users" where
  "disable_statement now i phase us =
    (case phase of
       ToCount \<Rightarrow> (Some (ToCheck (active_admins us)), us)
     | ToCheck admins \<Rightarrow> (if is_active_admin i us \<and> admins \<le> 1 then None else Some ToWrite, us)
     | ToWrite \<Rightarrow> (None, if version_fits i us then disable_row now i us else us))"

inductive account_step :: "account_world \<Rightarrow> account_world \<Rightarrow> bool" where
  signs_in: "account_step w (w\<lparr> aw_users := snd (snd (sign_in h salt now email password se (aw_users w))) \<rparr>)"
| adds: "valid_new_user b \<Longrightarrow>
    account_step w (w\<lparr> aw_users := snd (behind_guard ADMIN se (aw_users w) (\<lambda>p. add_user h salt new_id b (aw_users w))) \<rparr>)"
| creates: "account_step w (w\<lparr> aw_users := snd (cli_main h salt new_id argv display password repeated (aw_users w)) \<rparr>)"
| asks: "guard ADMIN se (aw_users w) = Reply p \<Longrightarrow> i \<noteq> ac_id p \<Longrightarrow>
    account_step w (w\<lparr> aw_pending := aw_pending w @ [(i, ToCount)] \<rparr>)"
| goes_on: "aw_pending w = before @ (i, phase) # behind \<Longrightarrow> disable_statement now i phase (aw_users w) = (next_phase, us) \<Longrightarrow>
    account_step w (w\<lparr> aw_users := us,
      aw_pending := before @ (case next_phase of None \<Rightarrow> [] | Some ph \<Rightarrow> [(i, ph)]) @ behind \<rparr>)"

inductive account_steps :: "account_world \<Rightarrow> account_world \<Rightarrow> bool" where
  no_request: "account_steps w w"
| one_request: "account_steps w w1 \<Longrightarrow> account_step w1 w2 \<Longrightarrow> account_steps w w2"

text \<open>With nobody in between, the three statements are \<open>disable_user\<close>.\<close>

lemma disable_user_is_its_statements:
  assumes "i \<noteq> ac_id p"
  shows "snd (disable_user now i p us) =
    (case disable_statement now i ToCount us of (Some ph, us1) \<Rightarrow>
      (case disable_statement now i ph us1 of
         (Some ph2, us2) \<Rightarrow> snd (disable_statement now i ph2 us2)
       | (None, us2) \<Rightarrow> us2))"
  using assms by (simp add: disable_user_def disable_statement_def)

section \<open>Emails\<close>

lemma is_space_lower [simp]: "is_space (lower_char c) = is_space c"
  by (auto simp: is_space_def lower_char_def Let_def)

lemma casefold_strip: "casefold (py_strip s) = py_strip (casefold s)"
  by (simp add: casefold_def py_strip_def dropWhile_map rev_map o_def)

lemma dropWhile_idem [simp]: "dropWhile P (dropWhile P xs) = dropWhile P xs"
  by (induction xs) auto

lemma strip_left:
  assumes "dropWhile P xs = xs"
  shows "dropWhile P (rev (dropWhile P (rev xs))) = rev (dropWhile P (rev xs))"
proof -
  have "xs = rev (dropWhile P (rev xs)) @ rev (takeWhile P (rev xs))"
    by (metis rev_append rev_rev_ident takeWhile_dropWhile_id)
  then have "hd (rev (dropWhile P (rev xs))) = hd xs" if "rev (dropWhile P (rev xs)) \<noteq> []"
    using hd_append2[OF that] by metis
  then show ?thesis
    using assms by (cases "rev (dropWhile P (rev xs)) = []") (auto simp: dropWhile_eq_self_iff)
qed

lemma py_strip_idem [simp]: "py_strip (py_strip s) = py_strip s"
  unfolding py_strip_def using strip_left[of is_space "dropWhile is_space s"] by simp

lemma normal_email_idem [simp]: "normal_email (normal_email e) = normal_email e"
  by (simp add: normal_email_def casefold_strip)

section \<open>What every step keeps\<close>

named_theorems account_defs \<open>operations that write the table of users\<close>

lemma find_None_iff: "find P xs = None \<longleftrightarrow> (\<forall>x \<in> set xs. \<not> P x)"
  by (induction xs) auto

lemma update_user_ids [simp]: "(\<And>u. us_id (f u) = us_id u) \<Longrightarrow> map us_id (update_user i f us) = map us_id us"
  by (simp add: update_user_def)

lemma update_user_emails [simp]: "(\<And>u. us_email (f u) = us_email u) \<Longrightarrow> map us_email (update_user i f us) = map us_email us"
  by (simp add: update_user_def)

text \<open>Rows are added at the end; a row keeps its identity, its email and its role, and a disabled one stays so.\<close>

definition row_kept :: "user_row \<Rightarrow> user_row \<Rightarrow> bool" where
  "row_kept u u' \<longleftrightarrow> us_id u' = us_id u \<and> us_email u' = us_email u \<and> us_role u' = us_role u \<and>
     (us_disabled u \<noteq> None \<longrightarrow> us_disabled u' \<noteq> None) \<and> us_version u \<le> us_version u'"

definition rows_kept :: "users \<Rightarrow> users \<Rightarrow> bool" where
  "rows_kept us us' \<longleftrightarrow> (\<exists>kept more. us' = kept @ more \<and> list_all2 row_kept us kept)"

lemma row_kept_refl [simp]: "row_kept u u"
  by (simp add: row_kept_def)

lemma row_kept_trans: "row_kept u v \<Longrightarrow> row_kept v w \<Longrightarrow> row_kept u w"
  by (auto simp: row_kept_def)

lemma rows_kept_refl [simp]: "rows_kept us us"
  unfolding rows_kept_def by (intro exI[of _ us] exI[of _ "[]"]) (simp add: list_all2_refl)

lemma rows_kept_trans:
  assumes "rows_kept a b" "rows_kept b c"
  shows "rows_kept a c"
proof -
  obtain k m k2 m2 where b: "b = k @ m" "list_all2 row_kept a k" and c: "c = k2 @ m2" "list_all2 row_kept b k2"
    using assms unfolding rows_kept_def by blast
  obtain k3 k4 where k2: "k2 = k3 @ k4" "list_all2 row_kept k k3"
    using c(2) unfolding b(1) by (auto simp: list_all2_append1)
  have "list_all2 row_kept a k3" using b(2) k2(2)
    by (simp add: list_all2_conv_all_nth) (metis row_kept_trans)
  then show ?thesis unfolding rows_kept_def c(1) k2(1) by auto
qed

lemma update_keeps:
  assumes "\<And>u. row_kept u (f u)"
  shows "rows_kept us (update_user i f us)"
  unfolding rows_kept_def
  using assms by (intro exI[of _ "update_user i f us"] exI[of _ "[]"]) (simp add: update_user_def list_all2_map2 list_all2_same)

lemma append_keeps [simp]: "rows_kept us (us @ new)"
  unfolding rows_kept_def by (intro exI[of _ us] exI[of _ new]) (simp add: list_all2_refl)

lemma authenticate_keeps: "authenticate h salt now email password us = (work, r, us') \<Longrightarrow> rows_kept us us'"
  unfolding authenticate_def
  by (auto split: option.splits verified.splits if_splits simp: row_kept_def intro!: rows_kept_trans[OF update_keeps update_keeps] update_keeps)

lemma sign_in_keeps: "rows_kept us (snd (snd (sign_in h salt now email password se us)))"
  by (auto simp: sign_in_def split: prod.splits sum.splits option.splits dest: authenticate_keeps)

lemma create_user_keeps: "create_user h salt new_id email display_name password r us = (res, us') \<Longrightarrow> rows_kept us us'"
  by (auto simp: create_user_def split: sum.splits if_splits)

lemma add_user_keeps: "rows_kept us (snd (add_user h salt new_id b us))"
  by (simp add: add_user_def create_user_keeps split: prod.split sum.split)

lemma cli_main_keeps: "rows_kept us (snd (cli_main h salt new_id argv display password repeated us))"
  by (simp add: cli_main_def cli_create_def Let_def create_user_keeps split: option.split prod.split sum.split)

lemma disable_statement_keeps: "rows_kept us (snd (disable_statement now i phase us))"
  by (auto simp: disable_statement_def disable_row_def row_kept_def split: disable_phase.split intro!: update_keeps)

lemma behind_guard_keeps: "(\<And>p. rows_kept us (snd (k p))) \<Longrightarrow> rows_kept us (snd (behind_guard r se us k))"
  by (simp add: behind_guard_def split: reply.split)

lemma step_keeps: "account_step w w' \<Longrightarrow> rows_kept (aw_users w) (aw_users w')"
proof (induction rule: account_step.induct)
  case (goes_on w before i phase behind now next_phase us)
  then show ?case using disable_statement_keeps[of "aw_users w" now i phase] by simp
qed (simp_all add: sign_in_keeps cli_main_keeps behind_guard_keeps add_user_keeps)

lemma steps_keep: "account_steps w w' \<Longrightarrow> rows_kept (aw_users w) (aw_users w')"
  by (induction rule: account_steps.induct) (auto intro: rows_kept_trans step_keeps)

section \<open>The table stays sound\<close>

definition users_ok :: "users \<Rightarrow> bool" where
  "users_ok us \<longleftrightarrow> distinct (map us_id us) \<and> distinct (map us_email us) \<and>
     list_all (\<lambda>u. normal_email (us_email u) = us_email u) us \<and> (us \<noteq> [] \<longrightarrow> us_role (hd us) = ADMIN)"

lemma user_by_id_None: "user_by_id i us = None \<longleftrightarrow> i \<notin> us_id ` set us"
  by (auto simp: user_by_id_def find_None_iff)

lemma user_by_email_None: "user_by_email e us = None \<longleftrightarrow> e \<notin> us_email ` set us"
  by (auto simp: user_by_email_def find_None_iff)

lemma users_ok_update:
  assumes "users_ok us" "\<And>u. us_id (f u) = us_id u \<and> us_email (f u) = us_email u \<and> us_role (f u) = us_role u"
  shows "users_ok (update_user i f us)"
proof -
  have "us \<noteq> [] \<Longrightarrow> us_role (hd (update_user i f us)) = us_role (hd us)"
    using assms(2) by (cases us) (simp_all add: update_user_def)
  then show ?thesis
    using assms by (auto simp: users_ok_def list_all_iff) (auto simp: update_user_def)
qed

lemma users_ok_create:
  assumes "users_ok us" "create_user h salt new_id email display_name password r us = (res, us')" "us = [] \<Longrightarrow> r = ADMIN"
  shows "users_ok us'"
  using assms by (auto simp: create_user_def users_ok_def user_by_id_None user_by_email_None hd_append split: sum.splits if_splits)

lemma authenticate_ok: "users_ok us \<Longrightarrow> authenticate h salt now email password us = (work, r, us') \<Longrightarrow> users_ok us'"
  unfolding authenticate_def
  by (auto split: option.splits verified.splits if_splits intro!: users_ok_update)

lemma guard_empty [simp]: "guard r se [] \<noteq> Reply p"
  by (auto simp: guard_def current_principal_def user_by_id_def split: option.splits)

lemma behind_guard_cases:
  "(\<exists>p. guard r se us = Reply p \<and> behind_guard r se us k = k p) \<or> snd (behind_guard r se us k) = us"
  by (simp add: behind_guard_def split: reply.split)

lemma cli_create_writes:
  "snd (cli_create h salt new_id argv display password repeated us) = us \<or>
    (\<exists>email name r. snd (cli_create h salt new_id argv display password repeated us)
        = snd (create_user h salt new_id email name password r us) \<and> (us = [] \<longrightarrow> r = ADMIN))"
proof (cases "role_named (argv ! 3)")
  case (Some r)
  define name where "name = (if py_strip display = [] then argv ! 2 else py_strip display)"
  obtain res us' where c: "create_user h salt new_id (argv ! 2) name password r us = (res, us')" by fastforce
  show ?thesis
  proof (cases "length argv < 4 \<or> (user_count us = 0 \<and> r \<noteq> ADMIN) \<or> password \<noteq> repeated")
    case False
    then have "snd (cli_create h salt new_id argv display password repeated us) = us'"
      using Some c unfolding cli_create_def Let_def name_def[symmetric] by (auto split: sum.split)
    moreover have "us = [] \<longrightarrow> r = ADMIN" using False by (auto simp: user_count_def)
    ultimately show ?thesis using c by (metis snd_conv)
  qed (use Some in \<open>auto simp: cli_create_def Let_def\<close>)
qed (simp add: cli_create_def)

lemma users_ok_cli: "users_ok us \<Longrightarrow> users_ok (snd (cli_main h salt new_id argv display password repeated us))"
proof -
  assume ok: "users_ok us"
  have "users_ok (snd (cli_create h salt new_id argv display password repeated us))"
    using cli_create_writes[of h salt new_id argv display password repeated us] ok users_ok_create[OF ok surjective_pairing]
    by metis
  then show ?thesis using ok by (simp add: cli_main_def)
qed

lemma users_ok_step: "account_step w w' \<Longrightarrow> users_ok (aw_users w) \<Longrightarrow> users_ok (aw_users w')"
proof (induction rule: account_step.induct)
  case (signs_in w h salt now email password se)
  then show ?case by (auto simp: sign_in_def dest: authenticate_ok split: prod.split sum.split option.split)
next
  case (adds b w se h salt new_id)
  have "users_ok (snd (add_user h salt new_id b (aw_users w)))" if "guard ADMIN se (aw_users w) = Reply p" for p
  proof -
    have "aw_users w \<noteq> []" using that by auto
    then show ?thesis using adds.prems by (auto simp: add_user_def dest: users_ok_create split: prod.split sum.split)
  qed
  then show ?case
    using behind_guard_cases[of ADMIN se "aw_users w" "\<lambda>p. add_user h salt new_id b (aw_users w)"] adds.prems by auto
next
  case (creates w h salt new_id argv display password repeated)
  then show ?case by (simp add: users_ok_cli)
next
  case (goes_on w before i phase behind now next_phase us)
  then show ?case
    by (auto simp: disable_statement_def disable_row_def split: disable_phase.splits if_splits intro!: users_ok_update)
qed simp

lemma users_ok_reachable: "account_steps w w' \<Longrightarrow> users_ok (aw_users w) \<Longrightarrow> users_ok (aw_users w')"
  by (induction rule: account_steps.induct) (auto intro: users_ok_step)

section \<open>Properties\<close>

text \<open>
  One person, one account: whoever signs in, adds, disables or runs the bootstrap command, in whatever
  order, no two accounts share an id or an email in any spelling of its case, and the first account of a
  deployment is an admin.
\<close>

theorem one_account_for_an_email:
  assumes "account_steps empty_accounts w" "u \<in> set (aw_users w)" "v \<in> set (aw_users w)"
    "normal_email (us_email u) = normal_email (us_email v)"
  shows "u = v \<and> us_role (hd (aw_users w)) = ADMIN"
proof -
  have ok: "users_ok (aw_users w)"
    using users_ok_reachable[OF assms(1)] by (simp add: empty_accounts_def users_ok_def)
  then have "us_email u = us_email v" using assms(2-4) by (auto simp: users_ok_def list_all_iff)
  then show ?thesis
    using ok assms(2,3) by (auto simp: users_ok_def distinct_map inj_on_def)
qed

lemma kept_row:
  assumes "rows_kept us us'" "u \<in> set us"
  obtains u' where "u' \<in> set us'" "row_kept u u'"
proof -
  obtain kept more where k: "us' = kept @ more" "list_all2 row_kept us kept"
    using assms(1) unfolding rows_kept_def by blast
  then obtain u' where "u' \<in> set kept" "row_kept u u'" 
    using assms(2) by (metis in_set_conv_nth list_all2_conv_all_nth)
  then show thesis using that[of u'] k(1) by simp
qed

lemma find_unique: "inj_on f (set xs) \<Longrightarrow> x \<in> set xs \<Longrightarrow> find (\<lambda>y. f y = f x) xs = Some x"
  by (induction xs) auto

lemma the_user:
  assumes "users_ok us" "u \<in> set us"
  shows "user_by_id (us_id u) us = Some u" "user_by_email (us_email u) us = Some u"
  using assms by (auto simp: users_ok_def user_by_id_def user_by_email_def distinct_map intro!: find_unique)

text \<open>
  C10. Revocation is immediate and final.  Once an account is disabled, no session of it, whenever it was issued
  and whatever it carries, passes the guard of any endpoint, and no password signs it in, in every later
  state.
\<close>

theorem revocation_is_final:
  assumes "account_steps empty_accounts w" "account_steps w w'" "u \<in> set (aw_users w)" "us_disabled u \<noteq> None"
    "se_user se = Some (us_id u)" "normal_email email = us_email u"
  shows "guard required se (aw_users w') = HttpStatus 401 ''account is not active'' \<and>
    (\<forall>p. fst (snd (authenticate h salt now email password (aw_users w'))) \<noteq> Inr (Some p))"
proof -
  have ok: "users_ok (aw_users w)" "users_ok (aw_users w')"
    using users_ok_reachable[OF assms(1)] users_ok_reachable[OF assms(2)] by (simp_all add: empty_accounts_def users_ok_def)
  obtain u' where u': "u' \<in> set (aw_users w')" "row_kept u u'" using kept_row[OF steps_keep[OF assms(2)] assms(3)] .
  then have "us_id u' = us_id u" "us_email u' = us_email u" "us_disabled u' \<noteq> None" using assms(4) by (auto simp: row_kept_def)
  with the_user[OF ok(2) u'(1)] assms(5,6) show ?thesis
    by (auto simp: guard_def current_principal_def authenticate_def split: verified.split)
qed

text \<open>
  A failed sign-in tells nothing.  An unknown address, a wrong password and a disabled account get the same
  answer, leave session and table as they were, and cost one verification each; a sign-in succeeds exactly for
  an account that is there, is active and whose hash the password matches.
\<close>

theorem failed_sign_ins_look_alike:
  assumes "\<forall>hashed e. h_verify h hashed password \<noteq> HasherFault e"
  shows "length (fst (authenticate h salt now email password us)) = 1 \<and>
    ((\<exists>u. user_by_email (normal_email email) us = Some u \<and> us_disabled u = None \<and> h_verify h (us_hash u) password = Matches \<and>
        fst (sign_in h salt now email password se us) = Reply (account_of u)) \<or>
     sign_in h salt now email password se us = (HttpStatus 401 ''email or password is incorrect'', se, us))"
proof (cases "user_by_email (normal_email email) us")
  case None
  then show ?thesis using assms by (auto simp: sign_in_def authenticate_def split: verified.split)
next
  case (Some u)
  then show ?thesis using assms
    by (cases "h_verify h (us_hash u) password"; cases "us_disabled u")
      (auto simp: sign_in_def authenticate_def)
qed

lemma signed_in_session:
  assumes "users_ok us" "user_by_email (normal_email email) us = Some u" "us_disabled u = None" "h_verify h (us_hash u) password = Matches"
    "sign_in h salt now email password se us = (r, se', us')"
  shows "r = Reply (account_of u)" "current_principal se' us' = (Reply (account_of u), se')"
    "\<exists>u'. user_by_email (normal_email email) us' = Some u' \<and> us_disabled u' = None \<and>
       (us_hash u' = us_hash u \<or> us_hash u' = h_hash h salt password)"
proof -
  show "r = Reply (account_of u)" using assms by (auto simp: sign_in_def authenticate_def)
  let ?f = "\<lambda>v. if us_id v = us_id u then v\<lparr> us_hash := if h_needs_rehash h (us_hash u) then h_hash h salt password else us_hash v,
    us_last_login := Some now \<rparr> else v"
  have us': "us' = map ?f us"
    using assms(2-5) by (auto simp: sign_in_def authenticate_def update_user_def)
  have mem: "u \<in> set us" "us_email u = normal_email email"
    using assms(2) by (auto simp: user_by_email_def find_Some_iff)
  have f: "us_id (?f v) = us_id v" "us_email (?f v) = us_email v" "us_role (?f v) = us_role v" for v by simp_all
  have ok': "users_ok us'"
    using assms(1) unfolding us' users_ok_def by (auto simp: o_def f list_all_iff hd_map split: if_splits)
  have u': "?f u \<in> set us'" using mem(1) unfolding us' by auto
  have by_id: "user_by_id (us_id u) us' = Some (?f u)" and by_email: "user_by_email (normal_email email) us' = Some (?f u)"
    using the_user[OF ok' u'] mem(2) by simp_all
  have "se' = \<lparr> se_user = Some (us_id u), se_version = Some (us_version u) \<rparr>"
    using assms(2-5) by_id by (auto simp: sign_in_def authenticate_def account_of_def)
  then show "current_principal se' us' = (Reply (account_of u), se')"
    using by_id assms(3) by (simp add: current_principal_def account_of_def)
  show "\<exists>u'. user_by_email (normal_email email) us' = Some u' \<and> us_disabled u' = None \<and>
      (us_hash u' = us_hash u \<or> us_hash u' = h_hash h salt password)"
    using by_email assms(3) by auto
qed

lemma created_user:
  assumes "users_ok us" "create_user h salt new_id email name password r us = (Inr i, us1)" "us = [] \<Longrightarrow> r = ADMIN"
  obtains u where "user_by_email (normal_email email) us1 = Some u" "us_disabled u = None" "us_hash u = h_hash h salt password"
    "us_role u = r"
proof -
  obtain u where u: "us1 = us @ [u]" "us_email u = normal_email email" "us_disabled u = None" "us_hash u = h_hash h salt password"
      "us_role u = r"
    using assms(2) by (auto simp: create_user_def hash_password_def split: sum.splits if_splits)
  have "users_ok us1" using users_ok_create[OF assms] .
  then have "user_by_email (normal_email email) us1 = Some u" using the_user(2)[of us1 u] u by simp
  then show thesis using that u by blast
qed

text \<open>
  An account can be used.  Whoever was given an account signs in with its password under every spelling of
  the email that differs in case and surrounding space, again after the hash was renewed, and the session
  that was issued passes the guard of every role up to the account's own.
\<close>

theorem created_account_signs_in:
  assumes "users_ok us" "create_user h salt new_id email name password r us = (Inr i, us1)" "us = [] \<Longrightarrow> r = ADMIN"
    "\<forall>s. h_verify h (h_hash h s password) password = Matches" "normal_email spelled = normal_email email"
    "sign_in h s1 t1 spelled password se us1 = (r1, se1, us2)" "required \<le> r"
  shows "\<exists>p. r1 = Reply p \<and> ac_role p = r \<and> guard required se1 us2 = Reply p \<and>
    (\<exists>q. fst (sign_in h s2 t2 spelled password no_session us2) = Reply q)"
proof -
  obtain u where u: "user_by_email (normal_email spelled) us1 = Some u" "us_disabled u = None" "us_hash u = h_hash h salt password"
      "us_role u = r" using created_user[OF assms(1-3)] assms(5) by metis
  have ok: "users_ok us1" using users_ok_create[OF assms(1-3)] .
  have "h_verify h (us_hash u) password = Matches" using u(3) assms(4) by simp
  note s = signed_in_session[OF ok u(1,2) this assms(6)]
  obtain u' where u': "user_by_email (normal_email spelled) us2 = Some u'" "us_disabled u' = None"
      "h_verify h (us_hash u') password = Matches" using s(3) u(3) assms(4) by metis
  have "fst (sign_in h s2 t2 spelled password no_session us2) = Reply (account_of u')"
    using u' by (auto simp: sign_in_def authenticate_def)
  moreover have "guard required se1 us2 = Reply (account_of u)"
    using s(2) u(4) assms(7) by (simp add: guard_def can_iff account_of_def)
  moreover have "ac_role (account_of u) = r" using u(4) by (simp add: account_of_def)
  ultimately show ?thesis using s(1) by blast
qed

lemma guard_Reply:
  assumes "guard r se us = Reply p"
  shows "\<exists>u \<in> set us. p = account_of u \<and> us_disabled u = None \<and> r \<le> us_role u"
  using assms
  by (auto simp: guard_def current_principal_def can_iff account_of_def user_by_id_def find_Some_iff
      split: option.splits if_splits)

lemma disabled_row:
  "active_admins (disable_row now i us) = length (filter (\<lambda>u. us_id u \<noteq> i \<and> us_role u = ADMIN \<and> us_disabled u = None) us)"
  by (induction us) (auto simp: active_admins_def disable_row_def update_user_def)

text \<open>
  One request after the other, a deployment keeps an active admin: whoever passed the guard of the endpoint
  still is one when the request is over.
\<close>

theorem an_admin_remains:
  assumes "guard ADMIN se us = Reply p"
  shows "1 \<le> active_admins (snd (disable_user now i p us))"
proof -
  obtain u where u: "u \<in> set us" "p = account_of u" "us_disabled u = None" "us_role u = ADMIN"
    using guard_Reply[OF assms] by auto
  have "filter (\<lambda>u. us_role u = ADMIN \<and> us_disabled u = None) us \<noteq> []" using u by (auto simp: filter_empty_conv)
  then have "1 \<le> active_admins us" by (simp add: active_admins_def Suc_le_eq)
  moreover have "1 \<le> active_admins (disable_row now i us)" if "i \<noteq> ac_id p"
  proof -
    have "filter (\<lambda>u. us_id u \<noteq> i \<and> us_role u = ADMIN \<and> us_disabled u = None) us \<noteq> []"
      using u that by (auto simp: filter_empty_conv account_of_def)
    then show ?thesis by (simp add: disabled_row Suc_le_eq)
  qed
  ultimately show ?thesis by (simp add: disable_user_def)
qed

text \<open>
  Requests that overlap do not keep one.  Where two admins are the only active ones and each asks to disable
  the other, both requests can read the count before either writes: both are carried out, and nobody is left
  who passes the guard of an admin's endpoint.
\<close>

definition session_for :: "user_row \<Rightarrow> session" where
  "session_for u = \<lparr> se_user = Some (us_id u), se_version = Some (us_version u) \<rparr>"

lemma own_session:
  assumes "users_ok us" "u \<in> set us" "us_disabled u = None" "r \<le> us_role u"
  shows "guard r (session_for u) us = Reply (account_of u)"
  using the_user(1)[OF assms(1,2)] assms(3,4)
  by (simp add: guard_def current_principal_def session_for_def can_iff account_of_def)

lemma no_admin_no_guard: "active_admins us = 0 \<Longrightarrow> guard ADMIN se us \<noteq> Reply p"
  using guard_Reply[of ADMIN se us p] by (fastforce simp: active_admins_def filter_empty_conv)

lemma goes_on_first:
  "disable_statement now i phase us = (ph, us') \<Longrightarrow>
    account_step \<lparr> aw_users = us, aw_pending = (i, phase) # behind \<rparr>
      \<lparr> aw_users = us', aw_pending = (case ph of None \<Rightarrow> [] | Some q \<Rightarrow> [(i, q)]) @ behind \<rparr>"
  using account_step.goes_on[of "\<lparr> aw_users = us, aw_pending = (i, phase) # behind \<rparr>" "[]" i phase behind now ph us'] by simp

lemma goes_on_second:
  "disable_statement now i phase us = (ph, us') \<Longrightarrow>
    account_step \<lparr> aw_users = us, aw_pending = [first, (i, phase)] \<rparr>
      \<lparr> aw_users = us', aw_pending = first # (case ph of None \<Rightarrow> [] | Some q \<Rightarrow> [(i, q)]) \<rparr>"
  using account_step.goes_on[of "\<lparr> aw_users = us, aw_pending = [first, (i, phase)] \<rparr>" "[first]" i phase "[]" now ph us'] by simp

theorem overlapping_requests_leave_no_admin:
  assumes "users_ok us" "a \<in> set us" "b \<in> set us" "a \<noteq> b" "us_role a = ADMIN" "us_role b = ADMIN"
    "filter (\<lambda>u. us_role u = ADMIN \<and> us_disabled u = None) us = [a, b]" "us_version a < 1000" "us_version b < 1000"
  shows "\<exists>w. account_steps \<lparr> aw_users = us, aw_pending = [] \<rparr> w \<and> active_admins (aw_users w) = 0 \<and>
    (\<forall>se p. guard ADMIN se (aw_users w) \<noteq> Reply p)"
proof -
  have act: "us_disabled a = None" "us_disabled b = None"
    using arg_cong[OF assms(7), of set] by auto
  have ids: "us_id a \<noteq> us_id b" using assms(1-4) by (auto simp: users_ok_def distinct_map inj_on_def)
  have two: "active_admins us = 2" using assms(7) by (simp add: active_admins_def)
  let ?A = "us_id a" and ?B = "us_id b" and ?w = "\<lambda>x ps. \<lparr> aw_users = x, aw_pending = ps \<rparr>"
  define us1 where "us1 = disable_row 0 ?B us"
  define us2 where "us2 = disable_row 0 ?A us1"
  have fits: "version_fits ?B us" "version_fits ?A us1"
    using assms(1-4,8,9) ids
    by (auto simp: version_fits_def us1_def disable_row_def update_user_def users_ok_def distinct_map inj_on_def)
  have s1: "account_step (?w us []) (?w us [(?B, ToCount)])"
    using asks[of "session_for a" "?w us []" "account_of a" ?B] own_session[OF assms(1,2) act(1)] assms(5) ids
    by (simp add: account_of_def)
  have s2: "account_step (?w us [(?B, ToCount)]) (?w us [(?B, ToCount), (?A, ToCount)])"
    using asks[of "session_for b" "?w us [(?B, ToCount)]" "account_of b" ?A] own_session[OF assms(1,3) act(2)] assms(6) ids
    by (simp add: account_of_def)
  have s3: "account_step (?w us [(?B, ToCount), (?A, ToCount)]) (?w us [(?B, ToCheck 2), (?A, ToCount)])"
    using goes_on_first[of 0 ?B ToCount us "Some (ToCheck 2)" us] two by (simp add: disable_statement_def)
  have s4: "account_step (?w us [(?B, ToCheck 2), (?A, ToCount)]) (?w us [(?B, ToCheck 2), (?A, ToCheck 2)])"
    using goes_on_second[of 0 ?A ToCount us "Some (ToCheck 2)" us] two by (simp add: disable_statement_def)
  have s5: "account_step (?w us [(?B, ToCheck 2), (?A, ToCheck 2)]) (?w us [(?B, ToWrite), (?A, ToCheck 2)])"
    using goes_on_first[of 0 ?B "ToCheck 2" us "Some ToWrite" us] by (simp add: disable_statement_def)
  have s6: "account_step (?w us [(?B, ToWrite), (?A, ToCheck 2)]) (?w us [(?B, ToWrite), (?A, ToWrite)])"
    using goes_on_second[of 0 ?A "ToCheck 2" us "Some ToWrite" us] by (simp add: disable_statement_def)
  have s7: "account_step (?w us [(?B, ToWrite), (?A, ToWrite)]) (?w us1 [(?A, ToWrite)])"
    using goes_on_first[of 0 ?B ToWrite us None us1] fits(1) by (simp add: disable_statement_def us1_def)
  have s8: "account_step (?w us1 [(?A, ToWrite)]) (?w us2 [])"
    using goes_on_first[of 0 ?A ToWrite us1 None us2] fits(2) by (simp add: disable_statement_def us2_def)
  have "account_steps (?w us []) (?w us2 [])"
    by (rule one_request[OF one_request[OF one_request[OF one_request[OF one_request[OF one_request[OF one_request[OF
      one_request[OF no_request s1] s2] s3] s4] s5] s6] s7] s8])
  moreover have "active_admins us2 = 0"
  proof -
    have "u = a \<or> u = b" if "u \<in> set us" "us_role u = ADMIN" "us_disabled u = None" for u
      using that arg_cong[OF assms(7), of set] by auto
    then have "us_disabled u \<noteq> None \<or> us_role u \<noteq> ADMIN" if "u \<in> set us2" for u
      using that by (auto simp: us2_def us1_def disable_row_def update_user_def split: if_splits)
    then show ?thesis by (auto simp: active_admins_def filter_empty_conv)
  qed
  ultimately show ?thesis using no_admin_no_guard[of us2] by (intro exI[of _ "?w us2 []"]) simp
qed

section \<open>The properties at work\<close>

definition plain_hasher :: hasher where
  "plain_hasher = \<lparr> h_hash = (\<lambda>salt p. p), h_verify = (\<lambda>hashed p. if hashed = p then Matches else NoMatch),
     h_needs_rehash = (\<lambda>hashed. False) \<rparr>"

definition ann :: user_row where
  "ann = \<lparr> us_id = ''1'', us_email = ''ann@x'', us_display_name = ''Ann'', us_hash = ''correct horse'', us_role = ADMIN,
     us_version = 1, us_disabled = None, us_last_login = None \<rparr>"

definition bob :: user_row where
  "bob = ann\<lparr> us_id := ''2'', us_email := ''bob@x'', us_display_name := ''Bob'' \<rparr>"

text \<open>A deployment that was bootstrapped, and in which Ann added Bob and disabled him.\<close>

definition cli_line :: "string list" where
  "cli_line = [''-m'', ''create-user'', ''Ann@x'', ''admin'']"

definition with_ann :: account_world where
  "with_ann = \<lparr> aw_users = [ann], aw_pending = [] \<rparr>"

definition with_both :: account_world where
  "with_both = \<lparr> aw_users = [ann, bob], aw_pending = [] \<rparr>"

definition bob_gone :: user_row where
  "bob_gone = bob\<lparr> us_disabled := Some 0, us_version := 2 \<rparr>"

definition without_bob :: account_world where
  "without_bob = \<lparr> aw_users = [ann, bob_gone], aw_pending = [] \<rparr>"

lemma ann_created: "account_steps empty_accounts with_ann"
proof -
  have "snd (cli_main plain_hasher 0 ''1'' cli_line ''Ann'' ''correct horse'' ''correct horse'' []) = [ann]"
    by code_simp
  then show ?thesis
    using one_request[OF no_request creates[of empty_accounts plain_hasher 0 "''1''" cli_line "''Ann''" "''correct horse''" "''correct horse''"]]
    by (simp add: empty_accounts_def with_ann_def)
qed

lemma bob_added: "account_steps empty_accounts with_both"
proof -
  define b where "b = \<lparr> nu_email = '' BOB@x '', nu_display_name = ''Bob'', nu_password = ''correct horse'', nu_role = ADMIN \<rparr>"
  have "snd (behind_guard ADMIN (session_for ann) [ann] (\<lambda>p. add_user plain_hasher 0 ''2'' b [ann])) = [ann, bob]"
    unfolding b_def by code_simp
  moreover have "valid_new_user b" unfolding b_def by code_simp
  ultimately show ?thesis
    using one_request[OF ann_created adds[of b with_ann "session_for ann" plain_hasher 0 "''2''"]]
    by (simp add: with_ann_def with_both_def)
qed

lemma bob_disabled: "account_steps with_both without_bob"
proof -
  let ?w = "\<lambda>us ps. \<lparr> aw_users = us, aw_pending = ps \<rparr>"
  have "guard ADMIN (session_for ann) [ann, bob] = Reply (account_of ann)" by code_simp
  then have s1: "account_step (?w [ann, bob] []) (?w [ann, bob] [(''2'', ToCount)])"
    using asks[of "session_for ann" "?w [ann, bob] []" "account_of ann" "''2''"] by (simp add: account_of_def ann_def)
  have s2: "account_step (?w [ann, bob] [(''2'', ToCount)]) (?w [ann, bob] [(''2'', ToCheck 2)])"
    using goes_on_first[of 0 "''2''" ToCount "[ann, bob]" "Some (ToCheck 2)" "[ann, bob]" "[]"]
    by (simp add: disable_statement_def active_admins_def ann_def bob_def)
  have s3: "account_step (?w [ann, bob] [(''2'', ToCheck 2)]) (?w [ann, bob] [(''2'', ToWrite)])"
    using goes_on_first[of 0 "''2''" "ToCheck 2" "[ann, bob]" "Some ToWrite" "[ann, bob]" "[]"] by (simp add: disable_statement_def)
  have "disable_statement 0 ''2'' ToWrite [ann, bob] = (None, [ann, bob_gone])" by code_simp
  then have s4: "account_step (?w [ann, bob] [(''2'', ToWrite)]) (?w [ann, bob_gone] [])"
    using goes_on_first[of 0 "''2''" ToWrite "[ann, bob]" None "[ann, bob_gone]" "[]"] by simp
  show ?thesis unfolding with_both_def without_bob_def
    by (rule one_request[OF one_request[OF one_request[OF one_request[OF no_request s1] s2] s3] s4])
qed

lemma steps_join: "account_steps w w1 \<Longrightarrow> account_steps w1 w2 \<Longrightarrow> account_steps w w2"
  by (rotate_tac, induction rule: account_steps.induct) (auto intro: account_steps.intros)

lemma one_account_for_an_email_witness: "us_role (hd (aw_users with_both)) = ADMIN"
  using one_account_for_an_email[OF bob_added, of ann ann] by (simp add: with_both_def)

lemma revocation_is_final_witness:
  "guard VIEWER (session_for bob) [ann, bob_gone] = HttpStatus 401 ''account is not active''"
  using revocation_is_final[OF steps_join[OF bob_added bob_disabled] no_request, of bob_gone "session_for bob" "''bob@x''" VIEWER]
  by (auto simp: without_bob_def session_for_def bob_gone_def bob_def ann_def normal_email_def py_strip_def casefold_def
      lower_char_def is_space_def)

lemma failed_sign_ins_look_alike_witness:
  "sign_in plain_hasher 0 0 ''nobody@x'' ''correct horse'' no_session [ann] = (HttpStatus 401 ''email or password is incorrect'', no_session, [ann])"
proof -
  have "user_by_email (normal_email ''nobody@x'') [ann] = None" by code_simp
  then show ?thesis
    using failed_sign_ins_look_alike[where h = plain_hasher and salt = 0 and now = 0 and email = "''nobody@x''"
        and password = "''correct horse''" and us = "[ann]" and se = no_session]
    by (simp add: plain_hasher_def)
qed

lemma created_account_signs_in_witness:
  "\<exists>p. fst (sign_in plain_hasher 0 0 '' ANN@x'' ''correct horse'' no_session [ann]) = Reply p \<and> ac_role p = ADMIN"
proof -
  have c: "create_user plain_hasher 0 ''1'' ''ann@x'' ''Ann'' ''correct horse'' ADMIN [] = (Inr ''1'', [ann])" by code_simp
  have n: "normal_email '' ANN@x'' = normal_email ''ann@x''" by code_simp
  have ok: "users_ok []" by (simp add: users_ok_def)
  obtain r1 se1 us2 where r: "sign_in plain_hasher 0 0 '' ANN@x'' ''correct horse'' no_session [ann] = (r1, se1, us2)"
    by (metis prod.exhaust)
  show ?thesis
    using created_account_signs_in[OF ok c refl _ n r, of VIEWER] r by (auto simp: plain_hasher_def less_eq_role_def)
qed

lemma an_admin_remains_witness: "1 \<le> active_admins (snd (disable_user 0 ''2'' (account_of ann) [ann, bob]))"
  by (rule an_admin_remains[where se = "session_for ann"]) code_simp

lemma overlapping_requests_leave_no_admin_witness:
  "\<exists>w. account_steps with_both w \<and> active_admins (aw_users w) = 0"
proof -
  have "users_ok [ann, bob]" using users_ok_reachable[OF bob_added] by (simp add: empty_accounts_def users_ok_def with_both_def)
  then show ?thesis
    using overlapping_requests_leave_no_admin[of "[ann, bob]" ann bob] by (auto simp: ann_def bob_def with_both_def)
qed

end
