(* ===== verification/Podman.thy ===== *)
theory Podman
  imports Node_World
begin

text \<open>
  engine/sandbox/podman.py and engine/sandbox/__main__.py: the command line a sandbox run is, the probe of
  what the host enforces, and the reading of the outcome.  Podman and the host behind it are a parameter, a
  function of the command line, the time limit and the state of the host.
\<close>

section \<open>Quoting a command for the shell\<close>

text \<open>\<open>shlex.quote\<close> on ASCII text; \<open>shlex.join\<close>.\<close>

definition shell_safe :: "char \<Rightarrow> bool" where
  "shell_safe c = (let n = (of_char c :: nat)
     in (48 \<le> n \<and> n \<le> 57) \<or> (65 \<le> n \<and> n \<le> 90) \<or> (97 \<le> n \<and> n \<le> 122) \<or> c \<in> set ''_@%+=:,./-'')"

abbreviation quote_mark :: char where
  "quote_mark \<equiv> CHR 0x27"

abbreviation double_quote :: char where
  "double_quote \<equiv> CHR 0x22"

definition shlex_quote :: "string \<Rightarrow> string" where
  "shlex_quote s =
    (if s = [] then [quote_mark, quote_mark]
     else if list_all shell_safe s then s
     else [quote_mark] @ concat (map (\<lambda>c. if c = quote_mark
       then [quote_mark, double_quote, quote_mark, double_quote, quote_mark] else [c]) s) @ [quote_mark])"

definition shlex_join :: "string list \<Rightarrow> string" where
  "shlex_join words = py_join '' '' (map shlex_quote words)"

text \<open>
  How a POSIX shell splits a simple command into words, as far as such text goes: blanks separate, single
  quotes keep everything, double quotes keep what has no meaning in them; anything else with a meaning to
  the shell is refused.
\<close>

datatype sh_mode = Between | Bare | Single | Double

fun sh_words :: "sh_mode \<Rightarrow> string \<Rightarrow> string \<Rightarrow> string list option" where
  "sh_words Between w [] = Some []"
| "sh_words Bare w [] = Some [w]"
| "sh_words Single w [] = None"
| "sh_words Double w [] = None"
| "sh_words Between w (c # s) =
    (if c = CHR '' '' then sh_words Between [] s
     else if c = quote_mark then sh_words Single [] s
     else if c = double_quote then sh_words Double [] s
     else if shell_safe c then sh_words Bare [c] s else None)"
| "sh_words Bare w (c # s) =
    (if c = CHR '' '' then map_option (Cons w) (sh_words Between [] s)
     else if c = quote_mark then sh_words Single w s
     else if c = double_quote then sh_words Double w s
     else if shell_safe c then sh_words Bare (w @ [c]) s else None)"
| "sh_words Single w (c # s) = (if c = quote_mark then sh_words Bare w s else sh_words Single (w @ [c]) s)"
| "sh_words Double w (c # s) =
    (if c = double_quote then sh_words Bare w s
     else if c \<in> set [CHR ''$'', CHR 0x60, CHR 0x5C, CHR ''!''] then None else sh_words Double (w @ [c]) s)"

section \<open>Running podman\<close>

datatype run_outcome = NoBinary | TimedOut | Exited int string string

text \<open>The outcome, the milliseconds it took, and the host after it.\<close>

type_synonym 'h podman = "string list \<Rightarrow> int \<Rightarrow> 'h \<Rightarrow> run_outcome \<times> int \<times> 'h"

text \<open>\<open>sb_probed\<close> is the module's \<open>_CAPABILITIES\<close>, \<open>sb_runs\<close> the command lines that were run.\<close>

record 'h sandbox_world =
  sb_host :: 'h
  sb_probed :: "sandbox_capabilities option"
  sb_runs :: "string list list"

record podman_sandbox =
  ps_binary :: string
  ps_require_full_isolation :: bool

definition run_podman :: "'h podman \<Rightarrow> podman_sandbox \<Rightarrow> string list \<Rightarrow> int \<Rightarrow> 'h sandbox_world
    \<Rightarrow> (int \<times> string \<times> string) res \<times> int \<times> 'h sandbox_world" where
  "run_podman podman p argv timeout_s w =
    (let (outcome, ms, h) = podman argv timeout_s (sb_host w);
         w' = w\<lparr> sb_host := h, sb_runs := sb_runs w @ [argv] \<rparr>
     in case outcome of
          NoBinary \<Rightarrow> (Inl (SandboxInfrastructureError (ps_binary p @ '' not found on PATH'')), ms, w')
        | TimedOut \<Rightarrow> (Inr (124, [], ''killed after '' @ string_of_int timeout_s @ ''s''), ms, w')
        | Exited code out err \<Rightarrow> (Inr (code, out, err), ms, w'))"

definition PROBE_IMAGE :: string where
  "PROBE_IMAGE = ''docker.io/library/python:3.11-slim''"

definition probe_argv :: "podman_sandbox \<Rightarrow> string list" where
  "probe_argv p = [ps_binary p, ''run'', ''--rm'', ''--network=none'', ''--memory=64m'', ''--memory-swap=64m'',
     PROBE_IMAGE, ''sh'', ''-lc'',
     ''python -c '' @ [double_quote] @ ''b=bytearray(128*1024*1024); print('' @ [quote_mark] @ ''ALLOCATED'' @ [quote_mark]
       @ '')'' @ [double_quote]]"

definition capabilities_of :: "string \<Rightarrow> sandbox_capabilities" where
  "capabilities_of out =
    (let cgroups_work = \<not> contains ''ALLOCATED'' out
     in \<lparr> cap_cgroup_memory = cgroups_work, cap_cgroup_cpu = cgroups_work, cap_cgroup_pids = cgroups_work,
          cap_rlimit_memory = True, cap_tmpfs_quota = True, cap_wall_clock = True, cap_network_isolation = True \<rparr>)"

definition capabilities :: "'h podman \<Rightarrow> podman_sandbox \<Rightarrow> 'h sandbox_world
    \<Rightarrow> sandbox_capabilities res \<times> 'h sandbox_world" where
  "capabilities podman p w =
    (case sb_probed w of
       Some c \<Rightarrow> (Inr c, w)
     | None \<Rightarrow>
         (case run_podman podman p (probe_argv p) 120 w of
            (Inl e, ms, w') \<Rightarrow> (Inl e, w')
          | (Inr (code, out, err), ms, w') \<Rightarrow>
              let c = capabilities_of out in (Inr c, w'\<lparr> sb_probed := Some c \<rparr>)))"

text \<open>
  \<open>str\<close> of a float, for numbers of at most seventeen digits and no exponent.
\<close>

fun fraction_digits :: "nat \<Rightarrow> rat \<Rightarrow> string" where
  "fraction_digits 0 r = []"
| "fraction_digits (Suc n) r = (if r = 0 then [] else string_of_int \<lfloor>10 * r\<rfloor> @ fraction_digits n (10 * r - of_int \<lfloor>10 * r\<rfloor>))"

definition float_text :: "rat \<Rightarrow> string" where
  "float_text r =
    (let a = \<bar>r\<bar>; ds = fraction_digits 17 (a - of_int \<lfloor>a\<rfloor>)
     in (if r < 0 then ''-'' else []) @ string_of_int \<lfloor>a\<rfloor> @ ''.'' @ (if ds = [] then ''0'' else ds))"

definition guarded_script :: "string list \<Rightarrow> sandbox_limits \<Rightarrow> string" where
  "guarded_script command limits = py_join ''; ''
     [''ulimit -v '' @ string_of_int (sl_memory_mb limits * 1024), ''ulimit -u '' @ string_of_int (sl_pids limits),
      shlex_join command]"

definition path_name :: "string \<Rightarrow> string" where
  "path_name s = (case filter (\<lambda>p. p \<noteq> [] \<and> p \<noteq> ''.'') (split_on CHR ''/'' s) of [] \<Rightarrow> [] | ps \<Rightarrow> last ps)"

definition container_options :: "podman_sandbox \<Rightarrow> string \<Rightarrow> sandbox_limits \<Rightarrow> string list" where
  "container_options p directory limits = [ps_binary p, ''run'', ''--rm'',
     ''--name=kuwarden-sandbox-'' @ remove_prefix ''kuwarden-ws-'' (path_name directory),
     ''--network=none'', ''--read-only'', ''--tmpfs=/tmp:size='' @ string_of_int (sl_tmp_mb limits) @ ''m,exec'',
     ''--memory='' @ string_of_int (sl_memory_mb limits) @ ''m'', ''--cpus='' @ float_text (sl_cpus limits),
     ''--pids-limit='' @ string_of_int (sl_pids limits), ''--cap-drop=ALL'', ''--security-opt=no-new-privileges'',
     ''--env=HOME=/tmp'', ''--volume='' @ directory @ '':/workspace:Z'', ''--workdir=/workspace'']"

definition exec_argv :: "podman_sandbox \<Rightarrow> string \<Rightarrow> string \<Rightarrow> string list \<Rightarrow> sandbox_limits \<Rightarrow> string list" where
  "exec_argv p directory toolchain_id command limits =
     container_options p directory limits @ [toolchain_id, ''sh'', ''-lc'', guarded_script command limits]"

definition limits_hit :: "int \<Rightarrow> string \<Rightarrow> int \<Rightarrow> sandbox_limits \<Rightarrow> string list" where
  "limits_hit code stderr duration_ms limits =
     (if code = 124 \<or> duration_ms \<ge> sl_timeout_s limits * 1000 then [''timeout''] else [])
     @ (if code = 137 \<or> contains ''MemoryError'' stderr \<or> contains ''Out of memory'' stderr then [''memory''] else [])
     @ (if contains ''No space left on device'' stderr then [''disk''] else [])
     @ (if contains ''Temporary failure in name resolution'' stderr \<or> contains ''Network is unreachable'' stderr
        then [''egress-denied''] else [])"

definition not_enforced :: "sandbox_capabilities \<Rightarrow> error" where
  "not_enforced c = SandboxInfrastructureError (''this host does not enforce: '' @ py_join ''; '' (isolation_gaps c)
     @ ''. Use a rootful podman machine or a '' @ ''cgroups v2 host, or set sandbox.require_full_isolation: false knowingly.'')"

definition sandbox_exec :: "'h podman \<Rightarrow> podman_sandbox \<Rightarrow> (string \<Rightarrow> bool) \<Rightarrow> string \<Rightarrow> string \<Rightarrow> string list \<Rightarrow> sandbox_limits
    \<Rightarrow> 'h sandbox_world \<Rightarrow> exec_result res \<times> 'h sandbox_world" where
  "sandbox_exec podman p is_dir directory toolchain_id command limits w =
    (case capabilities podman p w of
       (Inl e, w1) \<Rightarrow> (Inl e, w1)
     | (Inr c, w1) \<Rightarrow>
         if \<not> fully_enforced c \<and> ps_require_full_isolation p then (Inl (not_enforced c), w1)
         else if \<not> is_dir directory then (Inl (SandboxInfrastructureError (''workspace '' @ directory @ '' does not exist'')), w1)
         else case run_podman podman p (exec_argv p directory toolchain_id command limits) (sl_timeout_s limits) w1 of
                (Inl e, ms, w2) \<Rightarrow> (Inl e, w2)
              | (Inr (code, out, err), ms, w2) \<Rightarrow>
                  (Inr \<lparr> ex_exit_code = code, ex_duration_ms = ms, ex_stdout = out, ex_stderr = err,
                     ex_limits_hit = limits_hit code err ms limits, ex_enforced = Some c \<rparr>, w2))"

section \<open>The diagnostic commands\<close>

definition doctor :: "'h podman \<Rightarrow> 'h sandbox_world \<Rightarrow> int \<times> 'h sandbox_world" where
  "doctor podman w =
    (case capabilities podman \<lparr> ps_binary = ''podman'', ps_require_full_isolation = False \<rparr> w of
       (Inl e, w') \<Rightarrow> (1, w')
     | (Inr c, w') \<Rightarrow> (if fully_enforced c then 0 else 1, w'))"

text \<open>\<open>build\<close>: the containerfiles in order, each a directory under \<open>toolchains\<close>; what was asked of podman, and the status.\<close>

definition build_argv :: "string \<Rightarrow> string \<Rightarrow> string \<Rightarrow> string list" where
  "build_argv tag containerfile context = [''podman'', ''build'', ''-t'', tag, ''-f'', containerfile, context]"

fun build_images :: "(string list \<Rightarrow> int) \<Rightarrow> string \<Rightarrow> string list \<Rightarrow> string list list \<times> int" where
  "build_images podman root_dir [] = ([], 0)"
| "build_images podman root_dir (name # names) =
    (let argv = build_argv (''localhost/kuwarden-'' @ name @ '':1'') (root_dir @ ''/'' @ name @ ''/Containerfile'') (root_dir @ ''/'' @ name);
         code = podman argv
     in if code \<noteq> 0 then ([argv], code)
        else let (rest, status) = build_images podman root_dir names in (argv # rest, status))"

fun pair_up :: "string list \<Rightarrow> (string \<times> string) list" where
  "pair_up (a # b # xs) = (a, b) # pair_up xs"
| "pair_up xs = []"

text \<open>The build context: its files, where a missing lock file is an empty one.\<close>

definition build_app :: "(string list \<Rightarrow> int) \<Rightarrow> (string \<Rightarrow> string option) \<Rightarrow> string \<Rightarrow> string \<Rightarrow> string list
    \<Rightarrow> (int res) \<times> (string \<times> string) list" where
  "build_app podman read_file recipes context argv =
    (let options = dict_of (pair_up argv);
         opt = (\<lambda>k. case map_of options k of Some v \<Rightarrow> v | None \<Rightarrow> []);
         recipe = opt ''--recipe''; name = opt ''--name''; manifest = opt ''--manifest''
     in if recipe = [] \<or> name = [] \<or> manifest = [] then (Inr 2, [])
        else case read_file (recipes @ ''/'' @ recipe @ ''/Containerfile'') of
          None \<Rightarrow> (Inr 2, [])
        | Some containerfile \<Rightarrow>
            if recipe \<noteq> ''node20'' then (Inl (OtherError ''IndexError'' ''list index out of range''), [])
            else case read_file (manifest @ ''/package.json'') of
              None \<Rightarrow> (Inr 2, [])
            | Some package \<Rightarrow>
                let files = [(''Containerfile'', containerfile), (''package.json'', package),
                      (''package-lock.json'', case read_file (manifest @ ''/package-lock.json'') of Some l \<Rightarrow> l | None \<Rightarrow> [])]
                in (Inr (podman (build_argv (''localhost/kuwarden-app-'' @ name @ '':1'') (context @ ''/Containerfile'') context)), files))"

text \<open>\<open>smoke\<close>; \<open>directory\<close> is what \<open>materialise\<close> yields.\<close>

definition smoke_limits :: sandbox_limits where
  "smoke_limits = \<lparr> sl_memory_mb = 2048, sl_cpus = 2, sl_pids = 256, sl_timeout_s = 60, sl_tmp_mb = 64 \<rparr>"

definition smoke :: "'h podman \<Rightarrow> (string \<Rightarrow> bool) \<Rightarrow> string res \<Rightarrow> 'h sandbox_world \<Rightarrow> int res \<times> 'h sandbox_world" where
  "smoke podman is_dir directory w =
    (let p = \<lparr> ps_binary = ''podman'', ps_require_full_isolation = False \<rparr>
     in case capabilities podman p w of
          (Inl e, w1) \<Rightarrow> (Inl e, w1)
        | (Inr c, w1) \<Rightarrow>
            (case directory of
               Inl e \<Rightarrow> (Inl e, w1)
             | Inr d \<Rightarrow>
                 (case sandbox_exec podman p is_dir d ''localhost/kuwarden-python312:1'' [''python'', ''probe.py''] smoke_limits w1 of
                    (Inl e, w2) \<Rightarrow> (Inl e, w2)
                  | (Inr r, w2) \<Rightarrow> (Inr (if ex_exit_code r = 0 \<and> ex_limits_hit r = [] then 0 else 1), w2))))"

section \<open>The command arrives as it was written\<close>

lemma safe_plain: "shell_safe c \<Longrightarrow> c \<noteq> CHR '' '' \<and> c \<noteq> quote_mark \<and> c \<noteq> double_quote"
  by (auto simp: shell_safe_def Let_def)

lemma read_safe: "list_all shell_safe s \<Longrightarrow> sh_words Bare w (s @ t) = sh_words Bare (w @ s) t"
  by (induction s arbitrary: w) (auto dest: safe_plain)

lemma read_single:
  "sh_words Single w (concat (map (\<lambda>c. if c = quote_mark
      then [quote_mark, double_quote, quote_mark, double_quote, quote_mark] else [c]) s) @ quote_mark # t)
    = sh_words Bare (w @ s) t"
  by (induction s arbitrary: w) simp_all

lemma read_quoted: "sh_words Between w (shlex_quote s @ t) = sh_words Bare s t"
proof (cases "s = [] \<or> \<not> list_all shell_safe s")
  case True
  then show ?thesis using read_single[of "[]" s t] by (auto simp: shlex_quote_def)
next
  case False
  then obtain c s' where s: "s = c # s'" "shell_safe c" "list_all shell_safe s'" by (cases s) auto
  then show ?thesis using safe_plain[OF s(2)] read_safe[OF s(3), of "[c]" t] by (simp add: shlex_quote_def)
qed

lemma read_join: "sh_words Between w (shlex_join words) = Some words"
proof (induction words arbitrary: w)
  case (Cons s words)
  show ?case
  proof (cases words)
    case Nil
    then show ?thesis using read_quoted[of w s "[]"] by (simp add: shlex_join_def)
  next
    case (Cons s' words')
    then have "shlex_join (s # words) = shlex_quote s @ CHR '' '' # shlex_join words" by (simp add: shlex_join_def)
    then show ?thesis using Cons.IH[of "[]"] by (simp add: read_quoted)
  qed
qed (simp add: shlex_join_def)

text \<open>
  C27. Nothing in a command can become shell syntax or an option of podman: the options do not depend on it, and
  behind the two limits the shell reads exactly the words that were asked for.
\<close>

theorem command_reaches_the_shell_as_written:
  "\<exists>quoted. exec_argv p directory toolchain_id command limits =
      container_options p directory limits @ [toolchain_id, ''sh'', ''-lc'',
        ''ulimit -v '' @ string_of_int (sl_memory_mb limits * 1024) @ ''; ulimit -u '' @ string_of_int (sl_pids limits) @ ''; '' @ quoted]
    \<and> sh_words Between [] quoted = Some command"
  by (intro exI[of _ "shlex_join command"]) (simp add: exec_argv_def guarded_script_def read_join)

section \<open>What the probe says\<close>

lemma run_podman_run:
  "run_podman podman p argv t w = (r, ms, w') \<Longrightarrow> sb_runs w' = sb_runs w @ [argv] \<and> sb_probed w' = sb_probed w"
  by (auto simp: run_podman_def Let_def split: prod.splits run_outcome.splits)

text \<open>
  C39. A probe that did not run is read as a host that enforces everything.  When podman answers the probe with a
  time-out or an error of its own, the sandbox that is to refuse a weak host reports every limit as enforced
  and runs the command.
\<close>

theorem failed_probe_reads_as_isolation:
  assumes "sb_probed w = None" "is_dir directory"
    "fst (podman (probe_argv p) 120 (sb_host w)) = TimedOut \<or> fst (podman (probe_argv p) 120 (sb_host w)) = Exited 125 [] err"
  shows "sb_runs (snd (sandbox_exec podman p is_dir directory toolchain_id command limits w))
      = sb_runs w @ [probe_argv p, exec_argv p directory toolchain_id command limits] \<and>
    (\<exists>c. sb_probed (snd (sandbox_exec podman p is_dir directory toolchain_id command limits w)) = Some c \<and>
      isolation_gaps c = [])"
proof -
  obtain x ms h where q: "podman (probe_argv p) 120 (sb_host w) = (x, ms, h)" by (metis prod.exhaust)
  let ?c = "capabilities_of []"
  let ?w1 = "w\<lparr> sb_host := h, sb_runs := sb_runs w @ [probe_argv p], sb_probed := Some ?c \<rparr>"
  have full: "fully_enforced ?c" by (simp add: capabilities_of_def fully_enforced_def contains.simps)
  have "capabilities podman p w = (Inr ?c, ?w1)"
    using assms(1,3) q by (auto simp: capabilities_def run_podman_def Let_def)
  then have e: "sandbox_exec podman p is_dir directory toolchain_id command limits w =
      (case run_podman podman p (exec_argv p directory toolchain_id command limits) (sl_timeout_s limits) ?w1 of
         (Inl e, ms, w2) \<Rightarrow> (Inl e, w2)
       | (Inr (code, out, err), ms, w2) \<Rightarrow> (Inr \<lparr> ex_exit_code = code, ex_duration_ms = ms, ex_stdout = out, ex_stderr = err,
           ex_limits_hit = limits_hit code err ms limits, ex_enforced = Some ?c \<rparr>, w2))"
    using full assms(2) by (simp add: sandbox_exec_def)
  obtain r ms2 w2 where r: "run_podman podman p (exec_argv p directory toolchain_id command limits) (sl_timeout_s limits) ?w1 = (r, ms2, w2)"
    by (metis prod.exhaust)
  have "snd (sandbox_exec podman p is_dir directory toolchain_id command limits w) = w2"
    unfolding e r by (cases r) (simp_all add: case_prod_unfold)
  then show ?thesis using run_podman_run[OF r] full by (simp add: no_gaps_iff)
qed

text \<open>Several runs, one after the other, by sandboxes that may differ in everything but the module they share.\<close>

fun exec_all :: "'h podman \<Rightarrow> (string \<Rightarrow> bool) \<Rightarrow> (podman_sandbox \<times> string \<times> string \<times> string list \<times> sandbox_limits) list
    \<Rightarrow> 'h sandbox_world \<Rightarrow> exec_result res list \<times> 'h sandbox_world" where
  "exec_all podman is_dir [] w = ([], w)"
| "exec_all podman is_dir ((p, d, img, command, limits) # calls) w =
    (let (r, w1) = sandbox_exec podman p is_dir d img command limits w;
         (rs, w2) = exec_all podman is_dir calls w1
     in (r # rs, w2))"

lemma weak_exec:
  assumes "sb_probed w = Some c" "\<not> fully_enforced c" "ps_require_full_isolation p"
  shows "sandbox_exec podman p is_dir d img command limits w = (Inl (not_enforced c), w)"
  using assms by (simp add: sandbox_exec_def capabilities_def)

text \<open>
  A host that was seen to ignore its memory limit runs nothing.  Once a probe printed its mark, every run of
  a sandbox that requires full isolation is refused, now and for the life of the process, and the probe is the
  only container that was started.
\<close>

theorem weak_host_is_refused:
  assumes "sb_probed w = None" "podman (probe_argv p) 120 (sb_host w) = (Exited code out err, ms, h)" "contains ''ALLOCATED'' out"
    "list_all (\<lambda>call. ps_require_full_isolation (fst call)) calls" "fst (hd calls) = p" "calls \<noteq> []"
  shows "list_all (\<lambda>r. r = Inl (not_enforced (capabilities_of out))) (fst (exec_all podman is_dir calls w)) \<and>
    sb_runs (snd (exec_all podman is_dir calls w)) = sb_runs w @ [probe_argv p]"
proof -
  let ?c = "capabilities_of out"
  let ?w1 = "w\<lparr> sb_host := h, sb_runs := sb_runs w @ [probe_argv p], sb_probed := Some ?c \<rparr>"
  have weak: "\<not> fully_enforced ?c" using assms(3) by (simp add: capabilities_of_def fully_enforced_def)
  have later: "list_all (\<lambda>r. r = Inl (not_enforced ?c)) (fst (exec_all podman is_dir cs ?w1)) \<and> snd (exec_all podman is_dir cs ?w1) = ?w1"
    if "list_all (\<lambda>call. ps_require_full_isolation (fst call)) cs" for cs
    using that
  proof (induction cs)
    case (Cons call cs)
    obtain p' d img command limits where call: "call = (p', d, img, command, limits)" by (metis prod.exhaust)
    have "sandbox_exec podman p' is_dir d img command limits ?w1 = (Inl (not_enforced ?c), ?w1)"
      using Cons.prems call weak by (intro weak_exec) auto
    then show ?case using Cons by (simp add: call case_prod_unfold)
  qed simp
  obtain d img command limits cs where calls: "calls = (p, d, img, command, limits) # cs"
    using assms(5,6) by (cases calls) auto
  have "capabilities podman p w = (Inr ?c, ?w1)"
    using assms(1,2) by (simp add: capabilities_def run_podman_def Let_def)
  then have "sandbox_exec podman p is_dir d img command limits w = (Inl (not_enforced ?c), ?w1)"
    using weak assms(4) calls by (simp add: sandbox_exec_def)
  then show ?thesis using later[of cs] assms(4) calls by (simp add: case_prod_unfold)
qed

section \<open>The properties at work\<close>

definition strict_sandbox :: podman_sandbox where
  "strict_sandbox = \<lparr> ps_binary = ''podman'', ps_require_full_isolation = True \<rparr>"

definition no_runs :: "unit sandbox_world" where
  "no_runs = \<lparr> sb_host = (), sb_probed = None, sb_runs = [] \<rparr>"

lemma failed_probe_reads_as_isolation_witness:
  "sb_runs (snd (sandbox_exec (\<lambda>argv t h. (TimedOut, 120000, h)) strict_sandbox (\<lambda>d. True) ''/tmp/kuwarden-ws-1'' ''img'' [''pytest''] smoke_limits no_runs))
    = [probe_argv strict_sandbox, exec_argv strict_sandbox ''/tmp/kuwarden-ws-1'' ''img'' [''pytest''] smoke_limits]"
  using failed_probe_reads_as_isolation[of no_runs "\<lambda>d. True" "''/tmp/kuwarden-ws-1''" "\<lambda>argv t h. (TimedOut, 120000, h)" strict_sandbox]
  by (simp add: no_runs_def)

lemma weak_host_is_refused_witness:
  "sb_runs (snd (exec_all (\<lambda>argv t h. (Exited 0 ''ALLOCATED'' [], 10, h)) (\<lambda>d. True)
      [(strict_sandbox, ''/tmp/kuwarden-ws-1'', ''img'', [''pytest''], smoke_limits)] no_runs)) = [probe_argv strict_sandbox]"
proof -
  have "contains ''ALLOCATED'' ''ALLOCATED''" by code_simp
  then show ?thesis
    using weak_host_is_refused[of no_runs "\<lambda>argv t h. (Exited 0 ''ALLOCATED'' [], 10, h)" strict_sandbox 0 "''ALLOCATED''" "[]" 10 "()"
        "[(strict_sandbox, ''/tmp/kuwarden-ws-1'', ''img'', [''pytest''], smoke_limits)]"]
    by (simp add: no_runs_def strict_sandbox_def)
qed

end
