(* ===== verification/Notify.thy ===== *)
theory Notify
  imports Accounts Database
begin

text \<open>
  engine/activities/notify.py: who is told that a run waits at its gate, what the message says, and how it is
  handed to the relay.  The relay is a parameter that answers the commands of the SMTP session.
\<close>

section \<open>The message\<close>

record approval_notice =
  gn_run_id :: uuid
  gn_app_id :: uuid
  gn_ticket_id :: string
  gn_risk_tier :: string
  gn_approvals_needed :: int

record email =
  em_subject :: string
  em_from :: string
  em_to :: string
  em_bcc :: string
  em_body :: string

definition workbench_url :: "environ \<Rightarrow> string" where
  "workbench_url e = rev (dropWhile (\<lambda>c. c = CHR ''/'') (rev (env_or e ''KUWARDEN_BASE_URL'' ''http://localhost:5173'')))"

definition approvers :: "users \<Rightarrow> string list" where
  "approvers us = map us_email (filter (\<lambda>u. us_role u \<in> {APPROVER, ADMIN} \<and> us_disabled u = None) us)"

text \<open>A header of several lines is refused by the message object.\<close>

definition header_value :: "string \<Rightarrow> string res" where
  "header_value v =
    (if length (splitlines v) > 1
     then Inl (OtherError ''ValueError'' ''Header values may not contain linefeed or carriage return characters'')
     else Inr v)"

definition notice_body :: "environ \<Rightarrow> approval_notice \<Rightarrow> string" where
  "notice_body e n = ''A change is waiting for approval.'' @ nl @ nl
     @ ''  Ticket:     '' @ gn_ticket_id n @ nl
     @ ''  Risk tier:  '' @ gn_risk_tier n @ nl
     @ ''  Approvals:  '' @ string_of_int (gn_approvals_needed n) @ '' required'' @ nl @ nl
     @ ''Review the evidence and decide here:'' @ nl @ nl
     @ ''  '' @ workbench_url e @ ''/runs/'' @ gn_run_id n @ nl @ nl
     @ ''This message is a notification only. The decision is recorded against the evidence ''
     @ ''document shown on that page, so it cannot be made by replying to this email.'' @ nl"

definition compose_notice :: "environ \<Rightarrow> approval_notice \<Rightarrow> string list \<Rightarrow> email res" where
  "compose_notice e n recipients =
     and_then (header_value (''[KuWarden] '' @ gn_ticket_id n @ '' needs approval ('' @ gn_risk_tier n @ '' risk)'')) (\<lambda>subject.
     and_then (header_value (env_or e ''KUWARDEN_SMTP_FROM'' ''kuwarden@localhost'')) (\<lambda>sender.
     and_then (header_value sender) (\<lambda>own.
     and_then (header_value (py_join '', '' recipients)) (\<lambda>bcc.
       Inr \<lparr> em_subject = subject, em_from = sender, em_to = own, em_bcc = bcc, em_body = notice_body e n \<rparr>))))"

section \<open>The relay\<close>

datatype smtp_command = Ehlo | StartTls | Login string string | SendMessage email

definition smtp_session :: "environ \<Rightarrow> bool \<Rightarrow> email \<Rightarrow> smtp_command list" where
  "smtp_session e offers_tls m =
     [Ehlo] @ (if offers_tls then [StartTls, Ehlo] else [])
     @ (if truthy (e ''KUWARDEN_SMTP_USER'') \<and> truthy (e ''KUWARDEN_SMTP_PASSWORD'')
        then [Login (the (e ''KUWARDEN_SMTP_USER'')) (the (e ''KUWARDEN_SMTP_PASSWORD''))] else [])
     @ [SendMessage m]"

text \<open>The relay at a host and port: whether it answers, whether it offers TLS, and what it makes of a command.\<close>

record relay =
  rl_connects :: "string \<Rightarrow> int \<Rightarrow> bool"
  rl_offers_tls :: bool
  rl_accepts :: "smtp_command \<Rightarrow> bool"

fun say_all :: "relay \<Rightarrow> smtp_command list \<Rightarrow> smtp_command list \<times> unit res" where
  "say_all r [] = ([], Inr ())"
| "say_all r (c # cs) =
    (if rl_accepts r c then (let (said, x) = say_all r cs in (c # said, x))
     else ([c], Inl (OtherError ''SMTPException'' ''the relay refused'')))"

definition send_notice :: "environ \<Rightarrow> (string \<Rightarrow> int option) \<Rightarrow> relay \<Rightarrow> email \<Rightarrow> string \<Rightarrow> smtp_command list \<times> unit res" where
  "send_notice e int_of r m host =
    (case int_of (env_or e ''KUWARDEN_SMTP_PORT'' ''25'') of
       None \<Rightarrow> ([], Inl (OtherError ''ValueError'' ''invalid literal for int() with base 10''))
     | Some port \<Rightarrow>
         if \<not> rl_connects r host port then ([], Inl (OtherError ''OSError'' ''connection refused''))
         else say_all r (smtp_session e (rl_offers_tls r) m))"

text \<open>The activity: the number of people addressed, and what was said to the relay.\<close>

definition notify_gate_reached :: "environ \<Rightarrow> (string \<Rightarrow> int option) \<Rightarrow> relay \<Rightarrow> approval_notice \<Rightarrow> users
    \<Rightarrow> smtp_command list \<times> int res" where
  "notify_gate_reached e int_of r n us =
    (if approvers us = [] then ([], Inr 0)
     else if \<not> truthy (e ''KUWARDEN_SMTP_HOST'') then ([], Inr 0)
     else case compose_notice e n (approvers us) of
            Inl x \<Rightarrow> ([], Inl x)
          | Inr m \<Rightarrow>
              (case send_notice e int_of r m (the (e ''KUWARDEN_SMTP_HOST'')) of
                 (said, Inl x) \<Rightarrow> (said, Inr 0)
               | (said, Inr u) \<Rightarrow> (said, Inr (int (length (approvers us))))))"

section \<open>Properties\<close>

text \<open>
  The people who are told are the people who may decide: an address is on the list exactly when the account
  behind it passes, with a session of its own, the guard of the approval endpoint.
\<close>

theorem told_iff_may_decide:
  assumes "users_ok us"
  shows "a \<in> set (approvers us) \<longleftrightarrow> (\<exists>u \<in> set us. us_email u = a \<and> guard APPROVER (session_for u) us = Reply (account_of u))"
proof -
  have r: "us_role u \<in> {APPROVER, ADMIN} \<longleftrightarrow> APPROVER \<le> us_role u" for u :: user_row
    by (cases "us_role u") (simp_all add: less_eq_role_def)
  have "guard APPROVER (session_for u) us = Reply (account_of u) \<longleftrightarrow> us_role u \<in> {APPROVER, ADMIN} \<and> us_disabled u = None"
    if u: "u \<in> set us" for u
  proof
    assume g: "guard APPROVER (session_for u) us = Reply (account_of u)"
    then obtain v where v: "v \<in> set us" "account_of u = account_of v" "us_disabled v = None" "APPROVER \<le> us_role v"
      using guard_Reply by blast
    have "u = v" using v(1,2) u assms by (auto simp: account_of_def users_ok_def distinct_map inj_on_def)
    then show "us_role u \<in> {APPROVER, ADMIN} \<and> us_disabled u = None" using v r by simp
  next
    assume "us_role u \<in> {APPROVER, ADMIN} \<and> us_disabled u = None"
    then show "guard APPROVER (session_for u) us = Reply (account_of u)" using own_session[OF assms u] r by blast
  qed
  then show ?thesis unfolding approvers_def by auto
qed

lemma say_all_said: "say_all r cs = (said, Inr u) \<Longrightarrow> said = cs"
proof (induction cs arbitrary: said)
  case (Cons c cs)
  then show ?case by (cases "say_all r cs") (auto split: if_splits)
qed simp

lemma header_ok: "header_value v = Inr x \<longleftrightarrow> x = v \<and> length (splitlines v) \<le> 1"
  by (auto simp: header_value_def)

text \<open>
  A relay cannot fail a run, whatever it does: when the headers are single lines the activity returns, the
  number it returns is all of the people or none, and it is not none only when the message was handed over
  under those people's addresses.
\<close>

theorem relay_cannot_fail_the_run:
  assumes "length (splitlines (''[KuWarden] '' @ gn_ticket_id n @ '' needs approval ('' @ gn_risk_tier n @ '' risk)'')) \<le> 1"
    "length (splitlines (env_or e ''KUWARDEN_SMTP_FROM'' ''kuwarden@localhost'')) \<le> 1"
    "length (splitlines (py_join '', '' (approvers us))) \<le> 1"
  shows "\<exists>said k. notify_gate_reached e int_of r n us = (said, Inr k) \<and>
    (k = 0 \<or> k = int (length (approvers us)) \<and>
      (\<exists>m. SendMessage m \<in> set said \<and> em_bcc m = py_join '', '' (approvers us) \<and> em_body m = notice_body e n))"
proof -
  have all: "SendMessage m \<in> set said" if "say_all r (smtp_session e t m) = (said, Inr u)" for m t said u
    using say_all_said[OF that] by (simp add: smtp_session_def)
  show ?thesis
  proof (cases "approvers us = [] \<or> \<not> truthy (e ''KUWARDEN_SMTP_HOST'')")
    case False
    obtain m where m: "compose_notice e n (approvers us) = Inr m" "em_bcc m = py_join '', '' (approvers us)" "em_body m = notice_body e n"
      using assms unfolding compose_notice_def header_value_def by simp
    obtain said x where s: "send_notice e int_of r m (the (e ''KUWARDEN_SMTP_HOST'')) = (said, x)" by fastforce
    show ?thesis
    proof (cases x)
      case (Inr u)
      have "SendMessage m \<in> set said" using s Inr all unfolding send_notice_def by (auto split: option.splits if_splits)
      then show ?thesis using False m s Inr by (auto simp: notify_gate_reached_def)
    qed (use False m s in \<open>simp add: notify_gate_reached_def\<close>)
  qed (auto simp: notify_gate_reached_def)
qed

text \<open>
  A ticket id can.  The message is composed outside the handler that swallows failures: where there is anyone
  to tell and a relay to tell it through, an id with a line break in it raises, before the relay is asked.
\<close>

theorem broken_ticket_id_fails_the_notification:
  assumes "approvers us \<noteq> []" "truthy (e ''KUWARDEN_SMTP_HOST'')"
    "length (splitlines (''[KuWarden] '' @ gn_ticket_id n @ '' needs approval ('' @ gn_risk_tier n @ '' risk)'')) > 1"
  shows "\<exists>m. notify_gate_reached e int_of r n us = ([], Inl (OtherError ''ValueError'' m))"
  using assms unfolding notify_gate_reached_def compose_notice_def header_value_def by simp

text \<open>
  The password of the relay goes over whatever line there is: when the relay offers no TLS, it is said in the
  clear before the message.
\<close>

lemma password_without_tls:
  assumes "e ''KUWARDEN_SMTP_USER'' = Some user" "e ''KUWARDEN_SMTP_PASSWORD'' = Some pw" "user \<noteq> []" "pw \<noteq> []"
  shows "smtp_session e False m = [Ehlo, Login user pw, SendMessage m]"
  using assms by (simp add: smtp_session_def)

section \<open>The properties at work\<close>

definition open_relay :: relay where
  "open_relay = \<lparr> rl_connects = \<lambda>h p. True, rl_offers_tls = False, rl_accepts = \<lambda>c. True \<rparr>"

definition mail_environ :: environ where
  "mail_environ = [''KUWARDEN_SMTP_HOST'' \<mapsto> ''relay'']"

definition sample_notice :: approval_notice where
  "sample_notice = \<lparr> gn_run_id = ''r1'', gn_app_id = ''a1'', gn_ticket_id = ''T-1'', gn_risk_tier = ''high'', gn_approvals_needed = 2 \<rparr>"

lemma told_iff_may_decide_witness: "''ann@x'' \<in> set (approvers [ann, bob]) \<longleftrightarrow>
    (\<exists>u \<in> set [ann, bob]. us_email u = ''ann@x'' \<and> guard APPROVER (session_for u) [ann, bob] = Reply (account_of u))"
  using users_ok_reachable[OF bob_added] by (intro told_iff_may_decide) (simp add: empty_accounts_def users_ok_def with_both_def)

lemma relay_cannot_fail_the_run_witness:
  "\<exists>said k. notify_gate_reached mail_environ (\<lambda>s. None) open_relay sample_notice [ann] = (said, Inr k)"
proof -
  have "length (splitlines (''[KuWarden] '' @ gn_ticket_id sample_notice @ '' needs approval ('' @ gn_risk_tier sample_notice @ '' risk)'')) \<le> 1"
    by code_simp
  moreover have "length (splitlines (env_or mail_environ ''KUWARDEN_SMTP_FROM'' ''kuwarden@localhost'')) \<le> 1" by code_simp
  moreover have "length (splitlines (py_join '', '' (approvers [ann]))) \<le> 1" by code_simp
  ultimately show ?thesis using relay_cannot_fail_the_run by blast
qed

lemma broken_ticket_id_fails_the_notification_witness:
  "\<exists>m. notify_gate_reached mail_environ (\<lambda>s. None) open_relay (sample_notice\<lparr> gn_ticket_id := ''T'' @ nl @ ''1'' \<rparr>) [ann]
    = ([], Inl (OtherError ''ValueError'' m))"
proof (rule broken_ticket_id_fails_the_notification)
  show "approvers [ann] \<noteq> []" by code_simp
  show "truthy (mail_environ ''KUWARDEN_SMTP_HOST'')" by code_simp
  show "length (splitlines (''[KuWarden] '' @ gn_ticket_id (sample_notice\<lparr> gn_ticket_id := ''T'' @ nl @ ''1'' \<rparr>)
      @ '' needs approval ('' @ gn_risk_tier (sample_notice\<lparr> gn_ticket_id := ''T'' @ nl @ ''1'' \<rparr>) @ '' risk)'')) > 1"
    by code_simp
qed

end
