(* ===== verification/Worker.thy ===== *)
theory Worker
  imports Config_Store Database
begin

text \<open>
  engine/worker.py and engine/build_id.py: what a worker reads before it takes work, the two bounds it runs
  under, and the identity of the code it started with.  The hash is a parameter.
\<close>

section \<open>Limits\<close>

definition positive_int :: "environ \<Rightarrow> string \<Rightarrow> int \<Rightarrow> int res" where
  "positive_int e variable d =
    (case e variable of
       None \<Rightarrow> Inr d
     | Some raw \<Rightarrow>
         if py_strip raw = [] then Inr d
         else case int_of_str raw of
                None \<Rightarrow> Inl (ConfigError (variable @ '' must be a positive integer, got '' @ repr_str raw))
              | Some v \<Rightarrow> if v < 1 then Inl (ConfigError (variable @ '' must be at least 1, got '' @ string_of_int v)) else Inr v)"

definition MAX_ACTIVITIES_VARIABLE :: string where
  "MAX_ACTIVITIES_VARIABLE = ''KUWARDEN_MAX_CONCURRENT_ACTIVITIES''"

definition MAX_WORKFLOW_TASKS_VARIABLE :: string where
  "MAX_WORKFLOW_TASKS_VARIABLE = ''KUWARDEN_MAX_CONCURRENT_WORKFLOW_TASKS''"

definition worker_limits :: "environ \<Rightarrow> (int \<times> int) res" where
  "worker_limits e = and_then (positive_int e MAX_ACTIVITIES_VARIABLE 4) (\<lambda>a.
     and_then (positive_int e MAX_WORKFLOW_TASKS_VARIABLE 40) (\<lambda>w. Inr (a, w)))"

section \<open>Starting\<close>

definition temporal_target :: "environ \<Rightarrow> string" where
  "temporal_target e = env_or e ''KUWARDEN_TEMPORAL_TARGET'' ''127.0.0.1:7233''"

definition temporal_namespace :: "environ \<Rightarrow> string" where
  "temporal_namespace e = env_or e ''KUWARDEN_TEMPORAL_NAMESPACE'' ''kuwarden''"

definition config_path :: "environ \<Rightarrow> string" where
  "config_path e = env_or e ''KUWARDEN_CONFIG'' ''kuwarden.yaml''"

record worker_options =
  wo_target :: string
  wo_namespace :: string
  wo_task_queue :: string
  wo_fallback :: "loaded option"
  wo_activities :: int
  wo_workflow_tasks :: int

text \<open>\<open>main\<close> up to the worker it runs; \<open>read_file\<close> answers for regular files.\<close>

definition worker_main :: "yaml_env \<Rightarrow> (string \<Rightarrow> string option) \<Rightarrow> environ \<Rightarrow> worker_options res" where
  "worker_main ye read_file e0 =
    (let e = snd (load_dotenv (read_file ''.env'') e0)
     in and_then (case read_file (config_path e) of
                    None \<Rightarrow> Inr None
                  | Some txt \<Rightarrow> and_then (parse ye txt) (\<lambda>c. Inr (Some c))) (\<lambda>fallback.
        and_then (worker_limits e) (\<lambda>(activities, tasks).
          Inr \<lparr> wo_target = temporal_target e, wo_namespace = temporal_namespace e, wo_task_queue = ''kuwarden-delivery'',
            wo_fallback = fallback, wo_activities = activities, wo_workflow_tasks = tasks \<rparr>)))"

section \<open>Build identity\<close>

text \<open>A tree of sources: relative paths in order, with their bytes where they can be read.\<close>

type_synonym sources = "(string \<times> string option) list"

definition hashed_text :: "sources \<Rightarrow> string" where
  "hashed_text files = concat (map (\<lambda>(p, c). p @ (case c of Some s \<Rightarrow> s | None \<Rightarrow> ''<unreadable>'')) files)"

definition code_digest :: "(string \<Rightarrow> string) \<Rightarrow> sources \<Rightarrow> string" where
  "code_digest sha files = take 12 (sha (hashed_text files))"

text \<open>\<open>_FROZEN\<close> before and after a call.\<close>

definition build_id :: "(string \<Rightarrow> string) \<Rightarrow> sources \<Rightarrow> string option \<Rightarrow> string \<times> string option" where
  "build_id sha files frozen =
    (case frozen of Some d \<Rightarrow> (d, frozen) | None \<Rightarrow> let d = code_digest sha files in (d, Some d))"

record build_report =
  bs_api_build :: string
  bs_tree_build :: string
  bs_stale :: bool

definition build_status :: "(string \<Rightarrow> string) \<Rightarrow> sources \<Rightarrow> string option \<Rightarrow> build_report \<times> string option" where
  "build_status sha files frozen =
    (let (started, frozen') = build_id sha files frozen; tree = code_digest sha files
     in (\<lparr> bs_api_build = started, bs_tree_build = tree, bs_stale = (started \<noteq> tree) \<rparr>, frozen'))"

section \<open>Properties\<close>

text \<open>
  A cap that was stated is applied or the worker does not start.  A worker that starts runs under two bounds of
  at least one; a variable that says something other than blanks gives exactly the number it says, and one that
  says nothing gives the default.
\<close>

lemma positive_int_Inr:
  "positive_int e v d = Inr n \<longleftrightarrow>
    (n = d \<and> (e v = None \<or> (\<exists>raw. e v = Some raw \<and> py_strip raw = []))) \<or>
    (\<exists>raw. e v = Some raw \<and> py_strip raw \<noteq> [] \<and> int_of_str raw = Some n \<and> 1 \<le> n)"
  by (auto simp: positive_int_def split: option.splits if_splits)

theorem stated_cap_is_applied:
  assumes "worker_main ye read_file e0 = Inr o1" "e = snd (load_dotenv (read_file ''.env'') e0)"
    "e MAX_ACTIVITIES_VARIABLE = Some raw" "py_strip raw \<noteq> []"
  shows "int_of_str raw = Some (wo_activities o1) \<and> 1 \<le> wo_activities o1 \<and> 1 \<le> wo_workflow_tasks o1"
proof -
  have l: "worker_limits e = Inr (wo_activities o1, wo_workflow_tasks o1)"
    using assms(1) unfolding worker_main_def Let_def assms(2)[symmetric] by (auto simp: and_then_Inr split: prod.splits)
  then have "positive_int e MAX_ACTIVITIES_VARIABLE 4 = Inr (wo_activities o1)"
    "positive_int e MAX_WORKFLOW_TASKS_VARIABLE 40 = Inr (wo_workflow_tasks o1)"
    by (auto simp: worker_limits_def and_then_Inr)
  then show ?thesis using assms(3,4) unfolding positive_int_Inr by auto
qed

text \<open>
  A process cannot talk its way back into agreement.  Whatever trees it is asked about, in whatever order, the
  build a process reports is the digest of the tree at its first call, and it reports itself stale exactly when
  the tree in front of it has another digest.
\<close>

fun statuses :: "(string \<Rightarrow> string) \<Rightarrow> sources list \<Rightarrow> string option \<Rightarrow> build_report list" where
  "statuses sha [] frozen = []"
| "statuses sha (t # ts) frozen = (let (r, frozen') = build_status sha t frozen in r # statuses sha ts frozen')"

lemma frozen_statuses:
  "statuses sha ts (Some d) = map (\<lambda>t. \<lparr> bs_api_build = d, bs_tree_build = code_digest sha t, bs_stale = (d \<noteq> code_digest sha t) \<rparr>) ts"
  by (induction ts) (simp_all add: build_status_def build_id_def Let_def)

theorem build_is_frozen:
  "statuses sha (t # ts) None = map (\<lambda>t'. \<lparr> bs_api_build = code_digest sha t, bs_tree_build = code_digest sha t',
     bs_stale = (code_digest sha t \<noteq> code_digest sha t') \<rparr>) (t # ts)"
  by (simp add: build_status_def build_id_def Let_def frozen_statuses)

text \<open>
  Two trees can be one to the digest.  Names and contents are hashed end to end without a mark between them, so
  a tree from which a file was removed, its name and content appended to the file before it, has the digest of
  the tree it came from, whatever the hash.
\<close>

theorem moved_boundary_is_not_seen:
  "code_digest sha ((p, Some s) # (q, Some t) # rest) = code_digest sha ((p, Some (s @ q @ t)) # rest)"
  by (simp add: code_digest_def hashed_text_def)

section \<open>The properties at work\<close>

lemma stated_cap_is_applied_witness:
  "int_of_str ''8'' = Some (8::int)"
proof -
  define e0 :: environ where "e0 = [MAX_ACTIVITIES_VARIABLE \<mapsto> ''8'']"
  define opts where "opts = \<lparr> wo_target = ''127.0.0.1:7233'', wo_namespace = ''kuwarden'', wo_task_queue = ''kuwarden-delivery'',
    wo_fallback = None, wo_activities = 8, wo_workflow_tasks = 40 \<rparr>"
  have "worker_main sample_yaml_env (\<lambda>f. None) e0 = Inr opts" unfolding e0_def opts_def by code_simp
  moreover have "e0 = snd (load_dotenv ((\<lambda>f. None) ''.env'') e0)" by (simp add: load_dotenv_def)
  moreover have "e0 MAX_ACTIVITIES_VARIABLE = Some ''8''" by (simp add: e0_def)
  moreover have "py_strip ''8'' \<noteq> []" by code_simp
  ultimately have "int_of_str ''8'' = Some (wo_activities opts)"
    using stated_cap_is_applied[of sample_yaml_env "\<lambda>f. None" e0 opts e0 "''8''"] by blast
  then show ?thesis by (simp add: opts_def)
qed

end
