(* ===== verification/Tickets.thy ===== *)
theory Tickets
  imports Triage Github
begin

text \<open>
  engine/adapters/ticket: Jira Cloud and Azure DevOps Boards over an HTTP platform that is a parameter.
  The two differ in the text they store: Jira keeps a document tree, Azure HTML.  \<open>ticket_board\<close> is what
  Triage relies on when it asks whether its comment has landed.
\<close>

section \<open>Jira: document trees\<close>

fun block_kind :: "json \<Rightarrow> bool res" where
  "block_kind (JStr k) = Inr (k \<in> set [''paragraph'', ''heading'', ''listItem'', ''blockquote'', ''codeBlock''])"
| "block_kind (JList xs) = Inl (OtherError ''TypeError'' '''list' object is not hashable'')"
| "block_kind (JObj kvs) = Inl (OtherError ''TypeError'' '''dict' object is not hashable'')"
| "block_kind v = Inr False"

fun adf_text :: "json \<Rightarrow> string res" and adf_texts :: "json list \<Rightarrow> string res"
  and adf_content :: "(string \<times> json) list \<Rightarrow> string res" where
  "adf_text (JStr s) = Inr s"
| "adf_text (JList xs) = adf_texts xs"
| "adf_text (JObj kvs) =
    (let kind = json_get (JObj kvs) ''type''
     in if kind = JStr ''text'' then Inr (get_str kvs ''text'')
        else if kind = JStr ''hardBreak'' then Inr nl
        else and_then (adf_content kvs) (\<lambda>inner.
             and_then (block_kind kind) (\<lambda>block. Inr (if block then inner @ nl else inner))))"
| "adf_text v = Inr []"
| "adf_texts [] = Inr []"
| "adf_texts (x # xs) = and_then (adf_text x) (\<lambda>s. and_then (adf_texts xs) (\<lambda>t. Inr (s @ t)))"
| "adf_content [] = Inr []"
| "adf_content ((k, v) # kvs) = (if k = ''content'' then adf_text v else adf_content kvs)"

definition adf_paragraph :: "string \<Rightarrow> json" where
  "adf_paragraph line =
    (if line = [] then JObj [(''type'', JStr ''paragraph'')]
     else JObj [(''type'', JStr ''paragraph''),
       (''content'', JList [JObj [(''type'', JStr ''text''), (''text'', JStr line)]])])"

definition adf_document :: "string \<Rightarrow> json" where
  "adf_document body = JObj [(''type'', JStr ''doc''), (''version'', JInt 1),
     (''content'', JList (map adf_paragraph (split_on (CHR 0x0A) body)))]"

text \<open>The text of a comment as \<open>comments\<close> collects it: text nodes only, no line breaks.\<close>

fun comment_text :: "json \<Rightarrow> string res" and comment_texts :: "json list \<Rightarrow> string res"
  and comment_content :: "(string \<times> json) list \<Rightarrow> string res" where
  "comment_text (JObj kvs) = and_then (comment_content kvs) (\<lambda>inner. Inr (get_str kvs ''text'' @ inner))"
| "comment_text v = Inr []"
| "comment_texts [] = Inr []"
| "comment_texts (x # xs) = and_then (comment_text x) (\<lambda>s. and_then (comment_texts xs) (\<lambda>t. Inr (s @ t)))"
| "comment_content [] = Inr []"
| "comment_content ((k, v) # kvs) =
    (if k \<noteq> ''content'' then comment_content kvs
     else case v of
       JList xs \<Rightarrow> comment_texts xs
     | JInt i \<Rightarrow> if i = 0 then Inr [] else Inl (OtherError ''TypeError'' '''int' object is not iterable'')
     | JBool b \<Rightarrow> if b then Inl (OtherError ''TypeError'' '''bool' object is not iterable'') else Inr []
     | _ \<Rightarrow> Inr [])"

section \<open>Jira: the adapter\<close>

record jira_tickets =
  jt_site :: string
  jt_email :: string
  jt_env :: adapter_env
  jt_story_points_field :: "string option"

definition new_jira :: "adapter_env \<Rightarrow> string \<Rightarrow> string \<Rightarrow> string option \<Rightarrow> jira_tickets" where
  "new_jira env site_url account_email points = \<lparr> jt_site = rstrip_slash site_url, jt_email = account_email,
     jt_env = env, jt_story_points_field = points \<rparr>"

definition JIRA_API :: string where
  "JIRA_API = ''/rest/api/3''"

definition jira_with :: "jira_tickets \<Rightarrow> ticket_ref \<Rightarrow> (rest_client \<Rightarrow> ('s, 'a) rest) \<Rightarrow> ('s, 'a) rest" where
  "jira_with j ref k =
     rest_bind (rest_pure (adapter_token (jt_env j) TICKET_READ_WRITE (ticket_realm ref))) (\<lambda>token.
       k (new_client (jt_site j) (basic_auth_header (jt_email j) token) []))"

definition named_project :: "string \<Rightarrow> string \<Rightarrow> json \<Rightarrow> string res" where
  "named_project prefix project body =
    (if \<not> json_truthy (json_get body ''name'') then Inl (AdapterError (''project '' @ repr_str project @ '' returned no name''))
     else Inr (prefix @ ''/'' @ json_str (json_get body ''name'')))"

definition jira_ping :: "'s platform \<Rightarrow> jira_tickets \<Rightarrow> ticket_ref \<Rightarrow> ('s, string) rest" where
  "jira_ping host j ref =
     rest_bind (jira_with j ref (\<lambda>client. rest_get host client (JIRA_API @ ''/project/'' @ tref_project ref) [])) (\<lambda>body.
     rest_pure (named_project (jt_site j) (tref_project ref) body))"

text \<open>\<open>str(x) if x else None\<close>, and a number of story points.\<close>

definition truthy_str :: "json \<Rightarrow> string option" where
  "truthy_str v = (if json_truthy v then Some (json_str v) else None)"

fun whole_points :: "json \<Rightarrow> int option" where
  "whole_points (JInt i) = Some i"
| "whole_points (JBool b) = Some (if b then 1 else 0)"
| "whole_points v = None"

definition jira_issue :: "jira_tickets \<Rightarrow> ticket_ref \<Rightarrow> json \<Rightarrow> ticket res" where
  "jira_issue j ref body =
    (if \<not> is_obj body then Inl (AdapterError (''unexpected issue payload for '' @ tref_id ref))
     else and_then (obj_get body ''fields'' (JObj [])) (\<lambda>found.
          and_then (obj_get found ''status'' JNull) (\<lambda>status.
          and_then (obj_get found ''summary'' (JStr [])) (\<lambda>title.
          and_then (obj_get found ''description'' JNull) (\<lambda>description.
          and_then (adf_text description) (\<lambda>body_text.
          and_then (obj_get found ''labels'' (JList [])) (\<lambda>labels.
          and_then (json_iter labels) (\<lambda>label_items.
          and_then (obj_get body ''key'' (JStr (tref_id ref))) (\<lambda>key.
            Inr \<lparr> tk_id = json_str key, tk_system = ''jira'', tk_title = json_str title, tk_body = py_strip body_text,
              tk_state = truthy_str (json_get status ''name''), tk_acceptance_criteria = [],
              tk_labels = map json_str label_items,
              tk_story_points = (case jt_story_points_field j of
                  None \<Rightarrow> None
                | Some f \<Rightarrow> if f = [] then None else whole_points (json_get found f)) \<rparr>)))))))))"

definition jira_fetch :: "'s platform \<Rightarrow> jira_tickets \<Rightarrow> ticket_ref \<Rightarrow> ('s, ticket) rest" where
  "jira_fetch host j ref =
     rest_bind (jira_with j ref (\<lambda>client. rest_get host client (JIRA_API @ ''/issue/'' @ tref_id ref) [])) (\<lambda>body.
     rest_pure (jira_issue j ref body))"

definition jira_comment :: "'s platform \<Rightarrow> jira_tickets \<Rightarrow> ticket_ref \<Rightarrow> string \<Rightarrow> ('s, unit) rest" where
  "jira_comment host j ref body =
     rest_bind (jira_with j ref (\<lambda>client. rest_post host client (JIRA_API @ ''/issue/'' @ tref_id ref @ ''/comment'') []
       (JObj [(''body'', adf_document body)]))) (\<lambda>v. rest_pure (Inr ()))"

text \<open>\<open>payload.get("comments") if isinstance(payload, dict) else None\<close>, then \<open>items or []\<close>.\<close>

definition comment_items :: "json \<Rightarrow> json list res" where
  "comment_items payload = (let items = json_get payload ''comments'' in if json_truthy items then json_iter items else Inr [])"

definition jira_bodies :: "json \<Rightarrow> string list res" where
  "jira_bodies payload = and_then (comment_items payload) (\<lambda>items.
     res_map (\<lambda>c. comment_text (json_get c ''body'')) (filter is_obj items))"

definition jira_comments :: "'s platform \<Rightarrow> jira_tickets \<Rightarrow> ticket_ref \<Rightarrow> ('s, string list) rest" where
  "jira_comments host j ref =
     rest_bind (jira_with j ref (\<lambda>client. rest_get host client (JIRA_API @ ''/issue/'' @ tref_id ref @ ''/comment'') [])) (\<lambda>payload.
     rest_pure (jira_bodies payload))"

text \<open>The first transition of that name, or to a state of that name.\<close>

definition transition_matches :: "string \<Rightarrow> json \<Rightarrow> bool res" where
  "transition_matches state t =
     and_then (obj_get t ''name'' (JStr [])) (\<lambda>n.
     if casefold (json_str n) = casefold state then Inr True
     else and_then (obj_get t ''to'' (JObj [])) (\<lambda>target.
          and_then (obj_get target ''name'' (JStr [])) (\<lambda>n'. Inr (casefold (json_str n') = casefold state))))"

fun first_transition :: "string \<Rightarrow> json list \<Rightarrow> json option res" where
  "first_transition state [] = Inr None"
| "first_transition state (t # ts) =
     and_then (transition_matches state t) (\<lambda>b. if b then Inr (Some t) else first_transition state ts)"

definition offered :: "json list \<Rightarrow> string" where
  "offered ts = (let names = py_join '', '' (map (\<lambda>t. json_str (json_get t ''name'')) ts) in if names = [] then ''none'' else names)"

definition offered_transitions :: "json \<Rightarrow> json list res" where
  "offered_transitions available =
     json_iter (if has_key available ''transitions'' then json_get available ''transitions'' else JList [])"

definition chosen_transition :: "ticket_ref \<Rightarrow> string \<Rightarrow> json \<Rightarrow> json res" where
  "chosen_transition ref state available =
     and_then (offered_transitions available) (\<lambda>ts.
     and_then (first_transition state ts) (\<lambda>found.
     case found of
       None \<Rightarrow> Inl (AdapterError (''issue '' @ tref_id ref @ '' has no transition to '' @ repr_str state @ ''; available: '' @ offered ts))
     | Some t \<Rightarrow> obj_item t ''id''))"

definition transitions_url :: "ticket_ref \<Rightarrow> string" where
  "transitions_url ref = JIRA_API @ ''/issue/'' @ tref_id ref @ ''/transitions''"

definition jira_transition :: "'s platform \<Rightarrow> jira_tickets \<Rightarrow> ticket_ref \<Rightarrow> string \<Rightarrow> ('s, unit) rest" where
  "jira_transition host j ref state =
     jira_with j ref (\<lambda>client.
       rest_bind (rest_get host client (transitions_url ref) []) (\<lambda>available.
       rest_bind (rest_pure (chosen_transition ref state available)) (\<lambda>i.
       rest_bind (rest_post host client (transitions_url ref) [] (JObj [(''transition'', JObj [(''id'', i)])])) (\<lambda>v.
       rest_pure (Inr ())))))"

section \<open>Azure DevOps: HTML\<close>

text \<open>\<open>_TAG.sub(" ", html)\<close>.\<close>

function strip_tags :: "string \<Rightarrow> string" where
  "strip_tags [] = []"
| "strip_tags (c # cs) =
    (let inside = takeWhile (\<lambda>d. d \<noteq> CHR ''>'') cs; after = dropWhile (\<lambda>d. d \<noteq> CHR ''>'') cs
     in if c = CHR ''<'' \<and> inside \<noteq> [] \<and> after \<noteq> [] then CHR '' '' # strip_tags (tl after) else c # strip_tags cs)"
  by pat_completeness auto
termination
proof (relation "measure length")
  fix c cs inside after
  assume a: "after = dropWhile (\<lambda>d. d \<noteq> CHR ''>'') cs" "c = CHR ''<'' \<and> inside \<noteq> [] \<and> after \<noteq> ([] :: string)"
  have "length after \<le> length cs" unfolding a(1) by (rule length_dropWhile_le)
  then show "(tl after, c # cs) \<in> measure length" by simp
qed auto

text \<open>\<open>text.replace(old, new)\<close> for a nonempty \<open>old\<close>.\<close>

function replace_text :: "string \<Rightarrow> string \<Rightarrow> string \<Rightarrow> string" where
  "replace_text old new [] = []"
| "replace_text old new (c # cs) =
    (if starts_with old (c # cs) \<and> old \<noteq> [] then new @ replace_text old new (drop (length old) (c # cs))
     else c # replace_text old new cs)"
  by pat_completeness auto
termination by (relation "measure (\<lambda>(old, new, s). length s)") auto

definition blank :: "char \<Rightarrow> bool" where
  "blank c \<longleftrightarrow> c = CHR '' '' \<or> c = CHR 0x09"

text \<open>\<open>re.sub(r"[ \t]{2,}", " ", text)\<close>, and \<open>_WHITESPACE.sub("\n", text)\<close>.\<close>

function squeeze_blanks :: "string \<Rightarrow> string" where
  "squeeze_blanks [] = []"
| "squeeze_blanks (c # cs) =
    (if blank c \<and> takeWhile blank cs \<noteq> [] then CHR '' '' # squeeze_blanks (dropWhile blank cs) else c # squeeze_blanks cs)"
  by pat_completeness auto
termination by (relation "measure length") (auto simp: less_Suc_eq_le length_dropWhile_le)

function tidy_breaks :: "string \<Rightarrow> string" where
  "tidy_breaks s =
    (case dropWhile blank s of
       [] \<Rightarrow> takeWhile blank s
     | c # rest \<Rightarrow>
         if c = CHR 0x0A then c # tidy_breaks (dropWhile blank rest)
         else takeWhile blank s @ c # tidy_breaks rest)"
  by pat_completeness auto
termination
proof (relation "measure length")
  fix s rest :: string and c
  assume d: "dropWhile blank s = c # rest"
  have l: "length (c # rest) \<le> length s" unfolding d[symmetric] by (rule length_dropWhile_le)
  have "length (dropWhile blank rest) \<le> length rest" by (rule length_dropWhile_le)
  with l show "(dropWhile blank rest, s) \<in> measure length" by simp
  from l show "(rest, s) \<in> measure length" by simp
qed auto

declare tidy_breaks.simps [simp del]

definition unescape :: "string \<Rightarrow> string" where
  "unescape s = replace_text ''&quot;'' [CHR 0x22] (replace_text ''&gt;'' ''>'' (replace_text ''&lt;'' ''<''
     (replace_text ''&amp;'' ''&'' (replace_text ''&nbsp;'' '' '' s))))"

definition plain_text :: "string \<Rightarrow> string" where
  "plain_text html = py_strip (tidy_breaks (squeeze_blanks (unescape (strip_tags html))))"

definition plain :: "json \<Rightarrow> string res" where
  "plain html =
    (if \<not> json_truthy html then Inr []
     else case html of JStr s \<Rightarrow> Inr (plain_text s) | _ \<Rightarrow> Inl (OtherError ''TypeError'' ''expected string or bytes-like object''))"

abbreviation bullet :: char where
  "bullet \<equiv> CHR 0x95"

definition strip_bullets :: "string \<Rightarrow> string" where
  "strip_bullets s =
    (let edge = (\<lambda>c. c \<in> set [CHR '' '', CHR ''-'', CHR ''*'', bullet, CHR 0x09]) in rev (dropWhile edge (rev (dropWhile edge s))))"

definition criteria :: "json \<Rightarrow> string list res" where
  "criteria raw = and_then (plain raw) (\<lambda>s. Inr (map strip_bullets (filter (\<lambda>l. py_strip l \<noteq> []) (splitlines s))))"

section \<open>Azure DevOps: the adapter\<close>

record azure_tickets =
  ab_org :: string
  ab_base_url :: string
  ab_env :: adapter_env

definition new_azure_tickets :: "adapter_env \<Rightarrow> string \<Rightarrow> string \<Rightarrow> azure_tickets" where
  "new_azure_tickets env organisation base_url = \<lparr> ab_org = organisation, ab_base_url = rstrip_slash base_url, ab_env = env \<rparr>"

definition boards_with :: "azure_tickets \<Rightarrow> ticket_ref \<Rightarrow> (rest_client \<Rightarrow> ('s, 'a) rest) \<Rightarrow> ('s, 'a) rest" where
  "boards_with a ref k =
     rest_bind (rest_pure (adapter_token (ab_env a) TICKET_READ_WRITE (ticket_realm ref))) (\<lambda>token.
       k (new_client (ab_base_url a @ ''/'' @ ab_org a) (basic_auth_header [] token) []))"

definition boards_ping :: "'s platform \<Rightarrow> azure_tickets \<Rightarrow> ticket_ref \<Rightarrow> ('s, string) rest" where
  "boards_ping host a ref =
     rest_bind (boards_with a ref (\<lambda>client. rest_get host client (''/_apis/projects/'' @ tref_project ref) [(''api-version'', ''7.1'')])) (\<lambda>body.
     rest_pure (named_project (ab_org a) (tref_project ref) body))"

definition tag_list :: "json \<Rightarrow> string list res" where
  "tag_list v = (case json_or v (JStr []) of
     JStr s \<Rightarrow> Inr (filter (\<lambda>t. t \<noteq> []) (map py_strip (split_on CHR '';'' s)))
   | _ \<Rightarrow> Inl (OtherError ''AttributeError'' ''object has no attribute split''))"

definition work_item :: "ticket_ref \<Rightarrow> json \<Rightarrow> ticket res" where
  "work_item ref body =
    (if \<not> is_obj body then Inl (AdapterError (''unexpected work item payload for '' @ tref_id ref))
     else and_then (obj_get body ''fields'' (JObj [])) (\<lambda>found.
          and_then (obj_get found ''System.Tags'' JNull) (\<lambda>tags.
          and_then (obj_get found ''System.Title'' (JStr [])) (\<lambda>title.
          and_then (plain (json_get found ''System.Description'')) (\<lambda>description.
          and_then (criteria (json_get found ''Microsoft.VSTS.Common.AcceptanceCriteria'')) (\<lambda>wanted.
          and_then (tag_list tags) (\<lambda>labels.
          and_then (obj_get body ''id'' (JStr (tref_id ref))) (\<lambda>i.
            Inr \<lparr> tk_id = json_str i, tk_system = ''azure_devops'', tk_title = json_str title, tk_body = description,
              tk_state = truthy_str (json_get found ''System.State''), tk_acceptance_criteria = wanted,
              tk_labels = labels, tk_story_points = whole_points (json_get found ''Microsoft.VSTS.Scheduling.StoryPoints'') \<rparr>))))))))"

definition boards_fetch :: "'s platform \<Rightarrow> azure_tickets \<Rightarrow> ticket_ref \<Rightarrow> ('s, ticket) rest" where
  "boards_fetch host a ref =
     rest_bind (boards_with a ref (\<lambda>client. rest_get host client (''/'' @ tref_project ref @ ''/_apis/wit/workitems/'' @ tref_id ref)
       [(''api-version'', ''7.1''), (''$expand'', ''all'')])) (\<lambda>body.
     rest_pure (work_item ref body))"

definition boards_comment_url :: "ticket_ref \<Rightarrow> string" where
  "boards_comment_url ref = ''/'' @ tref_project ref @ ''/_apis/wit/workItems/'' @ tref_id ref @ ''/comments''"

definition boards_comment :: "'s platform \<Rightarrow> azure_tickets \<Rightarrow> ticket_ref \<Rightarrow> string \<Rightarrow> ('s, unit) rest" where
  "boards_comment host a ref body =
     rest_bind (boards_with a ref (\<lambda>client. rest_post host client (boards_comment_url ref) [(''api-version'', ''7.1-preview.3'')]
       (JObj [(''text'', JStr body)]))) (\<lambda>v. rest_pure (Inr ()))"

definition boards_bodies :: "json \<Rightarrow> string list res" where
  "boards_bodies payload = and_then (comment_items payload) (\<lambda>items.
     res_map (\<lambda>c. and_then (obj_get c ''text'' (JStr [])) (\<lambda>t. Inr (json_str t))) (filter is_obj items))"

definition boards_comments :: "'s platform \<Rightarrow> azure_tickets \<Rightarrow> ticket_ref \<Rightarrow> ('s, string list) rest" where
  "boards_comments host a ref =
     rest_bind (boards_with a ref (\<lambda>client. rest_get host client (boards_comment_url ref) [(''api-version'', ''7.1-preview.3'')])) (\<lambda>payload.
     rest_pure (boards_bodies payload))"

definition boards_transition :: "'s platform \<Rightarrow> azure_tickets \<Rightarrow> ticket_ref \<Rightarrow> string \<Rightarrow> ('s, unit) rest" where
  "boards_transition host a ref state =
     rest_bind (boards_with a ref (\<lambda>client. rest_request host client ''PATCH'' (''/'' @ tref_project ref @ ''/_apis/wit/workitems/'' @ tref_id ref)
       [(''api-version'', ''7.1'')] (Some (JList [JObj [(''op'', JStr ''add''), (''path'', JStr ''/fields/System.State''), (''value'', JStr state)]]))
       ''application/json-patch+json'')) (\<lambda>v. rest_pure (Inr ()))"

section \<open>Reading back what was written\<close>

lemma adf_paragraph_text:
  "adf_text (adf_paragraph line) = Inr (line @ nl)" "comment_text (adf_paragraph line) = Inr line"
  by (simp_all add: adf_paragraph_def json_get_def get_str_def)

lemma adf_paragraph_texts:
  "adf_texts (map adf_paragraph ls) = Inr (concat (map (\<lambda>l. l @ nl) ls))" "comment_texts (map adf_paragraph ls) = Inr (concat ls)"
  by (induction ls) (simp_all add: adf_paragraph_text)

lemma split_on_lines: "concat (map (\<lambda>l. l @ nl) (split_on (CHR 0x0A) s)) = s @ nl"
  by (induction s) (auto simp: nl_def split: list.splits)

lemma split_on_concat: "concat (split_on d s) = filter (\<lambda>c. c \<noteq> d) s"
  by (induction s) (auto split: list.splits)

text \<open>
  What is written to Jira as a document reads back as the text it was made from, with one line
  break at its end: the two conversions of the Jira adapter are inverse to each other.
\<close>

theorem jira_document_reads_back: "adf_text (adf_document body) = Inr (body @ nl)"
  by (simp add: adf_document_def json_get_def adf_paragraph_texts split_on_lines)

lemma jira_comment_reads_back: "comment_text (adf_document body) = Inr (filter (\<lambda>c. c \<noteq> CHR 0x0A) body)"
  by (simp add: adf_document_def get_str_def adf_paragraph_texts split_on_concat)

lemma contains_filter: "contains m b \<Longrightarrow> d \<notin> set m \<Longrightarrow> contains m (filter (\<lambda>c. c \<noteq> d) b)"
proof -
  assume "contains m b" "d \<notin> set m"
  then obtain u v where "b = u @ m @ v" "filter (\<lambda>c. c \<noteq> d) m = m" by (auto simp: contains_iff filter_id_conv)
  then have "filter (\<lambda>c. c \<noteq> d) b = filter (\<lambda>c. c \<noteq> d) u @ m @ filter (\<lambda>c. c \<noteq> d) v" by simp
  then show ?thesis unfolding contains_iff by blast
qed

section \<open>Comments as the idempotency key\<close>

text \<open>
  What Triage relies on: a comment that has been posted is read back, after those before it, as a text
  in which every marker on one line of it is still found.
\<close>

locale ticket_board =
  fixes post :: "string \<Rightarrow> 'b \<Rightarrow> 'b" and bodies :: "'b \<Rightarrow> string list res"
  assumes posted: "bodies b = Inr bs \<Longrightarrow>
    \<exists>text'. bodies (post body b) = Inr (bs @ [text']) \<and> (\<forall>m. CHR 0x0A \<notin> set m \<longrightarrow> contains m body \<longrightarrow> contains m text')"
begin

lemma marker_found:
  assumes "bodies b = Inr bs" "CHR 0x0A \<notin> set m" "contains m body"
  shows "\<exists>bs'. bodies (post body b) = Inr bs' \<and> list_ex (contains m) bs'"
proof -
  from posted[OF assms(1)] obtain text' where "bodies (post body b) = Inr (bs @ [text'])" "contains m text'"
    using assms(2,3) by blast
  then show ?thesis by (intro exI[of _ "bs @ [text']"]) simp
qed

lemma earlier_kept:
  assumes "bodies b = Inr bs" "list_ex (contains m) bs"
  shows "\<exists>bs'. bodies (post body b) = Inr bs' \<and> list_ex (contains m) bs'"
proof -
  from posted[OF assms(1)] obtain text' where "bodies (post body b) = Inr (bs @ [text'])" by blast
  then show ?thesis using assms(2) by (intro exI[of _ "bs @ [text']"]) simp
qed

lemma marker_stays:
  assumes "bodies b = Inr bs" "CHR 0x0A \<notin> set m" "contains m body"
  shows "\<exists>bs'. bodies (fold post later (post body b)) = Inr bs' \<and> list_ex (contains m) bs'"
proof -
  obtain bs1 where "bodies (post body b) = Inr bs1" "list_ex (contains m) bs1" using marker_found[OF assms] by blast
  then show ?thesis
  proof (induction later arbitrary: bs1 body b)
    case (Cons x later)
    obtain bs2 where "bodies (post x (post body b)) = Inr bs2" "list_ex (contains m) bs2"
      using earlier_kept[OF Cons.prems] by blast
    from Cons.IH[OF this] show ?case by simp
  qed auto
qed

end

text \<open>The comments a site holds, and what the adapter reads of its answer.\<close>

definition jira_post :: "string \<Rightarrow> json list \<Rightarrow> json list" where
  "jira_post body held = held @ [adf_document body]"

definition jira_held :: "json list \<Rightarrow> string list res" where
  "jira_held held = jira_bodies (JObj [(''comments'', JList (map (\<lambda>d. JObj [(''body'', d)]) held))])"

definition boards_post :: "string \<Rightarrow> string list \<Rightarrow> string list" where
  "boards_post body held = held @ [body]"

definition boards_held :: "string list \<Rightarrow> string list res" where
  "boards_held held = boards_bodies (JObj [(''comments'', JList (map (\<lambda>t. JObj [(''text'', JStr t)]) held))])"

lemma comment_items_list: "comment_items (JObj [(''comments'', JList xs)]) = Inr xs"
  by (simp add: comment_items_def json_get_def json_iter_def)

lemma jira_held_texts: "jira_held held = res_map comment_text held"
proof -
  have "res_map (\<lambda>c. comment_text (json_get c ''body'')) (map (\<lambda>d. JObj [(''body'', d)]) held) = res_map comment_text held"
    by (induction held) (simp_all add: json_get_def)
  then show ?thesis by (simp add: jira_held_def jira_bodies_def comment_items_list filter_map o_def)
qed

lemma boards_held_texts: "boards_held held = Inr held"
proof -
  have "res_map (\<lambda>c. and_then (obj_get c ''text'' (JStr [])) (\<lambda>t. Inr (json_str t))) (map (\<lambda>t. JObj [(''text'', JStr t)]) held) = Inr held"
    by (induction held) simp_all
  then show ?thesis by (simp add: boards_held_def boards_bodies_def comment_items_list filter_map o_def)
qed

lemma res_map_append: "res_map f xs = Inr ys \<Longrightarrow> f x = Inr y \<Longrightarrow> res_map f (xs @ [x]) = Inr (ys @ [y])"
  by (simp add: res_map_Inr list_all2_appendI)

interpretation jb: ticket_board jira_post jira_held
proof
  fix held bs body
  assume "jira_held held = Inr bs"
  then have "jira_held (jira_post body held) = Inr (bs @ [filter (\<lambda>c. c \<noteq> CHR 0x0A) body])"
    unfolding jira_held_texts jira_post_def by (rule res_map_append) (rule jira_comment_reads_back)
  then show "\<exists>text'. jira_held (jira_post body held) = Inr (bs @ [text']) \<and>
      (\<forall>m. CHR 0x0A \<notin> set m \<longrightarrow> contains m body \<longrightarrow> contains m text')"
    using contains_filter by blast
qed

interpretation bb: ticket_board boards_post boards_held
  by standard (simp add: boards_held_texts boards_post_def)

lemma acknowledgement_marked:
  "contains (run_marker st) (acknowledgement ctx st)"
  "CHR 0x0A \<notin> set (fs_run_id st) \<Longrightarrow> CHR 0x0A \<notin> set (run_marker st)"
  unfolding contains_iff acknowledgement_def by (metis append.assoc append_Nil2) (simp add: run_marker_def)

lemma marked_is_silent:
  assumes "nc_comments ctx (trigger_ref t (tk_id (fs_ticket st))) = Inr bs" "list_ex (contains (run_marker st)) bs"
  shows "acknowledge ctx t st = io_pure (Inr ())"
  unfolding acknowledge_def Let_def assms(1) using assms(2) by (simp add: io_pure_def io_bind_def io_catch_def)

lemma retry_is_silent_on_azure:
  assumes "CHR 0x0A \<notin> set (fs_run_id st)" "nc_comments ctx (trigger_ref t (tk_id (fs_ticket st)))
    = boards_held (fold boards_post later (boards_post (acknowledgement ctx' st) held))"
  shows "acknowledge ctx t st = io_pure (Inr ())"
  using bb.marker_stays[OF boards_held_texts acknowledgement_marked(2)[OF assms(1)] acknowledgement_marked(1)[of st ctx'], where later = later and b = held]
  unfolding assms(2)[symmetric] by (auto intro: marked_is_silent)



section \<open>Transitions\<close>

lemma first_transition_Some:
  "first_transition state ts = Inr (Some t) \<Longrightarrow> t \<in> set ts \<and> transition_matches state t = Inr True"
  by (induction ts) (auto simp: res_simps split: if_splits)

lemma chosen_transition_Inr:
  assumes "chosen_transition ref state available = Inr i"
  shows "\<exists>ts t. offered_transitions available = Inr ts \<and> t \<in> set ts \<and> transition_matches state t = Inr True \<and> obj_item t ''id'' = Inr i"
proof -
  obtain ts t where "offered_transitions available = Inr ts" "first_transition state ts = Inr (Some t)" "obj_item t ''id'' = Inr i"
    using assms by (auto simp: chosen_transition_def res_simps split: option.splits)
  then show ?thesis using first_transition_Some[of state ts t] by blast
qed

text \<open>What a step posts: everything it sends but the readings.\<close>

definition posts_of :: "'s wire \<Rightarrow> http_request list" where
  "posts_of w = filter (\<lambda>q. \<not> is_get q) (w_sent w)"

lemma posts_request:
  "posts_of (snd (rest_get host c url params w)) = posts_of w"
  "posts_of (snd (rest_post host c url params body w)) = posts_of w @ [request_of c ''POST'' url params (Some body) ''application/json'']"
  by (simp_all add: posts_of_def rest_get_def rest_post_def rest_request_def Let_def case_prod_unfold) (simp add: is_get_def)

text \<open>
  Moving a Jira issue posts at most one transition, and only one that the site offered when it
  was asked, whose own name or whose target is the state asked for; without such a one nothing is
  posted and the call fails.
\<close>

theorem only_an_offered_transition_is_posted:
  assumes "jira_transition host j ref state w = (r, w')" "w_sent w = []"
  shows "posts_of w' = [] \<and> r \<noteq> Inr () \<or>
    (\<exists>client available w1 ts t i. rest_get host client (transitions_url ref) [] w = (Inr available, w1) \<and>
      offered_transitions available = Inr ts \<and> t \<in> set ts \<and> transition_matches state t = Inr True \<and> obj_item t ''id'' = Inr i \<and>
      map hq_url (posts_of w') = [transitions_url ref] \<and>
      map hq_json (posts_of w') = [Some (JObj [(''transition'', JObj [(''id'', i)])])])"
proof -
  have none: "posts_of w = []" using assms(2) by (simp add: posts_of_def)
  show ?thesis using assms(1) unfolding jira_transition_def jira_with_def
  proof (cases rule: rest_bind_cases)
    case (stopped e)
    then show ?thesis using none by (simp add: rest_pure_def)
  next
    case (went_on token w0)
    define c where "c = new_client (jt_site j) (basic_auth_header (jt_email j) token) []"
    have w0: "w0 = w" using went_on(1) by (simp add: rest_pure_def)
    have get: "posts_of w1 = []" if "rest_get host c (transitions_url ref) [] w = (x, w1)" for x w1
      using posts_request(1)[of host c "transitions_url ref" "[]" w] that none by simp
    show ?thesis using went_on(2) unfolding c_def[symmetric] w0
    proof (cases rule: rest_bind_cases)
      case (stopped e)
      then show ?thesis using get by simp
    next
      case got: (went_on available w1)
      show ?thesis using got(2)
      proof (cases rule: rest_bind_cases)
        case (stopped e)
        then show ?thesis using get[OF got(1)] by (simp add: rest_pure_def)
      next
        case (went_on i w2)
        let ?body = "JObj [(''transition'', JObj [(''id'', i)])]"
        have i: "chosen_transition ref state available = Inr i" "w2 = w1" using went_on(1) by (simp_all add: rest_pure_def)
        have "w' = snd (rest_post host c (transitions_url ref) [] ?body w1)"
          using went_on(2) unfolding i(2) by (cases rule: rest_bind_cases) (auto simp: rest_pure_def)
        then have p: "posts_of w' = [request_of c ''POST'' (transitions_url ref) [] (Some ?body) ''application/json'']"
          using posts_request(2)[of host c "transitions_url ref" "[]" ?body w1] get[OF got(1)] by simp
        obtain ts t where "offered_transitions available = Inr ts" "t \<in> set ts" "transition_matches state t = Inr True" "obj_item t ''id'' = Inr i"
          using chosen_transition_Inr[OF i(1)] by blast
        moreover have "map hq_url (posts_of w') = [transitions_url ref]" "map hq_json (posts_of w') = [Some ?body]"
          unfolding p by simp_all
        ultimately show ?thesis using got(1)
          by (intro disjI2 exI[of _ c] exI[of _ available] exI[of _ w1] exI[of _ ts] exI[of _ t] exI[of _ i] conjI)
      qed
    qed
  qed
qed

text \<open>
  A transition whose own name is the state, though it leads elsewhere, is taken before the one that
  leads there.
\<close>

lemma transition_named_like_the_state_wins:
  assumes "casefold (json_str (json_get t ''name'')) = casefold state" "has_key t ''name''"
  shows "first_transition state (t # ts) = Inr (Some t)"
  using assms by (cases t) (auto simp: transition_matches_def obj_get_def json_get_def has_key_def split: option.splits)

section \<open>Seen on an example\<close>

definition done_ref :: ticket_ref where
  "done_ref = \<lparr> tref_system = ''jira'', tref_project = ''KW'', tref_id = ''KW-1'' \<rparr>"

definition done_jira :: jira_tickets where
  "done_jira = new_jira \<lparr> ae_current = None, ae_broker = (\<lambda>q. Inr (Secret ''k'')) \<rparr> ''https://acme.atlassian.net/'' ''a@b.c'' None"

definition done_offer :: json where
  "done_offer = JObj [(''transitions'', JList [
     JObj [(''id'', JStr ''11''), (''name'', JStr ''Done''), (''to'', JObj [(''name'', JStr ''In Review'')])],
     JObj [(''id'', JStr ''21''), (''name'', JStr ''Close''), (''to'', JObj [(''name'', JStr ''Done'')])]])]"

definition done_host :: "unit platform" where
  "done_host q s = (HttpResponse 200 ''-'' (Some done_offer), s)"

definition done_run :: "unit res \<times> unit wire" where
  "done_run = jira_transition done_host done_jira done_ref ''done'' \<lparr> w_host = (), w_sent = [] \<rparr>"

text \<open>Asked for the state Done, the adapter posts the transition that leads to In Review.\<close>

lemma done_goes_to_review:
  "map hq_json (posts_of (snd done_run)) = [Some (JObj [(''transition'', JObj [(''id'', JStr ''11'')])])]"
  by code_simp

lemma only_an_offered_transition_is_posted_witness:
  "map hq_url (posts_of (snd done_run)) = [transitions_url done_ref]"
proof -
  have "posts_of (snd done_run) \<noteq> []" using done_goes_to_review by auto
  then show ?thesis
    using only_an_offered_transition_is_posted[of done_host done_jira done_ref "''done''" "\<lparr> w_host = (), w_sent = [] \<rparr>" "fst done_run" "snd done_run"]
    unfolding done_run_def by auto
qed

lemma entity_is_unescaped_twice: "plain (JStr ''&amp;lt;script&amp;gt;'') = Inr ''<script>''"
  by code_simp

lemma dashes_are_an_empty_criterion: "criteria (JStr ''---'') = Inr [[]]"
  by code_simp

end
