(* ===== verification/Azure_Repos.thy ===== *)
theory Azure_Repos
  imports Github
begin

text \<open>
  engine/adapters/scm/azure_repos.py over an HTTP platform that is a parameter.  A push says what changes
  against the tip of the branch, not what the tree is; \<open>Azure_Push\<close> states what follows from that.
\<close>

section \<open>The adapter\<close>

record azure_repos =
  az_base_url :: string
  az_env :: adapter_env

definition AZURE_API_VERSION :: string where
  "AZURE_API_VERSION = ''7.1''"

definition EMPTY_OBJECT_ID :: string where
  "EMPTY_OBJECT_ID = replicate 40 CHR ''0''"

definition new_azure_repos :: "adapter_env \<Rightarrow> string \<Rightarrow> azure_repos" where
  "new_azure_repos env base_url = \<lparr> az_base_url = rstrip_slash base_url, az_env = env \<rparr>"

definition az_client :: "azure_repos \<Rightarrow> repo_ref \<Rightarrow> credential_kind \<Rightarrow> rest_client res" where
  "az_client az ref kind =
     and_then (adapter_token (az_env az) kind (repo_realm ref)) (\<lambda>token.
       Inr (new_client (az_base_url az @ ''/'' @ rref_org ref) (basic_auth_header [] token) []))"

definition az_repo_path :: "repo_ref \<Rightarrow> string res" where
  "az_repo_path ref =
    (if \<not> truthy (rref_project ref) then Inl (AdapterError ''Azure Repos requires a project; RepoRef.project was not set'')
     else Inr (''/'' @ the (rref_project ref) @ ''/_apis/git/repositories/'' @ rref_repo ref))"

text \<open>A client, and the path of the repository, which is worked out after it.\<close>

definition az_with :: "azure_repos \<Rightarrow> repo_ref \<Rightarrow> credential_kind \<Rightarrow> (rest_client \<Rightarrow> string \<Rightarrow> ('s, 'a) rest) \<Rightarrow> ('s, 'a) rest" where
  "az_with az ref kind k =
     rest_bind (rest_pure (az_client az ref kind)) (\<lambda>client.
     rest_bind (rest_pure (az_repo_path ref)) (\<lambda>path. k client path))"

definition api_version :: "string \<times> string" where
  "api_version = (''api-version'', AZURE_API_VERSION)"

definition at_commit :: "string \<Rightarrow> (string \<times> string) list" where
  "at_commit commit = [(''versionDescriptor.version'', commit), (''versionDescriptor.versionType'', ''commit'')]"

text \<open>\<open>payload.get("value", []) if isinstance(payload, dict) else []\<close>, and \<open>entries[0]\<close>.\<close>

definition value_of :: "json \<Rightarrow> json" where
  "value_of payload = (if has_key payload ''value'' then json_get payload ''value'' else JList [])"

definition first_entry :: "json \<Rightarrow> json res" where
  "first_entry v = (case v of JList (x # xs) \<Rightarrow> Inr x | _ \<Rightarrow> Inl (OtherError ''TypeError'' ''object is not subscriptable''))"

section \<open>Reading\<close>

definition az_endpoint_available :: "'s platform \<Rightarrow> azure_repos \<Rightarrow> repo_ref \<Rightarrow> string \<Rightarrow> ('s, bool \<times> string) rest" where
  "az_endpoint_available host az ref path =
     rest_catch
       (rest_bind (rest_bind (rest_pure (az_client az ref SCM_READ)) (\<lambda>client. rest_get host client path [api_version]))
          (\<lambda>v. rest_pure (Inr (True, ''available''))))
       (\<lambda>e. if is_adapter_error e then Some (rest_pure (Inr (False, ''unavailable: '' @ error_text e))) else None)"

definition az_probe :: "'s platform \<Rightarrow> azure_repos \<Rightarrow> repo_ref \<Rightarrow> ('s, scm_capabilities) rest" where
  "az_probe host az ref =
    (let project = (case rref_project ref of Some p \<Rightarrow> p | None \<Rightarrow> ''None'')
     in rest_bind (az_endpoint_available host az ref (''/'' @ project @ ''/_apis/pipelines/checks/configurations'')) (\<lambda>(checks, checks_detail).
        rest_bind (az_endpoint_available host az ref (''/'' @ project @ ''/_apis/policy/configurations'')) (\<lambda>(policies, policies_detail).
        rest_pure (Inr \<lparr> sc_deployment_protection = checks, sc_required_status_checks = policies,
          sc_restrictable_pipeline_triggers = False,
          sc_detail = [(''checks'', checks_detail), (''branch_policies'', policies_detail),
            (''pipeline_triggers'', ''not probed - requires operator attestation that merge does not deploy'')] \<rparr>))))"

definition refs_filter :: "string \<Rightarrow> (string \<times> string) list" where
  "refs_filter branch = [api_version, (''filter'', ''heads/'' @ branch)]"

definition az_default_branch :: "'s platform \<Rightarrow> azure_repos \<Rightarrow> repo_ref \<Rightarrow> ('s, branch_ref) rest" where
  "az_default_branch host az ref =
     rest_bind (az_with az ref SCM_READ (\<lambda>client path.
       rest_bind (rest_get host client path [api_version]) (\<lambda>repo.
       if \<not> has_key repo ''defaultBranch'' then
         adapter_error (''repository '' @ rref_repo ref @ '' returned no default branch'')
       else let name = remove_prefix ''refs/heads/'' (json_str (json_get repo ''defaultBranch''))
       in rest_bind (rest_get host client (path @ ''/refs'') (refs_filter name)) (\<lambda>refs. rest_pure (Inr (name, refs))))))
     (\<lambda>(name, refs).
       if \<not> json_truthy (value_of refs) then
         adapter_error (''default branch '' @ name @ '' of '' @ rref_repo ref @ '' has no ref entry'')
       else rest_pure (and_then (first_entry (value_of refs)) (\<lambda>x. and_then (obj_item x ''objectId'') (\<lambda>i.
         Inr \<lparr> br_name = name, br_commit = json_str i \<rparr>))))"

definition az_write_access :: "bool option \<times> string" where
  "az_write_access = (None, ''Azure DevOps exposes no cheap per-token permission read'')"

definition wanted_item :: "tree_limits \<Rightarrow> json \<Rightarrow> bool res" where
  "wanted_item limits entry =
    (if \<not> is_obj entry \<or> json_truthy (json_get entry ''isFolder'') then Inr False
     else and_then (obj_item entry ''path'') (\<lambda>p. Inr (\<not> excluded (lstrip_slash (json_str p)) limits)))"

definition fetch_item :: "'s platform \<Rightarrow> rest_client \<Rightarrow> string \<Rightarrow> string \<Rightarrow> tree_limits \<Rightarrow> json \<Rightarrow> ('s, string \<times> string) rest" where
  "fetch_item host client path commit limits entry =
     rest_bind (rest_pure (obj_item entry ''path'')) (\<lambda>p.
     rest_bind (rest_pure (and_then (obj_get entry ''size'' (JInt 0)) json_int)) (\<lambda>bytes.
     rest_bind (rest_pure (check_file_size (lstrip_slash (json_str p)) bytes limits)) (\<lambda>u.
     rest_bind (rest_get host client (path @ ''/items'')
       ([api_version, (''path'', json_str p), (''includeContent'', ''true'')] @ at_commit commit)) (\<lambda>content.
     rest_pure (Inr (lstrip_slash (json_str p),
       if has_key content ''content'' then json_str (json_get content ''content'') else []))))))"

definition list_items :: "'s platform \<Rightarrow> rest_client \<Rightarrow> string \<Rightarrow> string \<Rightarrow> ('s, json) rest" where
  "list_items host client path commit =
     rest_get host client (path @ ''/items'') ([api_version, (''recursionLevel'', ''full'')] @ at_commit commit)"

definition az_read_tree :: "'s platform \<Rightarrow> azure_repos \<Rightarrow> repo_ref \<Rightarrow> string \<Rightarrow> tree_limits \<Rightarrow> ('s, repo_tree) rest" where
  "az_read_tree host az ref commit bounds =
     rest_bind (az_with az ref SCM_READ (\<lambda>client path.
       rest_bind (list_items host client path commit) (\<lambda>listing.
       rest_bind (rest_pure (json_iter (value_of listing))) (\<lambda>entries.
       rest_bind (rest_pure (res_filter (wanted_item bounds) entries)) (\<lambda>wanted.
       rest_bind (rest_pure (check_file_count (length wanted) bounds (repo_name ref))) (\<lambda>u.
       rest_map (fetch_item host client path commit bounds) wanted)))))) (\<lambda>files.
     rest_pure (finish_tree commit (dict_of files) bounds (repo_name ref)))"

definition az_branch_tip :: "'s platform \<Rightarrow> azure_repos \<Rightarrow> repo_ref \<Rightarrow> string \<Rightarrow> ('s, branch_ref option) rest" where
  "az_branch_tip host az ref branch =
     rest_bind (az_with az ref SCM_READ (\<lambda>client path. rest_get host client (path @ ''/refs'') (refs_filter branch))) (\<lambda>refs.
     rest_pure (if \<not> json_truthy (value_of refs) then Inr None
       else and_then (first_entry (value_of refs)) (\<lambda>x. and_then (obj_item x ''objectId'') (\<lambda>i.
         Inr (Some \<lparr> br_name = branch, br_commit = json_str i \<rparr>)))))"

definition az_commit_message :: "'s platform \<Rightarrow> azure_repos \<Rightarrow> repo_ref \<Rightarrow> string \<Rightarrow> ('s, string) rest" where
  "az_commit_message host az ref commit =
     rest_bind (az_with az ref SCM_READ (\<lambda>client path. rest_get host client (path @ ''/commits/'' @ commit) [api_version])) (\<lambda>payload.
     rest_pure (Inr (case payload of JObj kvs \<Rightarrow> get_str kvs ''comment'' | _ \<Rightarrow> [])))"

definition item_path :: "json \<Rightarrow> string option res" where
  "item_path e =
    (if \<not> is_obj e \<or> json_truthy (json_get e ''isFolder'') then Inr None
     else and_then (obj_item e ''path'') (\<lambda>p. Inr (Some (lstrip_slash (json_str p)))))"

definition az_file_paths :: "'s platform \<Rightarrow> azure_repos \<Rightarrow> repo_ref \<Rightarrow> string \<Rightarrow> ('s, string list) rest" where
  "az_file_paths host az ref commit =
     rest_bind (az_with az ref SCM_READ (\<lambda>client path. list_items host client path commit)) (\<lambda>items.
     rest_bind (rest_pure (json_iter (value_of items))) (\<lambda>entries.
     rest_bind (rest_pure (res_map item_path entries)) (\<lambda>paths.
     rest_pure (Inr (concat (map (\<lambda>p. case p of Some s \<Rightarrow> [s] | None \<Rightarrow> []) paths))))))"

section \<open>Writing\<close>

definition edit_change :: "string list \<Rightarrow> file_edit \<Rightarrow> json" where
  "edit_change existing edit =
    (let item = JObj [(''path'', JStr (''/'' @ lstrip_slash (fe_path edit)))]
     in if fe_deleted edit then JObj [(''changeType'', JStr ''delete''), (''item'', item)]
        else JObj [(''changeType'', JStr (if lstrip_slash (fe_path edit) \<in> set existing then ''edit'' else ''add'')), (''item'', item),
          (''newContent'', JObj [(''content'', JStr (fe_content edit)), (''contentType'', JStr ''rawtext'')])])"

definition ref_update :: "string \<Rightarrow> string \<Rightarrow> string \<Rightarrow> json" where
  "ref_update branch old new = JList [JObj [(''name'', JStr (''refs/heads/'' @ branch)), (''oldObjectId'', JStr old),
     (''newObjectId'', JStr new)]]"

definition az_post_ref :: "'s platform \<Rightarrow> azure_repos \<Rightarrow> repo_ref \<Rightarrow> string \<Rightarrow> string \<Rightarrow> string \<Rightarrow> ('s, json) rest" where
  "az_post_ref host az ref branch old new =
     az_with az ref SCM_WRITE_BRANCH (\<lambda>client path. rest_post host client (path @ ''/refs'') [api_version] (ref_update branch old new))"

text \<open>Up to the first write: the tip, and whether the push has landed.\<close>

definition az_push_check :: "'s platform \<Rightarrow> azure_repos \<Rightarrow> repo_ref \<Rightarrow> branch_ref \<Rightarrow> string \<Rightarrow> string \<Rightarrow> string option
    \<Rightarrow> ('s, push_check) rest" where
  "az_push_check host az ref base branch message parent =
     rest_bind (az_branch_tip host az ref branch) (\<lambda>tip.
     case tip of
       None \<Rightarrow> rest_pure (Inr (ToPush None))
     | Some t \<Rightarrow>
         rest_bind (az_commit_message host az ref (br_commit t)) (\<lambda>m.
         if m = message then rest_pure (Inr (AlreadyPushed t))
         else let expected = or_else parent (br_commit base)
         in if br_commit t \<noteq> expected then
              adapter_error (''branch '' @ branch @ '' is at '' @ take 8 (br_commit t) @ '', not the '' @ take 8 expected
                @ '' this '' @ ''push was built on; refusing to overwrite work this run did not do'')
            else rest_pure (Inr (ToPush (Some t)))))"

definition pushed_commit :: "string \<Rightarrow> json \<Rightarrow> branch_ref res" where
  "pushed_commit branch result =
    (let commits = (if has_key result ''commits'' then json_get result ''commits'' else JList [])
     in if \<not> json_truthy commits then Inl (AdapterError ''push returned no commit'')
        else and_then (first_entry commits) (\<lambda>c. and_then (obj_item c ''commitId'') (\<lambda>i.
          Inr \<lparr> br_name = branch, br_commit = json_str i \<rparr>)))"

definition push_body :: "string \<Rightarrow> string \<Rightarrow> string \<Rightarrow> json list \<Rightarrow> json" where
  "push_body branch onto message changes =
     JObj [(''refUpdates'', JList [JObj [(''name'', JStr (''refs/heads/'' @ branch)), (''oldObjectId'', JStr onto)]]),
       (''commits'', JList [JObj [(''comment'', JStr message), (''changes'', JList changes)]])]"

definition az_push_write :: "'s platform \<Rightarrow> azure_repos \<Rightarrow> repo_ref \<Rightarrow> string \<Rightarrow> string \<Rightarrow> file_edit list \<Rightarrow> string
    \<Rightarrow> ('s, branch_ref) rest" where
  "az_push_write host az ref branch message edits onto =
     rest_bind (az_file_paths host az ref onto) (\<lambda>existing.
     rest_bind (az_with az ref SCM_WRITE_BRANCH (\<lambda>client path. rest_post host client (path @ ''/pushes'') [api_version]
       (push_body branch onto message (map (edit_change existing) edits)))) (\<lambda>result.
     rest_pure (pushed_commit branch result)))"

definition az_push_change :: "'s platform \<Rightarrow> azure_repos \<Rightarrow> repo_ref \<Rightarrow> branch_ref \<Rightarrow> string \<Rightarrow> string \<Rightarrow> file_edit list
    \<Rightarrow> string option \<Rightarrow> ('s, branch_ref) rest" where
  "az_push_change host az ref base branch message edits parent =
    (if edits = [] then adapter_error ''refusing to push an empty change''
     else rest_bind (az_push_check host az ref base branch message parent) (\<lambda>checked.
       case checked of
         AlreadyPushed tip \<Rightarrow> rest_pure (Inr tip)
       | ToPush (Some tip) \<Rightarrow> az_push_write host az ref branch message edits (br_commit tip)
       | ToPush None \<Rightarrow>
           rest_bind (az_post_ref host az ref branch EMPTY_OBJECT_ID (br_commit base)) (\<lambda>created.
           az_push_write host az ref branch message edits (br_commit base))))"

definition az_preview_url :: "string option" where
  "az_preview_url = None"

definition az_delete_branch :: "'s platform \<Rightarrow> azure_repos \<Rightarrow> repo_ref \<Rightarrow> string \<Rightarrow> ('s, bool) rest" where
  "az_delete_branch host az ref branch =
     rest_bind (az_branch_tip host az ref branch) (\<lambda>tip.
     case tip of
       None \<Rightarrow> rest_pure (Inr False)
     | Some t \<Rightarrow> rest_bind (az_post_ref host az ref branch (br_commit t) EMPTY_OBJECT_ID) (\<lambda>v. rest_pure (Inr True)))"

definition az_merge_pull_request :: "('s, string) rest" where
  "az_merge_pull_request = adapter_error (''merge_pull_request is not implemented for Azure Repos. Set ''
     @ ''delivery.auto_merge.enabled: false for this application, or merge the pull '' @ ''request by hand.'')"

definition az_open_pull_request :: "'s platform \<Rightarrow> azure_repos \<Rightarrow> repo_ref \<Rightarrow> string \<Rightarrow> string \<Rightarrow> string \<Rightarrow> string
    \<Rightarrow> ('s, pull_request) rest" where
  "az_open_pull_request host az ref source target title description =
     rest_bind (az_with az ref SCM_PULL_REQUEST (\<lambda>client path. rest_post host client (path @ ''/pullrequests'') [api_version]
       (JObj [(''sourceRefName'', JStr (''refs/heads/'' @ source)), (''targetRefName'', JStr (''refs/heads/'' @ target)),
          (''title'', JStr title), (''description'', JStr description)]))) (\<lambda>created.
     if \<not> has_key created ''pullRequestId'' then adapter_error ''pull request creation returned no id''
     else let number = json_str (json_get created ''pullRequestId'')
     in rest_pure (Inr \<lparr> pr_id = number,
          pr_url = az_base_url az @ ''/'' @ rref_org ref @ ''/'' @ (case rref_project ref of Some p \<Rightarrow> p | None \<Rightarrow> ''None'') @ ''/_git/''
            @ rref_repo ref @ ''/pullrequest/'' @ number,
          pr_source_branch = source \<rparr>))"

section \<open>What each operation sends\<close>

lemma sends_az_with [sends_intros]: "(\<And>c p. sends P (k c p)) \<Longrightarrow> sends P (az_with az ref kind k)"
  by (simp add: az_with_def sends_intros)

lemma az_sends_reading:
  "sends is_get (az_default_branch host az ref)" "sends is_get (az_read_tree host az ref commit bounds)"
  "sends is_get (az_branch_tip host az ref branch)" "sends is_get (az_file_paths host az ref commit)"
  "sends is_get (az_push_check host az ref base branch message parent)" "sends is_get (az_probe host az ref)"
proof -
  show "sends is_get (az_default_branch host az ref)"
    unfolding az_default_branch_def Let_def case_prod_unfold by (intro sends_intros)
  show "sends is_get (az_read_tree host az ref commit bounds)"
    unfolding az_read_tree_def list_items_def fetch_item_def by (intro sends_intros)
  show t: "sends is_get (az_branch_tip host az ref branch)"
    unfolding az_branch_tip_def by (intro sends_intros)
  show "sends is_get (az_file_paths host az ref commit)"
    unfolding az_file_paths_def list_items_def by (intro sends_intros)
  show "sends is_get (az_push_check host az ref base branch message parent)"
    unfolding az_push_check_def az_commit_message_def Let_def by (intro sends_intros t)
  show "sends is_get (az_probe host az ref)"
    unfolding az_probe_def az_endpoint_available_def Let_def case_prod_unfold
    by (intro sends_intros) (auto intro: sends_intros split: if_splits)
qed

end
