(* ===== verification/Azure_Push.thy ===== *)
theory Azure_Push
  imports Azure_Repos Github_Push
begin

text \<open>
  What a push to Azure Repos does, for every platform that keeps what Azure documents of the Refs, Commits
  and Pushes APIs: the new commit is the branch's tip with the edits laid over it, and a branch that stands
  elsewhere is never moved.  A ref filter matches by prefix, which \<open>_branch_tip\<close> does not allow for.
\<close>

section \<open>The store and its documented effects\<close>

record az_commit =
  ac_files :: "string \<Rightarrow> string option"
  ac_parents :: "string list"
  ac_comment :: string

record az_store =
  as_refs :: "string \<Rightarrow> string option"
  as_commits :: "string \<Rightarrow> az_commit option"

definition lists_refs :: "az_store \<Rightarrow> string \<Rightarrow> json list \<Rightarrow> bool" where
  "lists_refs st b es \<longleftrightarrow>
     (\<forall>e \<in> set es. \<exists>n c. starts_with b n \<and> as_refs st n = Some c \<and> obj_item e ''objectId'' = Inr (JStr c)) \<and>
     (\<forall>n c. as_refs st n = Some c \<longrightarrow> starts_with b n \<longrightarrow> (\<exists>e \<in> set es. json_get e ''name'' = JStr (''refs/heads/'' @ n)))"

definition lay_change :: "json \<Rightarrow> (string \<Rightarrow> string option) \<Rightarrow> string \<Rightarrow> string option" where
  "lay_change e files =
    (case (json_get (json_get e ''item'') ''path'', json_get e ''changeType'') of
       (JStr p, JStr t) \<Rightarrow> files(lstrip_slash p :=
          if t = ''delete'' then None else Some (json_str (json_get (json_get e ''newContent'') ''content'')))
     | _ \<Rightarrow> files)"

definition object_id :: "string \<Rightarrow> string option" where
  "object_id s = (if s = EMPTY_OBJECT_ID then None else Some s)"

text \<open>A ref update that does not apply is answered with a 200 whose entry says so.\<close>

inductive az_effect :: "string \<Rightarrow> http_request \<Rightarrow> az_store \<Rightarrow> json \<Rightarrow> az_store \<Rightarrow> bool" for R q st v where
  list_refs: "hq_method q = ''GET'' \<Longrightarrow> hq_url q = R @ ''/refs'' \<Longrightarrow> hq_params q = refs_filter b \<Longrightarrow>
    value_of v = JList es \<Longrightarrow> lists_refs st b es \<Longrightarrow> az_effect R q st v st"
| read_comment: "hq_method q = ''GET'' \<Longrightarrow> hq_url q = R @ ''/commits/'' @ c \<Longrightarrow> as_commits st c = Some cm \<Longrightarrow>
    v = JObj kvs \<Longrightarrow> get_str kvs ''comment'' = ac_comment cm \<Longrightarrow> az_effect R q st v st"
| update_ref: "hq_method q = ''POST'' \<Longrightarrow> hq_url q = R @ ''/refs'' \<Longrightarrow> hq_json q = Some (ref_update b old new) \<Longrightarrow>
    as_refs st b = object_id old \<Longrightarrow> az_effect R q st v (st\<lparr> as_refs := (as_refs st)(b := object_id new) \<rparr>)"
| reject_ref: "hq_method q = ''POST'' \<Longrightarrow> hq_url q = R @ ''/refs'' \<Longrightarrow> az_effect R q st v st"
| push: "hq_method q = ''POST'' \<Longrightarrow> hq_url q = R @ ''/pushes'' \<Longrightarrow> hq_json q = Some (push_body b onto msg changes) \<Longrightarrow>
    as_refs st b = Some onto \<Longrightarrow> as_commits st onto = Some old \<Longrightarrow> as_commits st c = None \<Longrightarrow>
    json_get v ''commits'' = JList (cj # cjs) \<Longrightarrow> obj_item cj ''commitId'' = Inr (JStr c) \<Longrightarrow>
    az_effect R q st v \<lparr> as_refs = (as_refs st)(b := Some c), as_commits = (as_commits st)(c := Some
      \<lparr> ac_files = fold lay_change changes (ac_files old), ac_parents = [onto], ac_comment = msg \<rparr>) \<rparr>"
| elsewhere: "hq_url q \<noteq> R @ ''/refs'' \<Longrightarrow> hq_url q \<noteq> R @ ''/pushes'' \<Longrightarrow> \<not> starts_with (R @ ''/commits/'') (hq_url q) \<Longrightarrow>
    az_effect R q st v st"

definition azure_obeys :: "string \<Rightarrow> http_request \<Rightarrow> az_store \<Rightarrow> http_outcome \<Rightarrow> az_store \<Rightarrow> bool" where
  "azure_obeys R q st answer st' \<longleftrightarrow>
    (case answer_of (hq_method q) (hq_url q) answer of
       Inr v \<Rightarrow> az_effect R q st v st'
     | Inl e \<Rightarrow> st' = st \<or> (hq_method q \<noteq> ''GET'' \<and> (\<exists>v. az_effect R q st v st')))"

definition azure_api :: "'s platform \<Rightarrow> ('s \<Rightarrow> az_store) \<Rightarrow> string \<Rightarrow> bool" where
  "azure_api host view R \<longleftrightarrow> (\<forall>q s. azure_obeys R q (view s) (fst (host q s)) (view (snd (host q s))))"

section \<open>Using the law\<close>

lemma az_request:
  assumes "azure_api host view R" "rest_request host c verb url params body ct w = (r, w')"
  shows "r = Inr v \<Longrightarrow> az_effect R (request_of c verb url params body ct) (view (w_host w)) v (view (w_host w'))"
    "view (w_host w') = view (w_host w) \<or>
      (\<exists>v. az_effect R (request_of c verb url params body ct) (view (w_host w)) v (view (w_host w')))"
    "verb = ''GET'' \<Longrightarrow> view (w_host w') = view (w_host w)"
proof -
  let ?q = "request_of c verb url params body ct"
  have r: "r = answer_of verb url (fst (host ?q (w_host w)))" "w_host w' = snd (host ?q (w_host w))"
    using assms(2) by (auto simp: rest_request_def Let_def case_prod_unfold)
  have o: "azure_obeys R ?q (view (w_host w)) (fst (host ?q (w_host w))) (view (w_host w'))"
    using assms(1) unfolding azure_api_def r(2) by blast
  then show "r = Inr v \<Longrightarrow> az_effect R ?q (view (w_host w)) v (view (w_host w'))"
    unfolding azure_obeys_def is_get_request r(1) by simp
  show e: "view (w_host w') = view (w_host w) \<or> (\<exists>v. az_effect R ?q (view (w_host w)) v (view (w_host w')))"
    using o unfolding azure_obeys_def is_get_request by (auto split: sum.splits)
  show "view (w_host w') = view (w_host w)" if "verb = ''GET''"
    using e that by (auto elim: az_effect.cases)
qed

lemma az_get:
  assumes "azure_api host view R" "rest_get host c url params w = (r, w')"
  shows "view (w_host w') = view (w_host w)"
  using az_request(3)[OF assms(1)] assms(2) unfolding rest_get_def by blast

lemma az_with_run:
  assumes "az_with az ref kind k w = (r, w')" "az_repo_path ref = Inr R"
  obtains (no_client) e where "r = Inl e" "w' = w"
    | (client) c where "k c R w = (r, w')"
  using assms by (cases "az_client az ref kind") (auto simp: az_with_def rest_simps)

lemma az_tip_found:
  assumes "azure_api host view R" "az_repo_path ref = Inr R" "az_branch_tip host az ref branch w = (r, w')"
  shows "view (w_host w') = view (w_host w)"
    "r = Inr None \<Longrightarrow> starts_with branch n \<Longrightarrow> as_refs (view (w_host w)) n = None"
    "r = Inr (Some t) \<Longrightarrow> \<exists>n. starts_with branch n \<and> as_refs (view (w_host w)) n = Some (br_commit t)"
    "r = Inr (Some t) \<Longrightarrow> br_name t = branch"
proof -
  let ?get = "az_with az ref SCM_READ (\<lambda>client path. rest_get host client (path @ ''/refs'') (refs_filter branch))"
  have "view (w_host w') = view (w_host w) \<and> (r = Inr None \<longrightarrow> (\<forall>n. starts_with branch n \<longrightarrow> as_refs (view (w_host w)) n = None))
      \<and> (\<forall>t. r = Inr (Some t) \<longrightarrow> br_name t = branch \<and> (\<exists>n. starts_with branch n \<and> as_refs (view (w_host w)) n = Some (br_commit t)))"
    using assms(3) unfolding az_branch_tip_def
  proof (cases rule: rest_bind_cases)
    case (stopped e)
    then show ?thesis using az_with_run[OF stopped(1) assms(2)] az_get[OF assms(1)] by (metis Inl_Inr_False)
  next
    case (went_on refs w1)
    from az_with_run[OF went_on(1) assms(2)] obtain c where
      g: "rest_request host c ''GET'' (R @ ''/refs'') (refs_filter branch) None ''application/json'' w = (Inr refs, w1)"
      unfolding rest_get_def by blast
    note same = az_request(3)[OF assms(1) g refl]
    have "az_effect R (request_of c ''GET'' (R @ ''/refs'') (refs_filter branch) None ''application/json'') (view (w_host w)) refs (view (w_host w))"
      using az_request(1)[OF assms(1) g refl] unfolding same .
    then obtain es where es: "value_of refs = JList es" "lists_refs (view (w_host w)) branch es"
      by (cases rule: az_effect.cases) (auto simp: request_of_def refs_filter_def)
    with went_on same show ?thesis
      by (cases es) (auto simp: rest_pure_def first_entry_def lists_refs_def res_simps, blast)
  qed
  then show "view (w_host w') = view (w_host w)"
    "r = Inr None \<Longrightarrow> starts_with branch n \<Longrightarrow> as_refs (view (w_host w)) n = None"
    "r = Inr (Some t) \<Longrightarrow> \<exists>n. starts_with branch n \<and> as_refs (view (w_host w)) n = Some (br_commit t)"
    "r = Inr (Some t) \<Longrightarrow> br_name t = branch" by auto
qed

lemma az_comment_found:
  assumes "azure_api host view R" "az_repo_path ref = Inr R" "az_commit_message host az ref commit w = (r, w')"
  shows "view (w_host w') = view (w_host w)"
    "r = Inr m \<Longrightarrow> \<exists>cm. as_commits (view (w_host w)) commit = Some cm \<and> ac_comment cm = m"
proof -
  have "view (w_host w') = view (w_host w) \<and> (\<forall>m. r = Inr m \<longrightarrow> (\<exists>cm. as_commits (view (w_host w)) commit = Some cm \<and> ac_comment cm = m))"
    using assms(3) unfolding az_commit_message_def
  proof (cases rule: rest_bind_cases)
    case (stopped e)
    then show ?thesis using az_with_run[OF stopped(1) assms(2)] az_get[OF assms(1)] by (metis Inl_Inr_False)
  next
    case (went_on v w1)
    from az_with_run[OF went_on(1) assms(2)] obtain c where
      g: "rest_request host c ''GET'' (R @ ''/commits/'' @ commit) [api_version] None ''application/json'' w = (Inr v, w1)"
      unfolding rest_get_def by blast
    note same = az_request(3)[OF assms(1) g refl]
    have "az_effect R (request_of c ''GET'' (R @ ''/commits/'' @ commit) [api_version] None ''application/json'') (view (w_host w)) v (view (w_host w))"
      using az_request(1)[OF assms(1) g refl] unfolding same .
    then obtain cm kvs where "as_commits (view (w_host w)) commit = Some cm" "v = JObj kvs" "get_str kvs ''comment'' = ac_comment cm"
      by (cases rule: az_effect.cases) auto
    with went_on same show ?thesis by (auto simp: rest_pure_def)
  qed
  then show "view (w_host w') = view (w_host w)"
    "r = Inr m \<Longrightarrow> \<exists>cm. as_commits (view (w_host w)) commit = Some cm \<and> ac_comment cm = m" by auto
qed


lemma az_check_found:
  assumes "azure_api host view R" "az_repo_path ref = Inr R" "az_push_check host az ref base branch message parent w = (r, w')"
  shows "view (w_host w') = view (w_host w)"
    "r = Inr (AlreadyPushed t) \<Longrightarrow> (\<exists>n. starts_with branch n \<and> as_refs (view (w_host w)) n = Some (br_commit t)) \<and>
      (\<exists>cm. as_commits (view (w_host w)) (br_commit t) = Some cm \<and> ac_comment cm = message)"
    "r = Inr (ToPush (Some t)) \<Longrightarrow> br_commit t = or_else parent (br_commit base)"
    "r = Inr (ToPush (Some t)) \<Longrightarrow> \<exists>n. starts_with branch n \<and> as_refs (view (w_host w)) n = Some (br_commit t)"
    "r = Inr (ToPush None) \<Longrightarrow> starts_with branch n \<Longrightarrow> as_refs (view (w_host w)) n = None"
proof -
  have "view (w_host w') = view (w_host w) \<and> (case r of
      Inr (AlreadyPushed t) \<Rightarrow> (\<exists>n. starts_with branch n \<and> as_refs (view (w_host w)) n = Some (br_commit t)) \<and>
        (\<exists>cm. as_commits (view (w_host w)) (br_commit t) = Some cm \<and> ac_comment cm = message)
    | Inr (ToPush (Some t)) \<Rightarrow> br_commit t = or_else parent (br_commit base) \<and>
        (\<exists>n. starts_with branch n \<and> as_refs (view (w_host w)) n = Some (br_commit t))
    | Inr (ToPush None) \<Rightarrow> (\<forall>n. starts_with branch n \<longrightarrow> as_refs (view (w_host w)) n = None)
    | Inl e \<Rightarrow> True)"
    using assms(3) unfolding az_push_check_def
  proof (cases rule: rest_bind_cases)
    case (stopped e)
    then show ?thesis using az_tip_found(1)[OF assms(1,2)] by auto
  next
    case (went_on found w1)
    note tip = az_tip_found[OF assms(1,2) went_on(1)]
    show ?thesis
    proof (cases found)
      case None
      then show ?thesis using went_on tip(1,2) by (auto simp: rest_pure_def)
    next
      case (Some t)
      note b = went_on(2)[unfolded Some option.case]
      show ?thesis using b
      proof (cases rule: rest_bind_cases)
        case (stopped e)
        then show ?thesis using az_comment_found(1)[OF assms(1,2)] tip(1) by auto
      next
        case (went_on m w2)
        note c = az_comment_found[OF assms(1,2) went_on(1)]
        show ?thesis using went_on(2) c(1) c(2)[OF refl] tip(1) tip(3)[of t] Some
          by (auto simp: Let_def rest_pure_def adapter_error_def split: if_splits)
      qed
    qed
  qed
  then show "view (w_host w') = view (w_host w)"
    "r = Inr (AlreadyPushed t) \<Longrightarrow> (\<exists>n. starts_with branch n \<and> as_refs (view (w_host w)) n = Some (br_commit t)) \<and>
      (\<exists>cm. as_commits (view (w_host w)) (br_commit t) = Some cm \<and> ac_comment cm = message)"
    "r = Inr (ToPush (Some t)) \<Longrightarrow> br_commit t = or_else parent (br_commit base)"
    "r = Inr (ToPush (Some t)) \<Longrightarrow> \<exists>n. starts_with branch n \<and> as_refs (view (w_host w)) n = Some (br_commit t)"
    "r = Inr (ToPush None) \<Longrightarrow> starts_with branch n \<Longrightarrow> as_refs (view (w_host w)) n = None" by auto
qed

section \<open>What a write can have done\<close>

lemma body_inject:
  "ref_update b old new = ref_update b' old' new' \<longleftrightarrow> b = b' \<and> old = old' \<and> new = new'"
  "push_body b onto msg chs = push_body b' onto' msg' chs' \<longleftrightarrow> b = b' \<and> onto = onto' \<and> msg = msg' \<and> chs = chs'"
  by (auto simp: ref_update_def push_body_def)

lemma az_post_ref_did:
  assumes "azure_api host view R" "az_repo_path ref = Inr R" "az_post_ref host az ref branch old new w = (r, w')"
  shows "view (w_host w') = view (w_host w) \<or> (as_refs (view (w_host w)) branch = object_id old \<and>
    view (w_host w') = (view (w_host w))\<lparr> as_refs := (as_refs (view (w_host w)))(branch := object_id new) \<rparr>)"
proof (cases rule: az_with_run[OF assms(3)[unfolded az_post_ref_def] assms(2)])
  case (2 c)
  then have q: "rest_request host c ''POST'' (R @ ''/refs'') [api_version] (Some (ref_update branch old new)) ''application/json'' w = (r, w')"
    by (simp add: rest_post_def)
  show ?thesis using az_request(2)[OF assms(1) q] by (auto elim!: az_effect.cases simp: body_inject)
qed simp

definition pushed_onto :: "az_store \<Rightarrow> string \<Rightarrow> string \<Rightarrow> string \<Rightarrow> json list \<Rightarrow> string \<Rightarrow> az_store \<Rightarrow> bool" where
  "pushed_onto st branch onto message changes c st' \<longleftrightarrow>
    (\<exists>old. as_refs st branch = Some onto \<and> as_commits st onto = Some old \<and>
      st' = \<lparr> as_refs = (as_refs st)(branch := Some c), as_commits = (as_commits st)(c := Some
        \<lparr> ac_files = fold lay_change changes (ac_files old), ac_parents = [onto], ac_comment = message \<rparr>) \<rparr>)"

lemma az_paths_keep:
  assumes "azure_api host view R" "az_repo_path ref = Inr R" "az_file_paths host az ref commit w = (r, w')"
  shows "view (w_host w') = view (w_host w)"
  using assms(3) unfolding az_file_paths_def
proof (cases rule: rest_bind_cases)
  case (stopped e)
  then show ?thesis using az_with_run[OF stopped(1) assms(2)] az_get[OF assms(1)] unfolding list_items_def by metis
next
  case (went_on v w1)
  have "view (w_host w1) = view (w_host w)"
    using az_with_run[OF went_on(1) assms(2)] az_get[OF assms(1)] unfolding list_items_def by (metis Inl_Inr_False)
  moreover have "w' = w1" using went_on(2)
    by (cases "json_iter (value_of v)"; cases "res_map item_path (case json_iter (value_of v) of Inr es \<Rightarrow> es)")
      (auto simp: rest_simps)
  ultimately show ?thesis by simp
qed

lemma az_push_write_did:
  assumes "azure_api host view R" "az_repo_path ref = Inr R" "az_push_write host az ref branch message edits onto w = (r, w')"
  shows "\<exists>existing. view (w_host w') = view (w_host w) \<or>
      (\<exists>c. pushed_onto (view (w_host w)) branch onto message (map (edit_change existing) edits) c (view (w_host w')))"
    "r = Inr br \<Longrightarrow> \<exists>existing. pushed_onto (view (w_host w)) branch onto message (map (edit_change existing) edits) (br_commit br) (view (w_host w'))"
proof -
  let ?did = "\<lambda>existing. view (w_host w') = view (w_host w) \<or>
      (\<exists>c. pushed_onto (view (w_host w)) branch onto message (map (edit_change existing) edits) c (view (w_host w')))"
  let ?made = "\<lambda>existing br. pushed_onto (view (w_host w)) branch onto message (map (edit_change existing) edits) (br_commit br) (view (w_host w'))"
  have "\<exists>existing. ?did existing \<and> (\<forall>br. r = Inr br \<longrightarrow> ?made existing br)"
    using assms(3) unfolding az_push_write_def
  proof (cases rule: rest_bind_cases)
    case (stopped e)
    then show ?thesis using az_paths_keep[OF assms(1,2) stopped(1)] by auto
  next
    case (went_on existing w1)
    note keep = az_paths_keep[OF assms(1,2) went_on(1)]
    let ?body = "push_body branch onto message (map (edit_change existing) edits)"
    have post: "view (w_host w2) = view (w_host w) \<and> (\<exists>e. r2 = Inl e) \<or>
        (\<exists>c. pushed_onto (view (w_host w)) branch onto message (map (edit_change existing) edits) c (view (w_host w2)) \<and>
          (\<forall>v. r2 = Inr v \<longrightarrow> (\<exists>cj cjs. json_get v ''commits'' = JList (cj # cjs) \<and> obj_item cj ''commitId'' = Inr (JStr c))))"
      if "az_with az ref SCM_WRITE_BRANCH (\<lambda>client path. rest_post host client (path @ ''/pushes'') [api_version] ?body) w1 = (r2, w2)"
      for r2 w2
    proof (cases rule: az_with_run[OF that assms(2)])
      case (2 c)
      then have q: "rest_request host c ''POST'' (R @ ''/pushes'') [api_version] (Some ?body) ''application/json'' w1 = (r2, w2)"
        by (simp add: rest_post_def)
      have e: "\<exists>k. pushed_onto (view (w_host w)) branch onto message (map (edit_change existing) edits) k (view (w_host w2)) \<and>
          (\<exists>cj cjs. json_get v ''commits'' = JList (cj # cjs) \<and> obj_item cj ''commitId'' = Inr (JStr k))"
        if "az_effect R (request_of c ''POST'' (R @ ''/pushes'') [api_version] (Some ?body) ''application/json'') (view (w_host w1)) v (view (w_host w2))" for v
        using that unfolding keep by cases (auto simp: body_inject pushed_onto_def)
      show ?thesis
      proof (cases r2)
        case (Inl x)
        then show ?thesis using az_request(2)[OF assms(1) q] e keep by auto
      next
        case (Inr v)
        then show ?thesis using e[OF az_request(1)[OF assms(1) q Inr]] by auto
      qed
    qed (simp add: keep)
    show ?thesis using went_on(2)
    proof (cases rule: rest_bind_cases)
      case (stopped e)
      then show ?thesis using post[OF stopped(1)] by auto
    next
      case (went_on result w2)
      have w': "w' = w2" "r = pushed_commit branch result" using went_on(2) by (auto simp: rest_pure_def)
      from post[OF went_on(1)] obtain c cj cjs where
        c: "pushed_onto (view (w_host w)) branch onto message (map (edit_change existing) edits) c (view (w_host w2))"
          "json_get result ''commits'' = JList (cj # cjs)" "obj_item cj ''commitId'' = Inr (JStr c)" by auto
      have "br_commit br = c" if "r = Inr br" for br
        using that c(2,3) unfolding w'(2) pushed_commit_def Let_def first_entry_def by (auto simp: res_simps split: if_splits)
      then show ?thesis using c(1) w'(1) by auto
    qed
  qed
  then show "\<exists>existing. view (w_host w') = view (w_host w) \<or>
      (\<exists>c. pushed_onto (view (w_host w)) branch onto message (map (edit_change existing) edits) c (view (w_host w')))"
    "r = Inr br \<Longrightarrow> \<exists>existing. ?made existing br" by blast+
qed


section \<open>The whole push\<close>

lemma az_push_result:
  assumes "az_push_change host az ref base branch message edits parent w = (r, w')"
  obtains (refused) e where "r = Inl e" "w' = w"
    | (check_failed) e where "az_push_check host az ref base branch message parent w = (Inl e, w')" "r = Inl e"
    | (there) t where "az_push_check host az ref base branch message parent w = (Inr (AlreadyPushed t), w')" "r = Inr t"
    | (onto) t w1 where "az_push_check host az ref base branch message parent w = (Inr (ToPush (Some t)), w1)"
        "az_push_write host az ref branch message edits (br_commit t) w1 = (r, w')"
    | (not_created) w1 e where "az_push_check host az ref base branch message parent w = (Inr (ToPush None), w1)"
        "az_post_ref host az ref branch EMPTY_OBJECT_ID (br_commit base) w1 = (Inl e, w')" "r = Inl e"
    | (created) w1 v w2 where "az_push_check host az ref base branch message parent w = (Inr (ToPush None), w1)"
        "az_post_ref host az ref branch EMPTY_OBJECT_ID (br_commit base) w1 = (Inr v, w2)"
        "az_push_write host az ref branch message edits (br_commit base) w2 = (r, w')"
proof (cases "edits = []")
  case True
  then show ?thesis using assms refused by (auto simp: az_push_change_def adapter_error_def rest_pure_def)
next
  case False
  with assms have "rest_bind (az_push_check host az ref base branch message parent) (\<lambda>checked.
       case checked of
         AlreadyPushed tip \<Rightarrow> rest_pure (Inr tip)
       | ToPush (Some tip) \<Rightarrow> az_push_write host az ref branch message edits (br_commit tip)
       | ToPush None \<Rightarrow>
           rest_bind (az_post_ref host az ref branch EMPTY_OBJECT_ID (br_commit base)) (\<lambda>created.
           az_push_write host az ref branch message edits (br_commit base))) w = (r, w')"
    by (simp add: az_push_change_def)
  then show ?thesis
  proof (cases rule: rest_bind_cases)
    case (went_on checked w1)
    show ?thesis
    proof (cases checked)
      case (AlreadyPushed t)
      then show ?thesis using went_on there by (auto simp: rest_pure_def)
    next
      case (ToPush existing)
      show ?thesis
      proof (cases existing)
        case None
        note k = went_on(2)[unfolded ToPush None push_check.case option.case]
        show ?thesis using k went_on(1)[unfolded ToPush None] not_created created by (cases rule: rest_bind_cases) blast+
      next
        case (Some t)
        then show ?thesis using went_on ToPush onto by auto
      qed
    qed
  qed (use check_failed in blast)
qed

text \<open>
  C8. A push to Azure Repos never moves a branch it was not built on, whatever it answers: every
  other branch stays where it was, and the pushed one moves only when there was none or it stood at
  the commit the caller named.  This holds although the tip is read with a prefix filter, since the
  platform compares the old object id of the update.
\<close>

theorem azure_push_never_overwrites:
  assumes "azure_api host view R" "az_repo_path ref = Inr R"
    "az_push_change host az ref base branch message edits parent w = (r, w')"
    "as_refs (view (w_host w)) n = Some c" "n \<noteq> branch \<or> c \<noteq> or_else parent (br_commit base)"
  shows "as_refs (view (w_host w')) n = Some c"
  using assms(3)
proof (cases rule: az_push_result)
  case (onto t w1)
  note k = az_check_found[OF assms(1,2) onto(1)]
  from az_push_write_did(1)[OF assms(1,2) onto(2)] show ?thesis
    using assms(4,5) k(1) k(3)[OF refl] by (auto simp: pushed_onto_def)
next
  case (not_created w1 e)
  note k = az_check_found[OF assms(1,2) not_created(1)]
  have "n \<noteq> branch" using k(5)[of branch] assms(4) by (auto simp: starts_with_iff)
  then show ?thesis using az_post_ref_did[OF assms(1,2) not_created(2)] assms(4) k(1) by auto
next
  case (created w1 v w2)
  note k = az_check_found[OF assms(1,2) created(1)]
  have n: "n \<noteq> branch" using k(5)[of branch] assms(4) by (auto simp: starts_with_iff)
  then have "as_refs (view (w_host w2)) n = Some c"
    using az_post_ref_did[OF assms(1,2) created(2)] assms(4) k(1) by auto
  then show ?thesis using az_push_write_did(1)[OF assms(1,2) created(3)] n by (auto simp: pushed_onto_def)
qed (use assms(4) az_check_found(1)[OF assms(1,2)] in auto)

lemma lstrip_twice: "lstrip_slash (CHR ''/'' # lstrip_slash s) = lstrip_slash s"
  unfolding lstrip_slash_def by (induction s) auto

lemma lay_edit_change: "lay_change (edit_change existing e) files = lay_file_edit e files"
  by (simp add: lay_change_def edit_change_def lay_file_edit_def json_get_def lstrip_twice Let_def)

lemma lay_edit_changes: "fold lay_change (map (edit_change existing) edits) files = fold lay_file_edit edits files"
  by (induction edits arbitrary: files) (simp_all add: lay_edit_change)

lemma pushed_onto_made:
  assumes "pushed_onto st branch onto message (map (edit_change existing) edits) c st'"
  shows "as_refs st' branch = Some c" "\<exists>old cm. as_commits st onto = Some old \<and> as_commits st' c = Some cm \<and>
    ac_comment cm = message \<and> ac_parents cm = [onto] \<and> ac_files cm = fold lay_file_edit edits (ac_files old)"
  using assms by (auto simp: pushed_onto_def lay_edit_changes)

text \<open>
  A push that answers left the branch on a commit with the message asked for.  Unless that
  commit was there already, its parent is the branch's tip (the commit named, or the base when there
  was no branch), and its files are the tip's with the edits laid over them: on a second attempt not
  the base's, which is the gap the code documents.  It holds for a branch whose name no other
  branch's extends.
\<close>

theorem azure_push_is_tip_plus_edits:
  assumes "azure_api host view R" "az_repo_path ref = Inr R"
    "az_push_change host az ref base branch message edits parent w = (Inr br, w')"
    "\<And>n. starts_with branch n \<Longrightarrow> as_refs (view (w_host w)) n \<noteq> None \<Longrightarrow> n = branch"
  shows "as_refs (view (w_host w')) branch = Some (br_commit br) \<and>
    (\<exists>cm. as_commits (view (w_host w')) (br_commit br) = Some cm \<and> ac_comment cm = message \<and>
      (view (w_host w') = view (w_host w) \<or>
       (\<exists>tip old. (case as_refs (view (w_host w)) branch of
            None \<Rightarrow> tip = br_commit base | Some c \<Rightarrow> tip = c \<and> c = or_else parent (br_commit base)) \<and>
          as_commits (view (w_host w)) tip = Some old \<and> ac_parents cm = [tip] \<and>
          ac_files cm = fold lay_file_edit edits (ac_files old))))"
  using assms(3)
proof (cases rule: az_push_result)
  case (there t)
  have "view (w_host w') = view (w_host w)" by (rule az_check_found(1)[OF assms(1,2) there(1)])
  moreover obtain n cm where n: "starts_with branch n" "as_refs (view (w_host w)) n = Some (br_commit t)"
      "as_commits (view (w_host w)) (br_commit t) = Some cm" "ac_comment cm = message"
    using az_check_found(2)[OF assms(1,2) there(1) refl] by blast
  moreover have "n = branch" using assms(4)[OF n(1)] n(2) by simp
  ultimately show ?thesis using there(2) by auto
next
  case (onto t w1)
  note k = az_check_found[OF assms(1,2) onto(1)]
  obtain n where n: "starts_with branch n" "as_refs (view (w_host w)) n = Some (br_commit t)" using k(4)[OF refl] by blast
  moreover have "n = branch" using assms(4)[OF n(1)] n(2) by simp
  ultimately have tip: "as_refs (view (w_host w)) branch = Some (br_commit t)" by simp
  obtain existing where p: "pushed_onto (view (w_host w)) branch (br_commit t) message (map (edit_change existing) edits)
      (br_commit br) (view (w_host w'))"
    using az_push_write_did(2)[OF assms(1,2) onto(2) refl] k(1) by auto
  show ?thesis using pushed_onto_made[OF p] tip k(3)[OF refl] by auto
next
  case (created w1 v w2)
  note k = az_check_found[OF assms(1,2) created(1)]
  have none: "as_refs (view (w_host w)) branch = None" using k(5)[of branch] by (simp add: starts_with_iff)
  have c: "as_commits (view (w_host w2)) = as_commits (view (w_host w))"
    using az_post_ref_did[OF assms(1,2) created(2)] k(1) by auto
  obtain existing where p: "pushed_onto (view (w_host w2)) branch (br_commit base) message (map (edit_change existing) edits)
      (br_commit br) (view (w_host w'))"
    using az_push_write_did(2)[OF assms(1,2) created(3) refl] by auto
  show ?thesis using pushed_onto_made[OF p] none c by auto
qed auto

section \<open>Deleting\<close>

text \<open>
  Deleting a branch that is not there, while one whose name extends it is, answers \<open>True\<close>
  or fails, and deletes nothing: the prefix filter gives the other branch's tip, and the update the
  platform rejects with a 200 is not read.
\<close>

theorem absent_branch_reported_deleted:
  assumes "azure_api host view R" "az_repo_path ref = Inr R" "az_delete_branch host az ref branch w = (Inr deleted, w')"
    "as_refs (view (w_host w)) branch = None" "starts_with branch n" "as_refs (view (w_host w)) n = Some c" "c \<noteq> EMPTY_OBJECT_ID"
    "\<And>n' c'. starts_with branch n' \<Longrightarrow> as_refs (view (w_host w)) n' = Some c' \<Longrightarrow> c' = c"
  shows "deleted \<and> view (w_host w') = view (w_host w)"
  using assms(3) unfolding az_delete_branch_def
proof (cases rule: rest_bind_cases)
  case (went_on found w1)
  note tip = az_tip_found[OF assms(1,2) went_on(1)]
  obtain t where t: "found = Some t" using tip(2)[OF _ assms(5)] assms(6) by (cases found) auto
  have c: "br_commit t = c" using tip(3)[of t] t assms(8) by auto
  note k = went_on(2)[unfolded t option.case]
  show ?thesis using k
  proof (cases rule: rest_bind_cases)
    case (went_on v w2)
    then show ?thesis using az_post_ref_did[OF assms(1,2) went_on(1)] tip(1) assms(4,7) c
      by (auto simp: rest_pure_def object_id_def)
  qed auto
qed auto

end
