(* ===== verification/Azure_Sample.thy ===== *)
theory Azure_Sample
  imports Azure_Push Git_Sample
begin

text \<open>
  A small platform that keeps the law of Azure_Push, and the properties of a push seen on it: branches
  and commits are association lists, and a request it does not know is a fault.
\<close>

record azure_tables =
  at_refs :: "(string \<times> string) list"
  at_commits :: "(string \<times> az_commit) list"

definition azure_store :: "azure_tables \<Rightarrow> az_store" where
  "azure_store t = \<lparr> as_refs = map_of (at_refs t), as_commits = map_of (at_commits t) \<rparr>"

definition ref_item :: "string \<times> string \<Rightarrow> json" where
  "ref_item = (\<lambda>(n, c). JObj [(''name'', JStr (''refs/heads/'' @ n)), (''objectId'', JStr c)])"

definition azure_refs :: "string \<Rightarrow> azure_tables \<Rightarrow> http_outcome" where
  "azure_refs b t = (if distinct (map fst (at_refs t))
     then json_answer (JObj [(''value'', JList (map ref_item (filter (\<lambda>(n, c). starts_with b n) (at_refs t))))])
     else git_fault)"

definition azure_comment :: "string \<Rightarrow> azure_tables \<Rightarrow> http_outcome" where
  "azure_comment c t = (case map_of (at_commits t) c of
     None \<Rightarrow> git_fault | Some cm \<Rightarrow> json_answer (JObj [(''comment'', JStr (ac_comment cm))]))"

fun parse_update :: "json \<Rightarrow> (string \<times> string \<times> string) option" where
  "parse_update (JList [JObj [(k1, JStr n), (k2, JStr old), (k3, JStr new)]]) =
    (let b = drop 11 n in if ref_update b old new = JList [JObj [(k1, JStr n), (k2, JStr old), (k3, JStr new)]]
     then Some (b, old, new) else None)"
| "parse_update v = None"

fun parse_push :: "json \<Rightarrow> (string \<times> string \<times> string \<times> json list) option" where
  "parse_push (JObj [(k1, JList [JObj [(k2, JStr n), (k3, JStr onto)]]), (k4, JList [JObj [(k5, JStr msg), (k6, JList chs)]])]) =
    (let b = drop 11 n in if push_body b onto msg chs
        = JObj [(k1, JList [JObj [(k2, JStr n), (k3, JStr onto)]]), (k4, JList [JObj [(k5, JStr msg), (k6, JList chs)]])]
     then Some (b, onto, msg, chs) else None)"
| "parse_push v = None"

definition azure_post_ref :: "json \<Rightarrow> azure_tables \<Rightarrow> azure_tables" where
  "azure_post_ref body t = (case parse_update body of
     None \<Rightarrow> t
   | Some (b, old, new) \<Rightarrow> if map_of (at_refs t) b \<noteq> object_id old then t
       else t\<lparr> at_refs := (case object_id new of None \<Rightarrow> dict_pop b (at_refs t) | Some c \<Rightarrow> dict_put b c (at_refs t)) \<rparr>)"

definition azure_push :: "json \<Rightarrow> azure_tables \<Rightarrow> (string \<times> azure_tables) option" where
  "azure_push body t =
    (let c = ''c'' @ string_of_nat (length (at_commits t))
     in Option.bind (parse_push body) (\<lambda>(b, onto, msg, chs).
        Option.bind (map_of (at_commits t) onto) (\<lambda>old.
          if map_of (at_refs t) b = Some onto \<and> map_of (at_commits t) c = None
          then Some (c, t\<lparr> at_refs := dict_put b c (at_refs t), at_commits := (c, \<lparr> ac_files = fold lay_change chs (ac_files old),
            ac_parents = [onto], ac_comment = msg \<rparr>) # at_commits t \<rparr>) else None)))"

definition azure_host :: "string \<Rightarrow> azure_tables platform" where
  "azure_host R q t =
    (if hq_method q = ''GET'' then
       (if hq_url q = R @ ''/refs'' then
          (case hq_params q of
             [v, f] \<Rightarrow> if hq_params q = refs_filter (drop 6 (snd f)) then (azure_refs (drop 6 (snd f)) t, t) else (git_fault, t)
           | _ \<Rightarrow> (git_fault, t))
        else if starts_with (R @ ''/commits/'') (hq_url q) then (azure_comment (drop (length (R @ ''/commits/'')) (hq_url q)) t, t)
        else if hq_url q = R @ ''/pushes'' then (git_fault, t)
        else (json_answer (JObj []), t))
     else if hq_method q = ''POST'' \<and> hq_url q = R @ ''/refs'' then
       (case hq_json q of None \<Rightarrow> (git_fault, t) | Some body \<Rightarrow> (json_answer (JObj []), azure_post_ref body t))
     else if hq_method q = ''POST'' \<and> hq_url q = R @ ''/pushes'' then
       (case Option.bind (hq_json q) (\<lambda>body. azure_push body t) of
          None \<Rightarrow> (git_fault, t)
        | Some (c, t') \<Rightarrow> (json_answer (JObj [(''commits'', JList [JObj [(''commitId'', JStr c)]])]), t'))
     else (git_fault, t))"

section \<open>It keeps the law\<close>

lemma azure_fault: "azure_obeys R q st git_fault st"
  by (simp add: azure_obeys_def git_fault_def answer_of_def Let_def)

lemma azure_json: "az_effect R q st v st' \<Longrightarrow> azure_obeys R q st (json_answer v) st'"
  by (simp add: azure_obeys_def)

lemma refs_listed:
  assumes "distinct (map fst (at_refs t))"
  shows "lists_refs (azure_store t) b (map ref_item (filter (\<lambda>(n, c). starts_with b n) (at_refs t)))"
  unfolding lists_refs_def
proof (intro conjI ballI allI impI)
  fix e assume "e \<in> set (map ref_item (filter (\<lambda>(n, c). starts_with b n) (at_refs t)))"
  then obtain n c where "(n, c) \<in> set (at_refs t)" "starts_with b n" "e = ref_item (n, c)" by auto
  then show "\<exists>n c. starts_with b n \<and> as_refs (azure_store t) n = Some c \<and> obj_item e ''objectId'' = Inr (JStr c)"
    using assms by (intro exI[of _ n] exI[of _ c]) (simp add: azure_store_def ref_item_def obj_item_def)
next
  fix n c assume "as_refs (azure_store t) n = Some c" "starts_with b n"
  then have "(n, c) \<in> set (at_refs t)" by (simp add: azure_store_def map_of_SomeD)
  then show "\<exists>e \<in> set (map ref_item (filter (\<lambda>(n, c). starts_with b n) (at_refs t))). json_get e ''name'' = JStr (''refs/heads/'' @ n)"
    using \<open>starts_with b n\<close> by (intro bexI[of _ "ref_item (n, c)"]) (auto simp: ref_item_def json_get_def)
qed

lemma azure_refs_obey:
  assumes "hq_method q = ''GET''" "hq_url q = R @ ''/refs''" "hq_params q = refs_filter b"
  shows "azure_obeys R q (azure_store t) (azure_refs b t) (azure_store t)"
proof (cases "distinct (map fst (at_refs t))")
  case True
  show ?thesis unfolding azure_refs_def using True refs_listed[OF True]
    by (auto intro!: azure_json list_refs[OF assms] simp: value_of_def has_key_def json_get_def)
qed (simp add: azure_refs_def azure_fault)

lemma azure_comment_obeys:
  assumes "hq_method q = ''GET''" "hq_url q = R @ ''/commits/'' @ c"
  shows "azure_obeys R q (azure_store t) (azure_comment c t) (azure_store t)"
proof (cases "map_of (at_commits t) c")
  case (Some cm)
  then show ?thesis unfolding azure_comment_def
    by (auto intro!: azure_json read_comment[OF assms] simp: azure_store_def get_str_def)
qed (simp add: azure_comment_def azure_fault)

lemma parse_update_Some: "parse_update body = Some (b, old, new) \<Longrightarrow> body = ref_update b old new"
  by (cases body rule: parse_update.cases) (simp_all add: Let_def split: if_splits)

lemma parse_push_Some: "parse_push body = Some (b, onto, msg, chs) \<Longrightarrow> body = push_body b onto msg chs"
  by (cases body rule: parse_push.cases) (simp_all add: Let_def split: if_splits)

lemma azure_post_ref_obeys:
  assumes "hq_method q = ''POST''" "hq_url q = R @ ''/refs''" "hq_json q = Some body"
  shows "az_effect R q (azure_store t) v (azure_store (azure_post_ref body t))"
proof (cases "azure_post_ref body t = t")
  case True
  then show ?thesis using reject_ref[OF assms(1,2)] by simp
next
  case False
  then obtain b old new where p: "parse_update body = Some (b, old, new)" "map_of (at_refs t) b = object_id old"
    by (auto simp: azure_post_ref_def split: option.splits if_splits)
  have "azure_store (azure_post_ref body t) = (azure_store t)\<lparr> as_refs := (as_refs (azure_store t))(b := object_id new) \<rparr>"
    using p by (simp add: azure_post_ref_def azure_store_def map_of_dict_pop map_of_dict_put split: option.split)
  then show ?thesis
    using update_ref[OF assms(1,2) assms(3)[unfolded parse_update_Some[OF p(1)]], of "azure_store t"] p(2) by (simp add: azure_store_def)
qed

lemma azure_push_obeys:
  assumes "hq_method q = ''POST''" "hq_url q = R @ ''/pushes''" "hq_json q = Some body" "azure_push body t = Some (c, t')"
  shows "az_effect R q (azure_store t) (JObj [(''commits'', JList [JObj [(''commitId'', JStr c)]])]) (azure_store t')"
proof -
  obtain b onto msg chs old where p: "parse_push body = Some (b, onto, msg, chs)" "map_of (at_commits t) onto = Some old"
      "map_of (at_refs t) b = Some onto" "map_of (at_commits t) c = None"
      "t' = t\<lparr> at_refs := dict_put b c (at_refs t), at_commits := (c, \<lparr> ac_files = fold lay_change chs (ac_files old),
            ac_parents = [onto], ac_comment = msg \<rparr>) # at_commits t \<rparr>"
    using assms(4) by (auto simp: azure_push_def Let_def bind_eq_Some_conv split: if_splits)
  have s: "azure_store t' = \<lparr> as_refs = (as_refs (azure_store t))(b := Some c), as_commits = (as_commits (azure_store t))(c := Some
      \<lparr> ac_files = fold lay_change chs (ac_files old), ac_parents = [onto], ac_comment = msg \<rparr>) \<rparr>"
    by (simp add: p(5) azure_store_def map_of_dict_put)
  show ?thesis unfolding s using p(2-4)
    by (intro push[OF assms(1,2) assms(3)[unfolded parse_push_Some[OF p(1)]], where cj = "JObj [(''commitId'', JStr c)]" and cjs = "[]"])
      (simp_all add: azure_store_def json_get_def obj_item_def)
qed

theorem azure_host_lawful: "azure_api (azure_host R) azure_store R"
  unfolding azure_api_def
proof (intro allI)
  fix q :: http_request and t :: azure_tables
  consider (get) "hq_method q = ''GET''" | (post) "hq_method q = ''POST''"
    | (other) "hq_method q \<noteq> ''GET''" "hq_method q \<noteq> ''POST''" by blast
  then show "azure_obeys R q (azure_store t) (fst (azure_host R q t)) (azure_store (snd (azure_host R q t)))"
  proof cases
    case get
    show ?thesis
    proof (cases "hq_url q = R @ ''/refs''")
      case True
      then show ?thesis using get azure_refs_obey[OF get True]
        by (auto simp: azure_host_def azure_fault split: list.splits)
    next
      case refs: False
      show ?thesis
      proof (cases "starts_with (R @ ''/commits/'') (hq_url q)")
        case True
        note u = prefix_rest[OF True]
        have "hq_url q = R @ ''/commits/'' @ drop (length (R @ ''/commits/'')) (hq_url q)" using u by simp
        from azure_comment_obeys[OF get this] show ?thesis using get refs True by (simp add: azure_host_def)
      next
        case False
        then show ?thesis using get refs elsewhere[of q R] azure_json by (simp add: azure_host_def azure_fault)
      qed
    qed
  next
    case post
    consider "hq_url q = R @ ''/refs''" | "hq_url q = R @ ''/pushes''" | "hq_url q \<noteq> R @ ''/refs''" "hq_url q \<noteq> R @ ''/pushes''" by blast
    then show ?thesis
    proof cases
      case 1
      then show ?thesis using post azure_json[OF azure_post_ref_obeys[OF post 1]]
        by (cases "hq_json q") (simp_all add: azure_host_def azure_fault)
    next
      case 2
      show ?thesis
      proof (cases "Option.bind (hq_json q) (\<lambda>body. azure_push body t)")
        case None
        then show ?thesis using post 2 by (simp add: azure_host_def azure_fault)
      next
        case (Some r)
        then obtain body c t' where b: "hq_json q = Some body" "azure_push body t = Some (c, t')" "r = (c, t')"
          by (cases r) (auto simp: bind_eq_Some_conv)
        show ?thesis using post 2 Some b(3) azure_json[OF azure_push_obeys[OF post 2 b(1,2)]] by (simp add: azure_host_def)
      qed
    qed (simp add: azure_host_def azure_fault post)
  qed (simp add: azure_host_def azure_fault)
qed


section \<open>A push, seen on it\<close>

definition z_tables :: azure_tables where
  "z_tables = \<lparr> at_refs = [(''main'', ''m0''), (''feature-2'', ''f0'')],
     at_commits = [(''m0'', \<lparr> ac_files = [''a.py'' \<mapsto> ''x = 1''], ac_parents = [], ac_comment = ''first'' \<rparr>),
       (''f0'', \<lparr> ac_files = [''a.py'' \<mapsto> ''x = 1''], ac_parents = [], ac_comment = ''other'' \<rparr>)] \<rparr>"

definition z_ref :: repo_ref where
  "z_ref = \<lparr> rref_host = ''dev.azure.com'', rref_org = ''acme'', rref_repo = ''repo'', rref_project = Some ''proj'' \<rparr>"

definition z_azure :: azure_repos where
  "z_azure = new_azure_repos \<lparr> ae_current = None, ae_broker = (\<lambda>q. Inr (Secret ''pat'')) \<rparr> ''https://dev.azure.com/''"

definition z_host :: "azure_tables platform" where
  "z_host = azure_host ''/proj/_apis/git/repositories/repo''"

definition z_wire :: "azure_tables wire" where
  "z_wire = \<lparr> w_host = z_tables, w_sent = [] \<rparr>"

definition z_edits :: "file_edit list" where
  "z_edits = [\<lparr> fe_path = ''/b.py'', fe_content = ''y'', fe_deleted = False \<rparr>]"

definition z_base :: branch_ref where
  "z_base = \<lparr> br_name = ''main'', br_commit = ''m0'' \<rparr>"

definition z_push :: "branch_ref res \<times> azure_tables wire" where
  "z_push = az_push_change z_host z_azure z_ref z_base ''kuwarden/1'' ''msg'' z_edits None z_wire"

definition z_deletion :: "bool res \<times> azure_tables wire" where
  "z_deletion = az_delete_branch z_host z_azure z_ref ''feature'' z_wire"

lemma z_repo_path: "az_repo_path z_ref = Inr ''/proj/_apis/git/repositories/repo''"
  by code_simp

lemma z_pushed: "fst z_push = Inr \<lparr> br_name = ''kuwarden/1'', br_commit = ''c2'' \<rparr>"
  by code_simp

lemma z_deleted: "fst z_deletion = Inr True"
  by code_simp


lemma z_lawful: "azure_api z_host azure_store ''/proj/_apis/git/repositories/repo''"
  unfolding z_host_def by (rule azure_host_lawful)

lemma z_refs: "as_refs (azure_store z_tables) = [''main'' \<mapsto> ''m0'', ''feature-2'' \<mapsto> ''f0'']"
  by (simp add: azure_store_def z_tables_def fun_eq_iff)

lemma azure_push_never_overwrites_witness:
  "as_refs (azure_store (w_host (snd (az_push_change z_host z_azure z_ref z_base ''feature-2'' ''msg'' z_edits None z_wire)))) ''feature-2''
    = Some ''f0''"
  by (rule azure_push_never_overwrites[OF z_lawful z_repo_path surjective_pairing])
    (simp_all add: z_wire_def z_refs z_base_def)

lemma azure_push_is_tip_plus_edits_witness:
  "\<exists>cm. as_commits (azure_store (w_host (snd z_push))) ''c2'' = Some cm \<and> ac_comment cm = ''msg'' \<and> ac_parents cm = [''m0''] \<and>
    ac_files cm = [''a.py'' \<mapsto> ''x = 1'', ''b.py'' \<mapsto> ''y'']"
proof -
  have p: "az_push_change z_host z_azure z_ref z_base ''kuwarden/1'' ''msg'' z_edits None z_wire
      = (Inr \<lparr> br_name = ''kuwarden/1'', br_commit = ''c2'' \<rparr>, snd z_push)"
    unfolding z_pushed[symmetric] z_push_def by simp
  have none: "as_refs (azure_store (w_host z_wire)) ''kuwarden/1'' = None" by (simp add: z_wire_def z_refs)
  have "n = ''kuwarden/1''" if "starts_with ''kuwarden/1'' n" "as_refs (azure_store (w_host z_wire)) n \<noteq> None" for n
    using that by (auto simp: z_wire_def z_refs split: if_splits)
  note r = azure_push_is_tip_plus_edits[OF z_lawful z_repo_path p this]
  then have moved: "azure_store (w_host (snd z_push)) \<noteq> azure_store (w_host z_wire)" using none by auto
  have "as_commits (azure_store (w_host z_wire)) ''m0'' = Some \<lparr> ac_files = [''a.py'' \<mapsto> ''x = 1''], ac_parents = [], ac_comment = ''first'' \<rparr>"
    by (simp add: z_wire_def azure_store_def z_tables_def)
  with r moved none show ?thesis
    by (auto simp: z_base_def z_edits_def lay_file_edit_def lstrip_slash_def fun_eq_iff)
qed

lemma absent_branch_reported_deleted_witness:
  "azure_store (w_host (snd z_deletion)) = azure_store z_tables"
proof -
  have d: "az_delete_branch z_host z_azure z_ref ''feature'' z_wire = (Inr True, snd z_deletion)"
    unfolding z_deleted[symmetric] z_deletion_def by simp
  have "c' = ''f0''" if "starts_with ''feature'' n'" "as_refs (azure_store (w_host z_wire)) n' = Some c'" for n' c'
    using that by (auto simp: z_wire_def z_refs split: if_splits)
  note r = absent_branch_reported_deleted[OF z_lawful z_repo_path d, where n = "''feature-2''" and c = "''f0''", OF _ _ _ _ this]
  have "''f0'' \<noteq> EMPTY_OBJECT_ID" by code_simp
  then show ?thesis using r by (simp add: z_wire_def z_refs)
qed

end
