(* ===== verification/Connections.thy ===== *)
theory Connections
  imports Registry Azure_Repos Tickets Llm
begin

text \<open>
  The connectivity checks of engine/api/main.py: the repository an operator pasted, whether the stored
  credentials reach each platform, and what the platform offers as a control point.  They join the registry,
  the adapters and the model backend; \<open>try_load\<close> is \<open>load(config_path())\<close>.
\<close>

section \<open>A repository URL as it is pasted\<close>

text \<open>The tail of \<open>s.rpartition(sep)\<close>, \<open>s.endswith\<close> and \<open>s.removesuffix\<close>.\<close>

fun after_last :: "string \<Rightarrow> string \<Rightarrow> string option" where
  "after_last sep [] = None"
| "after_last sep (c # cs) =
    (case after_last sep cs of
       Some t \<Rightarrow> Some t
     | None \<Rightarrow> if starts_with sep (c # cs) then Some (drop (length sep) (c # cs)) else None)"

definition rpartition_tail :: "string \<Rightarrow> string \<Rightarrow> string" where
  "rpartition_tail sep s = (case after_last sep s of Some t \<Rightarrow> t | None \<Rightarrow> s)"

definition ends_with :: "string \<Rightarrow> string \<Rightarrow> bool" where
  "ends_with suffix s = starts_with (rev suffix) (rev s)"

definition remove_suffix :: "string \<Rightarrow> string \<Rightarrow> string" where
  "remove_suffix suffix s = (if ends_with suffix s then take (length s - length suffix) s else s)"

definition url_segments :: "string \<Rightarrow> string list" where
  "url_segments repo_url =
    (let authority = rpartition_tail ''://'' (rstrip_slash (py_strip repo_url));
         segments = filter (\<lambda>s. s \<noteq> []) (split_on CHR ''/'' authority)
     in if segments = [] then [] else butlast segments @ [remove_suffix ''.git'' (last segments)])"

definition repo_config_of :: "string \<Rightarrow> repo_config res" where
  "repo_config_of repo_url =
    (let segments = url_segments repo_url; n = length segments
     in if contains ''github.com'' repo_url then
          if n < 3 then Inl (ConfigError (repr_str repo_url @ '' is not a GitHub repository URL; expected ''
            @ ''https://github.com/<org>/<repo>''))
          else Inr \<lparr> rc_name = segments ! (n - 1), rc_provider = ''github'', rc_org = segments ! (n - 2), rc_repo = segments ! (n - 1),
            rc_project = None, rc_path = ''.'' \<rparr>
        else if n < 5 \<or> segments ! (n - 2) \<noteq> ''_git'' then Inl (ConfigError (repr_str repo_url
            @ '' is not an Azure Repos URL; expected '' @ ''https://dev.azure.com/<org>/<project>/_git/<repo>''))
        else Inr \<lparr> rc_name = segments ! (n - 1), rc_provider = ''azure_repos'', rc_org = segments ! (n - 4),
            rc_repo = segments ! (n - 1), rc_project = Some (segments ! (n - 3)), rc_path = ''.'' \<rparr>)"

section \<open>The adapter of a repository\<close>

text \<open>\<open>scm_adapter\<close> with the addresses the adapters have by default.\<close>

definition of_provider :: "repo_config \<Rightarrow> ('s, 'a) rest \<Rightarrow> ('s, 'a) rest \<Rightarrow> ('s, 'a) rest" where
  "of_provider repo github azure =
     rest_bind (rest_pure (scm_adapter repo)) (\<lambda>u. if rc_provider repo = ''github'' then github else azure)"

definition the_github :: "adapter_env \<Rightarrow> github" where
  "the_github env = new_github env ''https://api.github.com'' ''https://github.com''"

definition the_azure :: "adapter_env \<Rightarrow> azure_repos" where
  "the_azure env = new_azure_repos env ''https://dev.azure.com''"

definition scm_default_branch :: "'s platform \<Rightarrow> adapter_env \<Rightarrow> repo_config \<Rightarrow> ('s, branch_ref) rest" where
  "scm_default_branch host env repo = of_provider repo
     (gh_default_branch host (the_github env) (repo_config_ref repo)) (az_default_branch host (the_azure env) (repo_config_ref repo))"

definition scm_write_access :: "'s platform \<Rightarrow> adapter_env \<Rightarrow> repo_config \<Rightarrow> ('s, bool option \<times> string) rest" where
  "scm_write_access host env repo = of_provider repo
     (gh_write_access host (the_github env) (repo_config_ref repo)) (rest_pure (Inr az_write_access))"

definition scm_probe :: "'s platform \<Rightarrow> adapter_env \<Rightarrow> repo_config \<Rightarrow> ('s, scm_capabilities) rest" where
  "scm_probe host env repo = of_provider repo
     (gh_probe host (the_github env) (repo_config_ref repo)) (az_probe host (the_azure env) (repo_config_ref repo))"

definition ticket_ping :: "'s platform \<Rightarrow> adapter_env \<Rightarrow> trigger_config \<Rightarrow> ('s, string) rest" where
  "ticket_ping host env t =
     rest_bind (rest_pure (ticket_adapter t)) (\<lambda>u.
     if tc_provider t = ''jira'' then
       jira_ping host (new_jira env (the (tc_site t)) (the (tc_account_email t)) (tc_story_points_field t)) (trigger_ref t [])
     else boards_ping host (new_azure_tickets env (the (tc_organisation t)) ''https://dev.azure.com'') (trigger_ref t []))"

section \<open>The checks\<close>

record check_result =
  ck_ok :: bool
  ck_target :: string
  ck_detail :: string

text \<open>\<open>except (AdapterError, KuWardenError)\<close>.\<close>

fun is_kuwarden_error :: "error \<Rightarrow> bool" where
  "is_kuwarden_error (OtherError t m) = (t = ''TreeTooLarge'')"
| "is_kuwarden_error e = True"

definition report_failure :: "string \<Rightarrow> ('s, check_result) rest \<Rightarrow> ('s, check_result) rest" where
  "report_failure target m = rest_catch m (\<lambda>e. if is_kuwarden_error e
     then Some (rest_pure (Inr \<lparr> ck_ok = False, ck_target = target, ck_detail = err_msg e \<rparr>)) else None)"

definition scm_verdict :: "string \<Rightarrow> branch_ref \<Rightarrow> bool option \<Rightarrow> string \<Rightarrow> check_result" where
  "scm_verdict repo_url branch writable because =
    (let tip = ''default branch '' @ br_name branch @ '' at '' @ take 8 (br_commit branch)
     in case writable of
          Some False \<Rightarrow> \<lparr> ck_ok = False, ck_target = repo_url, ck_detail = tip @ '', but '' @ because \<rparr>
        | None \<Rightarrow> \<lparr> ck_ok = True, ck_target = repo_url, ck_detail = tip @ ''. Write access: '' @ because \<rparr>
        | Some True \<Rightarrow> \<lparr> ck_ok = True, ck_target = repo_url, ck_detail = tip @ '', and '' @ because \<rparr>)"

definition check_scm :: "'s platform \<Rightarrow> adapter_env \<Rightarrow> string \<Rightarrow> ('s, check_result) rest" where
  "check_scm host env repo_url = report_failure repo_url
     (rest_bind (rest_pure (repo_config_of repo_url)) (\<lambda>repo.
      rest_bind (scm_default_branch host env repo) (\<lambda>branch.
      rest_bind (scm_write_access host env repo) (\<lambda>(writable, because).
      rest_pure (Inr (scm_verdict repo_url branch writable because))))))"

definition check_llm :: "app_config res \<Rightarrow> llm_backend \<Rightarrow> ('s, check_result) rest" where
  "check_llm try_load backend =
    (case try_load of
       Inl (ConfigError m) \<Rightarrow> rest_pure (Inr \<lparr> ck_ok = False, ck_target = ''kuwarden.yaml'', ck_detail = m \<rparr>)
     | Inl e \<Rightarrow> rest_pure (Inl e)
     | Inr config \<Rightarrow>
         (case ac_llm config of
            None \<Rightarrow> rest_pure (Inr \<lparr> ck_ok = False, ck_target = ''kuwarden.yaml'',
              ck_detail = ''no llm section is declared; the Planner and Coder both need a model'' \<rparr>)
          | Some c \<Rightarrow> report_failure (provider_str (lc_provider c))
              (rest_bind (rest_pure (and_then (llm_adapter c ''planner'') (ping backend))) (\<lambda>m.
               rest_pure (Inr \<lparr> ck_ok = True, ck_target = provider_str (lc_provider c), ck_detail = m \<rparr>)))))"

text \<open>The row gives no label, ready state or story points to the adapter.\<close>

definition check_ticket :: "'s platform \<Rightarrow> adapter_env \<Rightarrow> trigger_config \<Rightarrow> ('s, check_result) rest" where
  "check_ticket host env row =
    (let trigger = row\<lparr> tc_label := None, tc_ready_state := None, tc_max_story_points := None, tc_story_points_field := None \<rparr>;
         where_at = (if truthy (tc_organisation row) then the (tc_organisation row)
           else case tc_site row of Some s \<Rightarrow> s | None \<Rightarrow> ''None'');
         target = where_at @ ''/'' @ tc_project row
     in report_failure target (rest_bind (ticket_ping host env trigger) (\<lambda>found.
          rest_pure (Inr \<lparr> ck_ok = True, ck_target = target, ck_detail = ''reached '' @ found \<rparr>))))"

record check_report =
  cp_scm :: check_result
  cp_model :: check_result
  cp_ticket :: check_result

definition check_connections :: "'s platform \<Rightarrow> adapter_env \<Rightarrow> app_config res \<Rightarrow> llm_backend \<Rightarrow> registry \<Rightarrow> uuid
    \<Rightarrow> ('s, check_report reply) rest" where
  "check_connections host env try_load backend reg app_id =
    (case map_of (rg_apps reg) app_id of
       None \<Rightarrow> rest_pure (Inr (HttpStatus 404 ''no such application''))
     | Some row \<Rightarrow>
         rest_bind (check_scm host env (ar_repo_url row)) (\<lambda>scm.
         rest_bind (check_llm try_load backend) (\<lambda>model.
         rest_bind (case filter (\<lambda>t. tr_app_id t = app_id) (rg_triggers reg) of
             [] \<Rightarrow> rest_pure (Inr \<lparr> ck_ok = False, ck_target = [], ck_detail = ''no ticket trigger is configured for this application'' \<rparr>)
           | t # ts \<Rightarrow> check_ticket host env (tr_config t)) (\<lambda>ticket.
         rest_pure (Inr (Reply \<lparr> cp_scm = scm, cp_model = model, cp_ticket = ticket \<rparr>))))))"

record probe_report =
  pb_declared :: string
  pb_achievable :: bool
  pb_reason :: string
  pb_capabilities :: scm_capabilities

definition probe_app :: "'s platform \<Rightarrow> adapter_env \<Rightarrow> registry \<Rightarrow> uuid \<Rightarrow> ('s, probe_report reply) rest" where
  "probe_app host env reg app_id =
    (case map_of (rg_apps reg) app_id of
       None \<Rightarrow> rest_pure (Inr (HttpStatus 404 ''no such application''))
     | Some row \<Rightarrow>
         rest_bind (rest_catch
           (rest_bind (rest_pure (repo_config_of (ar_repo_url row))) (\<lambda>repo.
            rest_bind (scm_probe host env repo) (\<lambda>caps. rest_pure (Inr (Inr caps)))))
           (\<lambda>e. if is_kuwarden_error e then Some (rest_pure (Inr (Inl (''probe failed: '' @ err_msg e)))) else None)) (\<lambda>probed.
         case probed of
           Inl m \<Rightarrow> rest_pure (Inr (HttpStatus 400 m))
         | Inr caps \<Rightarrow> rest_bind (rest_pure (model_value (ar_integration_model row))) (\<lambda>declared.
             let (achievable, because) = validate_integration_model declared caps
             in rest_pure (Inr (Reply \<lparr> pb_declared = ar_integration_model row, pb_achievable = achievable, pb_reason = because,
                  pb_capabilities = caps \<rparr>)))))"

section \<open>Reading only\<close>

lemma sends_provider [sends_intros]: "sends P m \<Longrightarrow> sends P m' \<Longrightarrow> sends P (of_provider repo m m')"
  unfolding of_provider_def by (intro sends_intros)

lemma sends_ping: "sends is_get (ticket_ping host env t)"
  unfolding ticket_ping_def jira_ping_def boards_ping_def jira_with_def boards_with_def by (intro sends_intros)

lemma sends_report [sends_intros]: "sends P m \<Longrightarrow> sends P (report_failure target m)"
  unfolding report_failure_def by (intro sends_intros) (auto intro: sends_intros split: if_splits)

lemma sends_check_scm: "sends is_get (check_scm host env repo_url)"
  unfolding check_scm_def scm_default_branch_def scm_write_access_def case_prod_unfold
  by (intro sends_intros sends_reading az_sends_reading)

lemma sends_check_llm: "sends is_get (check_llm try_load backend)"
  unfolding check_llm_def by (auto intro!: sends_intros split: sum.split error.split option.split)

lemma sends_check_ticket: "sends is_get (check_ticket host env row)"
  unfolding check_ticket_def Let_def by (intro sends_intros sends_ping)

lemma sends_check: "sends is_get (check_connections host env try_load backend reg app_id)"
proof -
  have "sends is_get (case ts of
      [] \<Rightarrow> rest_pure (Inr \<lparr> ck_ok = False, ck_target = [], ck_detail = ''no ticket trigger is configured for this application'' \<rparr>)
    | t # rest \<Rightarrow> check_ticket host env (tr_config t))" for ts
    by (cases ts) (auto intro: sends_intros sends_check_ticket)
  then show ?thesis unfolding check_connections_def by (intro sends_intros sends_check_scm sends_check_llm)
qed

lemma sends_probe: "sends is_get (probe_app host env reg app_id)"
  unfolding probe_app_def scm_probe_def Let_def case_prod_unfold
  by (intro sends_intros sends_reading az_sends_reading)
    (auto intro: sends_intros split: if_splits sum.splits)

text \<open>
  Pressing the check or the probe changes nothing on any platform: whatever is configured and
  whatever the platforms answer, every request sent is a reading one.
\<close>

theorem checks_are_read_only:
  "\<exists>qs. w_sent (snd (check_connections host env try_load backend reg app_id w)) = w_sent w @ qs \<and> list_all is_get qs"
  "\<exists>qs. w_sent (snd (probe_app host env reg app_id w)) = w_sent w @ qs \<and> list_all is_get qs"
  using sends_check[of host env try_load backend reg app_id] sends_probe[of host env reg app_id] unfolding sends_def by blast+

section \<open>Naming what is wrong\<close>

definition stops_on :: "(error \<Rightarrow> bool) \<Rightarrow> ('s, 'a) rest \<Rightarrow> bool" where
  "stops_on E m \<longleftrightarrow> (\<forall>w e. fst (m w) = Inl e \<longrightarrow> E e)"

named_theorems stops_intros \<open>the exceptions a computation lets out\<close>

lemma stops_pure [stops_intros]: "(\<And>e. r = Inl e \<Longrightarrow> E e) \<Longrightarrow> stops_on E (rest_pure r)"
  by (simp add: stops_on_def rest_pure_def)

lemma stops_bind [stops_intros]:
  assumes "stops_on E m" "\<And>x. stops_on E (f x)"
  shows "stops_on E (rest_bind m f)"
  unfolding stops_on_def
proof (intro allI impI)
  fix w e assume "fst (rest_bind m f w) = Inl e"
  then obtain w2 where "rest_bind m f w = (Inl e, w2)" by (metis prod.collapse)
  then show "E e"
  proof (cases rule: rest_bind_cases)
    case (stopped e')
    then show ?thesis using assms(1) unfolding stops_on_def by (metis Inl_inject fst_conv)
  next
    case (went_on x w1)
    then show ?thesis using assms(2)[of x] unfolding stops_on_def by (metis fst_conv)
  qed
qed

lemma stops_report [stops_intros]: "stops_on (\<lambda>e. \<not> is_kuwarden_error e) (report_failure target m)"
  by (auto simp: stops_on_def report_failure_def rest_catch_def rest_pure_def split: prod.splits sum.splits if_splits)

text \<open>
  A check answers for all three sides: whatever a platform refuses and whatever is wrong with
  the stored URL, credentials or trigger, the reply names each side's own result, and no error of
  the program's own reaches the operator as a bare failure.
\<close>

theorem check_names_what_is_wrong:
  assumes "map_of (rg_apps reg) app_id = Some row" "\<And>e. try_load = Inl e \<Longrightarrow> \<exists>m. e = ConfigError m"
    "check_connections host env try_load backend reg app_id w = (r, w')"
  shows "(\<exists>report. r = Inr (Reply report)) \<or> (\<exists>e. r = Inl e \<and> \<not> is_kuwarden_error e)"
proof -
  have llm: "stops_on (\<lambda>e. \<not> is_kuwarden_error e) (check_llm try_load backend)"
    using assms(2) unfolding check_llm_def by (auto intro!: stops_intros split: sum.split error.split option.split)
  have ticket: "stops_on (\<lambda>e. \<not> is_kuwarden_error e) (case ts of
      [] \<Rightarrow> rest_pure (Inr \<lparr> ck_ok = False, ck_target = [], ck_detail = ''no ticket trigger is configured for this application'' \<rparr>)
    | t # rest \<Rightarrow> check_ticket host env (tr_config t))" for ts
    by (cases ts) (auto simp: check_ticket_def Let_def intro!: stops_intros)
  have "stops_on (\<lambda>e. \<not> is_kuwarden_error e) (check_connections host env try_load backend reg app_id)"
    unfolding check_connections_def assms(1) option.case check_scm_def
    by (intro stops_intros llm ticket) simp
  moreover have "\<exists>report. x = Reply report" if "r = Inr x" for x
    using assms(3) that unfolding check_connections_def assms(1) option.case
    by (auto simp: rest_bind_Inr rest_pure_def)
  ultimately show ?thesis using assms(3) unfolding stops_on_def by (cases r) (auto, metis fst_conv)
qed

section \<open>Pasted URLs\<close>

definition url_word :: "string \<Rightarrow> bool" where
  "url_word s \<longleftrightarrow> s \<noteq> [] \<and> list_all (\<lambda>c. c \<noteq> CHR ''/'' \<and> c \<noteq> CHR '':'' \<and> \<not> is_space c) s"

lemma url_punctuation:
  "\<not> is_space CHR ''/''" "list_all (\<lambda>c. \<not> is_space c) ''https://''" "list_all (\<lambda>c. c \<noteq> CHR ''/'' \<and> c \<noteq> CHR '':'' \<and> \<not> is_space c) ''.git''"
  by code_simp+

lemma after_last_none: "CHR '':'' \<notin> set s \<Longrightarrow> after_last ''://'' s = None"
  by (induction s) auto

lemma after_last_scheme: "CHR '':'' \<notin> set s \<Longrightarrow> after_last ''://'' (CHR '':'' # CHR ''/'' # CHR ''/'' # s) = Some s"
  by (simp add: after_last_none)

lemma after_last_prefix: "after_last sep t = Some u \<Longrightarrow> after_last sep (s @ t) = Some u"
  by (induction s) simp_all

lemma scheme_dropped:
  assumes "CHR '':'' \<notin> set s" "scheme = [] \<or> scheme = ''https://''"
  shows "rpartition_tail ''://'' (scheme @ s) = s"
proof (cases "scheme = []")
  case False
  then have "scheme @ s = ''https'' @ CHR '':'' # CHR ''/'' # CHR ''/'' # s" using assms(2) by simp
  then show ?thesis using after_last_prefix[OF after_last_scheme[OF assms(1)], of "''https''"] by (simp add: rpartition_tail_def)
qed (simp add: rpartition_tail_def after_last_none[OF assms(1)])

lemma trimmed:
  assumes "s \<noteq> []" "\<not> is_space (hd s)" "\<not> is_space (last s)"
  shows "py_strip s = s"
proof -
  have "dropWhile is_space s = s" using assms(1,2) by (cases s) auto
  moreover have "dropWhile is_space (rev s) = rev s" using assms(1,3) by (cases s rule: rev_cases) auto
  ultimately show ?thesis by (simp add: py_strip_def)
qed

lemma unslashed:
  assumes "s \<noteq> []" "last s \<noteq> CHR ''/''" "slash = [] \<or> slash = ''/''"
  shows "rstrip_slash (s @ slash) = s"
proof -
  have "dropWhile (\<lambda>c. c = CHR ''/'') (rev s) = rev s" using assms(1,2) by (cases s rule: rev_cases) auto
  then show ?thesis using assms(3) by (auto simp: rstrip_slash_def)
qed

lemma set_py_join: "set (py_join sep ps) \<subseteq> set sep \<union> \<Union> (set ` set ps)"
  by (induction sep ps rule: py_join.induct) auto

lemma last_py_join: "ps \<noteq> [] \<Longrightarrow> last ps \<noteq> [] \<Longrightarrow> py_join sep ps \<noteq> [] \<and> last (py_join sep ps) = last (last ps)"
  by (induction sep ps rule: py_join.induct) auto

lemma url_word_chars: "url_word s \<Longrightarrow> x \<in> set s \<Longrightarrow> x \<noteq> CHR ''/'' \<and> x \<noteq> CHR '':'' \<and> \<not> is_space x"
  by (auto simp: url_word_def list_all_iff)

lemma url_word_append: "url_word a \<Longrightarrow> list_all (\<lambda>c. c \<noteq> CHR ''/'' \<and> c \<noteq> CHR '':'' \<and> \<not> is_space c) b \<Longrightarrow> url_word (a @ b)"
  by (simp add: url_word_def)

lemma url_words:
  assumes "\<forall>p \<in> set ps. url_word p" "ps \<noteq> []" "scheme = [] \<or> scheme = ''https://''" "slash = [] \<or> slash = ''/''"
  shows "rpartition_tail ''://'' (rstrip_slash (py_strip (scheme @ py_join ''/'' ps @ slash))) = py_join ''/'' ps"
    "filter (\<lambda>s. s \<noteq> []) (split_on CHR ''/'' (py_join ''/'' ps)) = ps"
proof -
  have c: "x \<noteq> CHR '':'' \<and> \<not> is_space x" if "x \<in> set (py_join ''/'' ps)" for x
    using that set_py_join[of "''/''" ps] assms(1) url_word_chars url_punctuation(1) by fastforce
  have l: "url_word (last ps)" using assms(1,2) by simp
  then have e: "py_join ''/'' ps \<noteq> [] \<and> last (py_join ''/'' ps) \<noteq> CHR ''/''"
    using last_py_join[OF assms(2), of "''/''"] url_word_chars[OF l, of "last (last ps)"] by (simp add: url_word_def)
  have sc: "\<forall>x \<in> set scheme. \<not> is_space x" using assms(3) url_punctuation(2) by (auto simp only: list_all_iff list.set empty_iff)
  let ?s = "scheme @ py_join ''/'' ps @ slash"
  have all: "\<forall>x \<in> set ?s. \<not> is_space x" using c sc assms(4) url_punctuation(1) by (auto simp del: py_join.simps)
  have ne: "?s \<noteq> []" using e by simp
  have "py_strip ?s = ?s" by (rule trimmed[OF ne]) (use all hd_in_set[OF ne] last_in_set[OF ne] in blast)+
  moreover have "rstrip_slash ((scheme @ py_join ''/'' ps) @ slash) = scheme @ py_join ''/'' ps"
    by (rule unslashed) (use e assms(4) in auto)
  ultimately show "rpartition_tail ''://'' (rstrip_slash (py_strip ?s)) = py_join ''/'' ps"
    using scheme_dropped[OF _ assms(3)] c by auto
  have "list_all (\<lambda>p. CHR ''/'' \<notin> set p) ps" using assms(1) by (auto simp: url_word_def list_all_iff)
  then have "split_on CHR ''/'' (py_join ''/'' ps) = ps" by (rule split_on_join[OF _ assms(2)])
  moreover have "filter (\<lambda>s. s \<noteq> []) ps = ps" using assms(1) by (auto simp: url_word_def filter_id_conv)
  ultimately show "filter (\<lambda>s. s \<noteq> []) (split_on CHR ''/'' (py_join ''/'' ps)) = ps" by simp
qed

lemma url_segments_words:
  assumes "\<forall>p \<in> set ps. url_word p" "url_word repo" "\<not> ends_with ''.git'' repo" "dot_git = [] \<or> dot_git = ''.git''"
    "scheme = [] \<or> scheme = ''https://''" "slash = [] \<or> slash = ''/''"
  shows "url_segments (scheme @ py_join ''/'' (ps @ [repo @ dot_git]) @ slash) = ps @ [repo]"
proof -
  have "url_word (repo @ dot_git)"
    using assms(4) assms(2) url_word_append[OF assms(2) url_punctuation(3)] by (elim disjE) (simp_all only: append_Nil2)
  then have w: "\<forall>p \<in> set (ps @ [repo @ dot_git]). url_word p" using assms(1) by auto
  have "remove_suffix ''.git'' (repo @ dot_git) = repo"
    using assms(3,4) by (auto simp: remove_suffix_def ends_with_def)
  then show ?thesis using url_words[OF w _ assms(5,6)] by (simp add: url_segments_def Let_def butlast_append)
qed

lemma repo_config_github:
  "contains ''github.com'' url \<Longrightarrow> url_segments url = [h, org, repo] \<Longrightarrow> repo_config_of url
    = Inr \<lparr> rc_name = repo, rc_provider = ''github'', rc_org = org, rc_repo = repo, rc_project = None, rc_path = ''.'' \<rparr>"
  by (simp add: repo_config_of_def Let_def del: contains.simps)

lemma repo_config_azure:
  "\<not> contains ''github.com'' url \<Longrightarrow> url_segments url = [h, org, project, ''_git'', repo] \<Longrightarrow> repo_config_of url
    = Inr \<lparr> rc_name = repo, rc_provider = ''azure_repos'', rc_org = org, rc_repo = repo, rc_project = Some project, rc_path = ''.'' \<rparr>"
  by (simp add: repo_config_of_def Let_def del: contains.simps)

text \<open>
  However a GitHub repository is pasted, with or without its scheme, a final slash and the
  \<open>.git\<close> of a clone URL, it names the same repository; and the same holds of Azure Repos.
\<close>

theorem pasted_url_names_the_repository:
  assumes "url_word org" "url_word project" "url_word repo" "\<not> ends_with ''.git'' repo"
    "dot_git = [] \<or> dot_git = ''.git''" "scheme = [] \<or> scheme = ''https://''" "slash = [] \<or> slash = ''/''"
  shows "repo_config_of (scheme @ py_join ''/'' [''github.com'', org, repo @ dot_git] @ slash)
      = Inr \<lparr> rc_name = repo, rc_provider = ''github'', rc_org = org, rc_repo = repo, rc_project = None, rc_path = ''.'' \<rparr>"
    "contains ''github.com'' (scheme @ py_join ''/'' [''dev.azure.com'', org, project, ''_git'', repo @ dot_git] @ slash) \<or>
     repo_config_of (scheme @ py_join ''/'' [''dev.azure.com'', org, project, ''_git'', repo @ dot_git] @ slash)
      = Inr \<lparr> rc_name = repo, rc_provider = ''azure_repos'', rc_org = org, rc_repo = repo, rc_project = Some project, rc_path = ''.'' \<rparr>"
proof -
  have words: "url_word ''github.com''" "url_word ''dev.azure.com''" "url_word ''_git''" by code_simp+
  define github where "github = scheme @ py_join ''/'' ([''github.com'', org] @ [repo @ dot_git]) @ slash"
  define azure where "azure = scheme @ py_join ''/'' ([''dev.azure.com'', org, project, ''_git''] @ [repo @ dot_git]) @ slash"
  have g: "url_segments github = [''github.com'', org] @ [repo]"
    unfolding github_def by (rule url_segments_words[OF _ assms(3-7)]) (use assms(1) words in simp)
  have join: "py_join ''/'' ([h, org] @ [r]) = h @ ''/'' @ org @ ''/'' @ r" for h r by simp
  have "contains ''github.com'' github"
    unfolding contains_iff github_def join append_assoc by blast
  from repo_config_github[OF this g[unfolded append_Cons append_Nil]]
  show "repo_config_of (scheme @ py_join ''/'' [''github.com'', org, repo @ dot_git] @ slash)
      = Inr \<lparr> rc_name = repo, rc_provider = ''github'', rc_org = org, rc_repo = repo, rc_project = None, rc_path = ''.'' \<rparr>"
    unfolding github_def append_Cons append_Nil .
  have a: "url_segments azure = [''dev.azure.com'', org, project, ''_git''] @ [repo]"
    unfolding azure_def by (rule url_segments_words[OF _ assms(3-7)]) (use assms(1,2) words in simp)
  from repo_config_azure[OF _ a[unfolded append_Cons append_Nil]]
  show "contains ''github.com'' (scheme @ py_join ''/'' [''dev.azure.com'', org, project, ''_git'', repo @ dot_git] @ slash) \<or>
     repo_config_of (scheme @ py_join ''/'' [''dev.azure.com'', org, project, ''_git'', repo @ dot_git] @ slash)
      = Inr \<lparr> rc_name = repo, rc_provider = ''azure_repos'', rc_org = org, rc_repo = repo, rc_project = Some project, rc_path = ''.'' \<rparr>"
    unfolding azure_def append_Cons append_Nil by blast
qed

text \<open>
  What the two assumptions on the way leave open: the host is looked for anywhere in the text, and a
  GitHub address is read from its end.
\<close>

lemma azure_mirror_is_taken_for_github:
  "repo_config_of ''https://dev.azure.com/acme/web/_git/github.com-mirror'' = Inr \<lparr> rc_name = ''github.com-mirror'',
     rc_provider = ''github'', rc_org = ''_git'', rc_repo = ''github.com-mirror'', rc_project = None, rc_path = ''.'' \<rparr>"
  by code_simp

lemma page_of_a_repository_names_another:
  "repo_config_of ''https://github.com/acme/shop/tree/main'' = Inr \<lparr> rc_name = ''main'', rc_provider = ''github'',
     rc_org = ''tree'', rc_repo = ''main'', rc_project = None, rc_path = ''.'' \<rparr>"
  by code_simp

lemma pasted_url_names_the_repository_witness:
  "repo_config_of ''https://github.com/acme/shop.git/'' = Inr \<lparr> rc_name = ''shop'', rc_provider = ''github'',
     rc_org = ''acme'', rc_repo = ''shop'', rc_project = None, rc_path = ''.'' \<rparr>"
proof -
  have "url_word ''acme''" "url_word ''shop''" "\<not> ends_with ''.git'' ''shop''" by code_simp+
  from pasted_url_names_the_repository(1)[OF this(1,1,2,3), of "''.git''" "''https://''" "''/''"] show ?thesis by simp
qed

section \<open>A check, seen on an example\<close>

definition mail_app :: registry where
  "mail_app = \<lparr> rg_apps = [(''a1'', \<lparr> ar_name = ''Shop'', ar_repo_url = ''https://github.com/acme'', ar_integration_model = ''gated_merge'' \<rparr>)],
     rg_configs = [], rg_changes = [], rg_triggers = [], rg_credentials = [] \<rparr>"

definition no_platform :: "unit platform" where
  "no_platform q s = (HttpFault ''ConnectError'', s)"

definition no_broker :: adapter_env where
  "no_broker = \<lparr> ae_current = None, ae_broker = (\<lambda>q. Inl (AdapterError ''none stored'')) \<rparr>"

definition unreachable_check :: "check_report reply res \<times> unit wire" where
  "unreachable_check = check_connections no_platform no_broker (Inl (ConfigError ''no kuwarden.yaml'')) sample_backend mail_app ''a1''
     \<lparr> w_host = (), w_sent = [] \<rparr>"

lemma check_names_what_is_wrong_witness: "\<exists>report. fst unreachable_check = Inr (Reply report)"
proof -
  have "isl (fst unreachable_check) = False" by code_simp
  then show ?thesis
    using check_names_what_is_wrong[of mail_app "''a1''" _ "Inl (ConfigError ''no kuwarden.yaml'')" no_platform no_broker sample_backend
      "\<lparr> w_host = (), w_sent = [] \<rparr>" "fst unreachable_check" "snd unreachable_check"]
    by (auto simp: mail_app_def unreachable_check_def)
qed

end
