(* ===== verification/Run_Api.thy ===== *)
theory Run_Api
  imports Audit_Store Connections
begin

text \<open>
  The run endpoints of engine/api/main.py: the listings, the evidence graph, diagnostics from Temporal's
  history, stored configuration, and stopping a run.  Rows are lists in table order; what Temporal answers
  is a parameter.
\<close>

section \<open>Listings\<close>

record stored_run =
  sr_id :: uuid
  sr_app :: uuid
  sr_system :: string
  sr_ticket :: string
  sr_tier :: "string option"
  sr_status :: string
  sr_policy :: string
  sr_workflow :: string
  sr_parent :: "uuid option"
  sr_created :: int
  sr_ended :: "int option"

definition app_name_of :: "(uuid \<times> string) list \<Rightarrow> uuid \<Rightarrow> string" where
  "app_name_of apps i = (case map_of apps i of Some n \<Rightarrow> n | None \<Rightarrow> ''(deleted)'')"

definition newest_first :: "stored_run list \<Rightarrow> stored_run list" where
  "newest_first = sorted_by (\<lambda>r. - sr_created r)"

definition list_runs :: "(uuid \<times> string) list \<Rightarrow> stored_run list \<Rightarrow> int \<Rightarrow> (stored_run \<times> string) list reply" where
  "list_runs apps runs limit =
    (if limit < 0 then Unhandled (OtherError ''InvalidRowCountInLimitClauseError'' ''LIMIT must not be negative'')
     else Reply (map (\<lambda>r. (r, app_name_of apps (sr_app r))) (take (nat limit) (newest_first runs))))"

record file_change_row =
  fw_run :: uuid
  fw_path :: string
  fw_added :: int
  fw_removed :: int

definition run_by_id :: "stored_run list \<Rightarrow> uuid \<Rightarrow> stored_run option" where
  "run_by_id runs i = find (\<lambda>r. sr_id r = i) runs"

text \<open>The join with the runs, then the order of their creation.\<close>

definition file_runs :: "(uuid \<times> string) list \<Rightarrow> stored_run list \<Rightarrow> file_change_row list \<Rightarrow> string
    \<Rightarrow> (file_change_row \<times> stored_run \<times> string) list" where
  "file_runs apps runs files path =
     sorted_by (\<lambda>(f, r, n). - sr_created r)
       (concat (map (\<lambda>f. case run_by_id runs (fw_run f) of
            None \<Rightarrow> []
          | Some r \<Rightarrow> [(f, r, app_name_of apps (sr_app r))]) (filter (\<lambda>f. fw_path f = path) files)))"

definition list_events :: "audit_db \<Rightarrow> uuid \<Rightarrow> flow_event list" where
  "list_events db run_id = sorted_by ev_seq (run_events db run_id)"

section \<open>The evidence graph\<close>

record push_fact =
  pf_commit :: json
  pf_base :: json
  pf_attempt :: json

datatype graph_node =
    TicketNode string string
  | RunNode string string string "string option" "string option" "push_fact list" int "int option" bool
  | FileNode string string

fun node_key :: "graph_node \<Rightarrow> string" where
  "node_key (TicketNode i l) = i"
| "node_key (RunNode i l status tier revision pushes started ended this) = i"
| "node_key (FileNode i l) = i"

record graph_edge =
  ge_from :: string
  ge_to :: string
  ge_kind :: string
  ge_counts :: "(int \<times> int) option"

definition push_fact_of :: "json \<Rightarrow> push_fact res" where
  "push_fact_of payload =
     and_then (obj_get payload ''commit'' JNull) (\<lambda>c.
     and_then (obj_get payload ''base'' JNull) (\<lambda>b.
     and_then (obj_get payload ''attempt'' JNull) (\<lambda>a.
     Inr \<lparr> pf_commit = c, pf_base = b, pf_attempt = a \<rparr>)))"

text \<open>\<open>by_run\<close>: the pushes of the runs, in order.\<close>

definition pushes_by_run :: "(uuid \<times> json) list \<Rightarrow> (uuid \<times> push_fact) list res" where
  "pushes_by_run rows = res_map (\<lambda>(i, payload). and_then (push_fact_of payload) (\<lambda>f. Inr (i, f))) rows"

definition ticket_key :: "stored_run \<Rightarrow> string" where
  "ticket_key r = ''ticket:'' @ sr_system r @ '':'' @ sr_ticket r"

definition run_key :: "uuid \<Rightarrow> string" where
  "run_key i = ''run:'' @ i"

definition file_key :: "string \<Rightarrow> string" where
  "file_key p = ''file:'' @ p"

definition graph_run_node :: "uuid \<Rightarrow> (uuid \<times> push_fact) list \<Rightarrow> stored_run \<Rightarrow> graph_node" where
  "graph_run_node this by_run r = RunNode (run_key (sr_id r)) (take 8 (sr_id r)) (sr_status r) (sr_tier r)
     (after_last ''-r'' (sr_workflow r)) (map snd (filter (\<lambda>(i, f). i = sr_id r) by_run)) (sr_created r) (sr_ended r) (sr_id r = this)"

definition run_edges :: "stored_run \<Rightarrow> stored_run \<Rightarrow> graph_edge list" where
  "run_edges mine r = \<lparr> ge_from = ticket_key mine, ge_to = run_key (sr_id r), ge_kind = ''asked'', ge_counts = None \<rparr>
     # (case sr_parent r of
          None \<Rightarrow> []
        | Some p \<Rightarrow> [\<lparr> ge_from = run_key p, ge_to = run_key (sr_id r), ge_kind = ''spawned'', ge_counts = None \<rparr>])"

fun first_paths :: "string list \<Rightarrow> file_change_row list \<Rightarrow> string list" where
  "first_paths seen [] = []"
| "first_paths seen (f # fs) =
    (if fw_path f \<in> set seen then first_paths seen fs else fw_path f # first_paths (fw_path f # seen) fs)"

definition file_edge :: "file_change_row \<Rightarrow> graph_edge" where
  "file_edge f = \<lparr> ge_from = run_key (fw_run f), ge_to = file_key (fw_path f), ge_kind = ''changed'',
     ge_counts = Some (fw_added f, fw_removed f) \<rparr>"

text \<open>The runs of the same ticket, oldest first, and the files of these runs by path.\<close>

definition siblings_of :: "stored_run list \<Rightarrow> stored_run \<Rightarrow> stored_run list" where
  "siblings_of runs mine = sorted_by sr_created (filter (\<lambda>r. sr_app r = sr_app mine \<and> sr_ticket r = sr_ticket mine) runs)"

definition of_runs :: "stored_run list \<Rightarrow> uuid \<Rightarrow> bool" where
  "of_runs runs i = (i \<in> set (map sr_id runs))"

definition sort_rows :: "file_change_row list \<Rightarrow> file_change_row list" where
  "sort_rows fs = foldr (\<lambda>f acc. takeWhile (\<lambda>g. code_le (fw_path g) (fw_path f) \<and> fw_path g \<noteq> fw_path f) acc @ [f]
     @ dropWhile (\<lambda>g. code_le (fw_path g) (fw_path f) \<and> fw_path g \<noteq> fw_path f) acc) fs []"

record run_graph_answer =
  rg_nodes :: "graph_node list"
  rg_edges :: "graph_edge list"

definition pushed_rows :: "audit_db \<Rightarrow> stored_run list \<Rightarrow> (uuid \<times> json) list" where
  "pushed_rows db runs = map (\<lambda>e. (ev_run_id e, ev_payload e))
     (sorted_by ev_seq (filter (\<lambda>e. ev_kind e = ''branch_pushed'' \<and> of_runs runs (ev_run_id e)) (db_events db)))"

definition run_graph :: "audit_db \<Rightarrow> stored_run list \<Rightarrow> file_change_row list \<Rightarrow> uuid \<Rightarrow> run_graph_answer reply" where
  "run_graph db runs files run_id =
    (case run_by_id runs run_id of
       None \<Rightarrow> HttpStatus 404 ''no such run''
     | Some mine \<Rightarrow>
         let siblings = siblings_of runs mine;
             changed = sort_rows (filter (\<lambda>f. of_runs siblings (fw_run f)) files)
         in case pushes_by_run (pushed_rows db siblings) of
              Inl e \<Rightarrow> Unhandled e
            | Inr by_run \<Rightarrow> Reply \<lparr>
                rg_nodes = TicketNode (ticket_key mine) (sr_system mine @ '' '' @ sr_ticket mine)
                  # map (graph_run_node run_id by_run) siblings @ map (\<lambda>p. FileNode (file_key p) p) (first_paths [] changed),
                rg_edges = concat (map (run_edges mine) siblings) @ map file_edge changed \<rparr>)"

section \<open>Diagnostics\<close>

datatype history_event =
    Scheduled nat string
  | Failed nat string string string string
  | TimedOut nat string string
  | OtherEvent

record attempt_report =
  at_node :: string
  at_outcome :: string
  at_error :: string
  at_message :: string
  at_trace :: string
  at_time :: string

text \<open>A failure carries the id of the event that scheduled it, its type, message, trace and time.\<close>

definition activity_node :: "string \<Rightarrow> string" where
  "activity_node activity_id = (if CHR ''#'' \<in> set activity_id then takeWhile (\<lambda>c. c \<noteq> CHR ''#'') activity_id else [])"

definition scheduled_node :: "(nat \<times> string) list \<Rightarrow> nat \<Rightarrow> string" where
  "scheduled_node scheduled i = (case map_of scheduled i of Some n \<Rightarrow> n | None \<Rightarrow> [])"

fun attempts_of :: "(nat \<times> string) list \<Rightarrow> (nat \<times> history_event) list \<Rightarrow> attempt_report list" where
  "attempts_of scheduled [] = []"
| "attempts_of scheduled ((i, ev) # evs) =
    (case ev of
       Scheduled n activity_id \<Rightarrow> attempts_of ((i, activity_node activity_id) # scheduled) evs
     | Failed by kind message trace at_when \<Rightarrow>
         \<lparr> at_node = scheduled_node scheduled by, at_outcome = ''failed'', at_error = (if kind = [] then ''error'' else kind),
           at_message = message, at_trace = take 4000 trace, at_time = at_when \<rparr> # attempts_of scheduled evs
     | TimedOut by message at_when \<Rightarrow>
         \<lparr> at_node = scheduled_node scheduled by, at_outcome = ''timed_out'', at_error = ''TimeoutError'',
           at_message = message, at_trace = [], at_time = at_when \<rparr> # attempts_of scheduled evs
     | OtherEvent \<Rightarrow> attempts_of scheduled evs)"

definition unreachable_engine :: "error \<Rightarrow> 'a reply" where
  "unreachable_engine e = HttpStatus 503 (''the Flow Engine is unreachable: '' @ err_msg e)"

definition run_diagnostics :: "unit res \<Rightarrow> (string \<Rightarrow> (nat \<times> history_event) list res) \<Rightarrow> stored_run list \<Rightarrow> uuid
    \<Rightarrow> attempt_report list reply" where
  "run_diagnostics reached history runs run_id =
    (case reached of
       Inl e \<Rightarrow> unreachable_engine e
     | Inr u \<Rightarrow>
         (case run_by_id runs run_id of
            None \<Rightarrow> HttpStatus 404 ''no such run''
          | Some mine \<Rightarrow>
              (case history (sr_workflow mine) of
                 Inl e \<Rightarrow> HttpStatus 404 (''no workflow history for this run: '' @ err_msg e
                   @ ''. Temporal retains history on its own '' @ ''schedule; the audit trail is unaffected.'')
               | Inr events \<Rightarrow> Reply (attempts_of [] events))))"

section \<open>Stored configuration\<close>

record config_answer =
  cn_stored :: bool
  cn_yaml :: "string option"
  cn_updated_at :: "string option"
  cn_updated_by :: "string option"

definition read_config :: "registry \<Rightarrow> uuid \<Rightarrow> config_answer" where
  "read_config reg app_id =
    (case map_of (rg_configs reg) app_id of
       None \<Rightarrow> \<lparr> cn_stored = False, cn_yaml = None, cn_updated_at = None, cn_updated_by = None \<rparr>
     | Some row \<Rightarrow> \<lparr> cn_stored = True, cn_yaml = Some (cr_yaml row), cn_updated_at = Some (cr_stamp row),
         cn_updated_by = Some (cr_updated_by row) \<rparr>)"

section \<open>Stopping a run\<close>

text \<open>\<open>payload->>'branch'\<close>, of the last event that pushed one.\<close>

definition arrow_text :: "json \<Rightarrow> string \<Rightarrow> string option" where
  "arrow_text v key = (case json_get v key of JNull \<Rightarrow> None | JStr s \<Rightarrow> Some s | x \<Rightarrow> Some (json_text x))"

definition pushed_branch :: "audit_db \<Rightarrow> uuid \<Rightarrow> string option" where
  "pushed_branch db run_id =
    (case rev (sorted_by ev_seq (filter (\<lambda>e. ev_kind e = ''branch_pushed'') (run_events db run_id))) of
       [] \<Rightarrow> None
     | e # es \<Rightarrow> arrow_text (ev_payload e) ''branch'')"

definition next_seq :: "audit_db \<Rightarrow> uuid \<Rightarrow> nat" where
  "next_seq db run_id = Suc (foldr max (map ev_seq (run_events db run_id)) 0)"

record stop_reading =
  sp_status :: string
  sp_workflow :: string
  sp_branch :: "string option"
  sp_seq :: nat

definition stop_read :: "uuid \<Rightarrow> audit_db \<Rightarrow> stop_reading reply" where
  "stop_read run_id db =
    (case db_runs db run_id of
       None \<Rightarrow> HttpStatus 404 (''no run '' @ run_id)
     | Some row \<Rightarrow>
         if rw_status row \<noteq> ''running'' \<and> rw_status row \<noteq> ''suspended'' then
           HttpStatus 409 (''this run is '' @ rw_status row @ ''; there is nothing to stop'')
         else Reply \<lparr> sp_status = rw_status row, sp_workflow = rs_workflow_id (rw_started row),
           sp_branch = pushed_branch db run_id, sp_seq = next_seq db run_id \<rparr>)"

definition jstr_or_null :: "string option \<Rightarrow> json" where
  "jstr_or_null x = (case x of None \<Rightarrow> JNull | Some s \<Rightarrow> JStr s)"

definition stop_event :: "uuid \<Rightarrow> string \<Rightarrow> stop_reading \<Rightarrow> flow_event" where
  "stop_event run_id email found = \<lparr> ev_run_id = run_id, ev_seq = sp_seq found, ev_kind = ''run_terminated'', ev_node_id = None,
     ev_payload = JObj [(''principal'', JStr email), (''was'', JStr (sp_status found)),
       (''detail'', JStr ''terminated from the Workbench; compensation did not run''),
       (''branch_left_behind'', jstr_or_null (sp_branch found))],
     ev_control_mode = None \<rparr>"

definition close_run :: "uuid \<Rightarrow> audit_db \<Rightarrow> audit_db" where
  "close_run run_id db =
    (case db_runs db run_id of
       None \<Rightarrow> db
     | Some row \<Rightarrow>
         if rw_status row = ''running'' \<or> rw_status row = ''suspended'' then
           db\<lparr> db_runs := (db_runs db)(run_id \<mapsto> row\<lparr> rw_status := ''terminated'', rw_ended := True \<rparr>) \<rparr>
         else db)"

definition stop_write :: "uuid \<Rightarrow> string \<Rightarrow> stop_reading \<Rightarrow> audit_db \<Rightarrow> audit_db" where
  "stop_write run_id email found db = close_run run_id (record_event (stop_event run_id email found) db)"

record stop_answer =
  sa_principal :: string
  sa_branch :: "string option"

text \<open>
  \<open>terminated\<close> is Temporal's answer for a workflow, \<open>meanwhile\<close> what the worker wrote between the reading
  and the writing.
\<close>

definition terminate_run :: "(string \<Rightarrow> unit res) \<Rightarrow> string \<Rightarrow> uuid \<Rightarrow> (audit_db \<Rightarrow> audit_db) \<Rightarrow> audit_db
    \<Rightarrow> stop_answer reply \<times> audit_db" where
  "terminate_run terminated email run_id meanwhile db =
    (case stop_read run_id db of
       HttpStatus n m \<Rightarrow> (HttpStatus n m, db)
     | Unhandled e \<Rightarrow> (Unhandled e, db)
     | Reply found \<Rightarrow>
         (case terminated (sp_workflow found) of
            Inl e \<Rightarrow> (unreachable_engine e, meanwhile db)
          | Inr u \<Rightarrow> (Reply \<lparr> sa_principal = email, sa_branch = sp_branch found \<rparr>,
              stop_write run_id email found (meanwhile db))))"

section \<open>What a listing shows\<close>

lemma mset_insert_by: "mset (insert_by f x xs) = add_mset x (mset xs)"
  by (induction xs) auto

lemma mset_sorted_by: "mset (sorted_by f xs) = mset xs"
  by (induction xs) (simp_all add: mset_insert_by)

lemma sorted_insert_by: "sorted (map f xs) \<Longrightarrow> sorted (map f (insert_by f x xs))"
  by (induction xs) auto

lemma sorted_sorted_by: "sorted (map f (sorted_by f xs))"
  by (induction xs) (simp_all add: sorted_insert_by)

lemma distinct_sorted_by: "distinct (map g (sorted_by f xs)) \<longleftrightarrow> distinct (map g xs)"
proof -
  have "mset (map g (sorted_by f xs)) = mset (map g xs)" by (simp add: mset_sorted_by)
  then show ?thesis by (metis mset_eq_imp_distinct_iff)
qed

text \<open>
  The list of runs is the newest of them: it shows only runs of the table, as many as were asked
  for or all there are, newest first, and none that is older than one it leaves out.
\<close>

theorem listing_is_the_newest_runs:
  assumes "list_runs apps runs limit = Reply shown"
  shows "sorted (map (\<lambda>(r, n). - sr_created r) shown) \<and> mset (map fst shown) \<subseteq># mset runs \<and>
    length shown = min (nat limit) (length runs) \<and>
    (\<forall>r. r \<in># mset runs - mset (map fst shown) \<longrightarrow> (\<forall>(q, n) \<in> set shown. sr_created r \<le> sr_created q))"
proof -
  let ?all = "newest_first runs" and ?k = "\<lambda>r. - sr_created r"
  have shown: "shown = map (\<lambda>r. (r, app_name_of apps (sr_app r))) (take (nat limit) ?all)"
    using assms by (simp add: list_runs_def split: if_splits)
  have fst: "map fst shown = take (nat limit) ?all" unfolding shown by (simp add: o_def)
  have s: "sorted (map ?k ?all)" unfolding newest_first_def by (rule sorted_sorted_by)
  have m: "mset runs = mset ?all" by (simp add: newest_first_def mset_sorted_by)
  have parts: "mset ?all = mset (take (nat limit) ?all) + mset (drop (nat limit) ?all)"
    by (metis append_take_drop_id mset_append)
  have order: "sr_created r \<le> sr_created q" if "r \<in> set (drop (nat limit) ?all)" "q \<in> set (take (nat limit) ?all)" for r q
  proof -
    have "sorted (map ?k (take (nat limit) ?all) @ map ?k (drop (nat limit) ?all))"
      using s by (metis append_take_drop_id map_append)
    then show ?thesis using that by (fastforce simp: sorted_append)
  qed
  have "sorted (map (\<lambda>(r, n). - sr_created r) shown)"
    unfolding shown using sorted_wrt_take[OF s, of "nat limit"] by (simp add: o_def take_map)
  moreover have "mset (map fst shown) \<subseteq># mset runs" unfolding fst m parts by simp
  moreover have "length shown = min (nat limit) (length runs)" unfolding shown by (simp add: newest_first_def min.commute)
  moreover have "\<forall>r. r \<in># mset runs - mset (map fst shown) \<longrightarrow> (\<forall>(q, n) \<in> set shown. sr_created r \<le> sr_created q)"
    unfolding fst m parts using order by (auto simp: shown)
  ultimately show ?thesis by blast
qed

section \<open>The graph is closed\<close>

lemma run_by_id_Some: "run_by_id runs i = Some r \<Longrightarrow> r \<in> set runs \<and> sr_id r = i"
  unfolding run_by_id_def by (auto simp: find_Some_iff)

lemma set_first_paths: "set (first_paths seen fs) = fw_path ` set fs - set seen"
  by (induction seen fs rule: first_paths.induct) auto

lemma distinct_first_paths: "distinct (first_paths seen fs)"
  by (induction seen fs rule: first_paths.induct) (auto simp: set_first_paths)

lemma set_sort_rows [simp]: "set (sort_rows fs) = set fs"
proof (induction fs)
  case (Cons f fs)
  have "set (takeWhile P xs) \<union> set (dropWhile P xs) = set xs" for P and xs :: "file_change_row list"
    by (metis set_append takeWhile_dropWhile_id)
  with Cons show ?case by (auto simp: sort_rows_def)
qed (simp add: sort_rows_def)

lemma node_key_nodes:
  "node_key (graph_run_node this by_run r) = run_key (sr_id r)" by (simp add: graph_run_node_def)

lemma keys_apart: "ticket_key r \<noteq> run_key i" "ticket_key r \<noteq> file_key p" "run_key i \<noteq> file_key p"
  "run_key i = run_key j \<longleftrightarrow> i = j" "file_key p = file_key q \<longleftrightarrow> p = q"
  by (simp_all add: run_key_def ticket_key_def file_key_def)

text \<open>
  The evidence graph holds together: no two nodes share an identifier, every edge leads to a
  node of the graph, and every edge starts at one, save that of a run whose parent belongs to
  another ticket.
\<close>

theorem evidence_graph_is_closed:
  assumes "run_graph db runs files run_id = Reply g" "distinct (map sr_id runs)"
  shows "distinct (map node_key (rg_nodes g)) \<and> ge_to ` set (rg_edges g) \<subseteq> node_key ` set (rg_nodes g) \<and>
    ge_from ` {e \<in> set (rg_edges g). ge_kind e \<noteq> ''spawned''} \<subseteq> node_key ` set (rg_nodes g)"
proof -
  obtain mine by_run where mine: "run_by_id runs run_id = Some mine"
      and by_run: "pushes_by_run (pushed_rows db (siblings_of runs mine)) = Inr by_run"
    using assms(1) by (auto simp: run_graph_def Let_def split: option.splits sum.splits)
  define siblings where "siblings = siblings_of runs mine"
  define changed where "changed = sort_rows (filter (\<lambda>f. of_runs siblings (fw_run f)) files)"
  have g: "rg_nodes g = TicketNode (ticket_key mine) (sr_system mine @ '' '' @ sr_ticket mine)
        # map (graph_run_node run_id by_run) siblings @ map (\<lambda>p. FileNode (file_key p) p) (first_paths [] changed)"
      "rg_edges g = concat (map (run_edges mine) siblings) @ map file_edge changed"
    using assms(1) mine by_run by (auto simp: run_graph_def Let_def siblings_def changed_def)
  have keys: "map node_key (rg_nodes g) = ticket_key mine # map (\<lambda>r. run_key (sr_id r)) siblings @ map file_key (first_paths [] changed)"
    by (simp add: g(1) node_key_nodes o_def)
  have ds: "distinct (map sr_id siblings)"
    using assms(2) by (simp add: siblings_def siblings_of_def distinct_sorted_by distinct_map_filter)
  have "distinct (map (\<lambda>r. run_key (sr_id r)) siblings)"
    using ds by (simp add: distinct_map inj_on_def keys_apart(4))
  moreover have "distinct (map file_key (first_paths [] changed))"
    by (simp add: distinct_map inj_on_def keys_apart(5) distinct_first_paths)
  ultimately have "distinct (map node_key (rg_nodes g))" unfolding keys by (auto simp: keys_apart)
  moreover have nodes: "node_key ` set (rg_nodes g) = insert (ticket_key mine)
      ((\<lambda>r. run_key (sr_id r)) ` set siblings \<union> file_key ` fw_path ` set changed)"
  proof -
    have "node_key ` set (rg_nodes g) = set (map node_key (rg_nodes g))" by simp
    then show ?thesis unfolding keys by (auto simp: set_first_paths)
  qed
  moreover have "run_key (fw_run f) \<in> (\<lambda>r. run_key (sr_id r)) ` set siblings" if "f \<in> set changed" for f
    using that by (auto simp: changed_def of_runs_def)
  ultimately show ?thesis unfolding nodes g(2)
    by (auto simp: run_edges_def file_edge_def split: option.splits)
qed

section \<open>Stopping and the trail\<close>

lemma foldr_max_le: "n \<in> set ns \<Longrightarrow> n \<le> foldr max ns (0::nat)"
  by (induction ns) auto

lemma next_seq_fresh: "\<not> has_event db run_id (next_seq db run_id)"
proof -
  have "ev_seq e < next_seq db run_id" if "e \<in> set (run_events db run_id)" for e
    using foldr_max_le[of "ev_seq e" "map ev_seq (run_events db run_id)"] that by (simp add: next_seq_def less_Suc_eq_le)
  then show ?thesis by (force simp: has_event_def list_ex_iff run_events_def)
qed

lemma recorded_twice: "has_event db (ev_run_id v) (ev_seq v) \<Longrightarrow> record_event v db = db"
  by (simp add: record_event_def)

lemma run_events_close: "run_events (close_run run_id db) i = run_events db i"
  by (auto simp: close_run_def run_events_def split: option.splits)

text \<open>
  Stopping a run is all or nothing when nobody else writes: either nothing changes and the answer
  says why, or the run is closed as terminated and its trail gains exactly one event, numbered after
  all others, that names who stopped it and the branch left behind.
\<close>

theorem stopped_run_is_on_record:
  assumes "terminate_run terminated email run_id (\<lambda>d. d) db = (answer, db')"
  shows "(case answer of
      Reply a \<Rightarrow> \<exists>row e. db_runs db run_id = Some row \<and> sa_principal a = email \<and> sa_branch a = pushed_branch db run_id \<and>
        run_events db' run_id = run_events db run_id @ [e] \<and> ev_kind e = ''run_terminated'' \<and> ev_seq e = next_seq db run_id \<and>
        json_get (ev_payload e) ''principal'' = JStr email \<and>
        json_get (ev_payload e) ''branch_left_behind'' = jstr_or_null (sa_branch a) \<and>
        db_runs db' = (db_runs db)(run_id \<mapsto> row\<lparr> rw_status := ''terminated'', rw_ended := True \<rparr>)
    | _ \<Rightarrow> db' = db)"
proof (cases "stop_read run_id db")
  case (Reply found)
  then obtain row where row: "db_runs db run_id = Some row" "rw_status row = ''running'' \<or> rw_status row = ''suspended''"
      "sp_branch found = pushed_branch db run_id" "sp_seq found = next_seq db run_id"
    by (auto simp: stop_read_def split: option.splits if_splits)
  show ?thesis
  proof (cases "terminated (sp_workflow found)")
    case (Inl e)
    then show ?thesis using assms Reply by (auto simp: terminate_run_def unreachable_engine_def)
  next
    case (Inr u)
    let ?e = "stop_event run_id email found"
    have fresh: "record_event ?e db = db\<lparr> db_events := db_events db @ [?e] \<rparr>"
      using next_seq_fresh[of db run_id] by (simp add: record_event_def stop_event_def row(4))
    have "db' = close_run run_id (db\<lparr> db_events := db_events db @ [?e] \<rparr>)"
      "answer = Registry.Reply \<lparr> sa_principal = email, sa_branch = sp_branch found \<rparr>"
      using assms Reply Inr fresh by (auto simp: terminate_run_def stop_write_def)
    then show ?thesis using row
      by (auto simp: run_events_close run_events_def stop_event_def json_get_def)
        (auto simp: close_run_def)
  qed
qed (use assms in \<open>auto simp: terminate_run_def\<close>)

text \<open>
  C40. The event that says who stopped a run can be lost.  The number is read before the workflow is
  terminated, and the insert gives way to a row that has it: when an activity still in flight records
  its event in between, the answer is a success, the run is closed as terminated, and no event says so.
\<close>

theorem stopping_can_leave_no_trace:
  assumes "db_runs db run_id = Some row" "rw_status row = ''running'' \<or> rw_status row = ''suspended''"
    "\<And>wf. terminated wf = Inr ()" "ev_run_id e = run_id" "ev_seq e = next_seq db run_id"
    "\<forall>x \<in> set (e # run_events db run_id). ev_kind x \<noteq> ''run_terminated''"
  shows "\<exists>a db'. terminate_run terminated email run_id (record_event e) db = (Reply a, db') \<and>
    (\<forall>x \<in> set (run_events db' run_id). ev_kind x \<noteq> ''run_terminated'') \<and>
    (\<exists>row'. db_runs db' run_id = Some row' \<and> rw_status row' = ''terminated'' \<and> rw_ended row')"
proof -
  define found where "found = \<lparr> sp_status = rw_status row, sp_workflow = rs_workflow_id (rw_started row),
     sp_branch = pushed_branch db run_id, sp_seq = next_seq db run_id \<rparr>"
  have r: "stop_read run_id db = Reply found" using assms(1,2) by (auto simp: stop_read_def found_def)
  have put: "record_event e db = db\<lparr> db_events := db_events db @ [e] \<rparr>"
    using next_seq_fresh[of db run_id] by (simp add: record_event_def assms(4,5))
  have "has_event (record_event e db) run_id (sp_seq found)"
    unfolding put by (simp add: has_event_def assms(4,5) found_def)
  then have lost: "record_event (stop_event run_id email found) (record_event e db) = record_event e db"
    using recorded_twice[of "record_event e db" "stop_event run_id email found"] by (simp add: stop_event_def)
  have ev: "run_events (record_event e db) run_id = run_events db run_id @ [e]" unfolding put by (simp add: run_events_def assms(4))
  have "terminate_run terminated email run_id (record_event e) db
      = (Reply \<lparr> sa_principal = email, sa_branch = sp_branch found \<rparr>, close_run run_id (record_event e db))"
    by (simp add: terminate_run_def r assms(3) stop_write_def lost)
  moreover have "db_runs (close_run run_id (record_event e db)) run_id = Some (row\<lparr> rw_status := ''terminated'', rw_ended := True \<rparr>)"
    unfolding put using assms(1,2) by (auto simp: close_run_def)
  ultimately show ?thesis using assms(6) by (simp add: run_events_close ev)
qed

section \<open>Stored configuration reads back\<close>

text \<open>
  A configuration that was stored is the one that is read: the text verbatim, with who stored it
  and when; one that was refused leaves what was there, and no other application is touched.
\<close>

theorem stored_config_reads_back:
  "read_config (snd (store_config e stamp app_id yaml_text email reg)) i =
    (case fst (store_config e stamp app_id yaml_text email reg) of
       Reply name \<Rightarrow> if i = app_id then \<lparr> cn_stored = True, cn_yaml = Some yaml_text, cn_updated_at = Some stamp, cn_updated_by = Some email \<rparr>
         else read_config reg i
     | _ \<Rightarrow> read_config reg i)"
proof -
  have other: "map_of (filter (\<lambda>(k, r). k \<noteq> app_id) xs) j = (if j = app_id then None else map_of xs j)" for xs :: "(uuid \<times> config_row) list" and j
    by (induction xs) auto
  have put: "read_config (put_config app_id row reg) j = (if j = app_id then \<lparr> cn_stored = True, cn_yaml = Some (cr_yaml row),
      cn_updated_at = Some (cr_stamp row), cn_updated_by = Some (cr_updated_by row) \<rparr> else read_config reg j)" for row j
    by (auto simp: read_config_def put_config_def map_add_def other split: option.splits)
  show ?thesis
    unfolding store_config_def by (simp add: put split: sum.split option.split error.split)
qed

section \<open>Diagnostics name the node\<close>

text \<open>The attempts are the failures of the history, in order, each under the node its activity was named for.\<close>

definition is_failure :: "history_event \<Rightarrow> bool" where
  "is_failure ev = (case ev of Failed by kind message trace t \<Rightarrow> True | TimedOut by message t \<Rightarrow> True | _ \<Rightarrow> False)"

lemma attempts_are_the_failures:
  "length (attempts_of scheduled evs) = length (filter (\<lambda>(i, ev). is_failure ev) evs)"
  by (induction scheduled evs rule: attempts_of.induct) (auto simp: is_failure_def split: history_event.splits)

lemma failure_names_its_node:
  assumes "\<forall>(j, ev) \<in> set between. \<not> is_failure ev \<and> j \<noteq> i"
  shows "\<exists>a. attempts_of scheduled ((i, Scheduled n activity_id) # between @ [(k, Failed i kind message trace t)]) = [a] \<and>
    at_node a = activity_node activity_id"
proof -
  have "attempts_of sch (between @ [(k, Failed i kind message trace t)])
      = [\<lparr> at_node = scheduled_node sch i, at_outcome = ''failed'', at_error = (if kind = [] then ''error'' else kind),
           at_message = message, at_trace = take 4000 trace, at_time = t \<rparr>]"
    if "map_of sch i = Some node" for sch node
    using assms that
  proof (induction between arbitrary: sch)
    case (Cons x between)
    obtain j ev where x: "x = (j, ev)" "\<not> is_failure ev" "j \<noteq> i" using Cons.prems(1) by (cases x) auto
    show ?case
    proof (cases ev)
      case (Scheduled m a)
      have "map_of ((j, activity_node a) # sch) i = Some node" using Cons.prems(2) x(3) by simp
      from Cons.IH[OF _ this] show ?thesis using Cons.prems x Scheduled by (simp add: scheduled_node_def)
    qed (use Cons x in \<open>auto simp: is_failure_def\<close>)
  qed simp
  from this[of "(i, activity_node activity_id) # scheduled" "activity_node activity_id"] show ?thesis
    by (simp add: scheduled_node_def)
qed

section \<open>Seen on an example\<close>

definition one_run :: stored_run where
  "one_run = \<lparr> sr_id = ''11111111-a'', sr_app = ''a1'', sr_system = ''jira'', sr_ticket = ''KW-1'', sr_tier = Some ''low'',
     sr_status = ''running'', sr_policy = ''p'', sr_workflow = ''kuwarden-a1-7-r3'', sr_parent = None, sr_created = 10, sr_ended = None \<rparr>"

definition two_runs :: "stored_run list" where
  "two_runs = [one_run, one_run\<lparr> sr_id := ''22222222-b'', sr_created := 20, sr_parent := Some ''11111111-a'' \<rparr>]"

definition two_changes :: "file_change_row list" where
  "two_changes = [\<lparr> fw_run = ''11111111-a'', fw_path = ''b.py'', fw_added = 1, fw_removed = 0 \<rparr>,
     \<lparr> fw_run = ''22222222-b'', fw_path = ''b.py'', fw_added = 2, fw_removed = 1 \<rparr>]"

definition two_graph :: run_graph_answer where
  "two_graph = (case run_graph \<lparr> db_events = [], db_runs = (\<lambda>i. None), db_files = (\<lambda>i. None) \<rparr> two_runs two_changes ''11111111-a'' of
     Reply g \<Rightarrow> g | _ \<Rightarrow> \<lparr> rg_nodes = [], rg_edges = [] \<rparr>)"

lemma two_graph_shape:
  "run_graph \<lparr> db_events = [], db_runs = (\<lambda>i. None), db_files = (\<lambda>i. None) \<rparr> two_runs two_changes ''11111111-a'' = Reply two_graph"
  "length (rg_nodes two_graph) = 4" "length (rg_edges two_graph) = 5"
  "map fst (case list_runs [] two_runs 1 of Reply rs \<Rightarrow> rs) = [two_runs ! 1]"
  "distinct (map sr_id two_runs)"
  by code_simp+

lemma evidence_graph_is_closed_witness:
  "distinct (map node_key (rg_nodes two_graph)) \<and> ge_to ` set (rg_edges two_graph) \<subseteq> node_key ` set (rg_nodes two_graph)"
  using evidence_graph_is_closed[OF two_graph_shape(1,5)] by blast

lemma listing_is_the_newest_runs_witness:
  "sr_created one_run \<le> sr_created (two_runs ! 1)"
proof -
  obtain rs where rs: "list_runs [] two_runs 1 = Reply rs" by (simp add: list_runs_def)
  have f: "map fst rs = [two_runs ! 1]" using two_graph_shape(4) unfolding rs by simp
  then obtain n where n: "rs = [(two_runs ! 1, n)]" by (cases rs) auto
  have "one_run \<in># mset two_runs - mset (map fst rs)" unfolding f by (simp add: two_runs_def)
  then show ?thesis using listing_is_the_newest_runs[OF rs] unfolding n by auto
qed

definition stopping_db :: audit_db where
  "stopping_db = empty_db\<lparr> db_runs := [''r'' \<mapsto> sample_row], db_events := [sample_event 1, sample_event 2] \<rparr>"

definition stopped :: "stop_answer reply \<times> audit_db" where
  "stopped = terminate_run (\<lambda>wf. Inr ()) ''ann@x'' ''r'' (\<lambda>d. d) stopping_db"

lemma stopping_facts:
  "rw_status sample_row = ''running''" "map ev_kind (run_events stopping_db ''r'') = [''k'', ''k'']"
  "next_seq stopping_db ''r'' = 3" "fst stopped = Reply \<lparr> sa_principal = ''ann@x'', sa_branch = None \<rparr>"
  by code_simp+

lemma stopped_run_is_on_record_witness:
  "\<exists>e. run_events (snd stopped) ''r'' = run_events stopping_db ''r'' @ [e] \<and> ev_seq e = 3"
proof -
  have "terminate_run (\<lambda>wf. Inr ()) ''ann@x'' ''r'' (\<lambda>d. d) stopping_db = (Reply \<lparr> sa_principal = ''ann@x'', sa_branch = None \<rparr>, snd stopped)"
    unfolding stopping_facts(4)[symmetric] by (simp add: stopped_def)
  from stopped_run_is_on_record[OF this] show ?thesis unfolding stopping_facts(3) reply.case by blast
qed

lemma stopping_can_leave_no_trace_witness:
  "\<exists>a db'. terminate_run (\<lambda>wf. Inr ()) ''ann@x'' ''r'' (record_event (sample_event 3)) stopping_db = (Reply a, db')"
proof -
  have "ev_kind x \<noteq> ''run_terminated''" if "x \<in> set (sample_event 3 # run_events stopping_db ''r'')" for x
  proof -
    have "ev_kind x \<in> set (''k'' # map ev_kind (run_events stopping_db ''r''))" using that by (auto simp: sample_event_def)
    then show ?thesis unfolding stopping_facts(2) by auto
  qed
  moreover have "db_runs stopping_db ''r'' = Some sample_row" by (simp add: stopping_db_def)
  ultimately show ?thesis
    using stopping_can_leave_no_trace[of stopping_db "''r''" sample_row "\<lambda>wf. Inr ()" "sample_event 3" "''ann@x''"] stopping_facts(1,3)
    by (auto simp: sample_event_def)
qed

end
