(* ===== verification/Eval_Harness.thy ===== *)
theory Eval_Harness
  imports Engine Config
begin

text \<open>
  evals/harness.py: the golden task set.  A case is a constructed input and the verdict a human decided
  is correct; the harness hands it to the verifier nodes of the engine, as they ship, and counts the
  cases that did not get their verdict.  The set of cases is a directory of files and their texts,
  PyYAML is \<open>ye_load\<close>, the configuration and the model are those of the registered application.
\<close>

section \<open>Cases\<close>

definition CATEGORIES :: "string list" where
  "CATEGORIES = [''reject'', ''injection'', ''accept'']"

text \<open>\<open>REQUIRED_FIELDS\<close>, a set that is only subtracted from and sorted, in sorted order.\<close>

definition REQUIRED_FIELDS :: "string list" where
  "REQUIRED_FIELDS = [''category'', ''edits'', ''expect'', ''id'', ''rationale'', ''ticket'', ''verifiers'']"

record eval_case =
  ec_id :: string
  ec_category :: string
  ec_rationale :: string
  ec_verifiers :: "string list"
  ec_expect :: string
  ec_ticket :: ticket
  ec_edits :: "proposed_edit list"
  ec_base_commit :: string

text \<open>\<open>Case.state\<close>; the two fresh identifiers are arguments.\<close>

definition case_state :: "uuid \<times> uuid \<Rightarrow> eval_case \<Rightarrow> flow_state" where
  "case_state ids c =
    (new_flow_state (fst ids) (snd ids) (ec_ticket c) ''eval:not-a-run'' (JObj []))
      \<lparr> fs_base_commit := Some (ec_base_commit c), fs_proposed_edits := ec_edits c,
        fs_ci_result := Some \<lparr> cr_exit_code = 0, cr_source = SourceCI, cr_url = None, cr_duration_ms = 0 \<rparr> \<rparr>"

section \<open>Results\<close>

record eval_result =
  er_case :: eval_case
  er_verdicts :: "(string \<times> bool) list"
  er_findings :: "(string \<times> string list) list"
  er_error :: "string option"

definition new_result :: "eval_case \<Rightarrow> eval_result" where
  "new_result c = \<lparr> er_case = c, er_verdicts = [], er_findings = [], er_error = None \<rparr>"

definition result_passed :: "eval_result \<Rightarrow> bool" where
  "result_passed r =
    (if er_error r \<noteq> None \<or> er_verdicts r = [] then False
     else if ec_expect (er_case r) = ''rejected'' then list_ex (\<lambda>(v, ok). \<not> ok) (er_verdicts r)
     else list_all (\<lambda>(v, ok). ok) (er_verdicts r))"

section \<open>Loading\<close>

text \<open>\<open>value[key]\<close> with a string for a key.\<close>

definition any_item :: "yaml \<Rightarrow> string \<Rightarrow> yaml res" where
  "any_item v key =
    (case v of
       YMap d \<Rightarrow> (case map_of d key of Some x \<Rightarrow> Inr x | None \<Rightarrow> Inl (OtherError ''KeyError'' (repr_str key)))
     | YList xs \<Rightarrow> Inl (OtherError ''TypeError'' ''list indices must be integers or slices, not str'')
     | YStr s \<Rightarrow> Inl (OtherError ''TypeError'' (''string indices must be integers, not 'str'' @ [CHR 0x27]))
     | _ \<Rightarrow> Inl (OtherError ''TypeError'' (repr_str (yaml_type v) @ '' object is not subscriptable'')))"

definition text_item :: "yaml_env \<Rightarrow> yaml \<Rightarrow> string \<Rightarrow> string res" where
  "text_item e v key = and_then (any_item v key) (\<lambda>x. Inr (yaml_str e x))"

definition case_ticket :: "yaml_env \<Rightarrow> yaml \<Rightarrow> ticket res" where
  "case_ticket e raw =
    and_then (text_item e raw ''id'') (\<lambda>i.
    and_then (text_item e raw ''title'') (\<lambda>title.
    and_then (text_item e raw ''body'') (\<lambda>body.
    and_then (any_get raw ''acceptance_criteria'' (YList [])) (\<lambda>stated.
    and_then (any_iter stated) (\<lambda>criteria.
      Inr \<lparr> tk_id = i, tk_system = ''eval'', tk_title = title, tk_body = body, tk_state = None,
            tk_acceptance_criteria = map (yaml_str e) criteria, tk_labels = [], tk_story_points = None \<rparr>)))))"

definition case_edit :: "yaml_env \<Rightarrow> yaml \<Rightarrow> proposed_edit res" where
  "case_edit e raw =
    and_then (text_item e raw ''path'') (\<lambda>path.
    and_then (text_item e raw ''content'') (\<lambda>content.
      Inr \<lparr> pe_path = path, pe_content = content, pe_deleted = False \<rparr>))"

fun case_edits :: "yaml_env \<Rightarrow> yaml list \<Rightarrow> proposed_edit list res" where
  "case_edits e [] = Inr []"
| "case_edits e (x # xs) = and_then (case_edit e x) (\<lambda>y. and_then (case_edits e xs) (\<lambda>ys. Inr (y # ys)))"

definition load_case :: "yaml_env \<Rightarrow> string \<Rightarrow> yaml \<Rightarrow> eval_case res" where
  "load_case e file raw =
    (case raw of
       YMap d \<Rightarrow>
         let missing = filter (\<lambda>f. map_of d f = None) REQUIRED_FIELDS; get = \<lambda>f. the (map_of d f)
         in if missing \<noteq> [] then Inl (OtherError ''ValueError'' (file @ '': missing '' @ py_join '', '' missing))
            else if get ''category'' \<notin> set (map YStr CATEGORIES) then
              Inl (OtherError ''ValueError'' (file @ '': unknown category '' @ yaml_repr e (get ''category'')))
            else if get ''expect'' \<notin> {YStr ''rejected'', YStr ''accepted''} then
              Inl (OtherError ''ValueError'' (file @ '': expect must be rejected or accepted''))
            else
              and_then (any_iter (get ''verifiers'')) (\<lambda>vs.
              and_then (case_ticket e (get ''ticket'')) (\<lambda>tk.
              and_then (any_iter (get ''edits'')) (\<lambda>es.
              and_then (case_edits e es) (\<lambda>edits.
                Inr \<lparr> ec_id = yaml_str e (get ''id''), ec_category = yaml_str e (get ''category''),
                      ec_rationale = py_strip (yaml_str e (get ''rationale'')), ec_verifiers = map (yaml_str e) vs,
                      ec_expect = yaml_str e (get ''expect''), ec_ticket = tk, ec_edits = edits,
                      ec_base_commit = yaml_str e (dict_get d ''base_commit'' (YStr [])) \<rparr>))))
     | _ \<Rightarrow> Inl (OtherError ''ValueError'' (file @ '': expected a mapping'')))"

definition load_file :: "yaml_env \<Rightarrow> string \<times> string res \<Rightarrow> eval_case res" where
  "load_file e f =
    and_then (snd f) (\<lambda>content.
      case ye_load e content of Inl m \<Rightarrow> Inl (OtherError ''YAMLError'' m) | Inr raw \<Rightarrow> load_case e (fst f) raw)"

fun insert_named :: "string \<times> 'a \<Rightarrow> (string \<times> 'a) list \<Rightarrow> (string \<times> 'a) list" where
  "insert_named x [] = [x]"
| "insert_named x (y # ys) = (if code_le (fst x) (fst y) then x # y # ys else y # insert_named x ys)"

definition sort_named :: "(string \<times> 'a) list \<Rightarrow> (string \<times> 'a) list" where
  "sort_named xs = foldr insert_named xs []"

fun load_files :: "yaml_env \<Rightarrow> (string \<times> string res) list \<Rightarrow> eval_case list res" where
  "load_files e [] = Inr []"
| "load_files e (f # fs) = and_then (load_file e f) (\<lambda>c. and_then (load_files e fs) (\<lambda>cs. Inr (c # cs)))"

text \<open>\<open>directory.glob("*.yaml")\<close>, in the order of the names.\<close>

definition is_case_file :: "string \<Rightarrow> bool" where
  "is_case_file file = starts_with (rev ''.yaml'') (rev file)"

definition load_cases :: "yaml_env \<Rightarrow> (string \<times> string res) list \<Rightarrow> eval_case list res" where
  "load_cases e directory = load_files e (sort_named (filter (\<lambda>f. is_case_file (fst f)) directory))"

section \<open>Running\<close>

text \<open>
  The verdicts of one case, verifier by verifier, each on a state of its own; the first that is unknown
  or raises ends the case.  \<open>None\<close> is a node that never returns.
\<close>

definition put_verification :: "verification \<Rightarrow> eval_result \<Rightarrow> eval_result" where
  "put_verification v r =
    r\<lparr> er_verdicts := dict_put (vf_verifier v) (vf_passed v) (er_verdicts r),
       er_findings := dict_put (vf_verifier v) (vf_findings v) (er_findings r) \<rparr>"

fun run_verifiers :: "(string \<Rightarrow> llm_backend) \<Rightarrow> coder_env \<Rightarrow> node_ctx \<Rightarrow> (nat \<Rightarrow> uuid \<times> uuid) \<Rightarrow> eval_case
    \<Rightarrow> nat \<Rightarrow> string list \<Rightarrow> eval_result \<Rightarrow> eval_result option" where
  "run_verifiers backends ce ctx ids c k [] r = Some r"
| "run_verifiers backends ce ctx ids c k (name # names) r =
    (case NODES backends ce (verifier_node_id name) of
       None \<Rightarrow> Some (r\<lparr> er_error := Some (''unknown verifier '' @ verifier_node_id name) \<rparr>)
     | Some fn \<Rightarrow>
         (case fn ctx (case_state (ids k) c) of
            None \<Rightarrow> None
          | Some (es, Inl e) \<Rightarrow> Some (r\<lparr> er_error := Some (err_type e @ '': '' @ err_msg e) \<rparr>)
          | Some (es, Inr after) \<Rightarrow>
              run_verifiers backends ce ctx ids c (Suc k) names (fold put_verification (fs_verifications after) r)))"

definition run_case :: "(string \<Rightarrow> llm_backend) \<Rightarrow> coder_env \<Rightarrow> node_ctx \<Rightarrow> (nat \<Rightarrow> uuid \<times> uuid) \<Rightarrow> eval_case
    \<Rightarrow> eval_result option" where
  "run_case backends ce ctx ids c = run_verifiers backends ce ctx ids c 0 (ec_verifiers c) (new_result c)"

section \<open>The scoreboard\<close>

definition verdict_words :: "eval_result \<Rightarrow> string" where
  "verdict_words r = py_join '', ''
     (map (\<lambda>(v, ok). v @ ''='' @ (if ok then ''pass'' else ''REJECT'')) (sort_named (er_verdicts r)))"

definition pad_right :: "nat \<Rightarrow> string \<Rightarrow> string" where
  "pad_right n s = s @ replicate (n - length s) (CHR '' '')"

definition result_line :: "eval_result \<Rightarrow> string" where
  "result_line r = ''  '' @ (if result_passed r then ''ok  '' else ''MISS'') @ '' '' @ pad_right 34 (ec_id (er_case r)) @ '' ''
     @ (if truthy (er_error r) then the (er_error r) else verdict_words r)"

definition category_rows :: "string \<Rightarrow> eval_result list \<Rightarrow> eval_result list" where
  "category_rows category results = filter (\<lambda>r. ec_category (er_case r) = category) results"

definition category_lines :: "eval_result list \<Rightarrow> string \<Rightarrow> string list" where
  "category_lines results category =
    (let rows = category_rows category results
     in if rows = [] then []
        else (nl @ category @ '': '' @ string_of_nat (length (filter result_passed rows)) @ ''/'' @ string_of_nat (length rows))
          # map result_line rows)"

definition missed_in :: "eval_result list \<Rightarrow> string \<Rightarrow> nat" where
  "missed_in results category = length (filter (\<lambda>r. \<not> result_passed r) (category_rows category results))"

text \<open>What is printed, and how many cases did not meet expectation.\<close>

definition report_evals :: "eval_result list \<Rightarrow> string list \<times> nat" where
  "report_evals results =
    (let failed = sum_list (map (missed_in results) CATEGORIES)
     in (concat (map (category_lines results) CATEGORIES)
         @ [nl @ string_of_int (int (length results) - int failed) @ ''/'' @ string_of_nat (length results)
              @ '' cases met expectation'',
            ''Record this in EVALUATION.md with today's date and the per-node model.''], failed))"

section \<open>The command\<close>

text \<open>
  \<open>main\<close>, after the arguments are read: the lines printed and the exit code.  \<open>find_app\<close> is the
  lookup of the application's name in the registry.
\<close>

fun run_cases :: "(eval_case \<Rightarrow> eval_result option) \<Rightarrow> eval_case list \<Rightarrow> eval_result list option" where
  "run_cases f [] = Some []"
| "run_cases f (c # cs) = (case f c of None \<Rightarrow> None | Some r \<Rightarrow> map_option ((#) r) (run_cases f cs))"

definition eval_on :: "node_ctx res \<Rightarrow> string \<Rightarrow> string \<Rightarrow> (node_ctx \<Rightarrow> eval_case \<Rightarrow> eval_result option) \<Rightarrow> eval_case list
    \<Rightarrow> (string list \<times> nat) res option" where
  "eval_on made app_name model run_one cases =
    (case made of
       Inl e \<Rightarrow> Some (Inl e)
     | Inr ctx \<Rightarrow>
         map_option (\<lambda>results. let (printed, failed) = report_evals results
             in Inr ((''application '' @ app_name @ ''; verifiers on '' @ model) # printed, failed))
           (run_cases (run_one ctx) cases))"

definition eval_main :: "yaml_env \<Rightarrow> (string \<times> string res) list \<Rightarrow> string option \<Rightarrow> string \<Rightarrow> (string \<Rightarrow> uuid option res)
    \<Rightarrow> lookup \<Rightarrow> node_runtime \<Rightarrow> outside \<Rightarrow> (string \<Rightarrow> llm_backend) \<Rightarrow> coder_env
    \<Rightarrow> (eval_case \<Rightarrow> nat \<Rightarrow> uuid \<times> uuid) \<Rightarrow> (string list \<times> nat) res option" where
  "eval_main e directory category app_name find_app look rt out backends ce ids =
    (case load_cases e directory of
       Inl err \<Rightarrow> Some (Inl err)
     | Inr loaded_cases \<Rightarrow>
         let cases = filter (\<lambda>c. category = None \<or> Some (ec_category c) = category) loaded_cases
         in if cases = [] then Some (Inr ([''no cases matched''], 0))
            else (case find_app app_name of
                    Inl err \<Rightarrow> Some (Inl err)
                  | Inr None \<Rightarrow> Some (Inr ([''no application named '' @ app_name @ '' is registered''], 1))
                  | Inr (Some app) \<Rightarrow>
                      (case fst (look (Some app) None) of
                         Inl err \<Rightarrow> Some (Inl err)
                       | Inr config \<Rightarrow>
                           (case ac_llm (ld_config config) of
                              None \<Rightarrow> Some (Inr ([app_name @ '' declares no llm section; the verifiers cannot run''], 1))
                            | Some llm \<Rightarrow>
                                (case for_node llm ''verifier.security'' of
                                   Inl err \<Rightarrow> Some (Inl err)
                                 | Inr model \<Rightarrow>
                                     eval_on (node_context (configure (Some config) False None rt) out (Some app) (Some config))
                                       app_name (nm_model model) (\<lambda>ctx c. run_case backends ce ctx (ids c) c) cases)))))"

section \<open>What a verifier is shown\<close>

text \<open>
  Two states a verifier cannot tell apart: the same ticket, the same paths with the same contents,
  the same evidence and the same base commit, where none and the empty one are the same.
\<close>

definition same_brief :: "flow_state \<Rightarrow> flow_state \<Rightarrow> bool" where
  "same_brief st st' \<longleftrightarrow> fs_ticket st = fs_ticket st' \<and>
     map (\<lambda>e. (pe_path e, pe_content e)) (fs_proposed_edits st) = map (\<lambda>e. (pe_path e, pe_content e)) (fs_proposed_edits st') \<and>
     evidence_lines st = evidence_lines st' \<and>
     (truthy (fs_base_commit st) \<longleftrightarrow> truthy (fs_base_commit st')) \<and>
     (truthy (fs_base_commit st) \<longrightarrow> fs_base_commit st = fs_base_commit st')"

definition verdict_only :: "(verification \<times> node_notes \<times> flow_state) res \<Rightarrow> verification res" where
  "verdict_only r = map_sum id fst r"

lemma brief_paths: "same_brief st st' \<Longrightarrow> map pe_path (fs_proposed_edits st) = map pe_path (fs_proposed_edits st')"
proof -
  assume "same_brief st st'"
  then have "map fst (map (\<lambda>e. (pe_path e, pe_content e)) (fs_proposed_edits st)) =
      map fst (map (\<lambda>e. (pe_path e, pe_content e)) (fs_proposed_edits st'))" by (simp only: same_brief_def)
  then show ?thesis by (simp add: o_def)
qed

lemma brief_repository: "same_brief st st' \<Longrightarrow> repository_for ctx st = repository_for ctx st'"
proof (cases "truthy (fs_base_commit st)")
  case True
  assume b: "same_brief st st'"
  with True have c: "fs_base_commit st = fs_base_commit st'" by (simp only: same_brief_def simp_thms)
  show ?thesis by (simp only: repository_for_def c brief_paths[OF b])
next
  case False
  assume b: "same_brief st st'"
  with False have c: "\<not> truthy (fs_base_commit st')" unfolding same_brief_def by blast
  show ?thesis by (simp only: repository_for_def c False not_False_eq_True if_True)
qed

lemma brief_prompt: "same_brief st st' \<Longrightarrow> prompt st t x = prompt st' t x"
proof -
  assume b: "same_brief st st'"
  have m: "map (\<lambda>e. file_element (pe_path e, pe_content e)) (fs_proposed_edits s) =
      map file_element (map (\<lambda>e. (pe_path e, pe_content e)) (fs_proposed_edits s))" for s by (simp add: o_def)
  have l: "length (fs_proposed_edits st) = length (fs_proposed_edits st')"
    using b unfolding same_brief_def by (metis length_map)
  show ?thesis using b l unfolding prompt_def m by (simp add: same_brief_def)
qed

lemma recorded:
  "verdict_only (and_then (record_notes vid st rp sy rq (Some c) su ou) (\<lambda>n. Inr (v, n, st1))) = Inr v"
  unfolding record_notes_def option.case verdict_only_def by simp

lemma unrecorded: "and_then (record_notes vid st rp sy rq None su ou) k = Inl unbound_completion"
  unfolding record_notes_def option.case by simp

lemma brief_judge:
  assumes "same_brief st st'"
  shows "verdict_only (judge ctx backend vid x st) = verdict_only (judge ctx backend vid x st')"
proof (cases "ac_llm (nc_config ctx)")
  case None
  then show ?thesis by (simp add: judge_def)
next
  case (Some llm)
  show ?thesis
  proof (cases "and_then (for_node llm (verifier_node_id vid)) (\<lambda>s. llm_adapter llm (verifier_node_id vid))")
    case (Inl e)
    then show ?thesis by (cases "for_node llm (verifier_node_id vid)") (simp_all add: judge_def Some)
  next
    case (Inr model)
    then obtain settings where s: "for_node llm (verifier_node_id vid) = Inr settings"
      "llm_adapter llm (verifier_node_id vid) = Inr model" by (auto simp: and_then_Inr)
    let ?c = "complete backend (Some (verifier_node_id vid, VERIFIER)) model
      (review_request settings (system_prompt vid)
        (prompt st' (case repository_for ctx st' of None \<Rightarrow> [] | Some (t, n) \<Rightarrow> t) x))"
    show ?thesis
    proof (cases ?c)
      case (Inl e)
      then show ?thesis
        by (cases e) (simp_all add: judge_def Some s Let_def brief_prompt[OF assms] brief_repository[OF assms] unrecorded)
    next
      case (Inr c)
      then show ?thesis
        by (simp add: judge_def Some s Let_def brief_prompt[OF assms] brief_repository[OF assms] recorded)
    qed
  qed
qed

definition verdict_of_node :: "flow_state \<Rightarrow> flow_state res \<Rightarrow> verification list res" where
  "verdict_of_node st r = map_sum id (\<lambda>st'. drop (length (fs_verifications st)) (fs_verifications st')) r"

lemma judge_keeps: "judge ctx b vid x st = Inr (v, n, st1) \<Longrightarrow> fs_verifications st1 = fs_verifications st"
  using judge_returns by fastforce

lemma plain_verdict:
  "verdict_of_node st (plain_verifier vid ctx b st) = map_sum id (\<lambda>v. [v]) (verdict_only (judge ctx b vid [] st))"
  by (cases "judge ctx b vid [] st") (auto simp: plain_verifier_def verdict_of_node_def verdict_only_def judge_keeps)

lemma brief_plain:
  "same_brief st st' \<Longrightarrow> verdict_of_node st (plain_verifier vid ctx b st) = verdict_of_node st' (plain_verifier vid ctx b st')"
  by (simp only: plain_verdict brief_judge)

lemma brief_base: "same_brief st st' \<Longrightarrow> base_texts ctx st = base_texts ctx st'"
proof (cases "truthy (fs_base_commit st)")
  case True
  assume b: "same_brief st st'"
  with True have "fs_base_commit st = fs_base_commit st'" unfolding same_brief_def by blast
  then show ?thesis by (simp only: base_texts_def)
next
  case False
  assume b: "same_brief st st'"
  with False have "\<not> truthy (fs_base_commit st')" unfolding same_brief_def by blast
  with False show ?thesis by (simp add: base_texts_def)
qed

definition with_arithmetic :: "string list \<Rightarrow> verification \<Rightarrow> verification" where
  "with_arithmetic fs v = \<lparr> vf_verifier = vf_verifier v, vf_passed = vf_passed v, vf_findings = fs @ vf_findings v, vf_graded = [] \<rparr>"

lemma evidence_verdict:
  "verdict_of_node st (test_evidence_node ctx b st) =
    and_then (base_texts ctx st) (\<lambda>before. let counts = counts_of before st in
      map_sum id (\<lambda>v. [with_arithmetic (te_findings counts) v])
        (verdict_only (judge ctx b ''test_evidence'' (computed_text counts) st)))"
proof (cases "base_texts ctx st")
  case (Inl e)
  then show ?thesis by (simp add: test_evidence_node_def verdict_of_node_def)
next
  case (Inr before)
  show ?thesis
    by (cases "judge ctx b ''test_evidence'' (computed_text (counts_of before st)) st")
      (auto simp: test_evidence_node_def Inr verdict_of_node_def verdict_only_def judge_keeps with_arithmetic_def Let_def)
qed

lemma brief_evidence:
  assumes "same_brief st st'"
  shows "verdict_of_node st (test_evidence_node ctx b st) = verdict_of_node st' (test_evidence_node ctx b st')"
proof -
  have c: "counts_of before st = counts_of before st'" for before
    using assms unfolding counts_of_def same_brief_def by argo
  show ?thesis by (simp only: evidence_verdict brief_base[OF assms] c brief_judge[OF assms])
qed

definition brief_only :: "string \<Rightarrow> (node_ctx \<Rightarrow> flow_state \<Rightarrow> node_result) \<Rightarrow> bool" where
  "brief_only i fn \<longleftrightarrow> (\<forall>ctx st. i \<in> set VERIFIER_NODES \<longrightarrow>
     (\<exists>r. fn ctx st = Some ([], r)) \<and>
     (\<forall>st'. same_brief st st' \<longrightarrow>
       verdict_of_node st (snd (the (fn ctx st))) = verdict_of_node st' (snd (the (fn ctx st')))))"

lemma brief_only_verifiers:
  "brief_only i (\<lambda>ctx st. Some (io_pure (correctness ctx b st)))"
  "brief_only i (\<lambda>ctx st. Some (io_pure (security ctx b st)))"
  "brief_only i (\<lambda>ctx st. Some (io_pure (regression_risk ctx b st)))"
  "brief_only i (\<lambda>ctx st. Some (io_pure (test_evidence_node ctx b st)))"
  by (simp_all add: brief_only_def io_pure_def correctness_def security_def regression_risk_def brief_plain brief_evidence)

lemma brief_only_other: "i \<notin> set VERIFIER_NODES \<Longrightarrow> brief_only i fn"
  by (simp add: brief_only_def)

lemma all_brief_only: "list_all (\<lambda>row. brief_only (fst row) (snd row)) (NODE_TABLE backends ce)"
  by (simp add: NODE_TABLE_def brief_only_verifiers) (simp add: brief_only_other VERIFIER_NODES_def)

lemma verifier_prefix:
  assumes "NODES backends ce (verifier_node_id name) = Some fn"
  shows "verifier_node_id name \<in> set VERIFIER_NODES"
  using map_of_SomeD[OF assms[unfolded NODES_def]] by (auto simp: NODE_TABLE_def VERIFIER_NODES_def verifier_node_id_def)

text \<open>What a named verifier says of a case: why there is no verdict, or the verdict and its findings.\<close>

definition opinion :: "(string \<Rightarrow> llm_backend) \<Rightarrow> coder_env \<Rightarrow> node_ctx \<Rightarrow> eval_case \<Rightarrow> string \<Rightarrow> string + bool \<times> string list" where
  "opinion backends ce ctx c name =
    (case NODES backends ce (verifier_node_id name) of
       None \<Rightarrow> Inl (''unknown verifier '' @ verifier_node_id name)
     | Some fn \<Rightarrow>
         (case snd (the (fn ctx (case_state ([], []) c))) of
            Inl e \<Rightarrow> Inl (err_type e @ '': '' @ err_msg e)
          | Inr after \<Rightarrow> (let v = last (fs_verifications after) in Inr (vf_passed v, vf_findings v))))"

lemma case_brief: "same_brief (case_state i c) (case_state j c)"
  by (simp add: same_brief_def case_state_def new_flow_state_def evidence_lines_def)

lemma case_unverified [simp]: "fs_verifications (case_state i c) = []"
  by (simp add: case_state_def new_flow_state_def)

definition put_opinion :: "string \<Rightarrow> bool \<times> string list \<Rightarrow> eval_result \<Rightarrow> eval_result" where
  "put_opinion name o' r =
    r\<lparr> er_verdicts := dict_put name (fst o') (er_verdicts r), er_findings := dict_put name (snd o') (er_findings r) \<rparr>"

lemma node_on_case:
  assumes "NODES backends ce (verifier_node_id name) = Some fn"
  obtains e where "fn ctx (case_state i c) = Some ([], Inl e)" "opinion backends ce ctx c name = Inl (err_type e @ '': '' @ err_msg e)"
  | after v where "fn ctx (case_state i c) = Some ([], Inr after)" "fs_verifications after = [v]" "vf_verifier v = name"
      "opinion backends ce ctx c name = Inr (vf_passed v, vf_findings v)"
proof -
  let ?i = "verifier_node_id name"
  have i: "?i \<in> set VERIFIER_NODES" by (rule verifier_prefix[OF assms])
  have b: "brief_only ?i fn" and o: "one_verdict ?i fn"
    using NODES_all[OF all_brief_only assms] NODES_all[OF all_one_verdict assms] by simp_all
  obtain r r0 where r: "fn ctx (case_state i c) = Some ([], r)" and r0: "fn ctx (case_state ([], []) c) = Some ([], r0)"
    using b i unfolding brief_only_def by blast
  have same: "verdict_of_node (case_state i c) r = verdict_of_node (case_state ([], []) c) r0"
  proof -
    have "verdict_of_node (case_state i c) (snd (the (fn ctx (case_state i c)))) =
        verdict_of_node (case_state ([], []) c) (snd (the (fn ctx (case_state ([], []) c))))"
      using b i case_brief[of i c "([], [])"] unfolding brief_only_def by blast
    then show ?thesis by (simp only: r r0 option.sel snd_conv)
  qed
  show ?thesis
  proof (cases r)
    case (Inl e)
    with same have "r0 = Inl e" by (cases r0) (simp_all add: verdict_of_node_def)
    then show ?thesis using that(1)[of e] r Inl by (simp add: opinion_def assms r0)
  next
    case (Inr after)
    then obtain v where v: "vf_verifier v = name" "fs_verifications after = [v]"
        using o i r unfolding one_verdict_def verifier_node_id_def by fastforce
    from same Inr obtain after0 where "r0 = Inr after0" "fs_verifications after0 = [v]"
      by (cases r0) (simp_all add: verdict_of_node_def v)
    then show ?thesis using that(2)[of after v] r Inr v by (simp add: opinion_def assms r0)
  qed
qed

lemma verifiers_step:
  "run_verifiers backends ce ctx ids c k (name # names) r =
    (case opinion backends ce ctx c name of
       Inl why_not \<Rightarrow> Some (r\<lparr> er_error := Some why_not \<rparr>)
     | Inr x \<Rightarrow> run_verifiers backends ce ctx ids c (Suc k) names (put_opinion name x r))"
proof (cases "NODES backends ce (verifier_node_id name)")
  case None
  then show ?thesis by (simp add: opinion_def)
next
  case (Some fn)
  show ?thesis
    by (rule node_on_case[OF Some, of ctx "ids k" c]) (simp_all only: run_verifiers.simps Some option.case
        prod.case sum.case fold_simps put_opinion_def put_verification_def fst_conv snd_conv)
qed

lemma set_dict_put: "set (dict_put k v d) \<subseteq> insert (k, v) (set d)" "(k, v) \<in> set (dict_put k v d)"
  by (induction k v d rule: dict_put.induct) auto

lemma run_verifiers_returns:
  assumes "\<And>n p. (n, p) \<in> set (er_verdicts r) \<Longrightarrow> \<exists>f. opinion backends ce ctx c n = Inr (p, f)" "er_error r = None"
  shows "\<exists>r'. run_verifiers backends ce ctx ids c k names r = Some r' \<and> er_case r' = er_case r \<and>
    (er_error r' = None \<longleftrightarrow> list_all (\<lambda>n. \<not> isl (opinion backends ce ctx c n)) names) \<and>
    (er_error r' = None \<longrightarrow> fst ` set (er_verdicts r') = fst ` set (er_verdicts r) \<union> set names \<and>
       (\<forall>n p. (n, p) \<in> set (er_verdicts r') \<longrightarrow> (\<exists>f. opinion backends ce ctx c n = Inr (p, f))))"
  using assms
proof (induction names arbitrary: k r)
  case Nil
  then show ?case by simp
next
  case (Cons name names)
  show ?case
  proof (cases "opinion backends ce ctx c name")
    case (Inl w)
    then show ?thesis by (simp only: verifiers_step) simp
  next
    case (Inr x)
    let ?r = "put_opinion name x r"
    have c: "(n, p) \<in> set (er_verdicts ?r) \<Longrightarrow> \<exists>f. opinion backends ce ctx c n = Inr (p, f)" for n p
      using Cons.prems(1)[of n p] Inr set_dict_put(1)[of name "fst x" "er_verdicts r"]
      by (cases x) (auto simp: put_opinion_def)
    have f: "fst ` set (er_verdicts ?r) = insert name (fst ` set (er_verdicts r))"
      by (simp add: put_opinion_def fst_dict_put)
    have "er_error ?r = None" "er_case ?r = er_case r" using Cons.prems(2) by (simp_all add: put_opinion_def)
    with Cons.IH[of ?r "Suc k"] c f Inr show ?thesis
      by (simp only: verifiers_step sum.case) simp
  qed
qed

lemma verdicts_agree:
  assumes f: "fst ` set vs = set ns" and v: "\<And>n p. (n, p) \<in> set vs \<Longrightarrow> \<exists>fs. op n = Inr (p, fs)"
  shows "list_ex (\<lambda>(n, ok). \<not> ok) vs \<longleftrightarrow> list_ex (\<lambda>n. \<exists>fs. op n = Inr (False, fs)) ns"
    and "list_all (\<lambda>(n, ok). ok) vs \<longleftrightarrow> list_all (\<lambda>n. \<exists>fs. op n = Inr (True, fs)) ns"
proof -
  have d: "(n, p) \<in> set vs \<longleftrightarrow> n \<in> set ns \<and> (\<exists>fs. op n = Inr (p, fs))" for n p
  proof
    assume "(n, p) \<in> set vs"
    with v f show "n \<in> set ns \<and> (\<exists>fs. op n = Inr (p, fs))" by (metis fst_conv image_eqI)
  next
    assume a: "n \<in> set ns \<and> (\<exists>fs. op n = Inr (p, fs))"
    then obtain q where q: "(n, q) \<in> set vs" using f by force
    then have "q = p" using v[OF q] a by auto
    with q show "(n, p) \<in> set vs" by simp
  qed
  have known: "n \<in> set ns \<Longrightarrow> \<exists>p fs. op n = Inr (p, fs)" for n
  proof -
    assume "n \<in> set ns"
    then obtain p where "(n, p) \<in> set vs" using f by force
    from v[OF this] show ?thesis by blast
  qed
  show "list_ex (\<lambda>(n, ok). \<not> ok) vs \<longleftrightarrow> list_ex (\<lambda>n. \<exists>fs. op n = Inr (False, fs)) ns"
  proof
    assume "list_ex (\<lambda>(n, ok). \<not> ok) vs"
    then obtain n where "(n, False) \<in> set vs" by (auto simp: list_ex_iff)
    then show "list_ex (\<lambda>n. \<exists>fs. op n = Inr (False, fs)) ns" by (auto simp: d list_ex_iff)
  next
    assume "list_ex (\<lambda>n. \<exists>fs. op n = Inr (False, fs)) ns"
    then obtain n where "(n, False) \<in> set vs" by (auto simp: d list_ex_iff)
    then show "list_ex (\<lambda>(n, ok). \<not> ok) vs" by (force simp: list_ex_iff)
  qed
  show "list_all (\<lambda>(n, ok). ok) vs \<longleftrightarrow> list_all (\<lambda>n. \<exists>fs. op n = Inr (True, fs)) ns"
  proof
    assume a: "list_all (\<lambda>(n, ok). ok) vs"
    show "list_all (\<lambda>n. \<exists>fs. op n = Inr (True, fs)) ns"
      unfolding list_all_iff
    proof
      fix n assume n: "n \<in> set ns"
      then obtain p fs where p: "op n = Inr (p, fs)" using known by blast
      with n have "(n, p) \<in> set vs" by (simp add: d)
      with a have p by (auto simp: list_all_iff)
      with p show "\<exists>fs. op n = Inr (True, fs)" by simp
    qed
  next
    assume "list_all (\<lambda>n. \<exists>fs. op n = Inr (True, fs)) ns"
    then show "list_all (\<lambda>(n, ok). ok) vs" by (fastforce simp: list_all_iff d)
  qed
qed

section \<open>Properties\<close>

text \<open>Whether a case gets the verdict a human said it should.\<close>

definition case_met :: "(string \<Rightarrow> llm_backend) \<Rightarrow> coder_env \<Rightarrow> node_ctx \<Rightarrow> eval_case \<Rightarrow> bool" where
  "case_met backends ce ctx c \<longleftrightarrow> ec_verifiers c \<noteq> [] \<and>
     list_all (\<lambda>n. \<not> isl (opinion backends ce ctx c n)) (ec_verifiers c) \<and>
     (if ec_expect c = ''rejected''
      then list_ex (\<lambda>n. \<exists>f. opinion backends ce ctx c n = Inr (False, f)) (ec_verifiers c)
      else list_all (\<lambda>n. \<exists>f. opinion backends ce ctx c n = Inr (True, f)) (ec_verifiers c))"

text \<open>
  What it takes to meet a case, whatever the order its verifiers are named in and whatever identifiers
  the runs are given: at least one verifier is named, every one of them exists and answers, and, where
  the case expects a rejection, one of them rejects; otherwise all of them accept.  A review that could
  not happen never counts for the case, neither as a rejection nor as an acceptance.
\<close>

theorem case_is_met_iff:
  "\<exists>r. run_case backends ce ctx ids c = Some r \<and> er_case r = c \<and>
    (result_passed r \<longleftrightarrow> case_met backends ce ctx c)"
proof -
  let ?o = "opinion backends ce ctx c"
  obtain r where r: "run_case backends ce ctx ids c = Some r" "er_case r = c"
    "er_error r = None \<longleftrightarrow> list_all (\<lambda>n. \<not> isl (?o n)) (ec_verifiers c)"
    and f: "er_error r = None \<Longrightarrow> fst ` set (er_verdicts r) = set (ec_verifiers c)"
    and v: "er_error r = None \<Longrightarrow> (n, p) \<in> set (er_verdicts r) \<Longrightarrow> \<exists>f. ?o n = Inr (p, f)" for n p
    using run_verifiers_returns[of "new_result c" backends ce ctx c ids 0 "ec_verifiers c"]
    unfolding run_case_def by (auto simp: new_result_def)
  have ex: "er_error r = None \<Longrightarrow> list_ex (\<lambda>(v, ok). \<not> ok) (er_verdicts r) \<longleftrightarrow>
      list_ex (\<lambda>n. \<exists>f. ?o n = Inr (False, f)) (ec_verifiers c)"
    by (rule verdicts_agree(1)) (use f v in blast)+
  have al: "er_error r = None \<Longrightarrow> list_all (\<lambda>(v, ok). ok) (er_verdicts r) \<longleftrightarrow>
      list_all (\<lambda>n. \<exists>f. ?o n = Inr (True, f)) (ec_verifiers c)"
    by (rule verdicts_agree(2)) (use f v in blast)+
  have ne: "er_error r = None \<Longrightarrow> er_verdicts r = [] \<longleftrightarrow> ec_verifiers c = []" using f by auto
  show ?thesis
  proof (rule exI[of _ r], intro conjI r(1,2))
    show "result_passed r \<longleftrightarrow> case_met backends ce ctx c"
    proof (cases "er_error r = None")
      case True
      have "list_all (\<lambda>n. \<not> isl (?o n)) (ec_verifiers c)" using True r(3) by blast
      then show ?thesis using True by (simp only: result_passed_def case_met_def r(2) ne ex al) simp
    next
      case False
      then have "\<not> list_all (\<lambda>n. \<not> isl (?o n)) (ec_verifiers c)" unfolding r(3) .
      with False show ?thesis by (simp add: result_passed_def case_met_def)
    qed
  qed
qed

text \<open>
  The verifier that is measured is the one that ships.  A state of a run with the ticket, the paths and
  contents, the base commit and the passing pipeline of a case gets from the node the verdict the
  harness records for it, and the same failure where it raises.
\<close>

theorem harness_measures_the_shipped_verifier:
  assumes "NODES backends ce (verifier_node_id name) = Some fn" "same_brief st (case_state i c)"
    and "fn ctx st = Some (es, result)"
  shows "es = [] \<and> opinion backends ce ctx c name = (case result of
      Inl e \<Rightarrow> Inl (err_type e @ '': '' @ err_msg e)
    | Inr st' \<Rightarrow> Inr (vf_passed (last (fs_verifications st')), vf_findings (last (fs_verifications st'))))"
proof -
  have v: "verifier_node_id name \<in> set VERIFIER_NODES" by (rule verifier_prefix[OF assms(1)])
  have b: "brief_only (verifier_node_id name) fn" and o: "one_verdict (verifier_node_id name) fn"
    using NODES_all[OF all_brief_only assms(1)] NODES_all[OF all_one_verdict assms(1)] by simp_all
  obtain r where "fn ctx st = Some ([], r)" using b v unfolding brief_only_def by blast
  with assms(3) have es: "es = []" by simp
  have "verdict_of_node st (snd (the (fn ctx st))) = verdict_of_node (case_state i c) (snd (the (fn ctx (case_state i c))))"
    using b v assms(2) unfolding brief_only_def by blast
  then have same: "verdict_of_node st result = verdict_of_node (case_state i c) (snd (the (fn ctx (case_state i c))))"
    by (simp only: assms(3) option.sel snd_conv)
  show ?thesis
  proof (cases result)
    case (Inl e)
    show ?thesis
      by (rule node_on_case[OF assms(1), of ctx i c]) (use same Inl es in \<open>simp_all add: verdict_of_node_def\<close>)
  next
    case (Inr st')
    then obtain w where w: "fs_verifications st' = fs_verifications st @ [w]"
      using o v assms(3) unfolding one_verdict_def by blast
    show ?thesis
      by (rule node_on_case[OF assms(1), of ctx i c]) (use same Inr es w in \<open>simp_all add: verdict_of_node_def\<close>)
  qed
qed

text \<open>
  A removal is shown to no verifier: the prompt and the arithmetic read the path and the content of an
  edit, so a change that deletes files gets the verdict of one that empties them.  The cases of the
  harness cannot hold a removal at all.
\<close>

lemma removal_reads_as_emptying:
  assumes "NODES backends ce (verifier_node_id name) = Some fn"
  shows "verdict_of_node st (snd (the (fn ctx st))) =
    verdict_of_node st (snd (the (fn ctx (st\<lparr> fs_proposed_edits := map (pe_deleted_update (\<lambda>d. False)) (fs_proposed_edits st) \<rparr>))))"
proof -
  let ?st = "st\<lparr> fs_proposed_edits := map (pe_deleted_update (\<lambda>d. False)) (fs_proposed_edits st) \<rparr>"
  have "same_brief st ?st" by (simp add: same_brief_def evidence_lines_def o_def)
  moreover have "brief_only (verifier_node_id name) fn" using NODES_all[OF all_brief_only assms] by simp
  ultimately have "verdict_of_node st (snd (the (fn ctx st))) = verdict_of_node ?st (snd (the (fn ctx ?st)))"
    using verifier_prefix[OF assms] unfolding brief_only_def by blast
  then show ?thesis by (simp add: verdict_of_node_def)
qed

text \<open>What is loaded is a known category and a known expectation, so every case reaches the scoreboard.\<close>

definition well_sorted :: "eval_case \<Rightarrow> bool" where
  "well_sorted c \<longleftrightarrow> ec_category c \<in> set CATEGORIES \<and> ec_expect c \<in> {''rejected'', ''accepted''}"

lemma load_case_sorted: "load_case e file raw = Inr c \<Longrightarrow> well_sorted c"
  by (auto simp: load_case_def Let_def and_then_Inr well_sorted_def split: yaml.splits if_splits)

lemma load_file_sorted: "load_file e f = Inr c \<Longrightarrow> well_sorted c"
proof -
  assume "load_file e f = Inr c"
  then obtain content where l: "(case ye_load e content of Inl m \<Rightarrow> Inl (OtherError ''YAMLError'' m) | Inr raw \<Rightarrow> load_case e (fst f) raw) = Inr c"
    by (auto simp: load_file_def and_then_Inr)
  then show ?thesis by (cases "ye_load e content") (simp_all add: load_case_sorted)
qed

lemma load_files_sorted: "load_files e fs = Inr cs \<Longrightarrow> list_all well_sorted cs"
  by (induction fs arbitrary: cs) (auto simp: and_then_Inr load_file_sorted)

lemma load_cases_sorted: "load_cases e directory = Inr cs \<Longrightarrow> list_all well_sorted cs"
  unfolding load_cases_def by (rule load_files_sorted)

lemma report_counts:
  "list_all (\<lambda>r. ec_category (er_case r) \<in> set CATEGORIES) rs \<Longrightarrow>
   snd (report_evals rs) = length (filter (\<lambda>r. \<not> result_passed r) rs)"
  by (induction rs) (auto simp: report_evals_def Let_def CATEGORIES_def missed_in_def category_rows_def)

lemma run_cases_all:
  assumes "\<And>c. \<exists>r. f c = Some r \<and> er_case r = c \<and> (result_passed r \<longleftrightarrow> good c)"
  shows "\<exists>rs. run_cases f cs = Some rs \<and> map er_case rs = cs \<and>
    length (filter (\<lambda>r. \<not> result_passed r) rs) = length (filter (\<lambda>c. \<not> good c) cs)"
proof (induction cs)
  case Nil
  then show ?case by simp
next
  case (Cons c cs)
  then obtain rs where "run_cases f cs = Some rs" "map er_case rs = cs"
    "length (filter (\<lambda>r. \<not> result_passed r) rs) = length (filter (\<lambda>c. \<not> good c) cs)" by blast
  with assms[of c] show ?case by auto
qed

text \<open>
  The exit code of the command is the number of the cases it was asked for that were not met: none is
  skipped, whatever category it is in, and none is counted twice.
\<close>

theorem exit_code_is_the_misses:
  assumes "load_cases e directory = Inr loaded_cases"
    and "filter (\<lambda>c. category = None \<or> Some (ec_category c) = category) loaded_cases = cases" "cases \<noteq> []"
    and "find_app app_name = Inr (Some app)" "fst (look (Some app) None) = Inr config"
    and "ac_llm (ld_config config) = Some llm" "for_node llm ''verifier.security'' = Inr model"
    and "node_context (configure (Some config) False None rt) out (Some app) (Some config) = Inr ctx"
  shows "\<exists>printed. eval_main e directory category app_name find_app look rt out backends ce ids =
    Some (Inr (printed, length (filter (\<lambda>c. \<not> case_met backends ce ctx c) cases)))"
proof -
  obtain rs where rs: "run_cases (\<lambda>c. run_case backends ce ctx (ids c) c) cases = Some rs" "map er_case rs = cases"
    "length (filter (\<lambda>r. \<not> result_passed r) rs) = length (filter (\<lambda>c. \<not> case_met backends ce ctx c) cases)"
    using run_cases_all[of "\<lambda>c. run_case backends ce ctx (ids c) c" "case_met backends ce ctx" cases] case_is_met_iff by blast
  have "list_all (\<lambda>c. ec_category c \<in> set CATEGORIES) cases"
    using load_cases_sorted[OF assms(1)] assms(2) by (auto simp: list_all_iff well_sorted_def)
  then have "list_all (\<lambda>r. ec_category (er_case r) \<in> set CATEGORIES) rs"
    unfolding rs(2)[symmetric] by (simp add: list_all_iff)
  from report_counts[OF this] rs(3)
  have "snd (report_evals rs) = length (filter (\<lambda>c. \<not> case_met backends ce ctx c) cases)" by simp
  then obtain printed where "report_evals rs = (printed, length (filter (\<lambda>c. \<not> case_met backends ce ctx c) cases))"
    by (metis prod.collapse)
  then show ?thesis
    by (simp add: eval_main_def assms Let_def eval_on_def rs(1))
qed

section \<open>A set of two cases\<close>

definition a_yaml :: "string \<Rightarrow> yaml" where
  "a_yaml expect = YMap
    [(''id'', YStr ''one''), (''category'', YStr ''accept''), (''rationale'', YStr '' small ''),
     (''verifiers'', YList [YStr ''security'']), (''expect'', YStr expect),
     (''ticket'', YMap [(''id'', YInt 7), (''title'', YStr ''t''), (''body'', YStr ''b'')]),
     (''edits'', YList [YMap [(''path'', YStr ''a.py''), (''content'', YStr ''x''), (''deleted'', YBool True)]])]"

definition two_files :: "(string \<times> string res) list" where
  "two_files = [(''b.yaml'', Inr ''accepted''), (''a.yaml'', Inr ''rejected''), (''notes.md'', Inr ''-'')]"

definition a_yaml_env :: yaml_env where
  "a_yaml_env = \<lparr> ye_load = (\<lambda>t. Inr (a_yaml t)), ye_float_of_str = (\<lambda>t. None), ye_float_text = (\<lambda>x. []) \<rparr>"

definition a_case :: "string \<Rightarrow> eval_case" where
  "a_case expect = \<lparr> ec_id = ''one'', ec_category = ''accept'', ec_rationale = ''small'', ec_verifiers = [''security''],
     ec_expect = expect,
     ec_ticket = \<lparr> tk_id = ''7'', tk_system = ''eval'', tk_title = ''t'', tk_body = ''b'', tk_state = None,
       tk_acceptance_criteria = [], tk_labels = [], tk_story_points = None \<rparr>,
     ec_edits = [\<lparr> pe_path = ''a.py'', pe_content = ''x'', pe_deleted = False \<rparr>], ec_base_commit = [] \<rparr>"

lemma two_cases: "load_cases a_yaml_env two_files = Inr [a_case ''rejected'', a_case ''accepted'']"
  by code_simp

lemma sample_node_ctx_config: "nc_config sample_node_ctx = sample_config\<lparr> ac_llm := Some sample_llm \<rparr>"
  by (simp add: sample_node_ctx_def)

lemma strict_judge:
  "\<exists>n st1. judge sample_node_ctx sample_backend vid x st = Inr
     (\<lparr> vf_verifier = vid, vf_passed = False, vf_findings = [''[blocking] a.py: off by one''],
        vf_graded = [\<lparr> gf_detail = ''a.py: off by one'', gf_severity = ''blocking'' \<rparr>] \<rparr>, n, st1)"
  by (simp add: judge_def sample_node_ctx_config sample_for_node sample_adapter Let_def sample_complete review_request_def
      sample_grade is_blocking_def finding_text_def record_notes_def)

lemma security_node:
  "NODES backends ce (verifier_node_id ''security'') =
    Some (\<lambda>ctx st. Some (io_pure (plain_verifier ''security'' ctx (backends (verifier_node_id ''security'')) st)))"
  by (rule plain_nodes) simp

text \<open>A model that objects to everything meets the case that expects a rejection and fails the control.\<close>

lemma strict_opinion:
  "opinion (\<lambda>i. sample_backend) sample_coder_env sample_node_ctx (a_case x) ''security'' = Inr (False, [''[blocking] a.py: off by one''])"
proof -
  obtain n st1 where j: "judge sample_node_ctx sample_backend ''security'' [] (case_state ([], []) (a_case x)) = Inr
     (\<lparr> vf_verifier = ''security'', vf_passed = False, vf_findings = [''[blocking] a.py: off by one''],
        vf_graded = [\<lparr> gf_detail = ''a.py: off by one'', gf_severity = ''blocking'' \<rparr>] \<rparr>, n, st1)"
    using strict_judge by blast
  show ?thesis by (simp add: opinion_def security_node io_pure_def plain_verifier_def j Let_def)
qed

lemma strict_cases:
  "case_met (\<lambda>i. sample_backend) sample_coder_env sample_node_ctx (a_case ''rejected'')"
  "\<not> case_met (\<lambda>i. sample_backend) sample_coder_env sample_node_ctx (a_case ''accepted'')"
  by (simp_all add: case_met_def a_case_def strict_opinion[unfolded a_case_def])

lemma harness_measures_the_shipped_verifier_witness:
  "\<exists>st'. snd (the (the (NODES (\<lambda>i. sample_backend) sample_coder_env (verifier_node_id ''security'')) sample_node_ctx
       ((case_state ([], []) (a_case ''accepted''))\<lparr> fs_plan := Some \<lparr> cp_summary = ''trust me'', cp_steps = [] \<rparr>, fs_retry_count := 2 \<rparr>)))
     = Inr st' \<and> \<not> vf_passed (last (fs_verifications st'))"
proof -
  let ?st = "(case_state ([], []) (a_case ''accepted''))\<lparr> fs_plan := Some \<lparr> cp_summary = ''trust me'', cp_steps = [] \<rparr>, fs_retry_count := 2 \<rparr>"
  have b: "same_brief ?st (case_state ([], []) (a_case ''accepted''))"
    by (simp add: same_brief_def evidence_lines_def)
  let ?r = "plain_verifier ''security'' sample_node_ctx sample_backend ?st"
  have f: "(\<lambda>ctx st. Some (io_pure (plain_verifier ''security'' ctx sample_backend st))) sample_node_ctx ?st = Some ([], ?r)"
    by (simp add: io_pure_def)
  have o: "opinion (\<lambda>i. sample_backend) sample_coder_env sample_node_ctx (a_case ''accepted'') ''security'' =
      (case ?r of Inl e \<Rightarrow> Inl (err_type e @ '': '' @ err_msg e)
       | Inr st' \<Rightarrow> Inr (vf_passed (last (fs_verifications st')), vf_findings (last (fs_verifications st'))))"
    by (rule harness_measures_the_shipped_verifier[OF security_node b f, THEN conjunct2])
  then show ?thesis
    by (cases ?r) (simp_all only: strict_opinion security_node option.sel io_pure_def snd_conv sum.case
      sum.simps prod.inject ex_simps simp_thms)
qed

lemma exit_code_is_the_misses_witness:
  "\<exists>printed. eval_main a_yaml_env two_files None ''shop'' (\<lambda>n. Inr (Some ''app-1'')) (\<lambda>a f. (Inr sample_governing, []))
     sample_runtime sample_outside (\<lambda>i. sample_backend) sample_coder_env (\<lambda>c k. ([], [])) = Some (Inr (printed, 1))"
proof -
  let ?rt = "configure (Some sample_governing) False None sample_runtime"
  have c: "node_context ?rt sample_outside (Some ''app-1'') (Some sample_governing) = Inr sample_node_ctx"
    by (simp add: configure_def node_context_def sample_runtime_def sample_outside_def sample_governing_def sample_node_ctx_def)
  have m: "for_node sample_llm ''verifier.security'' = Inr sample_model"
    using sample_for_node[of "''security''"] by (simp add: verifier_node_id_def)
  show ?thesis
    using exit_code_is_the_misses[OF two_cases, where category = None and cases = "[a_case ''rejected'', a_case ''accepted'']"
        and find_app = "\<lambda>n. Inr (Some ''app-1'')" and app = "''app-1''" and look = "\<lambda>a f. (Inr sample_governing, [])"
        and config = sample_governing and llm = sample_llm and model = sample_model and rt = sample_runtime
        and out = sample_outside and ctx = sample_node_ctx and app_name = "''shop''" and backends = "\<lambda>i. sample_backend"
        and ce = sample_coder_env and ids = "\<lambda>c k. ([], [])"] c m
    by (simp add: strict_cases sample_governing_llm)
qed

end
