(* ===== verification/Spec2Isabelle.thy ===== *)
theory Spec2Isabelle
  imports Prelude Flow_Types PyRegex Globs Risk_Policy Pricing Notes Test_Evidence Audit_Store
    Delivery Delivery_Trail Delivery_Safety Flow_Properties Delivery_Claims
    Node_World Node_Sample Triage Ship_Nodes Ci Build_Test
    Json_Values Repo_Context Llm Verifier_Nodes Evidence Config
    Planner Sandbox_Workspace Coder Credentials Registry Config_Store Engine
    Json_Access Trigger_Hook Base64 Rest Tree_Cache Github Git_Api Github_Push Github_Tree Git_Sample
    Accounts Database Podman Notify Worker Tickets Azure_Repos Azure_Push Azure_Sample
    Connections Run_Api Eval_Harness
begin

text \<open>
  KuWarden drives a ticket to a reviewed change: a deterministic delivery flow runs nodes (triage,
  planner, coder, push, build and test, four verifiers, release, reporter, and compensate on the
  way out), writes an append-only trail of events, and lets a change through only past tests,
  verifiers and a human gate whose depth depends on a risk tier.  This development models the
  flow, the policies it consults, the trail and the nodes, and proves what each promises.

  \<^bold>\<open>Parts.\<close>

  \<^item> \<open>Prelude\<close>: Python strings, lists and numbers as the engine uses them, and the result type
    of a computation that may raise.
  \<^item> \<open>Flow_Types\<close> (engine/state.py, engine/errors.py): every record that crosses the boundary
    between workflow and activity, the error classes, the risk tier as a linear order.
  \<^item> \<open>PyRegex\<close>: Python's \<open>re\<close> for the constructs the source uses, as the list of positions at
    which a match can end; \<open>ends_lang\<close> relates it to the language of the expression.
  \<^item> \<open>Globs\<close> (engine/policy/globs.py) and \<open>Risk_Policy\<close> (engine/policy/tiering.py,
    protected_paths.py, application.py): path rules, tiers, protected paths.
  \<^item> \<open>Pricing\<close> (engine/policy/pricing.py), \<open>Test_Evidence\<close> (engine/policy/test_evidence.py),
    \<open>Notes\<close> (engine/nodes/notes.py).
  \<^item> \<open>Audit_Store\<close> (engine/activities/audit.py): the three tables and the activities that write
    them; the locale \<open>event_trail\<close> is what the flow relies on.
  \<^item> \<open>Delivery\<close> (engine/flows/delivery.py): the workflow as state passing.  \<open>flow\<close> is the
    workflow object with the tables its activities write; a method is a function to an outcome and
    the next \<open>flow\<close>.  What the flow does not decide is \<open>flow_env\<close>: each attempt of a node, the
    completion order of the verifiers, the arriving decisions, the preview lookup.
  \<^item> \<open>Delivery_Trail\<close>, \<open>Delivery_Safety\<close>, \<open>Flow_Properties\<close>: how the trail grows under each
    step (locales \<open>event_policy\<close> and \<open>coder_policy\<close>), what each stage guarantees, and the
    arguments about whole runs.  \<open>Delivery_Claims\<close> states the properties of the flow.
  \<^item> \<open>Node_World\<close> (engine/config.py, engine/nodes/base.py, engine/adapters): the configuration
    records and the systems outside.  A node is a function to the list of writes it asks for and
    a state or an error; the answers it gets are functions in \<open>node_ctx\<close>.  \<open>Node_Sample\<close> holds
    the application on which the node properties are applied.
  \<^item> \<open>Triage\<close>, \<open>Ship_Nodes\<close> (push, release, compensate, reporter), \<open>Ci\<close> and \<open>Build_Test\<close>: the
    nodes of the same names under engine/nodes and the pipeline reader under engine/adapters/ci.
  \<^item> \<open>Repo_Context\<close> (engine/nodes/repo_context.py): which files a reviewer is shown; files are an
    association list with distinct paths.  \<open>Llm\<close> (engine/adapters/llm): the request to the model,
    the classification of its failures and the reading of its answer.  \<open>Verifier_Nodes\<close>
    (engine/nodes/verifiers.py): prompt, call, grading and verdict of each reviewer.
  \<^item> \<open>Json_Values\<close>: JSON values, their truth, and the text \<open>json.dumps\<close> writes.  \<open>Evidence\<close>
    (engine/evidence.py and the approval endpoint of engine/api/main.py): the document an
    approver reads, its caveats, its digest, and the decision bound to it.
  \<^item> \<open>Planner\<close> (engine/nodes/planner.py), \<open>Sandbox_Workspace\<close> (engine/sandbox/workspace.py,
    engine/policy/confinement.py): the host's file system with its links, where a path may land,
    the workspace and the diff read from it; \<open>Coder\<close> (engine/nodes/coder.py): selection, inner loop
    and the change that goes on.
  \<^item> \<open>Credentials\<close> (engine/adapters/credentials.py, secrets.py and the broker of
    engine/activities/nodes.py): who may ask for which credential, the encrypted table (locale
    \<open>slot_table\<close>), and the order store then environment.
  \<^item> \<open>Registry\<close> (engine/api/main.py over engine/db/migrations): applications, control point and its
    recorded changes, triggers, stored configuration and the rewriting of its verifier block.
    \<open>table_change\<close> is what every request amounts to; the invariants are proved over it.
    \<open>Config_Store\<close> (engine/config_store.py): the cache of configurations, over a world of writes,
    removals, lookups and restarts whose clock moves.
  \<^item> \<open>Engine\<close> (engine/activities/nodes.py, engine/nodes/__init__.py, base.py): the nodes behind their
    identifiers, the context a node is given, \<open>run_node\<close>, what a node may write to the state
    (\<open>erased\<close>) and ask of the systems outside (\<open>permitted\<close>), and the flow of \<open>Delivery\<close> run over
    these nodes (\<open>engine_exec\<close>).
  \<^item> \<open>Trigger_Hook\<close> (the hook and the manual endpoint of engine/api/main.py): who may start a run,
    for which revision, over a world of the run table, the delivery table and Temporal's workflow ids
    in which hook, operator and worker take turns.  \<open>Json_Access\<close> reads payloads the way \<open>dict.get\<close>
    and indexing do.
  \<^item> \<open>Rest\<close> (engine/adapters/http.py): the client of every adapter, over a platform that is a function
    of the request and its own state; \<open>Base64\<close> is the encoding blobs travel in.  \<open>Tree_Cache\<close>
    (engine/adapters/scm/tree.py, tree_cache.py): bounds, exclusion and the single flight of concurrent
    callers.  \<open>Github\<close> (engine/adapters/scm/github.py): every operation of the adapter.  \<open>Git_Api\<close> states
    what GitHub documents of its Git Data API as a law on the platform; under it \<open>Github_Push\<close> and
    \<open>Github_Tree\<close> prove what a push leaves and what a read returns, and \<open>Git_Sample\<close> is a platform that
    keeps the law.
  \<^item> \<open>Accounts\<close> (engine/api/auth.py, the session and user endpoints, engine/api/__main__.py): roles,
    sign-in, the guard in front of every endpoint, and disabling an account as its statements, so that
    requests overlap.  \<open>Database\<close> (engine/db, engine/devenv.py): connection string, migrations, \<open>.env\<close>.
  \<^item> \<open>Azure_Repos\<close> (engine/adapters/scm/azure_repos.py): every operation of the adapter; \<open>Azure_Push\<close> states
    what Azure documents of its Refs, Commits and Pushes APIs (\<open>azure_api\<close>) and proves what a push and a
    deletion do under it; \<open>Azure_Sample\<close> is a platform that keeps it.  \<open>Tickets\<close> (engine/adapters/ticket):
    Jira and Azure DevOps Boards; the locale \<open>ticket_board\<close> is what Triage asks of either.
  \<^item> \<open>Podman\<close> (engine/sandbox/podman.py, engine/sandbox/__main__.py): the container command, its quoting as the
    shell reads it, the probe of the host and its cache; podman is a parameter.  \<open>Notify\<close>
    (engine/activities/notify.py): who is told of a waiting gate, over a relay that is a parameter.
    \<open>Worker\<close> (engine/worker.py, engine/build_id.py): limits, options and the identity of the running code.
  \<^item> \<open>Connections\<close> and \<open>Run_Api\<close> (engine/api/main.py): the checks an operator presses, over the registry, the
    adapters and the model backend; the listings, the evidence graph, diagnostics, and stopping a run while
    the worker may still write.
  \<^item> \<open>Eval_Harness\<close> (evals/harness.py): the golden task set, run against the registered verifier nodes; the
    verifier it measures is proved to be the one the flow runs, and its exit code the number of misses.
  \<^item> \<open>Config\<close> (engine/config.py): the parser of kuwarden.yaml, from the value the YAML library
    loads to the records of \<open>Node_World\<close>; three numbers the parser does not check are kept as
    they were written.

  \<^bold>\<open>How the parts meet.\<close>  The flow runs a node by name through \<open>en_exec\<close>; the nodes are
  modelled as functions of the same \<open>flow_state\<close>.  The flow asks \<open>Risk_Policy\<close> for the tier and
  the approvals, \<open>Pricing\<close> for the spend, \<open>Notes\<close> for the payloads and \<open>Audit_Store\<close> for the
  trail.  \<open>Evidence\<close> reads the tables the flow wrote: what it shows is proved to be what the flow
  holds when it waits at the gate.  \<open>Config\<close> produces the records the nodes read, so its lemmas
  discharge what they assume of them.  The tree \<open>Github_Tree\<close> reads at a pushed commit is proved to be the
  tree \<open>Build_Test\<close> graded.

  \<^bold>\<open>Loops and bounds.\<close>  The Coder loop recurses over the list of allowed attempts and retries
  recurse over the attempts left, so both are total.  The wait at the gate recurses over the
  decisions that arrive and answers \<open>None\<close> when they do not decide.  The wait for a pipeline is a
  partial function whose result is \<open>None\<close> when the loop never returns; it is proved to return for
  every poll interval the configuration parser accepts.

  \<^bold>\<open>Parameters.\<close>  The model service and \<open>json.loads\<close> (\<open>llm_backend\<close>), the hash and the formatting of
  timestamps (\<open>evidence_env\<close>), the sandbox and git as the Coder meets them (\<open>coder_env\<close>), the YAML library
  (\<open>yaml_env\<close>), the cipher and key fingerprint of stored credentials (\<open>cipher\<close>), the platforms
  behind the adapters (\<open>node_ctx\<close>, for GitHub \<open>platform\<close> under the law \<open>git_api\<close>, and for Azure Repos under
  \<open>azure_api\<close>), podman and the mail relay.

  \<^bold>\<open>Not modelled.\<close>  The HTTP, database, container and model clients beneath what their callers rely on, the
  web interface and the operating scripts; logging, and printing but for the scoreboard of the harness.  A gate notice
  that fails (\<open>Notify\<close>) is not an event of \<open>Delivery\<close>.  Temporal's retry policy and delivery guarantees are modelled by their
  documented behaviour.  Text is ASCII except for the em dash, the middle dot and
  the bullet.
\<close>

end
